(* ===== verification/Qml_Prelude.thy ===== *)
theory Qml_Prelude
  imports
    Complex_Main
    "HOL-Library.Word"
    "HOL-Library.State_Monad"
    "HOL-Library.Product_Lexorder"
    "HOL-Library.Signed_Division"
begin

text \<open>
  Shared vocabulary of the development: the machine types, the standard-library operations
  the crate uses (time stamps and durations of \<^verbatim>\<open>chrono\<close> as integers, \<^verbatim>\<open>HashMap\<close> as an
  association list, decimal printing, saturating addition), the world a crate function runs
  in (the storage, and the answers of the clock, of the uuid generator and of the random
  generator), and a small weakest-precondition calculus over \<^verbatim>\<open>HOL-Library.State_Monad\<close>
  in which the clients of the storage are verified.
\<close>

section \<open>Collections of facts\<close>

named_theorems wp_simps \<open>weakest preconditions of the primitive actions\<close>
named_theorems world_frame \<open>what an action leaves unchanged in the world\<close>

section \<open>Machine types\<close>

type_synonym u16 = "16 word"
type_synonym u32 = "32 word"
type_synonym i32 = "32 word"
type_synonym u64 = "64 word"

text \<open>
  A \<^verbatim>\<open>DateTime<Utc>\<close> is the number of nanoseconds since the epoch, a \<^verbatim>\<open>chrono::Duration\<close> a
  signed number of nanoseconds. The bounds of chrono's ranges are not modelled.
\<close>

type_synonym time = int
type_synonym duration = int

definition dur_milliseconds :: "int \<Rightarrow> duration" where
  "dur_milliseconds n = n * 1000000"

definition dur_seconds :: "int \<Rightarrow> duration" where
  "dur_seconds n = n * 1000000000"

definition dur_minutes :: "int \<Rightarrow> duration" where
  "dur_minutes n = dur_seconds (n * 60)"

definition dur_hours :: "int \<Rightarrow> duration" where
  "dur_hours n = dur_seconds (n * 3600)"

definition dur_days :: "int \<Rightarrow> duration" where
  "dur_days n = dur_seconds (n * 86400)"

text \<open>\<^verbatim>\<open>num_milliseconds\<close> and \<^verbatim>\<open>num_seconds\<close> truncate towards zero.\<close>

definition num_milliseconds :: "duration \<Rightarrow> int" where
  "num_milliseconds d = d sdiv 1000000"

definition num_seconds :: "duration \<Rightarrow> int" where
  "num_seconds d = d sdiv 1000000000"

text \<open>\<^verbatim>\<open>chrono::Duration::from_std\<close> on a \<^verbatim>\<open>std::time::Duration\<close> (a number of nanoseconds): durations
  above \<^verbatim>\<open>i64::MAX\<close> milliseconds are out of range.\<close>

definition dur_from_std :: "nat \<Rightarrow> string + duration" where
  "dur_from_std ns =
     (if int ns \<le> dur_milliseconds (2 ^ 63 - 1) then Inr (int ns)
      else Inl ''Source duration value is out of range for the target type'')"

text \<open>\<^verbatim>\<open>chrono::Duration::to_std\<close> fails on a negative duration.\<close>

definition dur_to_std :: "duration \<Rightarrow> nat option" where
  "dur_to_std d = (if d < 0 then None else Some (nat d))"

lemmas dur_defs = dur_milliseconds_def dur_seconds_def dur_minutes_def dur_hours_def dur_days_def

lemma dur_pos [simp]:
  "0 < dur_seconds n \<longleftrightarrow> 0 < n"
  "0 < dur_minutes n \<longleftrightarrow> 0 < n"
  "0 < dur_hours n \<longleftrightarrow> 0 < n"
  "0 < dur_days n \<longleftrightarrow> 0 < n"
  by (simp_all add: dur_defs)

lemma num_milliseconds_dur [simp]: "num_milliseconds (dur_milliseconds n) = n"
  by (simp add: num_milliseconds_def dur_milliseconds_def signed_divide_int_def sgn_mult abs_mult)
     (simp add: abs_mult_sgn mult.commute)

text \<open>\<^verbatim>\<open>char::to_ascii_lowercase\<close>, which is also \<^verbatim>\<open>string.lower\<close> of Lua character by character.\<close>

definition to_lower :: "char \<Rightarrow> char" where
  "to_lower c = (if 65 \<le> (of_char c :: nat) \<and> (of_char c :: nat) \<le> 90 then char_of ((of_char c :: nat) + 32) else c)"

text \<open>\<^verbatim>\<open>u32::saturating_add\<close>.\<close>

definition saturating_add :: "'a::len word \<Rightarrow> 'a word \<Rightarrow> 'a word" where
  "saturating_add a b = (if unat a + unat b < 2 ^ LENGTH('a) then a + b else -1)"

lemma unat_word_bound: "unat a \<le> 2 ^ LENGTH('a) - 1" for a :: "'a::len word"
  using unsigned_less [of a, where ?'a = nat] by linarith

lemma unat_saturating_add:
  "unat (saturating_add a b) = min (unat a + unat b) (2 ^ LENGTH('a) - 1)"
  for a b :: "'a::len word"
proof (cases "unat a + unat b < 2 ^ LENGTH('a)")
  case True
  then show ?thesis by (simp add: saturating_add_def unat_word_ariths)
next
  case False
  have "unat (- 1 :: 'a word) = 2 ^ LENGTH('a) - 1"
    by (simp add: unsigned_minus_1_eq_mask mask_eq_exp_minus_1)
  with False show ?thesis by (simp add: saturating_add_def)
qed

lemma saturating_add_mono: "a \<le> saturating_add a b"
  using unat_word_bound [of a] by (simp add: word_le_nat_alt unat_saturating_add)

text \<open>Decimal printing, the \<^verbatim>\<open>{}\<close> of an unsigned integer in a format string.\<close>

fun show_nat :: "nat \<Rightarrow> string" where
  "show_nat n =
     (if n < 10 then [char_of (48 + n)] else show_nat (n div 10) @ [char_of (48 + n mod 10)])"

declare show_nat.simps [simp del]

lemma of_char_digit: "d < 10 \<Longrightarrow> of_char (char_of (48 + d) :: char) = 48 + d" for d :: nat
  by simp

text \<open>Reading the digits back gives the number, so different numbers print differently.\<close>

lemma read_show_nat: "foldl (\<lambda>a c. 10 * a + (of_char c - 48)) 0 (show_nat n) = n"
proof (induction n rule: show_nat.induct)
  case (1 n)
  show ?case
  proof (cases "n < 10")
    case True
    then show ?thesis by (simp add: show_nat.simps [of n] of_char_digit del: of_char_of)
  next
    case False
    then show ?thesis
      using 1 by (simp add: show_nat.simps [of n] of_char_digit del: of_char_of)
  qed
qed

lemma show_nat_inj: "show_nat m = show_nat n \<longleftrightarrow> m = n"
  by (metis read_show_nat)

text \<open>What precedes in a sorted list is no greater.\<close>

lemma sorted_take_le_drop:
  assumes "sorted (map f xs)" and "x \<in> set (take n xs)" and "y \<in> set (drop n xs)"
  shows "f x \<le> f y"
proof -
  have "sorted (map f (take n xs) @ map f (drop n xs))"
    using assms(1) by (metis append_take_drop_id map_append)
  with assms(2,3) show ?thesis by (auto simp: sorted_append)
qed

section \<open>\<^verbatim>\<open>HashMap\<close>\<close>

text \<open>
  A \<^verbatim>\<open>HashMap\<close> is an association list whose order is the order in which the map iterates.
  Rust does not specify that order; the theorems hold for every list that is \<open>hm_wf\<close>, so
  for every order.
\<close>

type_synonym ('k, 'v) hmap = "('k \<times> 'v) list"

definition hm_wf :: "('k, 'v) hmap \<Rightarrow> bool" where
  "hm_wf m \<longleftrightarrow> distinct (map fst m)"

fun hm_insert :: "'k \<Rightarrow> 'v \<Rightarrow> ('k, 'v) hmap \<Rightarrow> ('k, 'v) hmap" where
  "hm_insert k v [] = [(k, v)]"
| "hm_insert k v (p # m) = (if fst p = k then (k, v) # m else p # hm_insert k v m)"

definition hm_remove :: "'k \<Rightarrow> ('k, 'v) hmap \<Rightarrow> ('k, 'v) hmap" where
  "hm_remove k m = filter (\<lambda>p. fst p \<noteq> k) m"

definition hm_retain :: "('v \<Rightarrow> bool) \<Rightarrow> ('k, 'v) hmap \<Rightarrow> ('k, 'v) hmap" where
  "hm_retain P m = filter (\<lambda>p. P (snd p)) m"

abbreviation hm_get :: "('k, 'v) hmap \<Rightarrow> 'k \<Rightarrow> 'v option" where
  "hm_get \<equiv> map_of"

abbreviation hm_contains :: "('k, 'v) hmap \<Rightarrow> 'k \<Rightarrow> bool" where
  "hm_contains m k \<equiv> map_of m k \<noteq> None"

abbreviation hm_values :: "('k, 'v) hmap \<Rightarrow> 'v list" where
  "hm_values m \<equiv> map snd m"

lemma hm_get_insert [simp]: "hm_get (hm_insert k v m) = (hm_get m)(k \<mapsto> v)"
  by (induction m) auto

lemma hm_keys_insert: "fst ` set (hm_insert k v m) = insert k (fst ` set m)"
  by (induction m) auto

lemma set_hm_insert_subset: "set (hm_insert k v m) \<subseteq> insert (k, v) (set m)"
  by (induction m) auto

lemma hm_wf_Nil [simp]: "hm_wf []"
  by (simp add: hm_wf_def)

lemma hm_wf_Cons [simp]: "hm_wf (p # m) \<longleftrightarrow> fst p \<notin> fst ` set m \<and> hm_wf m"
  by (simp add: hm_wf_def)

lemma hm_wf_insert [simp]: "hm_wf m \<Longrightarrow> hm_wf (hm_insert k v m)"
  by (induction m) (auto simp: hm_keys_insert)

lemma hm_wf_filter [simp]: "hm_wf m \<Longrightarrow> hm_wf (filter P m)"
  by (induction m) auto

lemma hm_wf_remove [simp]: "hm_wf m \<Longrightarrow> hm_wf (hm_remove k m)"
  by (simp add: hm_remove_def)

lemma hm_wf_retain [simp]: "hm_wf m \<Longrightarrow> hm_wf (hm_retain P m)"
  by (simp add: hm_retain_def)

lemma hm_get_remove [simp]: "hm_get (hm_remove k m) = (hm_get m)(k := None)"
  by (induction m) (auto simp: hm_remove_def fun_eq_iff)

lemma hm_get_retain:
  "hm_wf m \<Longrightarrow> hm_get (hm_retain P m) k =
     (case hm_get m k of None \<Rightarrow> None | Some v \<Rightarrow> if P v then Some v else None)"
proof (induction m)
  case (Cons p m)
  then show ?case
    by (auto simp: hm_retain_def map_of_eq_None_iff split: option.splits)
qed (simp add: hm_retain_def)

lemma hm_get_in_set: "hm_wf m \<Longrightarrow> hm_get m k = Some v \<longleftrightarrow> (k, v) \<in> set m"
  by (simp add: hm_wf_def)

lemma hm_values_iff: "hm_wf m \<Longrightarrow> v \<in> set (hm_values m) \<longleftrightarrow> (\<exists>k. hm_get m k = Some v)"
  by (force simp: hm_get_in_set)

lemma length_hm_insert:
  "length (hm_insert k v m) = (if hm_contains m k then length m else Suc (length m))"
  by (induction m) auto

lemma length_hm_remove:
  "hm_wf m \<Longrightarrow> length (hm_remove k m) = (if hm_contains m k then length m - 1 else length m)"
proof (induction m)
  case (Cons p m)
  then show ?case
    by (auto simp: hm_remove_def map_of_eq_None_iff filter_id_conv image_iff
        intro!: Suc_diff_Suc length_pos_if_in_set)
       (metis Suc_pred length_pos_if_in_set map_of_SomeD)+
qed (simp add: hm_remove_def)

section \<open>The world of an action\<close>

text \<open>
  \<open>store\<close> is the storage behind \<^verbatim>\<open>Arc<dyn Storage>\<close>. \<open>clock n\<close> is what the n-th call of
  \<^verbatim>\<open>Utc::now\<close> answers, \<open>uuids n\<close> and \<open>rng n\<close> likewise for \<^verbatim>\<open>Uuid::new_v4\<close> and
  \<^verbatim>\<open>fastrand::f64\<close>: those are outside the crate, and no theorem assumes anything of them that
  it does not state. \<open>events\<close> records the calls of the state-change hook.
\<close>

record ('s, 'e) world =
  store :: 's
  clock :: "nat \<Rightarrow> time"
  ticks :: nat
  uuids :: "nat \<Rightarrow> string"
  uuid_calls :: nat
  rng :: "nat \<Rightarrow> rat"
  rng_calls :: nat
  events :: "'e list"

type_synonym ('s, 'e, 'a) act = "(('s, 'e) world, 'a) state"

definition utc_now :: "('s, 'e, time) act" where
  "utc_now = State (\<lambda>w. (clock w (ticks w), w\<lparr>ticks := Suc (ticks w)\<rparr>))"

definition new_uuid :: "('s, 'e, string) act" where
  "new_uuid = State (\<lambda>w. (uuids w (uuid_calls w), w\<lparr>uuid_calls := Suc (uuid_calls w)\<rparr>))"

definition fastrand_f64 :: "('s, 'e, rat) act" where
  "fastrand_f64 = State (\<lambda>w. (rng w (rng_calls w), w\<lparr>rng_calls := Suc (rng_calls w)\<rparr>))"

definition get_store :: "('s, 'e, 's) act" where
  "get_store = State (\<lambda>w. (store w, w))"

definition put_store :: "'s \<Rightarrow> ('s, 'e, unit) act" where
  "put_store s = State (\<lambda>w. ((), w\<lparr>store := s\<rparr>))"

definition emit :: "'e \<Rightarrow> ('s, 'e, unit) act" where
  "emit x = State (\<lambda>w. ((), w\<lparr>events := events w @ [x]\<rparr>))"

abbreviation ret :: "'a \<Rightarrow> ('w, 'a) state" where
  "ret \<equiv> State_Monad.return"

text \<open>The operator \<^verbatim>\<open>?\<close> on a \<^verbatim>\<open>Result\<close>: go on with the value, or return the error at once.\<close>

definition bindE :: "('w, 'e + 'a) state \<Rightarrow> ('a \<Rightarrow> ('w, 'e + 'b) state) \<Rightarrow> ('w, 'e + 'b) state" where
  "bindE m f = State_Monad.bind m (\<lambda>r. case r of Inl e \<Rightarrow> ret (Inl e) | Inr v \<Rightarrow> f v)"

text \<open>The same where no state is involved.\<close>

definition tryE :: "'e + 'a \<Rightarrow> ('a \<Rightarrow> 'e + 'b) \<Rightarrow> 'e + 'b" where
  "tryE x f = (case x of Inl e \<Rightarrow> Inl e | Inr v \<Rightarrow> f v)"

lemma tryE_simps [simp]: "tryE (Inl e) f = Inl e" "tryE (Inr v) f = f v"
  by (simp_all add: tryE_def)

section \<open>Weakest preconditions\<close>

definition wp :: "('w, 'a) state \<Rightarrow> ('a \<Rightarrow> 'w \<Rightarrow> bool) \<Rightarrow> 'w \<Rightarrow> bool" where
  "wp m Q w = (case run_state m w of (a, w') \<Rightarrow> Q a w')"

lemma wp_return [wp_simps]: "wp (ret a) Q = Q a"
  by (simp add: wp_def fun_eq_iff)

lemma wp_bind [wp_simps]: "wp (State_Monad.bind m f) Q = wp m (\<lambda>a. wp (f a) Q)"
  by (simp add: wp_def fun_eq_iff split: prod.split)

lemma wp_let [wp_simps]: "wp (let x = e in f x) Q = wp (f e) Q"
  by simp

lemma wp_utc_now [wp_simps]:
  "wp utc_now Q = (\<lambda>w. Q (clock w (ticks w)) (w\<lparr>ticks := Suc (ticks w)\<rparr>))"
  by (simp add: wp_def utc_now_def fun_eq_iff)

lemma wp_new_uuid [wp_simps]:
  "wp new_uuid Q = (\<lambda>w. Q (uuids w (uuid_calls w)) (w\<lparr>uuid_calls := Suc (uuid_calls w)\<rparr>))"
  by (simp add: wp_def new_uuid_def fun_eq_iff)

lemma wp_fastrand_f64 [wp_simps]:
  "wp fastrand_f64 Q = (\<lambda>w. Q (rng w (rng_calls w)) (w\<lparr>rng_calls := Suc (rng_calls w)\<rparr>))"
  by (simp add: wp_def fastrand_f64_def fun_eq_iff)

lemma wp_get_store [wp_simps]: "wp get_store Q = (\<lambda>w. Q (store w) w)"
  by (simp add: wp_def get_store_def fun_eq_iff)

lemma wp_put_store [wp_simps]: "wp (put_store s) Q = (\<lambda>w. Q () (w\<lparr>store := s\<rparr>))"
  by (simp add: wp_def put_store_def fun_eq_iff)

lemma wp_emit [wp_simps]: "wp (emit x) Q = (\<lambda>w. Q () (w\<lparr>events := events w @ [x]\<rparr>))"
  by (simp add: wp_def emit_def fun_eq_iff)

lemma wp_mono: "wp m Q w \<Longrightarrow> (\<And>a w'. Q a w' \<Longrightarrow> R a w') \<Longrightarrow> wp m R w"
  by (auto simp: wp_def split: prod.splits)

lemma wp_conjI: "wp m Q w \<Longrightarrow> wp m R w \<Longrightarrow> wp m (\<lambda>a w'. Q a w' \<and> R a w') w"
  by (auto simp: wp_def split: prod.splits)

lemma wp_run: "wp m Q w \<longleftrightarrow> Q (fst (run_state m w)) (snd (run_state m w))"
  by (simp add: wp_def case_prod_beta)

lemma wp_runD: "wp m Q w \<Longrightarrow> run_state m w = (a, w') \<Longrightarrow> Q a w'"
  by (simp add: wp_def)

lemma wp_if [wp_simps]:
  "wp (if b then m else n) Q w = (if b then wp m Q w else wp n Q w)"
  by simp

lemma wp_case_sum [wp_simps]:
  "wp (case r of Inl e \<Rightarrow> f e | Inr v \<Rightarrow> g v) Q w =
     (case r of Inl e \<Rightarrow> wp (f e) Q w | Inr v \<Rightarrow> wp (g v) Q w)"
  by (cases r) simp_all

lemma wp_case_option [wp_simps]:
  "wp (case r of None \<Rightarrow> f | Some v \<Rightarrow> g v) Q w =
     (case r of None \<Rightarrow> wp f Q w | Some v \<Rightarrow> wp (g v) Q w)"
  by (cases r) simp_all

lemma wp_bindE [wp_simps]:
  "wp (bindE m f) Q w = wp m (\<lambda>r. case r of Inl e \<Rightarrow> Q (Inl e) | Inr v \<Rightarrow> wp (f v) Q) w"
  by (auto simp: bindE_def wp_def split: prod.splits sum.splits)

lemma run_state_bindE [simp]:
  "run_state (bindE m f) w =
     (case run_state m w of (Inl e, w') \<Rightarrow> (Inl e, w') | (Inr v, w') \<Rightarrow> run_state (f v) w')"
  by (simp add: bindE_def split: prod.split sum.split)

lemma run_state_prims [simp]:
  "run_state utc_now w = (clock w (ticks w), w\<lparr>ticks := Suc (ticks w)\<rparr>)"
  "run_state new_uuid w = (uuids w (uuid_calls w), w\<lparr>uuid_calls := Suc (uuid_calls w)\<rparr>)"
  "run_state fastrand_f64 w = (rng w (rng_calls w), w\<lparr>rng_calls := Suc (rng_calls w)\<rparr>)"
  "run_state get_store w = (store w, w)"
  "run_state (put_store s) w = ((), w\<lparr>store := s\<rparr>)"
  "run_state (emit x) w = ((), w\<lparr>events := events w @ [x]\<rparr>)"
  by (simp_all add: utc_now_def new_uuid_def fastrand_f64_def get_store_def put_store_def emit_def)

section \<open>A sample world\<close>

text \<open>The world on which properties are instantiated: a clock that advances by one second per
  reading, numbered uuids and a constant random generator.\<close>

definition sample_world :: "'s \<Rightarrow> ('s, 'e) world" where
  "sample_world s =
     \<lparr>store = s, clock = (\<lambda>n. dur_seconds (100 + int n)), ticks = 0,
      uuids = (\<lambda>n. ''id-'' @ show_nat n), uuid_calls = 0, rng = (\<lambda>n. 1 / 2), rng_calls = 0,
      events = []\<rparr>"

lemma sample_world_simps [simp]:
  "store (sample_world s) = s" "clock (sample_world s) n = dur_seconds (100 + int n)"
  "ticks (sample_world s) = 0" "uuid_calls (sample_world s) = 0"
  "rng (sample_world s) n = 1 / 2" "rng_calls (sample_world s) = 0"
  "events (sample_world s) = []"
  by (simp_all add: sample_world_def)

end
