(* ===== verification/Job_State.thy ===== *)
theory Job_State
  imports Qml_Prelude
begin

text \<open>
  The job life cycle, \<^verbatim>\<open>src/core/job_state.rs\<close>: the states with their data, their
  discriminants, the transition table that \<^verbatim>\<open>Job::set_state\<close> enforces, and the constructor
  functions that stamp the current time.
\<close>

section \<open>Data\<close>

datatype job_state_kind =
  KEnqueued | KProcessing | KSucceeded | KFailed | KDeleted | KScheduled | KAwaitingRetry

text \<open>The arguments are the fields of the variants, in the order of the source.\<close>

datatype job_state =
    Enqueued time string                        \<comment> \<open>enqueued at, queue\<close>
  | Processing time string string               \<comment> \<open>started at, worker id, server name\<close>
  | Succeeded time u64 "string option"          \<comment> \<open>succeeded at, total duration, result\<close>
  | Failed time string "string option"          \<comment> \<open>failed at, exception, stack trace\<close>
  | Deleted time "string option"                \<comment> \<open>deleted at, reason\<close>
  | Scheduled time time string                  \<comment> \<open>scheduled at, enqueue at, reason\<close>
  | AwaitingRetry time time string              \<comment> \<open>scheduled at, retry at, last exception\<close>

section \<open>Operations\<close>

fun kind_name :: "job_state_kind \<Rightarrow> string" where
  "kind_name KEnqueued = ''Enqueued''"
| "kind_name KProcessing = ''Processing''"
| "kind_name KSucceeded = ''Succeeded''"
| "kind_name KFailed = ''Failed''"
| "kind_name KDeleted = ''Deleted''"
| "kind_name KScheduled = ''Scheduled''"
| "kind_name KAwaitingRetry = ''AwaitingRetry''"

fun kind :: "job_state \<Rightarrow> job_state_kind" where
  "kind (Enqueued _ _) = KEnqueued"
| "kind (Processing _ _ _) = KProcessing"
| "kind (Succeeded _ _ _) = KSucceeded"
| "kind (Failed _ _ _) = KFailed"
| "kind (Deleted _ _) = KDeleted"
| "kind (Scheduled _ _ _) = KScheduled"
| "kind (AwaitingRetry _ _ _) = KAwaitingRetry"

definition state_name :: "job_state \<Rightarrow> string" where
  "state_name s = kind_name (kind s)"

fun is_final :: "job_state \<Rightarrow> bool" where
  "is_final (Succeeded _ _ _) = True"
| "is_final (Failed _ _ _) = True"
| "is_final (Deleted _ _) = True"
| "is_final _ = False"

fun is_active :: "job_state \<Rightarrow> bool" where
  "is_active (Enqueued _ _) = True"
| "is_active (Processing _ _ _) = True"
| "is_active (Scheduled _ _ _) = True"
| "is_active (AwaitingRetry _ _ _) = True"
| "is_active _ = False"

definition can_transition_to :: "job_state \<Rightarrow> job_state \<Rightarrow> bool" where
  "can_transition_to self target =
     (case (self, target) of
        (Enqueued _ _, Processing _ _ _) \<Rightarrow> True
      | (Enqueued _ _, Deleted _ _) \<Rightarrow> True
      | (Enqueued _ _, Scheduled _ _ _) \<Rightarrow> True
      | (Enqueued _ _, Failed _ _ _) \<Rightarrow> True
      | (Processing _ _ _, Succeeded _ _ _) \<Rightarrow> True
      | (Processing _ _ _, Failed _ _ _) \<Rightarrow> True
      | (Processing _ _ _, Deleted _ _) \<Rightarrow> True
      | (Processing _ _ _, AwaitingRetry _ _ _) \<Rightarrow> True
      | (Scheduled _ _ _, Enqueued _ _) \<Rightarrow> True
      | (Scheduled _ _ _, Deleted _ _) \<Rightarrow> True
      | (Failed _ _ _, AwaitingRetry _ _ _) \<Rightarrow> True
      | (Failed _ _ _, Deleted _ _) \<Rightarrow> True
      | (Failed _ _ _, Enqueued _ _) \<Rightarrow> True
      | (AwaitingRetry _ _ _, Enqueued _ _) \<Rightarrow> True
      | (AwaitingRetry _ _ _, Deleted _ _) \<Rightarrow> True
      | (Succeeded _ _ _, Deleted _ _) \<Rightarrow> True
      | (Deleted _ _, _) \<Rightarrow> False
      | _ \<Rightarrow> False)"

text \<open>The constructors that call \<^verbatim>\<open>Utc::now\<close>.\<close>

definition js_enqueued :: "string \<Rightarrow> ('s, 'e, job_state) act" where
  "js_enqueued q = do { t \<leftarrow> utc_now; ret (Enqueued t q) }"

definition js_processing :: "string \<Rightarrow> string \<Rightarrow> ('s, 'e, job_state) act" where
  "js_processing wid srv = do { t \<leftarrow> utc_now; ret (Processing t wid srv) }"

definition js_succeeded :: "u64 \<Rightarrow> string option \<Rightarrow> ('s, 'e, job_state) act" where
  "js_succeeded d r = do { t \<leftarrow> utc_now; ret (Succeeded t d r) }"

definition js_failed :: "string \<Rightarrow> string option \<Rightarrow> ('s, 'e, job_state) act" where
  "js_failed ex st = do { t \<leftarrow> utc_now; ret (Failed t ex st) }"

definition js_deleted :: "string option \<Rightarrow> ('s, 'e, job_state) act" where
  "js_deleted r = do { t \<leftarrow> utc_now; ret (Deleted t r) }"

definition js_scheduled :: "time \<Rightarrow> string \<Rightarrow> ('s, 'e, job_state) act" where
  "js_scheduled due r = do { t \<leftarrow> utc_now; ret (Scheduled t due r) }"

definition js_awaiting_retry :: "time \<Rightarrow> string \<Rightarrow> ('s, 'e, job_state) act" where
  "js_awaiting_retry due ex = do { t \<leftarrow> utc_now; ret (AwaitingRetry t due ex) }"

lemmas js_defs [wp_simps] =
  js_enqueued_def js_processing_def js_succeeded_def js_failed_def js_deleted_def
  js_scheduled_def js_awaiting_retry_def

section \<open>Discriminants\<close>

text \<open>The discriminants are an enumeration, so finite questions about them are evaluated.\<close>

instantiation job_state_kind :: enum
begin

definition enum_job_state_kind :: "job_state_kind list" where
  "enum_job_state_kind =
     [KEnqueued, KProcessing, KSucceeded, KFailed, KDeleted, KScheduled, KAwaitingRetry]"

definition enum_all_job_state_kind :: "(job_state_kind \<Rightarrow> bool) \<Rightarrow> bool" where
  "enum_all_job_state_kind P \<longleftrightarrow> list_all P enum_class.enum"

definition enum_ex_job_state_kind :: "(job_state_kind \<Rightarrow> bool) \<Rightarrow> bool" where
  "enum_ex_job_state_kind P \<longleftrightarrow> list_ex P enum_class.enum"

instance
proof
  show univ: "UNIV = set (enum_class.enum :: job_state_kind list)"
    using job_state_kind.exhaust by (auto simp: enum_job_state_kind_def)
  show "distinct (enum_class.enum :: job_state_kind list)"
    by (simp add: enum_job_state_kind_def)
  show "enum_class.enum_all P \<longleftrightarrow> Ball UNIV P" for P :: "job_state_kind \<Rightarrow> bool"
    unfolding univ by (simp add: enum_all_job_state_kind_def list_all_iff)
  show "enum_class.enum_ex P \<longleftrightarrow> Bex UNIV P" for P :: "job_state_kind \<Rightarrow> bool"
    unfolding univ by (simp add: enum_ex_job_state_kind_def list_ex_iff)
qed

end

text \<open>The table on discriminants, as pairs.\<close>

definition kind_edges :: "(job_state_kind \<times> job_state_kind) list" where
  "kind_edges =
     [(KEnqueued, KProcessing), (KEnqueued, KDeleted), (KEnqueued, KScheduled),
      (KEnqueued, KFailed),
      (KProcessing, KSucceeded), (KProcessing, KFailed), (KProcessing, KDeleted),
      (KProcessing, KAwaitingRetry),
      (KScheduled, KEnqueued), (KScheduled, KDeleted),
      (KFailed, KAwaitingRetry), (KFailed, KDeleted), (KFailed, KEnqueued),
      (KAwaitingRetry, KEnqueued), (KAwaitingRetry, KDeleted),
      (KSucceeded, KDeleted)]"

lemma can_transition_iff_edge:
  "can_transition_to s t \<longleftrightarrow> (kind s, kind t) \<in> set kind_edges"
  by (cases s; cases t) (simp_all add: can_transition_to_def kind_edges_def)

lemma kind_name_inj: "inj kind_name"
proof (rule injI)
  fix a b
  show "kind_name a = kind_name b \<Longrightarrow> a = b"
    by (cases a; cases b) simp_all
qed

lemma is_final_iff_kind: "is_final s \<longleftrightarrow> kind s \<in> {KSucceeded, KFailed, KDeleted}"
  by (cases s) simp_all

lemma kind_iffs:
  "kind s = KEnqueued \<longleftrightarrow> (\<exists>a b. s = Enqueued a b)"
  "kind s = KProcessing \<longleftrightarrow> (\<exists>a b c. s = Processing a b c)"
  "kind s = KSucceeded \<longleftrightarrow> (\<exists>a b c. s = Succeeded a b c)"
  "kind s = KFailed \<longleftrightarrow> (\<exists>a b c. s = Failed a b c)"
  "kind s = KDeleted \<longleftrightarrow> (\<exists>a b. s = Deleted a b)"
  "kind s = KScheduled \<longleftrightarrow> (\<exists>a b c. s = Scheduled a b c)"
  "kind s = KAwaitingRetry \<longleftrightarrow> (\<exists>a b c. s = AwaitingRetry a b c)"
  by (cases s; simp)+

section \<open>Reachability through the table\<close>

abbreviation transitions :: "job_state \<Rightarrow> job_state \<Rightarrow> bool" where
  "transitions \<equiv> can_transition_to\<^sup>*\<^sup>*"

lemma active_iff_not_final: "is_active s \<longleftrightarrow> \<not> is_final s"
  by (cases s) simp_all

lemma deleted_stuck: "kind s = KDeleted \<Longrightarrow> \<not> can_transition_to s t"
  by (simp add: can_transition_iff_edge kind_edges_def)

lemma transitions_from_succeeded:
  assumes "transitions s t" and "kind s = KSucceeded"
  shows "t = s \<or> kind t = KDeleted"
  using assms
proof (induction rule: rtranclp_induct)
  case (step t u)
  then show ?case by (auto simp: can_transition_iff_edge kind_edges_def)
qed simp

lemma transitions_from_deleted:
  assumes "transitions s t" and "kind s = KDeleted"
  shows "t = s"
  using assms by (induction rule: rtranclp_induct) (auto dest: deleted_stuck)

end
