(* ===== verification/Qml_Errors.thy ===== *)
theory Qml_Errors
  imports Qml_Prelude
begin

text \<open>
  The two error types of the crate: \<^verbatim>\<open>QmlError\<close> (\<^verbatim>\<open>src/error.rs\<close>) and \<^verbatim>\<open>StorageError\<close>
  (\<^verbatim>\<open>src/storage/error.rs\<close>), their \<^verbatim>\<open>Display\<close> texts, the constructors of the latter, and the
  conversion of a storage error into a crate error. A boxed \<^verbatim>\<open>source\<close> error is modelled by its
  \<^verbatim>\<open>Display\<close> text.
\<close>

section \<open>Data\<close>

datatype qml_error =
    JobNotFound (qe_job_id: string)
  | SerializationError string
  | StorageError string
  | InvalidStateTransition string string
  | InvalidJobData string
  | QueueError string
  | WorkerError string
  | ConfigurationError string
  | TimeoutError string
  | MigrationError string

datatype storage_error =
    SE_Connection string "string option"
  | SE_Serialization string "string option"
  | SE_Deserialization string "string option"
  | SE_JobNotFound string
  | SE_Timeout u64
  | SE_Unavailable string
  | SE_Configuration string
  | SE_OperationFailed string "string option"
  | SE_CapacityExceeded string
  | SE_ConcurrentModification string
  | SE_MigrationError string
  | SE_InvalidJobData string

section \<open>Operations\<close>

fun qml_error_display :: "qml_error \<Rightarrow> string" where
  "qml_error_display (JobNotFound i) = ''Job not found: '' @ i"
| "qml_error_display (SerializationError m) = ''Serialization failed: '' @ m"
| "qml_error_display (StorageError m) = ''Storage error: '' @ m"
| "qml_error_display (InvalidStateTransition f t) =
     ''Invalid state transition from '' @ f @ '' to '' @ t"
| "qml_error_display (InvalidJobData m) = ''Invalid job data: '' @ m"
| "qml_error_display (QueueError m) = ''Queue operation failed: '' @ m"
| "qml_error_display (WorkerError m) = ''Worker error: '' @ m"
| "qml_error_display (ConfigurationError m) = ''Configuration error: '' @ m"
| "qml_error_display (TimeoutError m) = ''Operation timed out: '' @ m"
| "qml_error_display (MigrationError m) = ''Migration error: '' @ m"

fun storage_error_display :: "storage_error \<Rightarrow> string" where
  "storage_error_display (SE_Connection m _) = ''Storage connection error: '' @ m"
| "storage_error_display (SE_Serialization m _) = ''Serialization error: '' @ m"
| "storage_error_display (SE_Deserialization m _) = ''Deserialization error: '' @ m"
| "storage_error_display (SE_JobNotFound i) = ''Job not found: '' @ i"
| "storage_error_display (SE_Timeout ms) =
     ''Storage operation timed out after '' @ show_nat (unat ms) @ ''ms''"
| "storage_error_display (SE_Unavailable r) = ''Storage is unavailable: '' @ r"
| "storage_error_display (SE_Configuration m) = ''Storage configuration error: '' @ m"
| "storage_error_display (SE_OperationFailed m _) = ''Storage operation failed: '' @ m"
| "storage_error_display (SE_CapacityExceeded m) = ''Storage capacity exceeded: '' @ m"
| "storage_error_display (SE_ConcurrentModification i) =
     ''Concurrent modification detected for job: '' @ i"
| "storage_error_display (SE_MigrationError m) = ''Migration error: '' @ m"
| "storage_error_display (SE_InvalidJobData m) = ''Invalid job data: '' @ m"

text \<open>The constructor functions, those with a boxed cause taking its text.\<close>

definition connection :: "string \<Rightarrow> storage_error" where
  "connection m = SE_Connection m None"

definition connection_with_source :: "string \<Rightarrow> string \<Rightarrow> storage_error" where
  "connection_with_source m src = SE_Connection m (Some src)"

definition serialization :: "string \<Rightarrow> storage_error" where
  "serialization m = SE_Serialization m None"

definition serialization_with_source :: "string \<Rightarrow> string \<Rightarrow> storage_error" where
  "serialization_with_source m src = SE_Serialization m (Some src)"

definition deserialization :: "string \<Rightarrow> storage_error" where
  "deserialization m = SE_Deserialization m None"

definition deserialization_with_source :: "string \<Rightarrow> string \<Rightarrow> storage_error" where
  "deserialization_with_source m src = SE_Deserialization m (Some src)"

definition job_not_found :: "string \<Rightarrow> storage_error" where
  "job_not_found i = SE_JobNotFound i"

definition timeout_error :: "u64 \<Rightarrow> storage_error" where
  "timeout_error ms = SE_Timeout ms"

definition unavailable :: "string \<Rightarrow> storage_error" where
  "unavailable r = SE_Unavailable r"

definition configuration :: "string \<Rightarrow> storage_error" where
  "configuration m = SE_Configuration m"

definition operation_failed :: "string \<Rightarrow> storage_error" where
  "operation_failed m = SE_OperationFailed m None"

definition operation_failed_with_source :: "string \<Rightarrow> string \<Rightarrow> storage_error" where
  "operation_failed_with_source m src = SE_OperationFailed m (Some src)"

definition capacity_exceeded :: "string \<Rightarrow> storage_error" where
  "capacity_exceeded m = SE_CapacityExceeded m"

definition concurrent_modification :: "string \<Rightarrow> storage_error" where
  "concurrent_modification i = SE_ConcurrentModification i"

text \<open>The shorthands that box the cause themselves.\<close>

definition conn_err :: "string \<Rightarrow> string \<Rightarrow> storage_error" where
  "conn_err m src = SE_Connection m (Some src)"

definition ser_err :: "string \<Rightarrow> string \<Rightarrow> storage_error" where
  "ser_err m src = SE_Serialization m (Some src)"

definition de_err :: "string \<Rightarrow> string \<Rightarrow> storage_error" where
  "de_err m src = SE_Deserialization m (Some src)"

definition op_err :: "string \<Rightarrow> string \<Rightarrow> storage_error" where
  "op_err m src = SE_OperationFailed m (Some src)"

text \<open>\<^verbatim>\<open>impl From\<close> for the errors of \<^verbatim>\<open>serde_json\<close> and \<^verbatim>\<open>uuid\<close>, given by their texts.\<close>

definition qml_of_serde :: "string \<Rightarrow> qml_error" where
  "qml_of_serde err = SerializationError err"

definition qml_of_uuid :: "string \<Rightarrow> qml_error" where
  "qml_of_uuid err = InvalidJobData (''UUID error: '' @ err)"

text \<open>\<^verbatim>\<open>impl From<StorageError> for QmlError\<close>.\<close>

fun qml_of_storage :: "storage_error \<Rightarrow> qml_error" where
  "qml_of_storage (SE_JobNotFound i) = JobNotFound i"
| "qml_of_storage (SE_Serialization m _) = SerializationError m"
| "qml_of_storage (SE_Deserialization m _) = SerializationError m"
| "qml_of_storage e = StorageError (storage_error_display e)"

lemmas storage_error_ctor_defs =
  connection_def connection_with_source_def serialization_def serialization_with_source_def
  deserialization_def deserialization_with_source_def job_not_found_def timeout_error_def
  unavailable_def configuration_def operation_failed_def operation_failed_with_source_def
  capacity_exceeded_def concurrent_modification_def conn_err_def ser_err_def de_err_def op_err_def

section \<open>Properties\<close>

lemma qml_of_storage_not_found_iff:
  "qml_of_storage e = JobNotFound i \<longleftrightarrow> e = SE_JobNotFound i"
  by (cases e) simp_all

text \<open>The message text survives the conversion: the Display of the crate error ends in the
  Display of the storage error, or in its message where the variant is renamed.\<close>

lemma qml_of_storage_display:
  "qml_error_display (qml_of_storage e) =
     (case e of
        SE_JobNotFound i \<Rightarrow> storage_error_display e
      | SE_Serialization m _ \<Rightarrow> ''Serialization failed: '' @ m
      | SE_Deserialization m _ \<Rightarrow> ''Serialization failed: '' @ m
      | _ \<Rightarrow> ''Storage error: '' @ storage_error_display e)"
  by (cases e) simp_all

end
