(* ===== verification/Job.thy ===== *)
theory Job
  imports Job_State Qml_Errors
begin

text \<open>
  The records the storage keeps: jobs (\<^verbatim>\<open>src/core/job.rs\<close>), recurring-job templates
  (\<^verbatim>\<open>src/core/recurring.rs\<close>) and server registrations (\<^verbatim>\<open>src/core/server_info.rs\<close>). The
  JSON payload is opaque to the crate and is the type parameter \<open>'p\<close>; \<^verbatim>\<open>serde_json\<close>, the
  \<^verbatim>\<open>Debug\<close> text of a state and the \<^verbatim>\<open>cron\<close> crate are arguments of the operations that call them.
\<close>

section \<open>Jobs\<close>

record 'p job =
  job_id :: string
  job_method :: string
  job_payload :: 'p
  job_created_at :: time
  job_state :: job_state
  job_queue :: string
  job_priority :: i32
  job_max_retries :: u32
  job_attempt :: u32
  job_metadata :: "(string, string) hmap"
  job_type :: "string option"
  job_timeout_seconds :: "u64 option"
  job_expires_at :: "time option"

definition job_new :: "string \<Rightarrow> 'p \<Rightarrow> ('s, 'e, 'p job) act" where
  "job_new meth pay = do {
     i \<leftarrow> new_uuid;
     now \<leftarrow> utc_now;
     st \<leftarrow> js_enqueued ''default'';
     ret \<lparr>job_id = i, job_method = meth, job_payload = pay, job_created_at = now,
          job_state = st, job_queue = ''default'', job_priority = 0, job_max_retries = 0,
          job_attempt = 0, job_metadata = [], job_type = None,
          job_timeout_seconds = None, job_expires_at = None\<rparr> }"

text \<open>\<open>to_value\<close> is \<^verbatim>\<open>serde_json::to_value\<close>; \<open>Inl\<close> is the text of its error.\<close>

definition job_new_typed ::
  "('a \<Rightarrow> string + 'p) \<Rightarrow> string \<Rightarrow> 'a \<Rightarrow> ('s, 'e, qml_error + 'p job) act" where
  "job_new_typed to_value meth args =
     (case to_value args of
        Inl e \<Rightarrow> ret (Inl (SerializationError (''Failed to serialize job payload: '' @ e)))
      | Inr pay \<Rightarrow> do { j \<leftarrow> job_new meth pay; ret (Inr j) })"

definition job_with_config ::
  "string \<Rightarrow> 'p \<Rightarrow> string \<Rightarrow> i32 \<Rightarrow> u32 \<Rightarrow> ('s, 'e, 'p job) act" where
  "job_with_config meth pay queue prio max_retries = do {
     i \<leftarrow> new_uuid;
     now \<leftarrow> utc_now;
     st \<leftarrow> js_enqueued queue;
     ret \<lparr>job_id = i, job_method = meth, job_payload = pay, job_created_at = now,
          job_state = st, job_queue = queue, job_priority = prio,
          job_max_retries = max_retries, job_attempt = 0, job_metadata = [],
          job_type = None, job_timeout_seconds = None, job_expires_at = None\<rparr> }"

definition job_serialize :: "('p job \<Rightarrow> string + string) \<Rightarrow> 'p job \<Rightarrow> qml_error + string" where
  "job_serialize to_str j =
     (case to_str j of
        Inl e \<Rightarrow> Inl (SerializationError (''Failed to serialize job: '' @ e))
      | Inr s \<Rightarrow> Inr s)"

definition job_deserialize :: "(string \<Rightarrow> string + 'p job) \<Rightarrow> string \<Rightarrow> qml_error + 'p job" where
  "job_deserialize from_str s =
     (case from_str s of
        Inl e \<Rightarrow> Inl (SerializationError (''Failed to deserialize job: '' @ e))
      | Inr j \<Rightarrow> Inr j)"

text \<open>\<open>dbg\<close> is the derived \<^verbatim>\<open>Debug\<close> text of a state.\<close>

definition set_state :: "(job_state \<Rightarrow> string) \<Rightarrow> job_state \<Rightarrow> 'p job \<Rightarrow> qml_error + 'p job" where
  "set_state dbg new j =
     (if \<not> can_transition_to (job_state j) new
      then Inl (InvalidStateTransition (dbg (job_state j)) (dbg new))
      else Inr (j\<lparr>job_state := new\<rparr>))"

definition add_metadata :: "string \<Rightarrow> string \<Rightarrow> 'p job \<Rightarrow> 'p job" where
  "add_metadata k v j = j\<lparr>job_metadata := hm_insert k v (job_metadata j)\<rparr>"

definition set_type :: "string \<Rightarrow> 'p job \<Rightarrow> 'p job" where
  "set_type t j = j\<lparr>job_type := Some t\<rparr>"

definition set_timeout :: "u64 \<Rightarrow> 'p job \<Rightarrow> 'p job" where
  "set_timeout secs j = j\<lparr>job_timeout_seconds := Some secs\<rparr>"

definition age_seconds :: "'p job \<Rightarrow> ('s, 'e, int) act" where
  "age_seconds j = do { now \<leftarrow> utc_now; ret (num_seconds (now - job_created_at j)) }"

text \<open>\<^verbatim>\<open>timeout as i64\<close> reinterprets the 64 bits as signed.\<close>

definition is_timed_out :: "'p job \<Rightarrow> ('s, 'e, bool) act" where
  "is_timed_out j =
     (case job_timeout_seconds j of
        Some timeout \<Rightarrow> do { age \<leftarrow> age_seconds j; ret (age > sint timeout) }
      | None \<Rightarrow> ret False)"

definition clone_with_new_id :: "'p job \<Rightarrow> ('s, 'e, 'p job) act" where
  "clone_with_new_id j = do {
     i \<leftarrow> new_uuid;
     now \<leftarrow> utc_now;
     ret (j\<lparr>job_id := i, job_created_at := now, job_attempt := 0, job_expires_at := None\<rparr>) }"

section \<open>Recurring-job templates\<close>

record 'p recurring_job =
  rj_id :: string
  rj_cron :: string
  rj_method :: string
  rj_payload :: 'p
  rj_queue :: string
  rj_next_run_at :: time
  rj_last_run_at :: "time option"
  rj_created_at :: time
  rj_updated_at :: time
  rj_enabled :: bool

text \<open>The \<^verbatim>\<open>cron\<close> crate: \<^verbatim>\<open>Schedule::from_str\<close> with the text of its error, and
  \<^verbatim>\<open>schedule.after(&from).next()\<close>.\<close>

record 'c cron_crate =
  cron_from_str :: "string \<Rightarrow> string + 'c"
  cron_next_after :: "'c \<Rightarrow> time \<Rightarrow> time option"

definition parse_schedule :: "'c cron_crate \<Rightarrow> string \<Rightarrow> qml_error + 'c" where
  "parse_schedule C expr =
     (case cron_from_str C expr of
        Inl e \<Rightarrow> Inl (InvalidJobData (''Invalid cron expression `'' @ expr @ ''`: '' @ e))
      | Inr s \<Rightarrow> Inr s)"

definition next_after :: "'c cron_crate \<Rightarrow> string \<Rightarrow> time \<Rightarrow> qml_error + time" where
  "next_after C expr from =
     (case parse_schedule C expr of
        Inl e \<Rightarrow> Inl e
      | Inr s \<Rightarrow>
          (case cron_next_after C s from of
             None \<Rightarrow> Inl (InvalidJobData
                      (''Cron expression `'' @ expr @ ''` has no future occurrences''))
           | Some t \<Rightarrow> Inr t))"

definition recurring_new ::
  "'c cron_crate \<Rightarrow> string \<Rightarrow> string \<Rightarrow> string \<Rightarrow> 'p \<Rightarrow> string
     \<Rightarrow> ('s, 'e, qml_error + 'p recurring_job) act" where
  "recurring_new C i cron meth pay queue = do {
     t0 \<leftarrow> utc_now;
     (case next_after C cron t0 of
        Inl e \<Rightarrow> ret (Inl e)
      | Inr next_run_at \<Rightarrow> do {
          now \<leftarrow> utc_now;
          ret (Inr \<lparr>rj_id = i, rj_cron = cron, rj_method = meth, rj_payload = pay,
                    rj_queue = queue, rj_next_run_at = next_run_at, rj_last_run_at = None,
                    rj_created_at = now, rj_updated_at = now, rj_enabled = True\<rparr>) }) }"

text \<open>On an error \<^verbatim>\<open>advance\<close> has not touched the template.\<close>

definition recurring_advance ::
  "'c cron_crate \<Rightarrow> time \<Rightarrow> 'p recurring_job \<Rightarrow> ('s, 'e, qml_error + 'p recurring_job) act" where
  "recurring_advance C from r =
     (case next_after C (rj_cron r) from of
        Inl e \<Rightarrow> ret (Inl e)
      | Inr t \<Rightarrow> do {
          now \<leftarrow> utc_now;
          ret (Inr (r\<lparr>rj_next_run_at := t, rj_updated_at := now\<rparr>)) })"

definition recurring_schedule :: "'c cron_crate \<Rightarrow> 'p recurring_job \<Rightarrow> qml_error + 'c" where
  "recurring_schedule C r = parse_schedule C (rj_cron r)"

section \<open>Server registrations\<close>

record server_info =
  si_server_id :: string
  si_server_name :: string
  si_started_at :: time
  si_last_heartbeat :: time
  si_worker_count :: u32
  si_queues :: "string list"

definition server_info_new ::
  "string \<Rightarrow> string \<Rightarrow> u32 \<Rightarrow> string list \<Rightarrow> ('s, 'e, server_info) act" where
  "server_info_new sid name n qs = do {
     now \<leftarrow> utc_now;
     ret \<lparr>si_server_id = sid, si_server_name = name, si_started_at = now,
          si_last_heartbeat = now, si_worker_count = n, si_queues = qs\<rparr> }"

section \<open>Library facts\<close>

lemma set_state_Inr_iff:
  "set_state dbg new j = Inr j' \<longleftrightarrow> can_transition_to (job_state j) new \<and> j' = j\<lparr>job_state := new\<rparr>"
  by (auto simp: set_state_def)

lemma set_state_Inl_iff:
  "set_state dbg new j = Inl e \<longleftrightarrow>
     \<not> can_transition_to (job_state j) new
     \<and> e = InvalidStateTransition (dbg (job_state j)) (dbg new)"
  by (auto simp: set_state_def)

lemma add_metadata_fields [simp]:
  "job_id (add_metadata k v j) = job_id j"
  "job_state (add_metadata k v j) = job_state j"
  "job_attempt (add_metadata k v j) = job_attempt j"
  "job_queue (add_metadata k v j) = job_queue j"
  "job_expires_at (add_metadata k v j) = job_expires_at j"
  "job_metadata (add_metadata k v j) = hm_insert k v (job_metadata j)"
  by (simp_all add: add_metadata_def)

lemma job_with_config_wp [wp_simps]:
  "wp (job_with_config meth pay queue prio mr) Q w =
     Q \<lparr>job_id = uuids w (uuid_calls w), job_method = meth, job_payload = pay,
        job_created_at = clock w (ticks w),
        job_state = Enqueued (clock w (Suc (ticks w))) queue,
        job_queue = queue, job_priority = prio, job_max_retries = mr, job_attempt = 0,
        job_metadata = [], job_type = None, job_timeout_seconds = None, job_expires_at = None\<rparr>
       (w\<lparr>uuid_calls := Suc (uuid_calls w), ticks := Suc (Suc (ticks w))\<rparr>)"
  by (simp add: job_with_config_def wp_simps)

lemma job_new_is_with_config: "job_new meth pay = job_with_config meth pay ''default'' 0 0"
  by (simp add: job_new_def job_with_config_def)

lemma next_after_strict:
  assumes "\<And>s t t'. cron_next_after C s t = Some t' \<Longrightarrow> t < t'"
    and "next_after C expr from = Inr t"
  shows "from < t"
  using assms by (auto simp: next_after_def split: sum.splits option.splits)

lemma recurring_advance_wp [wp_simps]:
  "wp (recurring_advance C from r) Q w =
     (case next_after C (rj_cron r) from of
        Inl e \<Rightarrow> Q (Inl e) w
      | Inr t \<Rightarrow> Q (Inr (r\<lparr>rj_next_run_at := t, rj_updated_at := clock w (ticks w)\<rparr>))
                    (w\<lparr>ticks := Suc (ticks w)\<rparr>))"
  by (simp add: recurring_advance_def wp_simps split: sum.split)

section \<open>The life of a job\<close>

text \<open>A job on which \<^verbatim>\<open>set_state\<close> is called once per target; a refused call leaves it as it was.\<close>

definition drive :: "(job_state \<Rightarrow> string) \<Rightarrow> job_state list \<Rightarrow> 'p job \<Rightarrow> 'p job" where
  "drive dbg ts j = foldl (\<lambda>j t. case set_state dbg t j of Inl _ \<Rightarrow> j | Inr j' \<Rightarrow> j') j ts"

lemma drive_Nil [simp]: "drive dbg [] j = j"
  by (simp add: drive_def)

lemma drive_snoc [simp]:
  "drive dbg (ts @ [t]) j =
     (if can_transition_to (job_state (drive dbg ts j)) t then (drive dbg ts j)\<lparr>job_state := t\<rparr>
      else drive dbg ts j)"
  by (simp add: drive_def set_state_def)

lemma drive_state_only: "\<exists>st. drive dbg ts j = j\<lparr>job_state := st\<rparr> \<and> transitions (job_state j) st"
proof (induction ts rule: rev_induct)
  case Nil
  have "drive dbg [] j = j\<lparr>job_state := job_state j\<rparr>" by simp
  then show ?case by blast
next
  case (snoc t ts)
  then show ?case by (auto intro: rtranclp.rtrancl_into_rtrancl)
qed

lemma drive_processing:
  assumes "kind (job_state (drive dbg ts j)) = KProcessing" and "kind (job_state j) \<noteq> KProcessing"
  shows "\<exists>us vs. ts = us @ vs \<and> kind (job_state (drive dbg us j)) = KEnqueued"
  using assms
proof (induction ts rule: rev_induct)
  case (snoc t ts)
  show ?case
  proof (cases "can_transition_to (job_state (drive dbg ts j)) t")
    case True
    with snoc.prems have "kind (job_state (drive dbg ts j)) = KEnqueued"
      by (auto simp: can_transition_iff_edge kind_edges_def)
    then show ?thesis by blast
  next
    case False
    with snoc obtain us vs where "ts = us @ vs" "kind (job_state (drive dbg us j)) = KEnqueued" by auto
    then show ?thesis by (intro exI [of _ us] exI [of _ "vs @ [t]"]) simp
  qed
qed simp

text \<open>
  C26. The life of a job under \<^verbatim>\<open>set_state\<close>, whatever states it is asked to take and whether the calls are accepted
  or refused: only its state ever changes; a deleted job never changes again; a succeeded one stays as it
  is or ends up deleted; and a job that comes to be processing has been in a queue before, so
  a scheduled, failed or retrying job never starts without passing through \<open>Enqueued\<close>.
\<close>

theorem set_state_lifecycle:
  "(\<exists>st. drive dbg ts j = j\<lparr>job_state := st\<rparr>)
   \<and> (kind (job_state j) = KDeleted \<longrightarrow> drive dbg ts j = j)
   \<and> (kind (job_state j) = KSucceeded \<longrightarrow> drive dbg ts j = j \<or> kind (job_state (drive dbg ts j)) = KDeleted)
   \<and> (kind (job_state (drive dbg ts j)) = KProcessing \<and> kind (job_state j) \<noteq> KProcessing \<longrightarrow>
        (\<exists>us vs. ts = us @ vs \<and> kind (job_state (drive dbg us j)) = KEnqueued))"
proof -
  obtain st where st: "drive dbg ts j = j\<lparr>job_state := st\<rparr>" "transitions (job_state j) st"
    using drive_state_only by blast
  then show ?thesis
    using drive_processing [of dbg ts j] transitions_from_deleted [OF st(2)] transitions_from_succeeded [OF st(2)]
    by auto
qed

theorem set_state_lifecycle_witness:
  "\<exists>us vs. [Processing 1 ''w'' ''s'', Enqueued 2 ''q'', Processing 3 ''w'' ''s''] = us @ vs
     \<and> kind (job_state (drive (\<lambda>s. ''state'') us
         \<lparr>job_id = ''a'', job_method = ''m'', job_payload = (), job_created_at = 0,
          job_state = Scheduled 0 2 ''later'', job_queue = ''q'', job_priority = 0, job_max_retries = 3,
          job_attempt = 0, job_metadata = [], job_type = None, job_timeout_seconds = None,
          job_expires_at = None\<rparr>)) = KEnqueued"
  using set_state_lifecycle [of "\<lambda>s. ''state''" "[Processing 1 ''w'' ''s'', Enqueued 2 ''q'', Processing 3 ''w'' ''s'']"
      "\<lparr>job_id = ''a'', job_method = ''m'', job_payload = (), job_created_at = 0,
          job_state = Scheduled 0 2 ''later'', job_queue = ''q'', job_priority = 0, job_max_retries = 3,
          job_attempt = 0, job_metadata = [], job_type = None, job_timeout_seconds = None,
          job_expires_at = None\<rparr>"]
  by (simp add: drive_def set_state_def can_transition_to_def)

end
