(* ===== verification/Storage_Api.thy ===== *)
theory Storage_Api
  imports Job
begin

text \<open>
  The storage traits of \<^verbatim>\<open>src/storage/mod.rs\<close>. A trait object is the record of its methods;
  the supertrait chain (\<^verbatim>\<open>MonitoringApi\<close>, \<^verbatim>\<open>JobStore\<close>, \<^verbatim>\<open>JobLocker\<close>, \<^verbatim>\<open>RecurringStore\<close>,
  \<^verbatim>\<open>ServerRegistry\<close>, \<^verbatim>\<open>NamedLocks\<close>, and \<^verbatim>\<open>Storage\<close> over all of them) is a chain of record
  extensions, so that a \<^verbatim>\<open>dyn Storage\<close> can be passed where a \<^verbatim>\<open>dyn MonitoringApi\<close> is expected, as
  trait upcasting allows. The contract the traits document is stated twice over: as predicates
  on the abstract job table (a map from ids to jobs), and as the locale \<open>job_storage\<close> whose laws
  say that the methods of a backend implement those predicates. The processing components are
  verified against the locale.
\<close>

section \<open>Trait objects\<close>

text \<open>\<^verbatim>\<open>list\<close> can panic (an overflowing page bound): \<open>None\<close> is a panic.\<close>

record ('p, 's, 'e) monitoring_api =
  st_get :: "string \<Rightarrow> ('s, 'e, storage_error + 'p job option) act"
  st_update :: "'p job \<Rightarrow> ('s, 'e, storage_error + unit) act"
  st_update_if_state :: "'p job \<Rightarrow> job_state_kind \<Rightarrow> ('s, 'e, storage_error + bool) act"
  st_delete :: "string \<Rightarrow> ('s, 'e, storage_error + bool) act"
  st_list :: "job_state_kind option \<Rightarrow> nat option \<Rightarrow> nat option
                \<Rightarrow> ('s, 'e, (storage_error + 'p job list) option) act"
  st_get_job_counts :: "('s, 'e, storage_error + (job_state_kind, nat) hmap) act"

record ('p, 's, 'e) job_store = "('p, 's, 'e) monitoring_api" +
  st_enqueue :: "'p job \<Rightarrow> ('s, 'e, storage_error + unit) act"
  st_get_available_jobs :: "nat option \<Rightarrow> ('s, 'e, storage_error + 'p job list) act"
  st_fetch_due_scheduled_jobs :: "time \<Rightarrow> nat \<Rightarrow> ('s, 'e, storage_error + 'p job list) act"
  st_fetch_due_retry_jobs :: "time \<Rightarrow> nat \<Rightarrow> ('s, 'e, storage_error + 'p job list) act"
  st_claim_due_scheduled_jobs :: "time \<Rightarrow> nat \<Rightarrow> ('s, 'e, storage_error + 'p job list) act"
  st_claim_due_retry_jobs :: "time \<Rightarrow> nat \<Rightarrow> ('s, 'e, storage_error + 'p job list) act"
  st_delete_expired_jobs :: "time \<Rightarrow> ('s, 'e, storage_error + nat) act"

record ('p, 's, 'e) job_locker = "('p, 's, 'e) job_store" +
  st_fetch_and_lock_job :: "string \<Rightarrow> string list option \<Rightarrow> ('s, 'e, storage_error + 'p job option) act"
  st_fetch_available_jobs_atomic ::
    "string \<Rightarrow> nat option \<Rightarrow> string list option \<Rightarrow> ('s, 'e, storage_error + 'p job list) act"
  st_try_acquire_job_lock :: "string \<Rightarrow> string \<Rightarrow> u64 \<Rightarrow> ('s, 'e, storage_error + bool) act"
  st_release_job_lock :: "string \<Rightarrow> string \<Rightarrow> ('s, 'e, storage_error + bool) act"
  st_requeue_stranded_jobs :: "time \<Rightarrow> ('s, 'e, storage_error + nat) act"

record ('p, 's, 'e) recurring_store = "('p, 's, 'e) job_locker" +
  st_upsert_recurring_job :: "'p recurring_job \<Rightarrow> ('s, 'e, storage_error + unit) act"
  st_remove_recurring_job :: "string \<Rightarrow> ('s, 'e, storage_error + bool) act"
  st_list_recurring_jobs :: "('s, 'e, storage_error + 'p recurring_job list) act"
  st_fetch_due_recurring_jobs :: "time \<Rightarrow> nat \<Rightarrow> ('s, 'e, storage_error + 'p recurring_job list) act"

record ('p, 's, 'e) server_registry = "('p, 's, 'e) recurring_store" +
  st_register_server :: "server_info \<Rightarrow> ('s, 'e, storage_error + unit) act"
  st_heartbeat_server :: "string \<Rightarrow> time \<Rightarrow> ('s, 'e, storage_error + bool) act"
  st_deregister_server :: "string \<Rightarrow> ('s, 'e, storage_error + bool) act"
  st_list_dead_servers :: "time \<Rightarrow> ('s, 'e, storage_error + server_info list) act"
  st_reclaim_jobs_from_server :: "string \<Rightarrow> ('s, 'e, storage_error + nat) act"

record ('p, 's, 'e) storage = "('p, 's, 'e) server_registry" +
  st_try_acquire_lock :: "string \<Rightarrow> string \<Rightarrow> nat \<Rightarrow> ('s, 'e, storage_error + bool) act"
  st_release_lock :: "string \<Rightarrow> string \<Rightarrow> ('s, 'e, storage_error + bool) act"
  st_cleanup_expired_named_locks :: "time \<Rightarrow> ('s, 'e, storage_error + nat) act"

section \<open>The contract, on abstract job tables\<close>

type_synonym 'p jobs = "string \<rightharpoonup> 'p job"

text \<open>Which states are claimable, at the time the backend reads.\<close>

fun due_scheduled :: "time \<Rightarrow> job_state \<Rightarrow> bool" where
  "due_scheduled now (Scheduled _ enqueue_at _) = (enqueue_at \<le> now)"
| "due_scheduled now _ = False"

fun due_retry :: "time \<Rightarrow> job_state \<Rightarrow> bool" where
  "due_retry now (AwaitingRetry _ retry_at _) = (retry_at \<le> now)"
| "due_retry now _ = False"

fun available :: "time \<Rightarrow> job_state \<Rightarrow> bool" where
  "available now (Enqueued _ _) = True"
| "available now (Scheduled _ enqueue_at _) = (enqueue_at \<le> now)"
| "available now (AwaitingRetry _ retry_at _) = (retry_at \<le> now)"
| "available now _ = False"

fun stranded :: "time \<Rightarrow> job_state \<Rightarrow> bool" where
  "stranded stale_before (Processing started_at _ _) = (started_at < stale_before)"
| "stranded stale_before _ = False"

fun owned_by :: "string \<Rightarrow> job_state \<Rightarrow> bool" where
  "owned_by sid (Processing _ _ server_name) = (server_name = sid)"
| "owned_by sid _ = False"

definition expired :: "time \<Rightarrow> 'p job \<Rightarrow> bool" where
  "expired now j = (case job_expires_at j of None \<Rightarrow> False | Some ts \<Rightarrow> ts \<le> now)"

text \<open>A table whose jobs are filed under their own ids.\<close>

definition keyed :: "'p jobs \<Rightarrow> bool" where
  "keyed T \<longleftrightarrow> (\<forall>i j. T i = Some j \<longrightarrow> job_id j = i)"

text \<open>Moving a set of jobs back to \<open>Enqueued\<close> on their own queue, whatever the time stamps.\<close>

definition requeued :: "string set \<Rightarrow> 'p jobs \<Rightarrow> 'p jobs \<Rightarrow> bool" where
  "requeued I T T' \<longleftrightarrow>
     I \<subseteq> dom T \<and> (\<forall>i. i \<notin> I \<longrightarrow> T' i = T i) \<and>
     (\<forall>i \<in> I. \<exists>t. T' i = map_option (\<lambda>j. j\<lparr>job_state := Enqueued t (job_queue j)\<rparr>) (T i))"

text \<open>A claim of due jobs: at most \<open>limit\<close> of them, all due, all moved to \<open>Enqueued\<close>, and
  returned as they are stored.\<close>

definition claim_spec ::
  "(job_state \<Rightarrow> bool) \<Rightarrow> nat \<Rightarrow> 'p jobs \<Rightarrow> 'p job list \<Rightarrow> 'p jobs \<Rightarrow> bool" where
  "claim_spec due limit T js T' \<longleftrightarrow>
     distinct (map job_id js) \<and> length js \<le> limit \<and>
     (\<forall>j \<in> set js. T' (job_id j) = Some j) \<and>
     (\<forall>i \<in> job_id ` set js. \<exists>j. T i = Some j \<and> due (job_state j)) \<and>
     requeued (job_id ` set js) T T'"

text \<open>A worker's claim: one available job of an accepted queue becomes \<open>Processing\<close> under the
  worker's id, and nothing else changes.\<close>

definition queue_ok :: "string list option \<Rightarrow> string \<Rightarrow> bool" where
  "queue_ok queues q =
     (case queues of None \<Rightarrow> True | Some qs \<Rightarrow> qs = [] \<or> q \<in> set qs)"

definition fetch_spec ::
  "string \<Rightarrow> string list option \<Rightarrow> 'p jobs \<Rightarrow> 'p job option \<Rightarrow> 'p jobs \<Rightarrow> bool" where
  "fetch_spec wid queues T r T' \<longleftrightarrow>
     (case r of
        None \<Rightarrow> T' = T
      | Some j \<Rightarrow>
          (\<exists>j0 now t srv. T (job_id j) = Some j0 \<and> available now (job_state j0)
             \<and> queue_ok queues (job_queue j0)
             \<and> j = j0\<lparr>job_state := Processing t wid srv\<rparr>
             \<and> T' = T(job_id j \<mapsto> j)))"

section \<open>The interface the processing components rely on\<close>

text \<open>
  Three contracts. \<open>job_updates\<close> is all that the processor of a single job needs: an update of a stored job
  replaces it, up to what the backend keeps of a job (\<open>kept\<close>, from the old and the new job), under the
  ids in which the backend files jobs (\<open>known\<close>). \<open>job_access\<close> are the methods on single jobs of a backend that keeps
  all of a job under any id, and \<open>job_storage\<close> extends it by the others.
  \<open>jobs_of\<close> abstracts the state of a backend to its job table, \<open>inv\<close> is its representation
  invariant. A method may fail (\<open>Inl\<close>); the job table is then unchanged. \<open>clock\<close> and
  \<open>events\<close> are never written by a backend.
\<close>

definition env_kept :: "('s, 'e) world \<Rightarrow> ('s, 'e) world \<Rightarrow> bool" where
  "env_kept w w' \<longleftrightarrow>
     clock w' = clock w \<and> uuids w' = uuids w \<and> rng w' = rng w \<and> events w' = events w
     \<and> uuid_calls w' = uuid_calls w \<and> rng_calls w' = rng_calls w \<and> ticks w \<le> ticks w'"

lemma env_kept_refl [simp]: "env_kept w w"
  by (simp add: env_kept_def)

lemma env_kept_trans [trans]: "env_kept u v \<Longrightarrow> env_kept v w \<Longrightarrow> env_kept u w"
  by (simp add: env_kept_def)

lemma env_kept_ticks_store [simp]: "env_kept w (w'\<lparr>store := s\<rparr>) = env_kept w w'"
  by (simp add: env_kept_def)

lemma env_kept_events: "env_kept w w' \<Longrightarrow> events w' = events w"
  by (simp add: env_kept_def)

locale job_updates =
  fixes S :: "('p, 's, 'e) storage"
    and jobs_of :: "'s \<Rightarrow> 'p jobs"
    and inv :: "'s \<Rightarrow> bool"
    and kept :: "'p job \<Rightarrow> 'p job \<Rightarrow> 'p job"
    and known :: "string \<Rightarrow> bool"
  assumes stored_known: "inv s \<Longrightarrow> jobs_of s i = Some j \<Longrightarrow> known i"
    and replace_law: "inv (store w) \<Longrightarrow> known (job_id j) \<Longrightarrow>
      wp (st_update S j) (\<lambda>r w'. env_kept w w' \<and> inv (store w') \<and>
        (case r of
           Inl e \<Rightarrow> jobs_of (store w') = jobs_of (store w)
         | Inr _ \<Rightarrow> \<exists>j0. jobs_of (store w) (job_id j) = Some j0
                      \<and> jobs_of (store w') = (jobs_of (store w))(job_id j \<mapsto> kept j0 j))) w"

locale job_access =
  fixes S :: "('p, 's, 'e) storage"
    and jobs_of :: "'s \<Rightarrow> 'p jobs"
    and inv :: "'s \<Rightarrow> bool"
  assumes keyed_jobs: "inv s \<Longrightarrow> keyed (jobs_of s)"
    and get_law: "inv (store w) \<Longrightarrow>
      wp (st_get S i) (\<lambda>r w'. env_kept w w' \<and> inv (store w') \<and> jobs_of (store w') = jobs_of (store w)
        \<and> (\<forall>v. r = Inr v \<longrightarrow> v = jobs_of (store w) i)) w"
    and update_law: "inv (store w) \<Longrightarrow>
      wp (st_update S j) (\<lambda>r w'. env_kept w w' \<and> inv (store w') \<and>
        (case r of
           Inl e \<Rightarrow> jobs_of (store w') = jobs_of (store w)
         | Inr _ \<Rightarrow> job_id j \<in> dom (jobs_of (store w))
                    \<and> jobs_of (store w') = (jobs_of (store w))(job_id j \<mapsto> j))) w"
    and update_if_state_law: "inv (store w) \<Longrightarrow>
      wp (st_update_if_state S j k) (\<lambda>r w'. env_kept w w' \<and> inv (store w') \<and>
        (case r of
           Inl e \<Rightarrow> jobs_of (store w') = jobs_of (store w)
         | Inr b \<Rightarrow> (\<exists>j0. jobs_of (store w) (job_id j) = Some j0 \<and> b = (kind (job_state j0) = k))
                    \<and> jobs_of (store w') =
                        (if b then (jobs_of (store w))(job_id j \<mapsto> j) else jobs_of (store w)))) w"
    and delete_law: "inv (store w) \<Longrightarrow>
      wp (st_delete S i) (\<lambda>r w'. env_kept w w' \<and> inv (store w') \<and>
        (case r of
           Inl e \<Rightarrow> jobs_of (store w') = jobs_of (store w)
         | Inr b \<Rightarrow> b = (i \<in> dom (jobs_of (store w)))
                    \<and> jobs_of (store w') = (jobs_of (store w))(i := None))) w"

sublocale job_access \<subseteq> job_updates S jobs_of inv "\<lambda>_ j. j" "\<lambda>_. True"
  by unfold_locales (simp, rule wp_mono [OF update_law], simp, auto split: sum.splits)

text \<open>The rest of a backend: adding, claiming and sweeping jobs.\<close>

locale job_storage = job_access S jobs_of inv
  for S :: "('p, 's, 'e) storage" and jobs_of :: "'s \<Rightarrow> 'p jobs" and inv :: "'s \<Rightarrow> bool" +
  assumes enqueue_law: "inv (store w) \<Longrightarrow>
      wp (st_enqueue S j) (\<lambda>r w'. env_kept w w' \<and> inv (store w') \<and>
        (case r of
           Inl e \<Rightarrow> jobs_of (store w') = jobs_of (store w)
         | Inr _ \<Rightarrow> jobs_of (store w') = (jobs_of (store w))(job_id j \<mapsto> j))) w"
    and claim_scheduled_law: "inv (store w) \<Longrightarrow>
      wp (st_claim_due_scheduled_jobs S now n) (\<lambda>r w'. env_kept w w' \<and> inv (store w') \<and>
        (case r of
           Inl e \<Rightarrow> jobs_of (store w') = jobs_of (store w)
         | Inr js \<Rightarrow> claim_spec (due_scheduled now) n (jobs_of (store w)) js (jobs_of (store w')))) w"
    and claim_retry_law: "inv (store w) \<Longrightarrow>
      wp (st_claim_due_retry_jobs S now n) (\<lambda>r w'. env_kept w w' \<and> inv (store w') \<and>
        (case r of
           Inl e \<Rightarrow> jobs_of (store w') = jobs_of (store w)
         | Inr js \<Rightarrow> claim_spec (due_retry now) n (jobs_of (store w)) js (jobs_of (store w')))) w"
    and fetch_law: "inv (store w) \<Longrightarrow>
      wp (st_fetch_and_lock_job S wid qs) (\<lambda>r w'. env_kept w w' \<and> inv (store w') \<and>
        (case r of
           Inl e \<Rightarrow> jobs_of (store w') = jobs_of (store w)
         | Inr v \<Rightarrow> fetch_spec wid qs (jobs_of (store w)) v (jobs_of (store w')))) w"
    and delete_expired_law: "inv (store w) \<Longrightarrow>
      wp (st_delete_expired_jobs S now) (\<lambda>r w'. env_kept w w' \<and> inv (store w') \<and>
        (case r of
           Inl e \<Rightarrow> jobs_of (store w') = jobs_of (store w)
         | Inr n \<Rightarrow> (\<forall>i. jobs_of (store w') i \<noteq> jobs_of (store w) i \<longrightarrow>
                      jobs_of (store w') i = None
                      \<and> (\<exists>j. jobs_of (store w) i = Some j \<and> expired now j)))) w"
    and requeue_stranded_law: "inv (store w) \<Longrightarrow>
      wp (st_requeue_stranded_jobs S before) (\<lambda>r w'. env_kept w w' \<and> inv (store w') \<and>
        (case r of
           Inl e \<Rightarrow> jobs_of (store w') = jobs_of (store w)
         | Inr n \<Rightarrow> requeued {i. \<exists>j. jobs_of (store w) i = Some j \<and> stranded before (job_state j)}
                      (jobs_of (store w)) (jobs_of (store w')))) w"
    and reclaim_law: "inv (store w) \<Longrightarrow>
      wp (st_reclaim_jobs_from_server S sid) (\<lambda>r w'. env_kept w w' \<and> inv (store w') \<and>
        (case r of
           Inl e \<Rightarrow> jobs_of (store w') = jobs_of (store w)
         | Inr n \<Rightarrow> requeued {i. \<exists>j. jobs_of (store w) i = Some j \<and> owned_by sid (job_state j)}
                      (jobs_of (store w)) (jobs_of (store w')))) w"

section \<open>Library facts\<close>

lemma requeued_empty: "requeued {} T T' \<longleftrightarrow> T' = T"
  by (auto simp: requeued_def)

lemma requeued_at:
  assumes "requeued I T T'" and "T i = Some j"
  shows "if i \<in> I then \<exists>t. T' i = Some (j\<lparr>job_state := Enqueued t (job_queue j)\<rparr>)
         else T' i = Some j"
proof (cases "i \<in> I")
  case True
  with assms obtain t
    where "T' i = map_option (\<lambda>j. j\<lparr>job_state := Enqueued t (job_queue j)\<rparr>) (T i)"
    unfolding requeued_def by blast
  with True assms(2) show ?thesis by auto
next
  case False
  with assms show ?thesis by (simp add: requeued_def)
qed

lemma requeued_None: "requeued I T T' \<Longrightarrow> T i = None \<Longrightarrow> T' i = None"
  unfolding requeued_def by (metis domIff subsetD)

lemma requeued_dom:
  assumes "requeued I T T'"
  shows "dom T' = dom T"
proof -
  have "T' i = None \<longleftrightarrow> T i = None" for i
  proof (cases "T i")
    case (Some j)
    from requeued_at [OF assms Some] Some show ?thesis by (auto split: if_splits)
  qed (simp add: requeued_None [OF assms])
  then show ?thesis by (auto simp: dom_def)
qed

lemma due_scheduled_kind: "due_scheduled now s \<Longrightarrow> kind s = KScheduled"
  by (cases s) simp_all

lemma due_retry_kind: "due_retry now s \<Longrightarrow> kind s = KAwaitingRetry"
  by (cases s) simp_all

lemma available_not_processing: "available now s \<Longrightarrow> kind s \<noteq> KProcessing"
  by (cases s) simp_all

lemma available_cases:
  "available now s \<longleftrightarrow> kind s = KEnqueued \<or> due_scheduled now s \<or> due_retry now s"
  by (cases s) simp_all

lemma claim_spec_kinds:
  assumes "claim_spec due n T js T'" and "j \<in> set js"
  shows "kind (job_state j) = KEnqueued"
proof -
  from assms have T': "T' (job_id j) = Some j" by (auto simp: claim_spec_def)
  from assms have "requeued (job_id ` set js) T T'" "job_id j \<in> job_id ` set js"
    by (auto simp: claim_spec_def)
  with T' show ?thesis by (fastforce simp: requeued_def)
qed

end
