(* ===== verification/Memory_Storage.thy ===== *)
theory Memory_Storage
  imports
    Storage_Api
    Storage_Config
    "HOL-Library.Char_ord"
    "HOL-Library.List_Lexorder"
begin

text \<open>
  The in-memory backend, \<^verbatim>\<open>src/storage/memory.rs\<close>: five hash maps behind locks. Every method
  that takes one lock for its whole body is one action on the storage; \<^verbatim>\<open>enqueue\<close>, whose capacity
  test releases the lock before the insertion takes it again, is two actions in sequence. The
  last section proves that the methods satisfy the contract of \<open>Storage_Api\<close>.
\<close>

section \<open>State\<close>

record job_lock =
  jl_worker_id :: string
  jl_expires_at :: time

record named_lock =
  nl_owner :: string
  nl_expires_at :: time

record 'p memory_storage =
  ms_jobs :: "(string, 'p job) hmap"
  ms_locks :: "(string, job_lock) hmap"
  ms_recurring :: "(string, 'p recurring_job) hmap"
  ms_servers :: "(string, server_info) hmap"
  ms_named_locks :: "(string, named_lock) hmap"
  ms_config :: memory_config

type_synonym ('p, 'e, 'a) mact = "('p memory_storage, 'e, 'a) act"

definition mem_with_config :: "memory_config \<Rightarrow> 'p memory_storage" where
  "mem_with_config c =
     \<lparr>ms_jobs = [], ms_locks = [], ms_recurring = [], ms_servers = [], ms_named_locks = [],
      ms_config = c\<rparr>"

definition mem_new :: "'p memory_storage" where
  "mem_new = mem_with_config memory_config_default"

definition mem_len :: "'p memory_storage \<Rightarrow> nat" where
  "mem_len s = length (ms_jobs s)"

definition mem_is_empty :: "'p memory_storage \<Rightarrow> bool" where
  "mem_is_empty s = (ms_jobs s = [])"

definition mem_clear :: "('p, 'e, unit) mact" where
  "mem_clear = do { s \<leftarrow> get_store; put_store (s\<lparr>ms_jobs := []\<rparr>) }"

definition is_at_capacity :: "'p memory_storage \<Rightarrow> bool" where
  "is_at_capacity s =
     (case mc_max_jobs (ms_config s) of Some max_jobs \<Rightarrow> max_jobs \<le> mem_len s | None \<Rightarrow> False)"

definition filter_jobs_by_state :: "(string, 'p job) hmap \<Rightarrow> job_state_kind \<Rightarrow> 'p job list" where
  "filter_jobs_by_state jobs k = filter (\<lambda>j. kind (job_state j) = k) (hm_values jobs)"

text \<open>The order of the queue: higher priority first, then older first; \<^verbatim>\<open>sort_by\<close> is stable.\<close>

definition prio_key :: "'p job \<Rightarrow> int \<times> time" where
  "prio_key j = (- sint (job_priority j), job_created_at j)"

definition get_available_jobs_internal ::
  "(string, 'p job) hmap \<Rightarrow> nat option \<Rightarrow> ('p, 'e, 'p job list) mact" where
  "get_available_jobs_internal jobs limit = do {
     now \<leftarrow> utc_now;
     let js = sort_key prio_key (filter (\<lambda>j. available now (job_state j)) (hm_values jobs));
     ret (case limit of None \<Rightarrow> js | Some n \<Rightarrow> take n js) }"

section \<open>\<^verbatim>\<open>MonitoringApi\<close>\<close>

definition mem_get :: "string \<Rightarrow> ('p, 'e, storage_error + 'p job option) mact" where
  "mem_get i = do { s \<leftarrow> get_store; ret (Inr (hm_get (ms_jobs s) i)) }"

definition mem_update :: "'p job \<Rightarrow> ('p, 'e, storage_error + unit) mact" where
  "mem_update j = do {
     s \<leftarrow> get_store;
     if hm_contains (ms_jobs s) (job_id j)
     then do {
       put_store (s\<lparr>ms_jobs := hm_insert (job_id j) j (ms_jobs s)\<rparr>);
       ret (Inr ()) }
     else ret (Inl (job_not_found (job_id j))) }"

definition mem_update_if_state ::
  "'p job \<Rightarrow> job_state_kind \<Rightarrow> ('p, 'e, storage_error + bool) mact" where
  "mem_update_if_state j expected = do {
     s \<leftarrow> get_store;
     (case hm_get (ms_jobs s) (job_id j) of
        None \<Rightarrow> ret (Inl (job_not_found (job_id j)))
      | Some existing \<Rightarrow>
          if kind (job_state existing) \<noteq> expected then ret (Inr False)
          else do {
            put_store (s\<lparr>ms_jobs := hm_insert (job_id j) j (ms_jobs s)\<rparr>);
            ret (Inr True) }) }"

definition mem_delete :: "string \<Rightarrow> ('p, 'e, storage_error + bool) mact" where
  "mem_delete i = do {
     s \<leftarrow> get_store;
     put_store (s\<lparr>ms_jobs := hm_remove i (ms_jobs s)\<rparr>);
     ret (Inr (hm_contains (ms_jobs s) i)) }"

text \<open>
  \<^verbatim>\<open>usize\<close> arithmetic wraps at 64 bits (a release build), and the slice \<open>start..end\<close> panics
  (\<open>None\<close>) when \<open>start > end\<close>.
\<close>

definition mem_list ::
  "job_state_kind option \<Rightarrow> nat option \<Rightarrow> nat option
     \<Rightarrow> ('p, 'e, (storage_error + 'p job list) option) mact" where
  "mem_list state_filter limit offset = do {
     s \<leftarrow> get_store;
     let filtered = (case state_filter of
                       Some k \<Rightarrow> filter_jobs_by_state (ms_jobs s) k
                     | None \<Rightarrow> hm_values (ms_jobs s));
     let sorted = sort_key (\<lambda>j. - job_created_at j) filtered;
     let start = (case offset of None \<Rightarrow> 0 | Some n \<Rightarrow> n);
     let stop = (case limit of
                   Some n \<Rightarrow> min ((start + n) mod 2 ^ 64) (length sorted)
                 | None \<Rightarrow> length sorted);
     ret (if start \<ge> length sorted then Some (Inr [])
          else if start > stop then None
          else Some (Inr (take (stop - start) (drop start sorted)))) }"

fun count_kinds :: "'p job list \<Rightarrow> (job_state_kind, nat) hmap \<Rightarrow> (job_state_kind, nat) hmap" where
  "count_kinds [] counts = counts"
| "count_kinds (j # js) counts =
     (let k = kind (job_state j)
      in count_kinds js
           (hm_insert k ((case hm_get counts k of None \<Rightarrow> 0 | Some n \<Rightarrow> n) + 1) counts))"

definition mem_get_job_counts :: "('p, 'e, storage_error + (job_state_kind, nat) hmap) mact" where
  "mem_get_job_counts = do {
     s \<leftarrow> get_store;
     ret (Inr (count_kinds (hm_values (ms_jobs s)) [])) }"

section \<open>\<^verbatim>\<open>JobStore\<close>\<close>

definition mem_enqueue_check :: "('p, 'e, storage_error option) mact" where
  "mem_enqueue_check = do {
     s \<leftarrow> get_store;
     ret (if is_at_capacity s
          then Some (capacity_exceeded
                 (''Memory storage is at capacity ('' @ show_nat (mem_len s) @ '' jobs)''))
          else None) }"

definition mem_enqueue_write :: "'p job \<Rightarrow> ('p, 'e, unit) mact" where
  "mem_enqueue_write j = do {
     s \<leftarrow> get_store;
     put_store (s\<lparr>ms_jobs := hm_insert (job_id j) j (ms_jobs s)\<rparr>) }"

definition mem_enqueue :: "'p job \<Rightarrow> ('p, 'e, storage_error + unit) mact" where
  "mem_enqueue j = do {
     full \<leftarrow> mem_enqueue_check;
     (case full of
        Some e \<Rightarrow> ret (Inl e)
      | None \<Rightarrow> do { mem_enqueue_write j; ret (Inr ()) }) }"

definition mem_get_available_jobs ::
  "nat option \<Rightarrow> ('p, 'e, storage_error + 'p job list) mact" where
  "mem_get_available_jobs limit = do {
     s \<leftarrow> get_store;
     js \<leftarrow> get_available_jobs_internal (ms_jobs s) limit;
     ret (Inr js) }"

definition mem_fetch_due ::
  "(job_state \<Rightarrow> bool) \<Rightarrow> nat \<Rightarrow> ('p, 'e, storage_error + 'p job list) mact" where
  "mem_fetch_due due limit = do {
     s \<leftarrow> get_store;
     ret (Inr (take limit
       (sort_key prio_key (filter (\<lambda>j. due (job_state j)) (hm_values (ms_jobs s)))))) }"

definition mem_fetch_due_scheduled_jobs ::
  "time \<Rightarrow> nat \<Rightarrow> ('p, 'e, storage_error + 'p job list) mact" where
  "mem_fetch_due_scheduled_jobs now limit = mem_fetch_due (due_scheduled now) limit"

definition mem_fetch_due_retry_jobs ::
  "time \<Rightarrow> nat \<Rightarrow> ('p, 'e, storage_error + 'p job list) mact" where
  "mem_fetch_due_retry_jobs now limit = mem_fetch_due (due_retry now) limit"

text \<open>The ids of the due jobs, sorted through a look-up of each id in the map.\<close>

definition due_ids :: "(job_state \<Rightarrow> bool) \<Rightarrow> nat \<Rightarrow> (string, 'p job) hmap \<Rightarrow> string list" where
  "due_ids due limit jobs =
     take limit (sort_key (\<lambda>i. prio_key (the (hm_get jobs i)))
       (map job_id (filter (\<lambda>j. due (job_state j)) (hm_values jobs))))"

fun claim_loop :: "string list \<Rightarrow> ('p, 'e, 'p job list) mact" where
  "claim_loop [] = ret []"
| "claim_loop (i # is) = do {
     s \<leftarrow> get_store;
     (case hm_get (ms_jobs s) i of
        None \<Rightarrow> claim_loop is
      | Some j \<Rightarrow> do {
          st \<leftarrow> js_enqueued (job_queue j);
          put_store (s\<lparr>ms_jobs := hm_insert i (j\<lparr>job_state := st\<rparr>) (ms_jobs s)\<rparr>);
          js \<leftarrow> claim_loop is;
          ret (j\<lparr>job_state := st\<rparr> # js) }) }"

definition mem_claim_due ::
  "(job_state \<Rightarrow> bool) \<Rightarrow> nat \<Rightarrow> ('p, 'e, storage_error + 'p job list) mact" where
  "mem_claim_due due limit = do {
     s \<leftarrow> get_store;
     js \<leftarrow> claim_loop (due_ids due limit (ms_jobs s));
     ret (Inr js) }"

definition mem_claim_due_scheduled_jobs ::
  "time \<Rightarrow> nat \<Rightarrow> ('p, 'e, storage_error + 'p job list) mact" where
  "mem_claim_due_scheduled_jobs now limit = mem_claim_due (due_scheduled now) limit"

definition mem_claim_due_retry_jobs ::
  "time \<Rightarrow> nat \<Rightarrow> ('p, 'e, storage_error + 'p job list) mact" where
  "mem_claim_due_retry_jobs now limit = mem_claim_due (due_retry now) limit"

definition mem_delete_expired_jobs :: "time \<Rightarrow> ('p, 'e, storage_error + nat) mact" where
  "mem_delete_expired_jobs now = do {
     s \<leftarrow> get_store;
     let jobs = hm_retain (\<lambda>j. case job_expires_at j of Some ts \<Rightarrow> ts > now | None \<Rightarrow> True) (ms_jobs s);
     put_store (s\<lparr>ms_jobs := jobs\<rparr>);
     ret (Inr (length (ms_jobs s) - length jobs)) }"

section \<open>\<^verbatim>\<open>JobLocker\<close>\<close>

text \<open>The loop over \<^verbatim>\<open>jobs.values_mut()\<close> shared by the stale sweep and the peer reclaim.\<close>

fun requeue_loop :: "(job_state \<Rightarrow> bool) \<Rightarrow> (string \<times> 'p job) list \<Rightarrow> ('p, 'e, nat) mact" where
  "requeue_loop P [] = ret 0"
| "requeue_loop P (e # es) =
     (if \<not> P (job_state (snd e)) then requeue_loop P es
      else do {
        s \<leftarrow> get_store;
        st \<leftarrow> js_enqueued (job_queue (snd e));
        put_store (s\<lparr>ms_locks := hm_remove (job_id (snd e)) (ms_locks s),
                     ms_jobs := hm_insert (fst e) ((snd e)\<lparr>job_state := st\<rparr>) (ms_jobs s)\<rparr>);
        n \<leftarrow> requeue_loop P es;
        ret (Suc n) })"

definition mem_requeue_stranded_jobs :: "time \<Rightarrow> ('p, 'e, storage_error + nat) mact" where
  "mem_requeue_stranded_jobs stale_before = do {
     s \<leftarrow> get_store;
     n \<leftarrow> requeue_loop (stranded stale_before) (ms_jobs s);
     ret (Inr n) }"

definition cleanup_expired_locks :: "('p, 'e, unit) mact" where
  "cleanup_expired_locks = do {
     s \<leftarrow> get_store;
     now \<leftarrow> utc_now;
     put_store (s\<lparr>ms_locks := hm_retain (\<lambda>l. jl_expires_at l > now) (ms_locks s)\<rparr>) }"

fun lock_first ::
  "string \<Rightarrow> string list option \<Rightarrow> 'p job list \<Rightarrow> ('p, 'e, 'p job option) mact" where
  "lock_first wid queues [] = ret None"
| "lock_first wid queues (j # js) = do {
     s \<leftarrow> get_store;
     if (case queues of None \<Rightarrow> False | Some qs \<Rightarrow> qs \<noteq> [] \<and> job_queue j \<notin> set qs)
     then lock_first wid queues js
     else if hm_contains (ms_locks s) (job_id j) then lock_first wid queues js
     else do {
       t1 \<leftarrow> utc_now;
       t2 \<leftarrow> utc_now;
       let lock = \<lparr>jl_worker_id = wid, jl_expires_at = t1 + dur_minutes 30\<rparr>;
       let j' = j\<lparr>job_state := Processing t2 wid ''memory-storage''\<rparr>;
       put_store (s\<lparr>ms_locks := hm_insert (job_id j) lock (ms_locks s),
                    ms_jobs := hm_insert (job_id j) j' (ms_jobs s)\<rparr>);
       ret (Some j') } }"

definition mem_fetch_and_lock_job ::
  "string \<Rightarrow> string list option \<Rightarrow> ('p, 'e, storage_error + 'p job option) mact" where
  "mem_fetch_and_lock_job wid queues = do {
     cleanup_expired_locks;
     s \<leftarrow> get_store;
     js \<leftarrow> get_available_jobs_internal (ms_jobs s) None;
     r \<leftarrow> lock_first wid queues js;
     ret (Inr r) }"

definition mem_try_acquire_job_lock ::
  "string \<Rightarrow> string \<Rightarrow> u64 \<Rightarrow> ('p, 'e, storage_error + bool) mact" where
  "mem_try_acquire_job_lock i wid timeout_seconds = do {
     cleanup_expired_locks;
     s \<leftarrow> get_store;
     if hm_contains (ms_locks s) i then ret (Inr False)
     else do {
       t \<leftarrow> utc_now;
       put_store (s\<lparr>ms_locks := hm_insert i
         \<lparr>jl_worker_id = wid, jl_expires_at = t + dur_seconds (sint timeout_seconds)\<rparr> (ms_locks s)\<rparr>);
       ret (Inr True) } }"

definition mem_release_job_lock :: "string \<Rightarrow> string \<Rightarrow> ('p, 'e, storage_error + bool) mact" where
  "mem_release_job_lock i wid = do {
     s \<leftarrow> get_store;
     (case hm_get (ms_locks s) i of
        Some l \<Rightarrow>
          if jl_worker_id l = wid
          then do { put_store (s\<lparr>ms_locks := hm_remove i (ms_locks s)\<rparr>); ret (Inr True) }
          else ret (Inr False)
      | None \<Rightarrow> ret (Inr False)) }"

fun fetch_up_to ::
  "nat \<Rightarrow> string \<Rightarrow> string list option \<Rightarrow> ('p, 'e, storage_error + 'p job list) mact" where
  "fetch_up_to 0 wid queues = ret (Inr [])"
| "fetch_up_to (Suc n) wid queues = do {
     r \<leftarrow> mem_fetch_and_lock_job wid queues;
     (case r of
        Inl e \<Rightarrow> ret (Inl e)
      | Inr None \<Rightarrow> ret (Inr [])
      | Inr (Some j) \<Rightarrow> do {
          rest \<leftarrow> fetch_up_to n wid queues;
          ret (case rest of Inl e \<Rightarrow> Inl e | Inr js \<Rightarrow> Inr (j # js)) }) }"

definition mem_fetch_available_jobs_atomic ::
  "string \<Rightarrow> nat option \<Rightarrow> string list option \<Rightarrow> ('p, 'e, storage_error + 'p job list) mact" where
  "mem_fetch_available_jobs_atomic wid limit queues =
     fetch_up_to (min (case limit of None \<Rightarrow> 10 | Some n \<Rightarrow> n) 100) wid queues"

section \<open>\<^verbatim>\<open>RecurringStore\<close>\<close>

definition mem_upsert_recurring_job :: "'p recurring_job \<Rightarrow> ('p, 'e, storage_error + unit) mact" where
  "mem_upsert_recurring_job r = do {
     s \<leftarrow> get_store;
     put_store (s\<lparr>ms_recurring := hm_insert (rj_id r) r (ms_recurring s)\<rparr>);
     ret (Inr ()) }"

definition mem_remove_recurring_job :: "string \<Rightarrow> ('p, 'e, storage_error + bool) mact" where
  "mem_remove_recurring_job i = do {
     s \<leftarrow> get_store;
     put_store (s\<lparr>ms_recurring := hm_remove i (ms_recurring s)\<rparr>);
     ret (Inr (hm_contains (ms_recurring s) i)) }"

definition mem_list_recurring_jobs :: "('p, 'e, storage_error + 'p recurring_job list) mact" where
  "mem_list_recurring_jobs = do {
     s \<leftarrow> get_store;
     ret (Inr (sort_key rj_id (hm_values (ms_recurring s)))) }"

definition due_recurring :: "time \<Rightarrow> nat \<Rightarrow> (string, 'p recurring_job) hmap \<Rightarrow> 'p recurring_job list"
where
  "due_recurring now limit m =
     take limit (sort_key rj_next_run_at
       (filter (\<lambda>r. rj_enabled r \<and> rj_next_run_at r \<le> now) (hm_values m)))"

fun park_all ::
  "time \<Rightarrow> 'p recurring_job list \<Rightarrow> (string, 'p recurring_job) hmap \<Rightarrow> (string, 'p recurring_job) hmap"
where
  "park_all until [] m = m"
| "park_all until (r # rs) m =
     park_all until rs
       (case hm_get m (rj_id r) of
          None \<Rightarrow> m
        | Some stored \<Rightarrow> hm_insert (rj_id r) (stored\<lparr>rj_next_run_at := until\<rparr>) m)"

definition mem_fetch_due_recurring_jobs ::
  "time \<Rightarrow> nat \<Rightarrow> ('p, 'e, storage_error + 'p recurring_job list) mact" where
  "mem_fetch_due_recurring_jobs now limit = do {
     s \<leftarrow> get_store;
     let due = due_recurring now limit (ms_recurring s);
     put_store (s\<lparr>ms_recurring := park_all (now + dur_days 3650) due (ms_recurring s)\<rparr>);
     ret (Inr due) }"

section \<open>\<^verbatim>\<open>ServerRegistry\<close>\<close>

definition mem_register_server :: "server_info \<Rightarrow> ('p, 'e, storage_error + unit) mact" where
  "mem_register_server info = do {
     s \<leftarrow> get_store;
     put_store (s\<lparr>ms_servers := hm_insert (si_server_id info) info (ms_servers s)\<rparr>);
     ret (Inr ()) }"

definition mem_heartbeat_server :: "string \<Rightarrow> time \<Rightarrow> ('p, 'e, storage_error + bool) mact" where
  "mem_heartbeat_server sid now = do {
     s \<leftarrow> get_store;
     (case hm_get (ms_servers s) sid of
        Some info \<Rightarrow> do {
          put_store (s\<lparr>ms_servers := hm_insert sid (info\<lparr>si_last_heartbeat := now\<rparr>) (ms_servers s)\<rparr>);
          ret (Inr True) }
      | None \<Rightarrow> ret (Inr False)) }"

definition mem_deregister_server :: "string \<Rightarrow> ('p, 'e, storage_error + bool) mact" where
  "mem_deregister_server sid = do {
     s \<leftarrow> get_store;
     put_store (s\<lparr>ms_servers := hm_remove sid (ms_servers s)\<rparr>);
     ret (Inr (hm_contains (ms_servers s) sid)) }"

definition mem_list_dead_servers :: "time \<Rightarrow> ('p, 'e, storage_error + server_info list) mact" where
  "mem_list_dead_servers stale_before = do {
     s \<leftarrow> get_store;
     ret (Inr (filter (\<lambda>i. si_last_heartbeat i < stale_before) (hm_values (ms_servers s)))) }"

definition mem_reclaim_jobs_from_server :: "string \<Rightarrow> ('p, 'e, storage_error + nat) mact" where
  "mem_reclaim_jobs_from_server sid = do {
     s \<leftarrow> get_store;
     n \<leftarrow> requeue_loop (owned_by sid) (ms_jobs s);
     ret (Inr n) }"

section \<open>\<^verbatim>\<open>NamedLocks\<close>\<close>

definition mem_try_acquire_lock ::
  "string \<Rightarrow> string \<Rightarrow> nat \<Rightarrow> ('p, 'e, storage_error + bool) mact" where
  "mem_try_acquire_lock resource owner ttl = do {
     now \<leftarrow> utc_now;
     (case dur_from_std ttl of
        Inl e \<Rightarrow> ret (Inl (operation_failed (''try_acquire_lock: invalid ttl: '' @ e)))
      | Inr d \<Rightarrow> do {
          s \<leftarrow> get_store;
          if (case hm_get (ms_named_locks s) resource of
                Some existing \<Rightarrow> nl_expires_at existing > now \<and> nl_owner existing \<noteq> owner
              | None \<Rightarrow> False)
          then ret (Inr False)
          else do {
            put_store (s\<lparr>ms_named_locks := hm_insert resource
              \<lparr>nl_owner = owner, nl_expires_at = now + d\<rparr> (ms_named_locks s)\<rparr>);
            ret (Inr True) } }) }"

definition mem_release_lock :: "string \<Rightarrow> string \<Rightarrow> ('p, 'e, storage_error + bool) mact" where
  "mem_release_lock resource owner = do {
     s \<leftarrow> get_store;
     if (case hm_get (ms_named_locks s) resource of
           Some existing \<Rightarrow> nl_owner existing = owner | None \<Rightarrow> False)
     then do {
       put_store (s\<lparr>ms_named_locks := hm_remove resource (ms_named_locks s)\<rparr>);
       ret (Inr True) }
     else ret (Inr False) }"

definition mem_cleanup_expired_named_locks :: "time \<Rightarrow> ('p, 'e, storage_error + nat) mact" where
  "mem_cleanup_expired_named_locks now = do {
     s \<leftarrow> get_store;
     let locks = hm_retain (\<lambda>l. nl_expires_at l > now) (ms_named_locks s);
     put_store (s\<lparr>ms_named_locks := locks\<rparr>);
     ret (Inr (length (ms_named_locks s) - length locks)) }"

section \<open>The trait object\<close>

definition memory_storage_api :: "('p, 'p memory_storage, 'e) storage" where
  "memory_storage_api =
     \<lparr>st_get = mem_get, st_update = mem_update, st_update_if_state = mem_update_if_state,
      st_delete = mem_delete, st_list = mem_list, st_get_job_counts = mem_get_job_counts,
      st_enqueue = mem_enqueue, st_get_available_jobs = mem_get_available_jobs,
      st_fetch_due_scheduled_jobs = mem_fetch_due_scheduled_jobs,
      st_fetch_due_retry_jobs = mem_fetch_due_retry_jobs,
      st_claim_due_scheduled_jobs = mem_claim_due_scheduled_jobs,
      st_claim_due_retry_jobs = mem_claim_due_retry_jobs,
      st_delete_expired_jobs = mem_delete_expired_jobs,
      st_fetch_and_lock_job = mem_fetch_and_lock_job,
      st_fetch_available_jobs_atomic = mem_fetch_available_jobs_atomic,
      st_try_acquire_job_lock = mem_try_acquire_job_lock,
      st_release_job_lock = mem_release_job_lock,
      st_requeue_stranded_jobs = mem_requeue_stranded_jobs,
      st_upsert_recurring_job = mem_upsert_recurring_job,
      st_remove_recurring_job = mem_remove_recurring_job,
      st_list_recurring_jobs = mem_list_recurring_jobs,
      st_fetch_due_recurring_jobs = mem_fetch_due_recurring_jobs,
      st_register_server = mem_register_server, st_heartbeat_server = mem_heartbeat_server,
      st_deregister_server = mem_deregister_server,
      st_list_dead_servers = mem_list_dead_servers,
      st_reclaim_jobs_from_server = mem_reclaim_jobs_from_server,
      st_try_acquire_lock = mem_try_acquire_lock, st_release_lock = mem_release_lock,
      st_cleanup_expired_named_locks = mem_cleanup_expired_named_locks\<rparr>"

lemma memory_storage_api_simps [simp]:
  "st_get memory_storage_api = mem_get"
  "st_update memory_storage_api = mem_update"
  "st_update_if_state memory_storage_api = mem_update_if_state"
  "st_delete memory_storage_api = mem_delete"
  "st_list memory_storage_api = mem_list"
  "st_get_job_counts memory_storage_api = mem_get_job_counts"
  "st_enqueue memory_storage_api = mem_enqueue"
  "st_get_available_jobs memory_storage_api = mem_get_available_jobs"
  "st_fetch_due_scheduled_jobs memory_storage_api = mem_fetch_due_scheduled_jobs"
  "st_fetch_due_retry_jobs memory_storage_api = mem_fetch_due_retry_jobs"
  "st_claim_due_scheduled_jobs memory_storage_api = mem_claim_due_scheduled_jobs"
  "st_claim_due_retry_jobs memory_storage_api = mem_claim_due_retry_jobs"
  "st_delete_expired_jobs memory_storage_api = mem_delete_expired_jobs"
  "st_fetch_and_lock_job memory_storage_api = mem_fetch_and_lock_job"
  "st_fetch_available_jobs_atomic memory_storage_api = mem_fetch_available_jobs_atomic"
  "st_try_acquire_job_lock memory_storage_api = mem_try_acquire_job_lock"
  "st_release_job_lock memory_storage_api = mem_release_job_lock"
  "st_requeue_stranded_jobs memory_storage_api = mem_requeue_stranded_jobs"
  "st_upsert_recurring_job memory_storage_api = mem_upsert_recurring_job"
  "st_remove_recurring_job memory_storage_api = mem_remove_recurring_job"
  "st_list_recurring_jobs memory_storage_api = mem_list_recurring_jobs"
  "st_fetch_due_recurring_jobs memory_storage_api = mem_fetch_due_recurring_jobs"
  "st_register_server memory_storage_api = mem_register_server"
  "st_heartbeat_server memory_storage_api = mem_heartbeat_server"
  "st_deregister_server memory_storage_api = mem_deregister_server"
  "st_list_dead_servers memory_storage_api = mem_list_dead_servers"
  "st_reclaim_jobs_from_server memory_storage_api = mem_reclaim_jobs_from_server"
  "st_try_acquire_lock memory_storage_api = mem_try_acquire_lock"
  "st_release_lock memory_storage_api = mem_release_lock"
  "st_cleanup_expired_named_locks memory_storage_api = mem_cleanup_expired_named_locks"
  by (simp_all add: memory_storage_api_def)

end
