(* ===== verification/Memory_Contract.thy ===== *)
theory Memory_Contract
  imports Memory_Storage
begin

text \<open>
  The in-memory backend implements the storage contract: its representation invariant, what each
  method does to the job table, and the interpretation of the locale \<open>job_storage\<close>. The facts
  on the locks, on the recurring templates and on the order of the queue, which the contract does
  not speak of, follow.
\<close>

section \<open>Abstraction and invariant\<close>

definition mem_jobs :: "'p memory_storage \<Rightarrow> 'p jobs" where
  "mem_jobs s = hm_get (ms_jobs s)"

definition mem_inv :: "'p memory_storage \<Rightarrow> bool" where
  "mem_inv s \<longleftrightarrow>
     hm_wf (ms_jobs s) \<and> keyed (hm_get (ms_jobs s)) \<and> hm_wf (ms_locks s) \<and>
     hm_wf (ms_recurring s) \<and> (\<forall>i r. hm_get (ms_recurring s) i = Some r \<longrightarrow> rj_id r = i) \<and>
     hm_wf (ms_servers s) \<and> (\<forall>i v. hm_get (ms_servers s) i = Some v \<longrightarrow> si_server_id v = i) \<and>
     hm_wf (ms_named_locks s)"

lemma mem_inv_new: "mem_inv (mem_with_config c)"
  by (simp add: mem_inv_def mem_with_config_def keyed_def)

lemma keyed_insert: "keyed T \<Longrightarrow> job_id j = i \<Longrightarrow> keyed (T(i \<mapsto> j))"
  unfolding keyed_def by auto

lemma keyed_delete: "keyed T \<Longrightarrow> keyed (T(i := None))"
  unfolding keyed_def by auto

lemma keyedD: "keyed T \<Longrightarrow> T i = Some j \<Longrightarrow> job_id j = i"
  by (simp add: keyed_def)

lemma mem_inv_keyed: "mem_inv s \<Longrightarrow> keyed (mem_jobs s)"
  by (simp add: mem_inv_def mem_jobs_def)

lemma mem_inv_put_job:
  "mem_inv s \<Longrightarrow> job_id j = i \<Longrightarrow> mem_inv (s\<lparr>ms_jobs := hm_insert i j (ms_jobs s)\<rparr>)"
  by (simp add: mem_inv_def keyed_insert)

lemma mem_inv_remove_job:
  "mem_inv s \<Longrightarrow> mem_inv (s\<lparr>ms_jobs := hm_remove i (ms_jobs s)\<rparr>)"
  by (simp add: mem_inv_def keyed_delete)

lemma mem_inv_put_locks: "mem_inv s \<Longrightarrow> hm_wf ls \<Longrightarrow> mem_inv (s\<lparr>ms_locks := ls\<rparr>)"
  by (simp add: mem_inv_def)

lemma mem_jobs_put [simp]:
  "mem_jobs (s\<lparr>ms_jobs := hm_insert i j (ms_jobs s)\<rparr>) = (mem_jobs s)(i \<mapsto> j)"
  "mem_jobs (s\<lparr>ms_jobs := hm_remove i (ms_jobs s)\<rparr>) = (mem_jobs s)(i := None)"
  "mem_jobs (s\<lparr>ms_locks := ls\<rparr>) = mem_jobs s"
  "mem_jobs (s\<lparr>ms_recurring := rs\<rparr>) = mem_jobs s"
  "mem_jobs (s\<lparr>ms_servers := vs\<rparr>) = mem_jobs s"
  "mem_jobs (s\<lparr>ms_named_locks := ns\<rparr>) = mem_jobs s"
  by (simp_all add: mem_jobs_def)

lemma env_kept_tick [simp]: "env_kept w (w\<lparr>ticks := Suc (ticks w)\<rparr>)"
  by (simp add: env_kept_def)

text \<open>A job drawn from the values of the map is filed under its own id.\<close>

lemma mem_value_at:
  assumes "mem_inv s" and "j \<in> set (hm_values (ms_jobs s))"
  shows "mem_jobs s (job_id j) = Some j"
proof -
  from assms have "hm_wf (ms_jobs s)" by (simp add: mem_inv_def)
  with assms(2) obtain i where "mem_jobs s i = Some j"
    unfolding mem_jobs_def using hm_values_iff by metis
  moreover from this have "job_id j = i"
    using mem_inv_keyed [OF assms(1)] by (rule keyedD [rotated])
  ultimately show ?thesis by simp
qed

section \<open>Reads and single writes\<close>

lemma mem_get_law:
  "mem_inv (store w) \<Longrightarrow>
   wp (mem_get i) (\<lambda>r w'. env_kept w w' \<and> mem_inv (store w')
     \<and> mem_jobs (store w') = mem_jobs (store w)
     \<and> (\<forall>v. r = Inr v \<longrightarrow> v = mem_jobs (store w) i)) w"
  by (simp add: mem_get_def wp_simps mem_jobs_def)

lemma mem_update_law:
  "mem_inv (store w) \<Longrightarrow>
   wp (mem_update j) (\<lambda>r w'. env_kept w w' \<and> mem_inv (store w') \<and>
     (case r of
        Inl e \<Rightarrow> mem_jobs (store w') = mem_jobs (store w)
      | Inr _ \<Rightarrow> job_id j \<in> dom (mem_jobs (store w))
                 \<and> mem_jobs (store w') = (mem_jobs (store w))(job_id j \<mapsto> j))) w"
  by (auto simp: mem_update_def wp_simps mem_inv_put_job mem_jobs_def)

lemma mem_update_if_state_law:
  "mem_inv (store w) \<Longrightarrow>
   wp (mem_update_if_state j k) (\<lambda>r w'. env_kept w w' \<and> mem_inv (store w') \<and>
     (case r of
        Inl e \<Rightarrow> mem_jobs (store w') = mem_jobs (store w)
      | Inr b \<Rightarrow> (\<exists>j0. mem_jobs (store w) (job_id j) = Some j0 \<and> b = (kind (job_state j0) = k))
                 \<and> mem_jobs (store w') =
                     (if b then (mem_jobs (store w))(job_id j \<mapsto> j) else mem_jobs (store w)))) w"
  by (auto simp: mem_update_if_state_def wp_simps mem_inv_put_job mem_jobs_def split: option.split)

lemma mem_delete_law:
  "mem_inv (store w) \<Longrightarrow>
   wp (mem_delete i) (\<lambda>r w'. env_kept w w' \<and> mem_inv (store w') \<and>
     (case r of
        Inl e \<Rightarrow> mem_jobs (store w') = mem_jobs (store w)
      | Inr b \<Rightarrow> b = (i \<in> dom (mem_jobs (store w)))
                 \<and> mem_jobs (store w') = (mem_jobs (store w))(i := None))) w"
  by (auto simp: mem_delete_def wp_simps mem_inv_remove_job mem_jobs_def)

lemma mem_enqueue_law:
  "mem_inv (store w) \<Longrightarrow>
   wp (mem_enqueue j) (\<lambda>r w'. env_kept w w' \<and> mem_inv (store w') \<and>
     (case r of
        Inl e \<Rightarrow> mem_jobs (store w') = mem_jobs (store w)
      | Inr _ \<Rightarrow> mem_jobs (store w') = (mem_jobs (store w))(job_id j \<mapsto> j))) w"
  by (simp add: mem_enqueue_def mem_enqueue_check_def mem_enqueue_write_def wp_simps mem_inv_put_job)

section \<open>Claims\<close>

lemma mem_set_due_ids_subset:
  assumes "mem_inv s"
  shows "set (due_ids due n (ms_jobs s)) \<subseteq> {i. \<exists>j. mem_jobs s i = Some j \<and> due (job_state j)}"
  using mem_value_at [OF assms] by (fastforce simp: due_ids_def dest: in_set_takeD)

lemma mem_distinct_due_ids:
  assumes "mem_inv s"
  shows "distinct (due_ids due n (ms_jobs s))"
proof -
  have "map job_id (hm_values (ms_jobs s)) = map fst (ms_jobs s)"
    using assms mem_value_at [OF assms]
    by (auto simp: mem_inv_def mem_jobs_def keyed_def hm_get_in_set)
  moreover have "distinct (map fst (ms_jobs s))"
    using assms by (simp add: mem_inv_def hm_wf_def)
  ultimately have "distinct (map job_id (hm_values (ms_jobs s)))" by metis
  then show ?thesis
    unfolding due_ids_def by (intro distinct_take) (simp add: distinct_map_filter del: map_map)
qed

lemma requeued_step:
  assumes "T i = Some j" and "i \<notin> I"
    and "requeued I (T(i \<mapsto> j\<lparr>job_state := Enqueued t (job_queue j)\<rparr>)) T'"
  shows "requeued (insert i I) T T'"
proof -
  have "\<exists>t. T' k = map_option (\<lambda>j. j\<lparr>job_state := Enqueued t (job_queue j)\<rparr>) (T k)"
    if "k \<in> insert i I" for k
  proof (cases "k = i")
    case True
    with assms show ?thesis by (auto simp: requeued_def)
  next
    case False
    with that have "k \<in> I" by simp
    with assms(3) have "\<exists>u. T' k = map_option (\<lambda>j. j\<lparr>job_state := Enqueued u (job_queue j)\<rparr>)
        ((T(i \<mapsto> j\<lparr>job_state := Enqueued t (job_queue j)\<rparr>)) k)"
      unfolding requeued_def by blast
    with False show ?thesis by simp
  qed
  moreover have "T' k = T k" if "k \<notin> insert i I" for k
    using that assms(3) by (simp add: requeued_def)
  moreover have "insert i I \<subseteq> dom T"
    using assms by (auto simp: requeued_def split: if_splits)
  ultimately show ?thesis by (simp add: requeued_def)
qed

text \<open>The claiming loop requeues exactly the ids it is given, and returns what it stored.\<close>

lemma claim_loop_wp:
  fixes w :: "('p memory_storage, 'e) world"
  assumes "mem_inv (store w)" and "distinct is" and "set is \<subseteq> dom (mem_jobs (store w))"
  shows "wp (claim_loop is) (\<lambda>js w'. env_kept w w' \<and> mem_inv (store w')
           \<and> map job_id js = is
           \<and> (\<forall>j \<in> set js. mem_jobs (store w') (job_id j) = Some j)
           \<and> requeued (set is) (mem_jobs (store w)) (mem_jobs (store w'))
           \<and> ms_locks (store w') = ms_locks (store w)) w"
  using assms
proof (induction "is" arbitrary: w)
  case Nil
  then show ?case by (simp add: wp_simps requeued_empty)
next
  case (Cons i "is")
  then obtain j where j: "mem_jobs (store w) i = Some j" by auto
  then have get: "hm_get (ms_jobs (store w)) i = Some j" by (simp add: mem_jobs_def)
  have id_j: "job_id j = i" using mem_inv_keyed [OF Cons.prems(1)] j by (rule keyedD)
  define j' where "j' = j\<lparr>job_state := Enqueued (clock w (ticks w)) (job_queue j)\<rparr>"
  define w1 where "w1 = w\<lparr>ticks := Suc (ticks w),
      store := (store w)\<lparr>ms_jobs := hm_insert i j' (ms_jobs (store w))\<rparr>\<rparr>"
  have T1: "mem_jobs (store w1) = (mem_jobs (store w))(i \<mapsto> j')" by (simp add: w1_def)
  have inv1: "mem_inv (store w1)"
    using Cons.prems(1) id_j by (simp add: w1_def j'_def mem_inv_put_job)
  have unfold: "wp (claim_loop (i # is)) Q w = wp (claim_loop is) (\<lambda>js. Q (j' # js)) w1" for Q
    using get by (simp add: wp_simps j'_def w1_def)
  have IH: "wp (claim_loop is) (\<lambda>js w'. env_kept w1 w' \<and> mem_inv (store w')
           \<and> map job_id js = is
           \<and> (\<forall>j \<in> set js. mem_jobs (store w') (job_id j) = Some j)
           \<and> requeued (set is) (mem_jobs (store w1)) (mem_jobs (store w'))
           \<and> ms_locks (store w') = ms_locks (store w1)) w1"
    using Cons.prems inv1 T1 by (intro Cons.IH) auto
  have kept: "env_kept w w1" and locks: "ms_locks (store w1) = ms_locks (store w)"
    by (simp_all add: w1_def env_kept_def)
  have rq: "requeued (set (i # is)) (mem_jobs (store w)) T'"
    if "requeued (set is) (mem_jobs (store w1)) T'" for T'
    using that Cons.prems(2) requeued_step [of "mem_jobs (store w)", OF j] by (simp add: T1 j'_def)
  have head: "T' i = Some j'" if "requeued (set is) (mem_jobs (store w1)) T'" for T'
    using that Cons.prems(2) by (simp add: requeued_def T1)
  have id_j': "job_id j' = i" using id_j by (simp add: j'_def)
  show ?case
    unfolding unfold
    by (rule wp_mono [OF IH]) (use rq head kept locks id_j' env_kept_trans in auto)
qed

lemma mem_claim_due_law:
  fixes w :: "('p memory_storage, 'e) world"
  assumes inv: "mem_inv (store w)"
  shows "wp (mem_claim_due due n) (\<lambda>r w'. env_kept w w' \<and> mem_inv (store w') \<and>
     (case r of
        Inl e \<Rightarrow> mem_jobs (store w') = mem_jobs (store w)
      | Inr js \<Rightarrow> claim_spec due n (mem_jobs (store w)) js (mem_jobs (store w')))) w"
proof -
  let ?is = "due_ids due n (ms_jobs (store w))"
  have sub: "set ?is \<subseteq> {i. \<exists>j. mem_jobs (store w) i = Some j \<and> due (job_state j)}"
    by (rule mem_set_due_ids_subset [OF inv])
  have len: "length ?is \<le> n" by (simp add: due_ids_def)
  have dist: "distinct ?is" by (rule mem_distinct_due_ids [OF inv])
  have "wp (claim_loop ?is) (\<lambda>js w'. env_kept w w' \<and> mem_inv (store w')
           \<and> map job_id js = ?is
           \<and> (\<forall>j \<in> set js. mem_jobs (store w') (job_id j) = Some j)
           \<and> requeued (set ?is) (mem_jobs (store w)) (mem_jobs (store w'))
           \<and> ms_locks (store w') = ms_locks (store w)) w"
    using inv dist sub by (intro claim_loop_wp) auto
  then show ?thesis
    unfolding mem_claim_due_def wp_simps sum.case
  proof (rule wp_mono)
    fix js :: "'p job list" and w' :: "('p memory_storage, 'e) world"
    assume post: "env_kept w w' \<and> mem_inv (store w') \<and> map job_id js = ?is
           \<and> (\<forall>j \<in> set js. mem_jobs (store w') (job_id j) = Some j)
           \<and> requeued (set ?is) (mem_jobs (store w)) (mem_jobs (store w'))
           \<and> ms_locks (store w') = ms_locks (store w)"
    then have ids: "map job_id js = ?is" by blast
    then have "job_id ` set js = set ?is" "length js \<le> n"
      using len by (metis set_map, metis length_map)
    with post sub dist show "env_kept w w' \<and> mem_inv (store w')
           \<and> claim_spec due n (mem_jobs (store w)) js (mem_jobs (store w'))"
      unfolding claim_spec_def ids by auto
  qed
qed

section \<open>Requeueing loops\<close>

text \<open>The loop over the table: exactly the matching jobs are requeued, their locks are dropped,
  and their number is returned.\<close>

lemma requeue_loop_wp:
  fixes w :: "('p memory_storage, 'e) world"
  assumes "mem_inv (store w)" and "distinct (map fst es)"
    and "\<forall>e \<in> set es. mem_jobs (store w) (fst e) = Some (snd e)"
  shows "wp (requeue_loop P es) (\<lambda>n w'. env_kept w w' \<and> mem_inv (store w')
           \<and> n = length (filter (\<lambda>e. P (job_state (snd e))) es)
           \<and> requeued {fst e |e. e \<in> set es \<and> P (job_state (snd e))}
                (mem_jobs (store w)) (mem_jobs (store w'))
           \<and> hm_get (ms_locks (store w')) = (hm_get (ms_locks (store w)))
                |` (- {fst e |e. e \<in> set es \<and> P (job_state (snd e))})) w"
  using assms
proof (induction es arbitrary: w)
  case Nil
  then show ?case by (simp add: wp_simps requeued_empty)
next
  case (Cons e es)
  let ?I = "{fst e |e. e \<in> set es \<and> P (job_state (snd e))}"
  obtain i j where e: "e = (i, j)" by (cases e)
  have j: "mem_jobs (store w) i = Some j" using Cons.prems(3) e by simp
  have id_j: "job_id j = i" using mem_inv_keyed [OF Cons.prems(1)] j by (rule keyedD)
  show ?case
  proof (cases "P (job_state j)")
    case False
    then have "{fst ea |ea. ea \<in> set (e # es) \<and> P (job_state (snd ea))} = ?I" using e by auto
    then show ?thesis using Cons e False by simp
  next
    case True
    define j' where "j' = j\<lparr>job_state := Enqueued (clock w (ticks w)) (job_queue j)\<rparr>"
    define w1 where "w1 = w\<lparr>ticks := Suc (ticks w),
      store := (store w)\<lparr>ms_locks := hm_remove i (ms_locks (store w)),
                         ms_jobs := hm_insert i j' (ms_jobs (store w))\<rparr>\<rparr>"
    have T1: "mem_jobs (store w1) = (mem_jobs (store w))(i \<mapsto> j')"
      by (simp add: w1_def mem_jobs_def)
    have inv1: "mem_inv (store w1)"
      using mem_inv_put_job [OF mem_inv_put_locks [OF Cons.prems(1)], of "hm_remove i (ms_locks (store w))" j' i]
        Cons.prems(1) id_j by (simp add: w1_def j'_def mem_inv_def)
    have unfold: "wp (requeue_loop P (e # es)) Q w = wp (requeue_loop P es) (\<lambda>n. Q (Suc n)) w1" for Q
      using True e id_j by (simp add: wp_simps j'_def w1_def)
    have IH: "wp (requeue_loop P es) (\<lambda>n w'. env_kept w1 w' \<and> mem_inv (store w')
           \<and> n = length (filter (\<lambda>e. P (job_state (snd e))) es)
           \<and> requeued ?I (mem_jobs (store w1)) (mem_jobs (store w'))
           \<and> hm_get (ms_locks (store w')) = (hm_get (ms_locks (store w1))) |` (- ?I)) w1"
      using Cons.prems inv1 T1 e by (intro Cons.IH) (auto simp: image_iff)
    have I: "{fst ea |ea. ea \<in> set (e # es) \<and> P (job_state (snd ea))} = insert i ?I"
      using True e by auto
    have "i \<notin> ?I" using Cons.prems(2) e by (auto simp: image_iff)
    then have rq: "requeued (insert i ?I) (mem_jobs (store w)) T'"
      if "requeued ?I (mem_jobs (store w1)) T'" for T'
      using that requeued_step [of "mem_jobs (store w)", OF j] by (simp add: T1 j'_def)
    have locks: "(hm_get (ms_locks (store w1))) |` (- ?I) = (hm_get (ms_locks (store w))) |` (- insert i ?I)"
      by (auto simp: w1_def restrict_map_def fun_eq_iff)
    have kept: "env_kept w w1" by (simp add: w1_def env_kept_def)
    show ?thesis
      unfolding unfold I
      by (rule wp_mono [OF IH]) (use True e rq kept env_kept_trans locks in auto)
  qed
qed

lemma mem_requeue_law:
  fixes w :: "('p memory_storage, 'e) world"
  assumes inv: "mem_inv (store w)"
  shows "wp (requeue_loop P (ms_jobs (store w))) (\<lambda>n w'. env_kept w w' \<and> mem_inv (store w')
           \<and> n = length (filter (\<lambda>e. P (job_state (snd e))) (ms_jobs (store w)))
           \<and> requeued {i. \<exists>j. mem_jobs (store w) i = Some j \<and> P (job_state j)}
                (mem_jobs (store w)) (mem_jobs (store w'))
           \<and> hm_get (ms_locks (store w')) = (hm_get (ms_locks (store w)))
                |` (- {i. \<exists>j. mem_jobs (store w) i = Some j \<and> P (job_state j)})) w"
proof -
  have wf: "hm_wf (ms_jobs (store w))" using inv by (simp add: mem_inv_def)
  have "{fst e |e. e \<in> set (ms_jobs (store w)) \<and> P (job_state (snd e))}
      = {i. \<exists>j. mem_jobs (store w) i = Some j \<and> P (job_state j)}"
    unfolding mem_jobs_def hm_get_in_set [OF wf] by force
  moreover have "distinct (map fst (ms_jobs (store w)))" using wf by (simp add: hm_wf_def)
  moreover have "\<forall>e \<in> set (ms_jobs (store w)). mem_jobs (store w) (fst e) = Some (snd e)"
    using wf by (simp add: mem_jobs_def hm_get_in_set)
  ultimately show ?thesis
    using requeue_loop_wp [OF inv, of "ms_jobs (store w)" P] by simp
qed

lemma mem_requeue_stranded_law:
  fixes w :: "('p memory_storage, 'e) world"
  assumes "mem_inv (store w)"
  shows "wp (mem_requeue_stranded_jobs stale_before) (\<lambda>r w'. env_kept w w' \<and> mem_inv (store w') \<and>
        (case r of
           Inl e \<Rightarrow> mem_jobs (store w') = mem_jobs (store w)
         | Inr n \<Rightarrow> requeued {i. \<exists>j. mem_jobs (store w) i = Some j \<and> stranded stale_before (job_state j)}
                      (mem_jobs (store w)) (mem_jobs (store w')))) w"
  unfolding mem_requeue_stranded_jobs_def wp_simps sum.case
  by (rule wp_mono [OF mem_requeue_law [OF assms]]) simp

lemma mem_reclaim_law:
  fixes w :: "('p memory_storage, 'e) world"
  assumes "mem_inv (store w)"
  shows "wp (mem_reclaim_jobs_from_server sid) (\<lambda>r w'. env_kept w w' \<and> mem_inv (store w') \<and>
        (case r of
           Inl e \<Rightarrow> mem_jobs (store w') = mem_jobs (store w)
         | Inr n \<Rightarrow> requeued {i. \<exists>j. mem_jobs (store w) i = Some j \<and> owned_by sid (job_state j)}
                      (mem_jobs (store w)) (mem_jobs (store w')))) w"
  unfolding mem_reclaim_jobs_from_server_def wp_simps sum.case
  by (rule wp_mono [OF mem_requeue_law [OF assms]]) simp

section \<open>Expiry\<close>

lemma mem_delete_expired_table:
  assumes "mem_inv s"
  shows "hm_get (hm_retain (\<lambda>j. case job_expires_at j of Some ts \<Rightarrow> ts > now | None \<Rightarrow> True) (ms_jobs s)) i =
     (case mem_jobs s i of None \<Rightarrow> None | Some j \<Rightarrow> if expired now j then None else Some j)"
  using assms
  by (auto simp: hm_get_retain mem_inv_def mem_jobs_def expired_def split: option.splits)

lemma mem_delete_expired_wp:
  fixes w :: "('p memory_storage, 'e) world"
  assumes inv: "mem_inv (store w)"
  shows "wp (mem_delete_expired_jobs now) (\<lambda>r w'. env_kept w w' \<and> mem_inv (store w')
     \<and> (\<forall>i. mem_jobs (store w') i = (case mem_jobs (store w) i of None \<Rightarrow> None
                    | Some j \<Rightarrow> if expired now j then None else Some j))) w"
proof -
  let ?P = "\<lambda>j. case job_expires_at j of Some ts \<Rightarrow> ts > now | None \<Rightarrow> True"
  let ?s = "(store w)\<lparr>ms_jobs := hm_retain ?P (ms_jobs (store w))\<rparr>"
  have T: "mem_jobs ?s i = (case mem_jobs (store w) i of None \<Rightarrow> None
                    | Some j \<Rightarrow> if expired now j then None else Some j)" for i
    using mem_delete_expired_table [OF inv, of now i] by (simp add: mem_jobs_def)
  have "keyed (mem_jobs ?s)"
    using mem_inv_keyed [OF inv] unfolding keyed_def T by (auto split: option.splits if_splits)
  then have "mem_inv ?s" using inv by (simp add: mem_inv_def mem_jobs_def)
  with T show ?thesis by (simp add: mem_delete_expired_jobs_def wp_simps Let_def)
qed

lemma mem_delete_expired_law:
  fixes w :: "('p memory_storage, 'e) world"
  assumes "mem_inv (store w)"
  shows "wp (mem_delete_expired_jobs now) (\<lambda>r w'. env_kept w w' \<and> mem_inv (store w') \<and>
        (case r of
           Inl e \<Rightarrow> mem_jobs (store w') = mem_jobs (store w)
         | Inr n \<Rightarrow> (\<forall>i. mem_jobs (store w') i \<noteq> mem_jobs (store w) i \<longrightarrow>
                      mem_jobs (store w') i = None
                      \<and> (\<exists>j. mem_jobs (store w) i = Some j \<and> expired now j)))) w"
proof -
  have "wp (mem_delete_expired_jobs now) (\<lambda>r w'. isl r \<longrightarrow> False) w"
    by (simp add: mem_delete_expired_jobs_def wp_simps Let_def)
  then show ?thesis
    by (rule wp_mono [OF wp_conjI [OF mem_delete_expired_wp [OF assms]]])
       (auto split: sum.splits option.splits if_splits)
qed

section \<open>A worker's fetch\<close>

text \<open>\<open>find\<close> on a list sorted by a key returns a least matching element.\<close>

lemma find_sorted_min:
  "sorted (map f xs) \<Longrightarrow> find P xs = Some x \<Longrightarrow>
     x \<in> set xs \<and> P x \<and> (\<forall>y \<in> set xs. P y \<longrightarrow> f x \<le> f y)"
  by (induction xs) (auto split: if_splits)

definition lockable :: "string list option \<Rightarrow> (string, job_lock) hmap \<Rightarrow> 'p job \<Rightarrow> bool" where
  "lockable queues locks j \<longleftrightarrow> queue_ok queues (job_queue j) \<and> \<not> hm_contains locks (job_id j)"

lemma lock_first_wp:
  "wp (lock_first wid queues js) Q w =
     (case find (lockable queues (ms_locks (store w))) js of
        None \<Rightarrow> Q None w
      | Some j \<Rightarrow>
          Q (Some (j\<lparr>job_state := Processing (clock w (Suc (ticks w))) wid ''memory-storage''\<rparr>))
            (w\<lparr>ticks := Suc (Suc (ticks w)),
               store := (store w)\<lparr>
                 ms_locks := hm_insert (job_id j)
                   \<lparr>jl_worker_id = wid, jl_expires_at = clock w (ticks w) + dur_minutes 30\<rparr>
                   (ms_locks (store w)),
                 ms_jobs := hm_insert (job_id j)
                   (j\<lparr>job_state := Processing (clock w (Suc (ticks w))) wid ''memory-storage''\<rparr>)
                   (ms_jobs (store w))\<rparr>\<rparr>))"
proof (induction js)
  case Nil
  show ?case by (simp add: wp_simps)
next
  case (Cons j js)
  have skip: "(case queues of None \<Rightarrow> False | Some qs \<Rightarrow> qs \<noteq> [] \<and> job_queue j \<notin> set qs)
      = (\<not> queue_ok queues (job_queue j))"
    by (simp add: queue_ok_def split: option.split)
  show ?case
    by (simp add: wp_simps skip Cons.IH lockable_def Let_def del: not_None_eq)
qed

definition live_locks :: "time \<Rightarrow> 'p memory_storage \<Rightarrow> (string, job_lock) hmap" where
  "live_locks now s = hm_retain (\<lambda>l. jl_expires_at l > now) (ms_locks s)"

text \<open>The jobs a worker may take: available at the second reading of the clock, of an accepted
  queue, and not covered by a lock that is alive at the first.\<close>

definition eligible :: "time \<Rightarrow> time \<Rightarrow> string list option \<Rightarrow> 'p memory_storage \<Rightarrow> 'p job \<Rightarrow> bool" where
  "eligible t0 t1 queues s j \<longleftrightarrow>
     mem_jobs s (job_id j) = Some j \<and> available t1 (job_state j)
     \<and> lockable queues (live_locks t0 s) j"

definition fetch_list :: "time \<Rightarrow> 'p memory_storage \<Rightarrow> 'p job list" where
  "fetch_list now s = sort_key prio_key (filter (\<lambda>j. available now (job_state j)) (hm_values (ms_jobs s)))"

lemma set_fetch_list:
  assumes "mem_inv s"
  shows "j \<in> set (fetch_list now s) \<longleftrightarrow> mem_jobs s (job_id j) = Some j \<and> available now (job_state j)"
proof -
  have "hm_wf (ms_jobs s)" using assms by (simp add: mem_inv_def)
  then have "j \<in> set (hm_values (ms_jobs s)) \<longleftrightarrow> mem_jobs s (job_id j) = Some j"
    using mem_value_at [OF assms] hm_values_iff unfolding mem_jobs_def by metis
  then show ?thesis by (auto simp: fetch_list_def)
qed

lemma mem_fetch_wp:
  fixes w :: "('p memory_storage, 'e) world"
  defines "t0 \<equiv> clock w (ticks w)" and "t1 \<equiv> clock w (Suc (ticks w))"
    and "t2 \<equiv> clock w (Suc (Suc (ticks w)))" and "t3 \<equiv> clock w (Suc (Suc (Suc (ticks w))))"
  shows "wp (mem_fetch_and_lock_job wid queues) Q w =
     (case find (lockable queues (live_locks t0 (store w))) (fetch_list t1 (store w)) of
        None \<Rightarrow> Q (Inr None) (w\<lparr>store := (store w)\<lparr>ms_locks := live_locks t0 (store w)\<rparr>,
                                ticks := Suc (Suc (ticks w))\<rparr>)
      | Some j \<Rightarrow>
          Q (Inr (Some (j\<lparr>job_state := Processing t3 wid ''memory-storage''\<rparr>)))
            (w\<lparr>ticks := Suc (Suc (Suc (Suc (ticks w)))),
               store := (store w)\<lparr>
                 ms_locks := hm_insert (job_id j)
                   \<lparr>jl_worker_id = wid, jl_expires_at = t2 + dur_minutes 30\<rparr>
                   (live_locks t0 (store w)),
                 ms_jobs := hm_insert (job_id j)
                   (j\<lparr>job_state := Processing t3 wid ''memory-storage''\<rparr>)
                   (ms_jobs (store w))\<rparr>\<rparr>))"
  by (simp add: mem_fetch_and_lock_job_def cleanup_expired_locks_def get_available_jobs_internal_def
      wp_simps Let_def lock_first_wp live_locks_def fetch_list_def t0_def t1_def t2_def t3_def
      cong: option.case_cong)

lemma mem_find_eligible:
  assumes inv: "mem_inv s"
  shows "case find (lockable queues (live_locks t0 s)) (fetch_list t1 s) of
           None \<Rightarrow> \<not> (\<exists>j. eligible t0 t1 queues s j)
         | Some j \<Rightarrow> eligible t0 t1 queues s j
             \<and> (\<forall>k. eligible t0 t1 queues s k \<longrightarrow> prio_key j \<le> prio_key k)"
proof -
  have el: "eligible t0 t1 queues s j \<longleftrightarrow>
      j \<in> set (fetch_list t1 s) \<and> lockable queues (live_locks t0 s) j" for j
    by (auto simp: eligible_def set_fetch_list [OF inv])
  have "sorted (map prio_key (fetch_list t1 s))" by (simp add: fetch_list_def)
  then show ?thesis
    by (auto simp: el find_None_iff dest: find_sorted_min split: option.split)
qed

lemma hm_wf_live_locks: "mem_inv s \<Longrightarrow> hm_wf (live_locks t s)"
  by (simp add: live_locks_def mem_inv_def)

text \<open>What a fetch does, in one statement: nothing eligible and nothing returned, or a least
  eligible job claimed.\<close>

lemma mem_fetch_spec:
  fixes w :: "('p memory_storage, 'e) world"
  defines "t0 \<equiv> clock w (ticks w)" and "t1 \<equiv> clock w (Suc (ticks w))"
    and "t2 \<equiv> clock w (Suc (Suc (ticks w)))" and "t3 \<equiv> clock w (Suc (Suc (Suc (ticks w))))"
  assumes inv: "mem_inv (store w)"
  shows "wp (mem_fetch_and_lock_job wid queues) (\<lambda>r w'. env_kept w w' \<and> mem_inv (store w') \<and>
     (if \<exists>j. eligible t0 t1 queues (store w) j
      then \<exists>j. eligible t0 t1 queues (store w) j
             \<and> (\<forall>k. eligible t0 t1 queues (store w) k \<longrightarrow> prio_key j \<le> prio_key k)
             \<and> r = Inr (Some (j\<lparr>job_state := Processing t3 wid ''memory-storage''\<rparr>))
             \<and> mem_jobs (store w') =
                 (mem_jobs (store w))(job_id j \<mapsto> j\<lparr>job_state := Processing t3 wid ''memory-storage''\<rparr>)
             \<and> hm_get (ms_locks (store w')) =
                 (hm_get (live_locks t0 (store w)))
                   (job_id j \<mapsto> \<lparr>jl_worker_id = wid, jl_expires_at = t2 + dur_minutes 30\<rparr>)
      else r = Inr None \<and> mem_jobs (store w') = mem_jobs (store w)
             \<and> ms_locks (store w') = live_locks t0 (store w))) w"
proof (cases "find (lockable queues (live_locks t0 (store w))) (fetch_list t1 (store w))")
  case None
  have "\<not> (\<exists>j. eligible t0 t1 queues (store w) j)"
    using mem_find_eligible [OF inv, of t0 t1 queues] None by simp
  then show ?thesis
    using None inv mem_inv_put_locks [OF inv hm_wf_live_locks [OF inv]]
    unfolding mem_fetch_wp t0_def t1_def by (auto simp: env_kept_def)
next
  case (Some j)
  have best: "eligible t0 t1 queues (store w) j"
      "\<forall>k. eligible t0 t1 queues (store w) k \<longrightarrow> prio_key j \<le> prio_key k"
    using mem_find_eligible [OF inv, of t0 t1 queues] Some by simp_all
  let ?j = "j\<lparr>job_state := Processing t3 wid ''memory-storage''\<rparr>"
  let ?l = "\<lparr>jl_worker_id = wid, jl_expires_at = t2 + dur_minutes 30\<rparr>"
  let ?s = "(store w)\<lparr>ms_locks := hm_insert (job_id j) ?l (live_locks t0 (store w)),
      ms_jobs := hm_insert (job_id j) ?j (ms_jobs (store w))\<rparr>"
  have "mem_inv ?s"
    using mem_inv_put_job [OF mem_inv_put_locks [OF inv, of "hm_insert (job_id j) ?l (live_locks t0 (store w))"], of ?j "job_id j"]
      hm_wf_live_locks [OF inv] by simp
  moreover have "mem_jobs ?s = (mem_jobs (store w))(job_id j \<mapsto> ?j)" by (simp add: mem_jobs_def)
  ultimately show ?thesis
    using Some best
    unfolding mem_fetch_wp t0_def t1_def t2_def t3_def by (auto simp: env_kept_def)
qed

lemma mem_fetch_law:
  fixes w :: "('p memory_storage, 'e) world"
  assumes inv: "mem_inv (store w)"
  shows "wp (mem_fetch_and_lock_job wid qs) (\<lambda>r w'. env_kept w w' \<and> mem_inv (store w') \<and>
        (case r of
           Inl e \<Rightarrow> mem_jobs (store w') = mem_jobs (store w)
         | Inr v \<Rightarrow> fetch_spec wid qs (mem_jobs (store w)) v (mem_jobs (store w')))) w"
  by (rule wp_mono [OF mem_fetch_spec [OF inv]])
     (auto simp: fetch_spec_def eligible_def lockable_def split: if_splits, blast+)

section \<open>The interpretation\<close>

interpretation mem: job_storage memory_storage_api mem_jobs mem_inv
  unfolding memory_storage_api_def
proof (unfold_locales, goal_cases)
  case (1 s) then show ?case by (rule mem_inv_keyed)
next
  case (2 w i) then show ?case by (simp add: mem_get_law)
next
  case (3 w j) then show ?case by (simp add: mem_update_law)
next
  case (4 w j k) then show ?case by (simp add: mem_update_if_state_law)
next
  case (5 w i) then show ?case by (simp add: mem_delete_law)
next
  case (6 w j) then show ?case by (simp add: mem_enqueue_law)
next
  case (7 w now n) then show ?case
    by (simp add: mem_claim_due_scheduled_jobs_def mem_claim_due_law)
next
  case (8 w now n) then show ?case
    by (simp add: mem_claim_due_retry_jobs_def mem_claim_due_law)
next
  case (9 w wid qs) then show ?case by (simp add: mem_fetch_law)
next
  case (10 w now) then show ?case by (simp add: mem_delete_expired_law)
next
  case (11 w before) then show ?case by (simp add: mem_requeue_stranded_law)
next
  case (12 w sid) then show ?case by (simp add: mem_reclaim_law)
qed

end
