(* ===== verification/Samples.thy ===== *)
theory Samples
  imports Memory_Contract
begin

text \<open>
  Concrete jobs and small tables on which the properties of the storage and of its clients are
  instantiated.
\<close>

definition sample_job :: "string \<Rightarrow> i32 \<Rightarrow> time \<Rightarrow> job_state \<Rightarrow> unit job" where
  "sample_job i prio created st =
     \<lparr>job_id = i, job_method = ''m'', job_payload = (), job_created_at = created,
      job_state = st, job_queue = ''default'', job_priority = prio, job_max_retries = 3,
      job_attempt = 0, job_metadata = [], job_type = None, job_timeout_seconds = None,
      job_expires_at = None\<rparr>"

definition sample_memory :: "unit job list \<Rightarrow> unit memory_storage" where
  "sample_memory js = (mem_new :: unit memory_storage)\<lparr>ms_jobs := map (\<lambda>j. (job_id j, j)) js\<rparr>"

lemma sample_job_simps [simp]:
  "job_id (sample_job i p c st) = i" "job_state (sample_job i p c st) = st"
  "job_priority (sample_job i p c st) = p" "job_created_at (sample_job i p c st) = c"
  "job_queue (sample_job i p c st) = ''default''" "job_expires_at (sample_job i p c st) = None"
  "job_attempt (sample_job i p c st) = 0" "job_max_retries (sample_job i p c st) = 3"
  "job_method (sample_job i p c st) = ''m''"
  by (simp_all add: sample_job_def)

lemma sample_memory_simps [simp]:
  "ms_jobs (sample_memory js) = map (\<lambda>j. (job_id j, j)) js"
  "ms_locks (sample_memory js) = []" "ms_recurring (sample_memory js) = []"
  "ms_servers (sample_memory js) = []" "ms_named_locks (sample_memory js) = []"
  by (simp_all add: sample_memory_def mem_new_def mem_with_config_def)

lemma map_of_keyed_list: "map_of (map (\<lambda>j. (job_id j, j)) js) i = Some j \<Longrightarrow> job_id j = i"
  by (induction js) (auto split: if_splits)

lemma sample_memory_inv [simp]: "distinct (map job_id js) \<Longrightarrow> mem_inv (sample_memory js)"
  by (auto simp: mem_inv_def hm_wf_def comp_def keyed_def dest: map_of_keyed_list)

lemma sample_memory_jobs [simp]:
  "mem_jobs (sample_memory js) = map_of (map (\<lambda>j. (job_id j, j)) js)"
  by (simp add: mem_jobs_def)

end
