(* ===== verification/Memory_Props.thy ===== *)
theory Memory_Props
  imports Samples "HOL-Library.Multiset"
begin

text \<open>
  What the in-memory backend guarantees beyond the storage contract: which job a worker gets, in
  which order due jobs are claimed, how \<^verbatim>\<open>list\<close> pages and \<^verbatim>\<open>get_job_counts\<close> counts, what the
  capacity limit and the named locks are worth, and that a recurring template is handed out once.
\<close>

section \<open>Sorting\<close>

lemma insort_key_map:
  "insort_key f (g x) (map g xs) = map g (insort_key (\<lambda>y. f (g y)) x xs)"
  by (induction xs) simp_all

lemma sort_key_map: "sort_key f (map g xs) = map g (sort_key (\<lambda>y. f (g y)) xs)"
  by (induction xs) (simp_all add: insort_key_map)

lemma insort_key_eq_on:
  "\<forall>y \<in> insert x (set xs). f y = g y \<Longrightarrow> insort_key f x xs = insort_key g x xs"
  by (induction xs) auto

lemma sort_key_eq_on:
  "\<forall>y \<in> set xs. f y = g y \<Longrightarrow> sort_key f xs = sort_key g xs"
proof (induction xs)
  case (Cons x xs)
  then have "sort_key f (x # xs) = insort_key f x (sort_key g xs)" by simp
  also have "\<dots> = insort_key g x (sort_key g xs)"
    using Cons.prems by (intro insort_key_eq_on) simp
  finally show ?case by simp
qed simp

section \<open>Claims are in priority order\<close>

definition due_list :: "(job_state \<Rightarrow> bool) \<Rightarrow> 'p memory_storage \<Rightarrow> 'p job list" where
  "due_list due s = sort_key prio_key (filter (\<lambda>j. due (job_state j)) (hm_values (ms_jobs s)))"

lemma due_ids_due_list:
  assumes "mem_inv s"
  shows "due_ids due n (ms_jobs s) = map job_id (take n (due_list due s))"
proof -
  have "prio_key (the (hm_get (ms_jobs s) (job_id j))) = prio_key j"
    if "j \<in> set (filter (\<lambda>j. due (job_state j)) (hm_values (ms_jobs s)))" for j
    using mem_value_at [OF assms, of j] that by (simp add: mem_jobs_def)
  then have "sort_key (\<lambda>j. prio_key (the (hm_get (ms_jobs s) (job_id j))))
        (filter (\<lambda>j. due (job_state j)) (hm_values (ms_jobs s))) = due_list due s"
    unfolding due_list_def by (intro sort_key_eq_on) blast
  then show ?thesis
    by (simp add: due_ids_def sort_key_map take_map del: map_map)
qed

lemma set_due_list:
  assumes "mem_inv s"
  shows "j \<in> set (due_list due s) \<longleftrightarrow> mem_jobs s (job_id j) = Some j \<and> due (job_state j)"
proof -
  have "hm_wf (ms_jobs s)" using assms by (simp add: mem_inv_def)
  then have "j \<in> set (hm_values (ms_jobs s)) \<longleftrightarrow> mem_jobs s (job_id j) = Some j"
    using mem_value_at [OF assms] hm_values_iff unfolding mem_jobs_def by metis
  then show ?thesis by (auto simp: due_list_def)
qed

lemma claim_due_order:
  fixes w :: "('p memory_storage, 'e) world"
  assumes inv: "mem_inv (store w)"
  shows "wp (mem_claim_due due n) (\<lambda>r w'. \<exists>js. r = Inr js
     \<and> map job_id js = map job_id (take n (due_list due (store w)))) w"
proof -
  have "wp (claim_loop (due_ids due n (ms_jobs (store w))))
      (\<lambda>js w'. map job_id js = due_ids due n (ms_jobs (store w))) w"
    using mem_set_due_ids_subset [OF inv, of due n] mem_distinct_due_ids [OF inv, of due n]
    by (intro wp_mono [OF claim_loop_wp [OF inv]]) auto
  then show ?thesis
    by (simp add: mem_claim_due_def wp_simps due_ids_due_list [OF inv])
qed

section \<open>Listing and counting\<close>

definition listing :: "job_state_kind option \<Rightarrow> 'p memory_storage \<Rightarrow> 'p job list" where
  "listing f s = sort_key (\<lambda>j. - job_created_at j)
     (filter (\<lambda>j. case f of None \<Rightarrow> True | Some k \<Rightarrow> kind (job_state j) = k) (hm_values (ms_jobs s)))"

lemma mem_list_unfold:
  "wp (mem_list f limit offset) Q w =
     (let xs = listing f (store w);
          start = (case offset of None \<Rightarrow> 0 | Some n \<Rightarrow> n);
          stop = (case limit of Some n \<Rightarrow> min ((start + n) mod 2 ^ 64) (length xs) | None \<Rightarrow> length xs)
      in Q (if start \<ge> length xs then Some (Inr [])
            else if start > stop then None
            else Some (Inr (take (stop - start) (drop start xs)))) w)"
proof -
  have "(case f of Some k \<Rightarrow> filter_jobs_by_state (ms_jobs s) k | None \<Rightarrow> hm_values (ms_jobs s))
      = filter (\<lambda>j. case f of None \<Rightarrow> True | Some k \<Rightarrow> kind (job_state j) = k) (hm_values (ms_jobs s))"
    for s :: "'a memory_storage"
    by (simp add: filter_jobs_by_state_def split: option.split)
  then show ?thesis
    by (simp add: mem_list_def wp_simps listing_def Let_def)
qed

lemma mem_list_page:
  fixes w :: "('p memory_storage, 'e) world"
  assumes "start + n < 2 ^ 64"
  shows "run_state (mem_list f (Some n) (Some start)) w
       = (Some (Inr (take n (drop start (listing f (store w))))), w)"
proof -
  have "wp (mem_list f (Some n) (Some start))
     (\<lambda>r w'. r = Some (Inr (take n (drop start (listing f (store w))))) \<and> w' = w) w"
    using assms by (simp add: mem_list_unfold Let_def min_def)
  then show ?thesis by (simp add: wp_run prod_eq_iff)
qed

lemma concat_pages:
  "concat (map (\<lambda>i. take n (drop (i * n) xs)) [0..<m]) = take (m * n) xs"
proof (induction m)
  case (Suc m)
  have "take (Suc m * n) xs = take (m * n) xs @ take n (drop (m * n) xs)"
    using take_add [of "m * n" n xs] by (simp add: add.commute)
  with Suc show ?case by simp
qed simp

lemma count_kinds_get:
  "(case hm_get (count_kinds js counts) k of None \<Rightarrow> 0 | Some n \<Rightarrow> n) =
     (case hm_get counts k of None \<Rightarrow> 0 | Some n \<Rightarrow> n) + length (filter (\<lambda>j. kind (job_state j) = k) js)"
proof (induction js arbitrary: counts)
  case (Cons j js)
  then show ?case by (simp add: Let_def split: option.split)
qed simp

lemma length_filter_values:
  assumes "hm_wf m"
  shows "length (filter P (hm_values m)) = card {i. \<exists>v. hm_get m i = Some v \<and> P v}"
proof -
  have "distinct (map fst (filter (P \<circ> snd) m))"
    using assms by (simp add: hm_wf_def distinct_map_filter)
  then have "card (set (map fst (filter (P \<circ> snd) m))) = length (filter (P \<circ> snd) m)"
    using distinct_card by fastforce
  moreover have "set (map fst (filter (P \<circ> snd) m)) = {i. \<exists>v. hm_get m i = Some v \<and> P v}"
    unfolding hm_get_in_set [OF assms] by force
  ultimately show ?thesis by (simp add: filter_map)
qed

lemma sum_kinds:
  "(\<Sum>k \<in> UNIV. length (filter (\<lambda>j. kind (job_state j) = k) js)) = length js"
proof (induction js)
  case (Cons j js)
  have "(\<Sum>k \<in> UNIV. length (filter (\<lambda>j. kind (job_state j) = k) (j # js)))
      = (\<Sum>k \<in> UNIV. (if kind (job_state j) = k then 1 else 0)
                   + length (filter (\<lambda>j. kind (job_state j) = k) js))"
    by (rule sum.cong) simp_all
  with Cons show ?case by (simp add: sum.distrib)
qed simp

section \<open>Capacity\<close>

definition within_capacity :: "'p memory_storage \<Rightarrow> bool" where
  "within_capacity s = (case mc_max_jobs (ms_config s) of None \<Rightarrow> True | Some m \<Rightarrow> mem_len s \<le> m)"

section \<open>Recurring templates\<close>

lemma park_all_get:
  "hm_get (park_all until rs m) i =
     (if i \<in> rj_id ` set rs then map_option (\<lambda>r. r\<lparr>rj_next_run_at := until\<rparr>) (hm_get m i)
      else hm_get m i)"
  by (induction rs arbitrary: m) (auto split: option.split simp: option.map_comp comp_def)

lemma park_all_wf: "hm_wf m \<Longrightarrow> hm_wf (park_all until rs m)"
  by (induction rs arbitrary: m) (auto split: option.split)

lemma set_due_recurring:
  assumes "mem_inv s" and "r \<in> set (due_recurring now n (ms_recurring s))"
  shows "hm_get (ms_recurring s) (rj_id r) = Some r \<and> rj_enabled r \<and> rj_next_run_at r \<le> now"
proof -
  have wf: "hm_wf (ms_recurring s)" and key: "\<forall>i r. hm_get (ms_recurring s) i = Some r \<longrightarrow> rj_id r = i"
    using assms(1) by (simp_all add: mem_inv_def)
  from assms(2) have "r \<in> set (hm_values (ms_recurring s))" "rj_enabled r" "rj_next_run_at r \<le> now"
    by (auto simp: due_recurring_def dest!: in_set_takeD)
  with wf key show ?thesis by (metis hm_values_iff)
qed

section \<open>Properties\<close>

text \<open>
  C8. A worker's fetch on the in-memory backend. With \<open>t0 \<dots> t3\<close> the four readings of the clock the
  call makes: if some job is available at \<open>t1\<close>, belongs to an accepted queue and has no lock alive
  at \<open>t0\<close>, then the call returns such a job, of the highest priority and among those the oldest; it
  is stored as \<open>Processing\<close> for that worker, locked for thirty minutes, and no other job changes.
  If there is none the call returns \<open>None\<close> and changes no job.
\<close>

theorem fetch_and_lock_best:
  fixes w :: "('p memory_storage, 'e) world"
  assumes "mem_inv (store w)"
    and "t0 = clock w (ticks w)" and "t1 = clock w (Suc (ticks w))"
    and "t2 = clock w (Suc (Suc (ticks w)))" and "t3 = clock w (Suc (Suc (Suc (ticks w))))"
    and "run_state (mem_fetch_and_lock_job wid queues) w = (r, w')"
  shows "if \<exists>j. eligible t0 t1 queues (store w) j
      then \<exists>j. eligible t0 t1 queues (store w) j
             \<and> (\<forall>k. eligible t0 t1 queues (store w) k \<longrightarrow>
                  sint (job_priority k) < sint (job_priority j)
                  \<or> job_priority k = job_priority j \<and> job_created_at j \<le> job_created_at k)
             \<and> r = Inr (Some (j\<lparr>job_state := Processing t3 wid ''memory-storage''\<rparr>))
             \<and> mem_jobs (store w') =
                 (mem_jobs (store w))(job_id j \<mapsto> j\<lparr>job_state := Processing t3 wid ''memory-storage''\<rparr>)
             \<and> hm_get (ms_locks (store w')) (job_id j) =
                 Some \<lparr>jl_worker_id = wid, jl_expires_at = t2 + dur_minutes 30\<rparr>
      else r = Inr None \<and> mem_jobs (store w') = mem_jobs (store w)"
proof -
  have key: "sint (job_priority k) < sint (job_priority j)
      \<or> job_priority k = job_priority j \<and> job_created_at j \<le> job_created_at k"
    if "prio_key j \<le> prio_key k" for j k :: "'p job"
    using that by (auto simp: prio_key_def less_eq_prod_def intro: signed_word_eqI)
  note post = wp_runD [OF mem_fetch_spec [OF assms(1)] assms(6), folded assms(2-5)]
  show ?thesis
  proof (cases "\<exists>j. eligible t0 t1 queues (store w) j")
    case True
    with post obtain j where "eligible t0 t1 queues (store w) j"
        "\<forall>k. eligible t0 t1 queues (store w) k \<longrightarrow> prio_key j \<le> prio_key k"
        "r = Inr (Some (j\<lparr>job_state := Processing t3 wid ''memory-storage''\<rparr>))"
        "mem_jobs (store w') =
           (mem_jobs (store w))(job_id j \<mapsto> j\<lparr>job_state := Processing t3 wid ''memory-storage''\<rparr>)"
        "hm_get (ms_locks (store w')) (job_id j) =
           Some \<lparr>jl_worker_id = wid, jl_expires_at = t2 + dur_minutes 30\<rparr>"
      by (auto simp: fun_eq_iff)
    with key True show ?thesis by (simp only: if_True) blast
  next
    case False
    with post show ?thesis by auto
  qed
qed

definition fetch_sample :: "unit memory_storage" where
  "fetch_sample = sample_memory
     [sample_job ''a'' 1 5 (Enqueued 5 ''default''), sample_job ''b'' 7 6 (Enqueued 6 ''default''),
      sample_job ''c'' 7 4 (Enqueued 4 ''default'')]"

theorem fetch_and_lock_best_witness:
  "eligible (dur_seconds 100) (dur_seconds 101) None fetch_sample (sample_job ''c'' 7 4 (Enqueued 4 ''default''))
   \<and> (\<exists>j. eligible (dur_seconds 100) (dur_seconds 101) None fetch_sample j
         \<and> fst (run_state (mem_fetch_and_lock_job ''w'' None) (sample_world fetch_sample :: (_, unit) world))
             = Inr (Some (j\<lparr>job_state := Processing (dur_seconds 103) ''w'' ''memory-storage''\<rparr>)))"
proof -
  let ?w = "sample_world fetch_sample :: (_, unit) world"
  have el: "eligible (dur_seconds 100) (dur_seconds 101) None fetch_sample
      (sample_job ''c'' 7 4 (Enqueued 4 ''default''))"
    by (simp add: eligible_def fetch_sample_def lockable_def queue_ok_def live_locks_def hm_retain_def)
  have inv: "mem_inv (store ?w)" by (simp add: fetch_sample_def)
  from fetch_and_lock_best [OF inv refl refl refl refl surjective_pairing, where wid = "''w''" and queues = None] el
  show ?thesis by (auto split: if_splits)
qed

text \<open>
  C12. The scheduler's claim. \<^verbatim>\<open>claim_due_scheduled_jobs now limit\<close> claims the \<open>limit\<close> due scheduled jobs
  that come first by priority and age (all of them when there are fewer), moves them and only them to
  \<open>Enqueued\<close> on their own queue, and returns them as they are now stored.
\<close>

theorem claim_due_scheduled_exact:
  fixes w :: "('p memory_storage, 'e) world"
  assumes "mem_inv (store w)" and "run_state (mem_claim_due_scheduled_jobs now limit) w = (r, w')"
  shows "\<exists>js. r = Inr js
      \<and> map job_id js = map job_id (take limit (due_list (due_scheduled now) (store w)))
      \<and> (\<forall>j \<in> set js. mem_jobs (store w') (job_id j) = Some j \<and> kind (job_state j) = KEnqueued)
      \<and> (\<forall>i. i \<notin> job_id ` set js \<longrightarrow> mem_jobs (store w') i = mem_jobs (store w) i)
      \<and> (\<forall>i \<in> job_id ` set js. \<exists>j0 t. mem_jobs (store w) i = Some j0 \<and> due_scheduled now (job_state j0)
            \<and> mem_jobs (store w') i = Some (j0\<lparr>job_state := Enqueued t (job_queue j0)\<rparr>))"
proof -
  have run: "run_state (mem_claim_due (due_scheduled now) limit) w = (r, w')"
    using assms(2) by (simp add: mem_claim_due_scheduled_jobs_def)
  obtain js where r: "r = Inr js"
      and ids: "map job_id js = map job_id (take limit (due_list (due_scheduled now) (store w)))"
    using wp_runD [OF claim_due_order [OF assms(1)] run] by blast
  have C: "claim_spec (due_scheduled now) limit (mem_jobs (store w)) js (mem_jobs (store w'))"
    using wp_runD [OF mem_claim_due_law [OF assms(1)] run] r by simp
  then have rq: "requeued (job_id ` set js) (mem_jobs (store w)) (mem_jobs (store w'))"
    and due: "\<forall>i \<in> job_id ` set js. \<exists>j. mem_jobs (store w) i = Some j \<and> due_scheduled now (job_state j)"
    and stored: "\<forall>j \<in> set js. mem_jobs (store w') (job_id j) = Some j"
    by (simp_all add: claim_spec_def)
  have "\<exists>j0 t. mem_jobs (store w) i = Some j0 \<and> due_scheduled now (job_state j0)
            \<and> mem_jobs (store w') i = Some (j0\<lparr>job_state := Enqueued t (job_queue j0)\<rparr>)"
    if i: "i \<in> job_id ` set js" for i
  proof -
    obtain j0 where j0: "mem_jobs (store w) i = Some j0" "due_scheduled now (job_state j0)"
      using due i by blast
    with requeued_at [OF rq j0(1)] i show ?thesis by auto
  qed
  with r ids stored claim_spec_kinds [OF C] rq show ?thesis
    by (intro exI [of _ js]) (auto simp: requeued_def)
qed

theorem claim_due_scheduled_exact_witness:
  "\<exists>js. fst (run_state (mem_claim_due_scheduled_jobs 10 1) (sample_world
      (sample_memory [sample_job ''a'' 1 5 (Scheduled 5 9 ''r''), sample_job ''b'' 7 6 (Scheduled 6 10 ''r''),
                      sample_job ''c'' 9 4 (Scheduled 6 11 ''r'')]) :: (_, unit) world)) = Inr js
     \<and> map job_id js = [''b'']"
proof -
  let ?s = "sample_memory [sample_job ''a'' 1 5 (Scheduled 5 9 ''r''),
    sample_job ''b'' 7 6 (Scheduled 6 10 ''r''), sample_job ''c'' 9 4 (Scheduled 6 11 ''r'')]"
  have inv: "mem_inv (store (sample_world ?s :: (_, unit) world))" by simp
  have "map job_id (take 1 (due_list (due_scheduled 10) ?s)) = [''b'']"
    by (simp add: due_list_def prio_key_def)
  with claim_due_scheduled_exact [OF inv surjective_pairing, of 10 1] show ?thesis
    by (auto simp del: One_nat_def)
qed

text \<open>
  Paging. Requests for consecutive pages of size \<open>n\<close>, with no change in between, tile the list:
  concatenated they give the first \<open>m * n\<close> jobs of the filtered list sorted newest first, and when
  the pages cover the list every matching job is returned exactly once.
\<close>

theorem list_pages_tile:
  fixes w :: "('p memory_storage, 'e) world"
  assumes "m * n < 2 ^ 64"
    and "\<forall>i < m. fst (run_state (mem_list f (Some n) (Some (i * n))) w) = Some (Inr (page i))"
  shows "concat (map page [0..<m]) = take (m * n) (listing f (store w))
     \<and> (length (listing f (store w)) \<le> m * n \<longrightarrow>
          mset (concat (map page [0..<m])) =
            filter_mset (\<lambda>j. case f of None \<Rightarrow> True | Some k \<Rightarrow> kind (job_state j) = k)
              (mset (hm_values (ms_jobs (store w)))))"
proof -
  have "page i = take n (drop (i * n) (listing f (store w)))" if "i < m" for i
  proof -
    have "Suc i * n \<le> m * n" using that by (intro mult_le_mono1) simp
    then have "i * n + n < 2 ^ 64" using assms(1) by simp
    then have "fst (run_state (mem_list f (Some n) (Some (i * n))) w)
        = Some (Inr (take n (drop (i * n) (listing f (store w)))))"
      using mem_list_page [of "i * n" n f w] by simp
    moreover have "fst (run_state (mem_list f (Some n) (Some (i * n))) w) = Some (Inr (page i))"
      using assms(2) that by blast
    ultimately show ?thesis by simp
  qed
  then have "map page [0..<m] = map (\<lambda>i. take n (drop (i * n) (listing f (store w)))) [0..<m]" by simp
  then have tile: "concat (map page [0..<m]) = take (m * n) (listing f (store w))"
    by (simp only: concat_pages)
  moreover have "mset (listing f (store w)) =
      filter_mset (\<lambda>j. case f of None \<Rightarrow> True | Some k \<Rightarrow> kind (job_state j) = k)
              (mset (hm_values (ms_jobs (store w))))"
    unfolding listing_def mset_sort mset_filter ..
  ultimately show ?thesis by simp
qed

theorem list_pages_tile_witness:
  "concat (map (\<lambda>i. take 2 (drop (i * 2) (listing None
      (sample_memory [sample_job ''a'' 1 5 (Enqueued 5 ''q''), sample_job ''b'' 7 6 (Enqueued 6 ''q''),
                      sample_job ''c'' 9 4 (Enqueued 6 ''q'')])))) [0..<2])
   = [sample_job ''b'' 7 6 (Enqueued 6 ''q''), sample_job ''a'' 1 5 (Enqueued 5 ''q''),
      sample_job ''c'' 9 4 (Enqueued 6 ''q'')]"
proof -
  let ?s = "sample_memory [sample_job ''a'' 1 5 (Enqueued 5 ''q''),
    sample_job ''b'' 7 6 (Enqueued 6 ''q''), sample_job ''c'' 9 4 (Enqueued 6 ''q'')]"
  let ?w = "sample_world ?s :: (_, unit) world"
  have pages: "\<forall>i < 2. fst (run_state (mem_list None (Some 2) (Some (i * 2))) ?w)
      = Some (Inr (take 2 (drop (i * 2) (listing None ?s))))"
    by (simp add: mem_list_page)
  have "listing None ?s = [sample_job ''b'' 7 6 (Enqueued 6 ''q''),
      sample_job ''a'' 1 5 (Enqueued 5 ''q''), sample_job ''c'' 9 4 (Enqueued 6 ''q'')]"
    by (simp add: listing_def)
  with list_pages_tile [OF _ pages] show ?thesis by simp
qed

text \<open>
  Counting. \<^verbatim>\<open>get_job_counts\<close> reports for every state the number of stored jobs in that state
  (a state that is missing from the answer has none), and the counts add up to the size of the store.
\<close>

theorem job_counts_exact:
  fixes w :: "('p memory_storage, 'e) world"
  assumes "mem_inv (store w)"
  shows "\<exists>m. run_state mem_get_job_counts w = (Inr m, w)
      \<and> (\<forall>k. (case hm_get m k of None \<Rightarrow> 0 | Some n \<Rightarrow> n) =
            card {i. \<exists>j. mem_jobs (store w) i = Some j \<and> kind (job_state j) = k})
      \<and> (\<Sum>k \<in> UNIV. case hm_get m k of None \<Rightarrow> 0 | Some n \<Rightarrow> n) = mem_len (store w)"
proof -
  let ?m = "count_kinds (hm_values (ms_jobs (store w))) []"
  have wf: "hm_wf (ms_jobs (store w))" using assms by (simp add: mem_inv_def)
  have "run_state mem_get_job_counts w = (Inr ?m, w)" by (simp add: mem_get_job_counts_def)
  moreover have "\<forall>k. (case hm_get ?m k of None \<Rightarrow> 0 | Some n \<Rightarrow> n) =
            card {i. \<exists>j. mem_jobs (store w) i = Some j \<and> kind (job_state j) = k}"
    using length_filter_values [OF wf] unfolding count_kinds_get mem_jobs_def by simp
  moreover have "(\<Sum>k \<in> UNIV. case hm_get ?m k of None \<Rightarrow> 0 | Some n \<Rightarrow> n) = mem_len (store w)"
    unfolding count_kinds_get using sum_kinds [of "hm_values (ms_jobs (store w))"]
    by (simp add: mem_len_def)
  ultimately show ?thesis by blast
qed

theorem job_counts_exact_witness:
  "\<exists>m. run_state mem_get_job_counts (sample_world (sample_memory
       [sample_job ''a'' 1 5 (Enqueued 5 ''q''), sample_job ''b'' 7 6 (Enqueued 6 ''q'')]) :: (_, unit) world)
     = (Inr m, sample_world (sample_memory
       [sample_job ''a'' 1 5 (Enqueued 5 ''q''), sample_job ''b'' 7 6 (Enqueued 6 ''q'')]))
     \<and> (\<Sum>k \<in> UNIV. case hm_get m k of None \<Rightarrow> 0 | Some n \<Rightarrow> n) = 2"
  using job_counts_exact [of "sample_world (sample_memory
       [sample_job ''a'' 1 5 (Enqueued 5 ''q''), sample_job ''b'' 7 6 (Enqueued 6 ''q'')]) :: (_, unit) world"]
  by (auto simp: mem_len_def)

text \<open>
  Capacity, one caller at a time: \<^verbatim>\<open>enqueue\<close> keeps the store within \<^verbatim>\<open>max_jobs\<close>. It fails, with
  \<^verbatim>\<open>CapacityExceeded\<close> and without a change, exactly when the store is full, and otherwise stores the job.
\<close>

theorem enqueue_within_capacity:
  fixes w :: "('p memory_storage, 'e) world"
  assumes "within_capacity (store w)" and "run_state (mem_enqueue j) w = (r, w')"
  shows "within_capacity (store w')
     \<and> (if is_at_capacity (store w)
        then (\<exists>m. r = Inl (capacity_exceeded m)) \<and> store w' = store w
        else r = Inr () \<and> mem_jobs (store w') = (mem_jobs (store w))(job_id j \<mapsto> j))"
  using assms
  by (auto simp: mem_enqueue_def mem_enqueue_check_def mem_enqueue_write_def within_capacity_def
      is_at_capacity_def mem_len_def length_hm_insert mem_jobs_def split: if_splits option.splits)

theorem enqueue_within_capacity_witness:
  "within_capacity (store (snd (run_state (mem_enqueue (sample_job ''b'' 0 6 (Enqueued 6 ''q'')))
     (sample_world ((sample_memory [sample_job ''a'' 1 5 (Enqueued 5 ''q'')])
        \<lparr>ms_config := memory_config_default\<lparr>mc_max_jobs := Some 1\<rparr>\<rparr>) :: (_, unit) world))))"
proof -
  let ?w = "sample_world ((sample_memory [sample_job ''a'' 1 5 (Enqueued 5 ''q'')])
        \<lparr>ms_config := memory_config_default\<lparr>mc_max_jobs := Some 1\<rparr>\<rparr>) :: (_, unit) world"
  have "within_capacity (store ?w)" by (simp add: within_capacity_def mem_len_def)
  from enqueue_within_capacity [OF this surjective_pairing] show ?thesis by blast
qed

text \<open>
  Capacity, two callers: the test and the insertion of \<^verbatim>\<open>enqueue\<close> take the lock separately, so
  two calls that interleave test-test-insert-insert on a store with one free slot both succeed and
  leave the store above \<^verbatim>\<open>max_jobs\<close>.
\<close>

theorem enqueue_race_exceeds_capacity:
  fixes w :: "('p memory_storage, 'e) world"
  assumes "mc_max_jobs (ms_config (store w)) = Some (Suc (mem_len (store w)))"
    and "job_id a \<noteq> job_id b"
    and "mem_jobs (store w) (job_id a) = None" and "mem_jobs (store w) (job_id b) = None"
  shows "wp (do { ra \<leftarrow> mem_enqueue_check; rb \<leftarrow> mem_enqueue_check;
                  mem_enqueue_write a; mem_enqueue_write b; ret (ra, rb) })
     (\<lambda>(ra, rb) w'. ra = None \<and> rb = None \<and> \<not> within_capacity (store w')) w"
  using assms
  by (simp add: wp_simps mem_enqueue_check_def mem_enqueue_write_def is_at_capacity_def mem_len_def
      within_capacity_def length_hm_insert mem_jobs_def)

theorem enqueue_race_exceeds_capacity_witness:
  "wp (do { ra \<leftarrow> mem_enqueue_check; rb \<leftarrow> mem_enqueue_check;
            mem_enqueue_write (sample_job ''a'' 0 6 (Enqueued 6 ''q''));
            mem_enqueue_write (sample_job ''b'' 0 6 (Enqueued 6 ''q'')); ret (ra, rb) })
     (\<lambda>(ra, rb) w'. ra = None \<and> rb = None \<and> \<not> within_capacity (store w'))
     (sample_world ((sample_memory [])\<lparr>ms_config := memory_config_default\<lparr>mc_max_jobs := Some 1\<rparr>\<rparr>)
        :: (_, unit) world)"
  by (rule enqueue_race_exceeds_capacity) (simp_all add: mem_len_def mem_jobs_def)

text \<open>
  Named locks exclude: after owner \<open>a\<close> has acquired a resource for \<open>ttl\<close>, and as long as nobody
  has changed that entry, every attempt of another owner that reads the clock before the
  lock expires is refused and changes nothing.
\<close>

theorem named_lock_excludes:
  fixes w w2 :: "('p memory_storage, 'e) world"
  assumes "run_state (mem_try_acquire_lock res a ttl) w = (Inr True, w1)"
    and "hm_get (ms_named_locks (store w2)) res = hm_get (ms_named_locks (store w1)) res"
    and "clock w2 (ticks w2) < clock w (ticks w) + int ttl"
    and "b \<noteq> a" and "run_state (mem_try_acquire_lock res b ttl2) w2 = (r, w3)"
  shows "r \<noteq> Inr True \<and> store w3 = store w2"
proof -
  have "hm_get (ms_named_locks (store w1)) res
      = Some \<lparr>nl_owner = a, nl_expires_at = clock w (ticks w) + int ttl\<rparr>"
    using assms(1)
    by (auto simp: mem_try_acquire_lock_def dur_from_std_def split: if_splits sum.splits)
  with assms show ?thesis
    by (auto simp: mem_try_acquire_lock_def split: if_splits sum.splits)
qed

theorem named_lock_excludes_witness:
  "fst (run_state (mem_try_acquire_lock ''r'' ''b'' 5) (snd (run_state (mem_try_acquire_lock ''r'' ''a'' 5000000000)
     (sample_world (sample_memory []) :: (_, unit) world)))) \<noteq> Inr True"
proof -
  let ?w = "sample_world (sample_memory []) :: (_, unit) world"
  let ?w1 = "snd (run_state (mem_try_acquire_lock ''r'' ''a'' 5000000000) ?w)"
  have one: "run_state (mem_try_acquire_lock ''r'' ''a'' 5000000000) ?w = (Inr True, ?w1)"
    and time: "clock ?w1 (ticks ?w1) < clock ?w (ticks ?w) + int 5000000000"
    by (simp_all add: mem_try_acquire_lock_def dur_from_std_def dur_defs)
  have "''b'' \<noteq> ''a''" by simp
  from named_lock_excludes [OF one refl time this surjective_pairing] show ?thesis by simp
qed

text \<open>
  A named lock is released only by its owner: \<^verbatim>\<open>release_lock\<close> answers \<open>True\<close> exactly when the
  caller owns the entry, which is then gone; otherwise no entry changes.
\<close>

lemma release_lock_owner_only:
  fixes w :: "('p memory_storage, 'e) world"
  shows "\<exists>w'. run_state (mem_release_lock res a) w =
           (Inr (\<exists>l. hm_get (ms_named_locks (store w)) res = Some l \<and> nl_owner l = a), w')
       \<and> hm_get (ms_named_locks (store w')) =
           (if \<exists>l. hm_get (ms_named_locks (store w)) res = Some l \<and> nl_owner l = a
            then (hm_get (ms_named_locks (store w)))(res := None)
            else hm_get (ms_named_locks (store w)))"
  by (auto simp: mem_release_lock_def split: option.split)

text \<open>
  A due recurring template is handed out once: \<^verbatim>\<open>fetch_due_recurring_jobs\<close> returns enabled templates
  that are due, and a second call with the same \<open>now\<close> returns none of them again.
\<close>

theorem recurring_fetched_once:
  fixes w :: "('p memory_storage, 'e) world"
  assumes "mem_inv (store w)"
    and "run_state (mem_fetch_due_recurring_jobs now n) w = (Inr rs, w1)"
    and "run_state (mem_fetch_due_recurring_jobs now m) w1 = (Inr rs2, w2)"
  shows "(\<forall>r \<in> set rs. rj_enabled r \<and> rj_next_run_at r \<le> now) \<and> rj_id ` set rs \<inter> rj_id ` set rs2 = {}"
proof -
  let ?until = "now + dur_days 3650"
  have rs: "rs = due_recurring now n (ms_recurring (store w))"
    and s1: "store w1 = (store w)\<lparr>ms_recurring := park_all ?until rs (ms_recurring (store w))\<rparr>"
    using assms(2) by (auto simp: mem_fetch_due_recurring_jobs_def Let_def)
  have rs2: "rs2 = due_recurring now m (ms_recurring (store w1))"
    using assms(3) by (auto simp: mem_fetch_due_recurring_jobs_def Let_def)
  have inv1: "mem_inv (store w1)"
    using assms(1) unfolding s1 mem_inv_def
    by (auto simp: park_all_get park_all_wf split: if_splits)
  have once: "rj_id r \<notin> rj_id ` set rs" if "r \<in> set rs2" for r
  proof
    assume i: "rj_id r \<in> rj_id ` set rs"
    have "hm_get (ms_recurring (store w1)) (rj_id r) = Some r" "rj_next_run_at r \<le> now"
      using set_due_recurring [OF inv1] that unfolding rs2 by blast+
    then have "rj_next_run_at r = ?until" and "rj_next_run_at r \<le> now"
      using i by (auto simp: s1 park_all_get)
    moreover have "0 < dur_days 3650" by simp
    ultimately show False by linarith
  qed
  have "x \<notin> rj_id ` set rs" if "x \<in> rj_id ` set rs2" for x
    using that once by (elim imageE) simp
  moreover have "\<forall>r \<in> set rs. rj_enabled r \<and> rj_next_run_at r \<le> now"
    using set_due_recurring [OF assms(1)] unfolding rs by blast
  ultimately show ?thesis by blast
qed

definition sample_template :: "unit recurring_job" where
  "sample_template = \<lparr>rj_id = ''r'', rj_cron = ''* * * * * *'', rj_method = ''m'', rj_payload = (),
     rj_queue = ''q'', rj_next_run_at = 5, rj_last_run_at = None, rj_created_at = 0, rj_updated_at = 0,
     rj_enabled = True\<rparr>"

theorem recurring_fetched_once_witness:
  "rj_id ` set [sample_template] \<inter> rj_id ` set ([] :: unit recurring_job list) = {}
   \<and> fst (run_state (mem_fetch_due_recurring_jobs 7 3)
        (sample_world ((sample_memory [])\<lparr>ms_recurring := [(''r'', sample_template)]\<rparr>) :: (_, unit) world))
      = Inr [sample_template]"
proof -
  let ?w = "sample_world ((sample_memory [])\<lparr>ms_recurring := [(''r'', sample_template)]\<rparr>) :: (_, unit) world"
  let ?w1 = "snd (run_state (mem_fetch_due_recurring_jobs 7 3) ?w)"
  have inv: "mem_inv (store ?w)"
    by (simp add: mem_inv_def keyed_def sample_template_def sample_memory_def mem_new_def mem_with_config_def)
  have one: "run_state (mem_fetch_due_recurring_jobs 7 3) ?w = (Inr [sample_template], ?w1)"
    by (simp add: mem_fetch_due_recurring_jobs_def due_recurring_def sample_template_def)
  have two: "run_state (mem_fetch_due_recurring_jobs 7 3) ?w1
      = (Inr [], snd (run_state (mem_fetch_due_recurring_jobs 7 3) ?w1))"
    by (simp add: mem_fetch_due_recurring_jobs_def due_recurring_def sample_template_def dur_defs)
  have "fst (run_state (mem_fetch_due_recurring_jobs 7 3) ?w) = Inr [sample_template]"
    by (subst one) simp
  with recurring_fetched_once [OF inv one two] show ?thesis by blast
qed

end
