(* ===== verification/Interleaving.thy ===== *)
theory Interleaving
  imports Memory_Props
begin

text \<open>
  The in-memory backend under concurrency. Its critical sections, which the locks of
  \<^verbatim>\<open>src/storage/memory.rs\<close> make atomic, interleave in any order: a step relation has one rule per
  section and one for everything that leaves the storage alone. \<^verbatim>\<open>fetch_and_lock_job\<close> and
  \<^verbatim>\<open>try_acquire_job_lock\<close> release the lock after their cleanup and are two sections each, as is
  \<^verbatim>\<open>enqueue\<close>. Over every run the representation invariant holds, and a job that was
  handed out is not handed out again while its lock is alive.
\<close>

section \<open>Critical sections\<close>

definition fetch_section ::
  "string \<Rightarrow> string list option \<Rightarrow> ('p, 'e, 'p job option) mact" where
  "fetch_section wid queues = do {
     s \<leftarrow> get_store;
     js \<leftarrow> get_available_jobs_internal (ms_jobs s) None;
     lock_first wid queues js }"

definition acquire_section :: "string \<Rightarrow> string \<Rightarrow> u64 \<Rightarrow> ('p, 'e, bool) mact" where
  "acquire_section i wid timeout_seconds = do {
     s \<leftarrow> get_store;
     if hm_contains (ms_locks s) i then ret False
     else do {
       t \<leftarrow> utc_now;
       put_store (s\<lparr>ms_locks := hm_insert i
         \<lparr>jl_worker_id = wid, jl_expires_at = t + dur_seconds (sint timeout_seconds)\<rparr> (ms_locks s)\<rparr>);
       ret True } }"

text \<open>The methods are the sequences of their sections.\<close>

lemma fetch_sections:
  "mem_fetch_and_lock_job wid queues = do { cleanup_expired_locks; r \<leftarrow> fetch_section wid queues; ret (Inr r) }"
  by (simp add: mem_fetch_and_lock_job_def fetch_section_def State_Monad.bind_assoc)

lemma acquire_sections:
  "mem_try_acquire_job_lock i wid secs = do { cleanup_expired_locks; b \<leftarrow> acquire_section i wid secs; ret (Inr b) }"
  by (rule state.expand, rule ext)
     (simp add: mem_try_acquire_job_lock_def acquire_section_def cleanup_expired_locks_def)

section \<open>Steps and runs\<close>

datatype 'p mem_event =
    Took string "'p job option"
  | Cleaned
  | Acquired string string bool
  | Released string string
  | Recovered time
  | Reclaimed string
  | Other

inductive mem_step ::
  "('p memory_storage, 'e) world \<Rightarrow> 'p mem_event \<Rightarrow> ('p memory_storage, 'e) world \<Rightarrow> bool"
where
  took: "run_state (fetch_section wid qs) w = (r, w') \<Longrightarrow> mem_step w (Took wid r) w'"
| cleaned: "run_state cleanup_expired_locks w = (u, w') \<Longrightarrow> mem_step w Cleaned w'"
| acquired: "run_state (acquire_section i wid secs) w = (b, w') \<Longrightarrow> mem_step w (Acquired i wid b) w'"
| released: "run_state (mem_release_job_lock i wid) w = (rb, w') \<Longrightarrow> mem_step w (Released i wid) w'"
| recovered: "run_state (mem_requeue_stranded_jobs before) w = (rn, w') \<Longrightarrow> mem_step w (Recovered before) w'"
| reclaimed: "run_state (mem_reclaim_jobs_from_server sid) w = (rn, w') \<Longrightarrow> mem_step w (Reclaimed sid) w'"
| updated: "run_state (mem_update j) w = (ru, w') \<Longrightarrow> mem_step w Other w'"
| updated_if: "run_state (mem_update_if_state j k) w = (rb, w') \<Longrightarrow> mem_step w Other w'"
| deleted: "run_state (mem_delete i) w = (rb, w') \<Longrightarrow> mem_step w Other w'"
| enqueue_written: "run_state (mem_enqueue_write j) w = (u, w') \<Longrightarrow> mem_step w Other w'"
| claimed: "run_state (mem_claim_due due limit) w = (rj, w') \<Longrightarrow> mem_step w Other w'"
| expired_swept: "run_state (mem_delete_expired_jobs now) w = (rn, w') \<Longrightarrow> mem_step w Other w'"
| template_put: "run_state (mem_upsert_recurring_job t) w = (ru, w') \<Longrightarrow> mem_step w Other w'"
| template_removed: "run_state (mem_remove_recurring_job i) w = (rb, w') \<Longrightarrow> mem_step w Other w'"
| templates_parked: "run_state (mem_fetch_due_recurring_jobs now limit) w = (rt, w') \<Longrightarrow> mem_step w Other w'"
| server_put: "run_state (mem_register_server info) w = (ru, w') \<Longrightarrow> mem_step w Other w'"
| server_beat: "run_state (mem_heartbeat_server sid now) w = (rb, w') \<Longrightarrow> mem_step w Other w'"
| server_removed: "run_state (mem_deregister_server sid) w = (rb, w') \<Longrightarrow> mem_step w Other w'"
| name_acquired: "run_state (mem_try_acquire_lock res owner ttl) w = (rb, w') \<Longrightarrow> mem_step w Other w'"
| name_released: "run_state (mem_release_lock res owner) w = (rb, w') \<Longrightarrow> mem_step w Other w'"
| names_cleaned: "run_state (mem_cleanup_expired_named_locks now) w = (rn, w') \<Longrightarrow> mem_step w Other w'"
| cleared: "run_state mem_clear w = (u, w') \<Longrightarrow> mem_step w Other w'"
| idle: "store w' = store w \<Longrightarrow> clock w' = clock w \<Longrightarrow> ticks w \<le> ticks w' \<Longrightarrow> mem_step w Other w'"

inductive mem_run ::
  "('p memory_storage, 'e) world \<Rightarrow> 'p mem_event list \<Rightarrow> ('p memory_storage, 'e) world \<Rightarrow> bool"
where
  run_nil: "mem_run w [] w"
| run_step: "mem_step w e w1 \<Longrightarrow> mem_run w1 es w' \<Longrightarrow> mem_run w (e # es) w'"

inductive_cases mem_run_ConsE: "mem_run w (e # es) w'"
inductive_cases took_stepE: "mem_step w (Took wid r) w'"

section \<open>What every section keeps\<close>

text \<open>The clock is the same one, it is never read backwards, and the invariant survives.\<close>

definition steady :: "('p memory_storage, 'e) world \<Rightarrow> ('p memory_storage, 'e) world \<Rightarrow> bool" where
  "steady w w' \<longleftrightarrow> clock w' = clock w \<and> ticks w \<le> ticks w' \<and> mem_inv (store w')"

lemma steady_env: "env_kept w w' \<Longrightarrow> mem_inv (store w') \<Longrightarrow> steady w w'"
  by (simp add: steady_def env_kept_def)

lemma steady_law:
  assumes "wp m (\<lambda>r w'. env_kept w w' \<and> mem_inv (store w') \<and> Q r w') w" and "run_state m w = (r, w')"
  shows "steady w w'"
  using wp_runD [OF assms] by (simp add: steady_env)

lemma fetch_section_wp:
  "wp (fetch_section wid queues) Q w =
     (case find (lockable queues (ms_locks (store w))) (fetch_list (clock w (ticks w)) (store w)) of
        None \<Rightarrow> Q None (w\<lparr>ticks := Suc (ticks w)\<rparr>)
      | Some j \<Rightarrow>
          let j' = j\<lparr>job_state := Processing (clock w (Suc (Suc (ticks w)))) wid ''memory-storage''\<rparr>
          in Q (Some j') (w\<lparr>ticks := Suc (Suc (Suc (ticks w))),
               store := (store w)\<lparr>
                 ms_locks := hm_insert (job_id j)
                   \<lparr>jl_worker_id = wid, jl_expires_at = clock w (Suc (ticks w)) + dur_minutes 30\<rparr>
                   (ms_locks (store w)),
                 ms_jobs := hm_insert (job_id j) j' (ms_jobs (store w))\<rparr>\<rparr>))"
  by (simp add: fetch_section_def get_available_jobs_internal_def wp_simps Let_def lock_first_wp fetch_list_def
      cong: option.case_cong)

lemma fetch_section_steady:
  assumes "mem_inv (store w)"
  shows "wp (fetch_section wid qs) (\<lambda>r w'. steady w w') w"
proof -
  have "mem_inv ((store w)\<lparr>ms_locks := hm_insert (job_id j) l (ms_locks (store w)),
      ms_jobs := hm_insert (job_id j) (j\<lparr>job_state := st\<rparr>) (ms_jobs (store w))\<rparr>)" for j l st
    using mem_inv_put_job [OF mem_inv_put_locks [OF assms, of "hm_insert (job_id j) l (ms_locks (store w))"],
        of "j\<lparr>job_state := st\<rparr>"] assms by (simp add: mem_inv_def)
  then show ?thesis
    using assms by (auto simp: fetch_section_wp steady_def Let_def split: option.split)
qed

lemma mem_inv_park:
  "mem_inv s \<Longrightarrow> mem_inv (s\<lparr>ms_recurring := park_all until rs (ms_recurring s)\<rparr>)"
  by (auto simp: mem_inv_def park_all_wf park_all_get split: if_splits)

lemma step_steady:
  assumes "mem_step w e w'" and "mem_inv (store w)"
  shows "steady w w'"
  using assms
proof (cases rule: mem_step.cases)
  case (took wid qs r)
  then show ?thesis using wp_runD [OF fetch_section_steady [OF assms(2)]] by blast
next
  case (recovered before rn)
  then show ?thesis using steady_law [OF mem_requeue_stranded_law [OF assms(2)]] by blast
next
  case (reclaimed sid rn)
  then show ?thesis using steady_law [OF mem_reclaim_law [OF assms(2)]] by blast
next
  case (claimed due limit rj)
  then show ?thesis using steady_law [OF mem_claim_due_law [OF assms(2)]] by blast
next
  case (expired_swept now rn)
  then show ?thesis using steady_law [OF mem_delete_expired_law [OF assms(2)]] by blast
next
  case (templates_parked now limit rt)
  then show ?thesis
    using mem_inv_park [OF assms(2)] by (auto simp: steady_def mem_fetch_due_recurring_jobs_def Let_def)
qed (use assms(2) in \<open>auto simp: steady_def mem_inv_def keyed_insert keyed_delete cleanup_expired_locks_def
    acquire_section_def mem_release_job_lock_def mem_update_def mem_update_if_state_def mem_delete_def
    mem_enqueue_write_def mem_upsert_recurring_job_def mem_remove_recurring_job_def mem_register_server_def
    mem_heartbeat_server_def mem_deregister_server_def mem_try_acquire_lock_def mem_release_lock_def
    mem_cleanup_expired_named_locks_def mem_clear_def keyed_def Let_def split: if_splits option.splits sum.splits\<close>)

section \<open>The lock of a job\<close>

definition held :: "string \<Rightarrow> time \<Rightarrow> ('p memory_storage, 'e) world \<Rightarrow> bool" where
  "held i e w \<longleftrightarrow> (\<exists>l. hm_get (ms_locks (store w)) i = Some l \<and> jl_expires_at l = e)"

text \<open>The events that take a job's lock away by design.\<close>

fun drops_lock :: "string \<Rightarrow> 'p mem_event \<Rightarrow> bool" where
  "drops_lock i (Released k _) = (k = i)"
| "drops_lock i (Recovered _) = True"
| "drops_lock i (Reclaimed _) = True"
| "drops_lock i _ = False"

lemma claim_keeps_locks:
  fixes w :: "('p memory_storage, 'e) world"
  assumes "mem_inv (store w)" and "run_state (mem_claim_due due limit) w = (r, w')"
  shows "ms_locks (store w') = ms_locks (store w)"
proof -
  let ?is = "due_ids due limit (ms_jobs (store w))"
  have "distinct ?is" and "set ?is \<subseteq> dom (mem_jobs (store w))"
    using mem_distinct_due_ids [OF assms(1)] mem_set_due_ids_subset [OF assms(1), of due limit] by auto
  then have "wp (mem_claim_due due limit) (\<lambda>r w'. ms_locks (store w') = ms_locks (store w)) w"
    unfolding mem_claim_due_def wp_simps
    by (auto intro: wp_mono [OF claim_loop_wp [OF assms(1)]])
  then show ?thesis using wp_runD [OF _ assms(2)] by fast
qed

lemma other_keeps_locks:
  assumes "mem_step w Other w'" and "mem_inv (store w)"
  shows "ms_locks (store w') = ms_locks (store w)"
  using assms
proof (cases rule: mem_step.cases)
  case (claimed due limit rj)
  then show ?thesis using claim_keeps_locks [OF assms(2)] by blast
qed (auto simp: mem_update_def mem_update_if_state_def mem_delete_def mem_enqueue_write_def
    mem_delete_expired_jobs_def mem_upsert_recurring_job_def mem_remove_recurring_job_def
    mem_fetch_due_recurring_jobs_def mem_register_server_def mem_heartbeat_server_def
    mem_deregister_server_def mem_try_acquire_lock_def mem_release_lock_def
    mem_cleanup_expired_named_locks_def mem_clear_def Let_def split: if_splits option.splits sum.splits)

lemma took_lockable:
  assumes "mem_step w (Took wid (Some j)) w'"
  shows "hm_get (ms_locks (store w)) (job_id j) = None
     \<and> held (job_id j) (clock w (Suc (ticks w)) + dur_minutes 30) w'"
proof -
  obtain qs where "run_state (fetch_section wid qs) w = (Some j, w')"
    using assms by (blast elim: took_stepE)
  moreover have "wp (fetch_section wid qs) (\<lambda>r w'. case r of None \<Rightarrow> True | Some j \<Rightarrow>
      hm_get (ms_locks (store w)) (job_id j) = None
        \<and> held (job_id j) (clock w (Suc (ticks w)) + dur_minutes 30) w') w"
    by (auto simp: fetch_section_wp Let_def held_def lockable_def find_Some_iff split: option.split)
  ultimately show ?thesis by (auto dest: wp_runD)
qed

lemma took_keeps_locks:
  assumes "mem_step w (Took wid r) w'" and "hm_get (ms_locks (store w)) i = Some l"
  shows "hm_get (ms_locks (store w')) i = Some l"
proof -
  obtain qs where "run_state (fetch_section wid qs) w = (r, w')"
    using assms by (blast elim: took_stepE)
  moreover have "wp (fetch_section wid qs) (\<lambda>r w'. hm_get (ms_locks (store w')) i = Some l) w"
    using assms(2) by (auto simp: fetch_section_wp Let_def lockable_def find_Some_iff split: option.split)
  ultimately show ?thesis by (auto dest: wp_runD)
qed

text \<open>A step keeps a lock, or takes it away by design, or reads the clock past its expiry.\<close>

lemma step_keeps_lock:
  assumes "mem_step w ev w'" and "mem_inv (store w)" and "held i e w" and "\<not> drops_lock i ev"
  shows "held i e w' \<or> (\<exists>n. ticks w \<le> n \<and> n < ticks w' \<and> e \<le> clock w n)"
proof (cases ev)
  case (Took wid r)
  then show ?thesis using assms took_keeps_locks by (fastforce simp: held_def)
next
  case Cleaned
  have wf: "hm_wf (ms_locks (store w))" using assms(2) by (simp add: mem_inv_def)
  from assms(1) Cleaned have "w' = w\<lparr>ticks := Suc (ticks w), store := (store w)\<lparr>ms_locks :=
      hm_retain (\<lambda>l. jl_expires_at l > clock w (ticks w)) (ms_locks (store w))\<rparr>\<rparr>"
    by (auto elim: mem_step.cases simp: cleanup_expired_locks_def)
  with assms(3) wf show ?thesis
    by (cases "e \<le> clock w (ticks w)") (auto simp: held_def hm_get_retain)
next
  case (Acquired k wid b)
  with assms(1) obtain secs where "run_state (acquire_section k wid secs) w = (b, w')"
    by (auto elim: mem_step.cases)
  with assms(3) show ?thesis by (auto simp: acquire_section_def held_def split: if_splits)
next
  case (Released k wid)
  with assms(1) obtain rb where "run_state (mem_release_job_lock k wid) w = (rb, w')"
    by (auto elim: mem_step.cases)
  with assms(3,4) Released show ?thesis
    by (auto simp: mem_release_job_lock_def held_def split: if_splits option.splits)
next
  case Other
  then show ?thesis using other_keeps_locks [of w w'] assms by (simp add: held_def)
qed (use assms(4) in simp_all)

lemma run_steady: "mem_run w es w' \<Longrightarrow> mem_inv (store w) \<Longrightarrow> steady w w'"
  by (induction rule: mem_run.induct) (auto simp: steady_def dest!: step_steady)

lemma run_keeps_lock:
  assumes "mem_run w es w'" and "mem_inv (store w)" and "held i e w" and "\<forall>ev \<in> set es. \<not> drops_lock i ev"
  shows "held i e w' \<or> (\<exists>n. ticks w \<le> n \<and> n < ticks w' \<and> e \<le> clock w n)"
  using assms
proof (induction rule: mem_run.induct)
  case (run_step w ev w1 es w')
  have s: "steady w w1" using step_steady run_step by blast
  then have s': "steady w1 w'" using run_steady run_step.hyps by (auto simp: steady_def)
  from step_keeps_lock [OF run_step.hyps(1) run_step.prems(1,2)] run_step.prems(3)
  consider "held i e w1" | n where "ticks w \<le> n" "n < ticks w1" "e \<le> clock w n" by auto
  then show ?case
  proof cases
    case 1
    with run_step.IH run_step.prems s have
      "held i e w' \<or> (\<exists>n. ticks w1 \<le> n \<and> n < ticks w' \<and> e \<le> clock w1 n)" by (auto simp: steady_def)
    with s show ?thesis by (fastforce simp: steady_def)
  next
    case 2
    with s' show ?thesis by (auto simp: steady_def intro!: exI [of _ n])
  qed
qed simp

section \<open>Properties\<close>


text \<open>The second hand-out of a sample job, after the clock has moved on by more than half an hour.\<close>

definition take_sample :: "(unit memory_storage, unit) world" where
  "take_sample = sample_world (sample_memory [sample_job ''a'' 0 5 (Enqueued 5 ''default'')])"

definition retake_sample :: "(unit memory_storage, unit) world" where
  "retake_sample = snd (run_state cleanup_expired_locks (snd (run_state
     (mem_update (sample_job ''a'' 0 5 (Enqueued 5 ''default'')))
     ((snd (run_state (fetch_section ''x'' None) take_sample))\<lparr>ticks := 2000\<rparr>))))"




text \<open>
  C32. A retried job waits for its old lock. The lock that the fetch for the failed attempt placed outlives the
  attempt: when the scheduler has claimed the due retry, the job is stored as \<open>Enqueued\<close>, but no
  worker's fetch that reads the clock before that lock expires is given it, and it stays where it is.
\<close>

theorem retry_waits_for_lock:
  fixes w :: "('p memory_storage, 'e) world"
  assumes "mem_inv (store w)" and "run_state (mem_claim_due_retry_jobs now limit) w = (Inr js, w1)"
    and "j \<in> set js" and "hm_get (ms_locks (store w)) (job_id j) = Some l"
    and "clock w (ticks w1) < jl_expires_at l"
    and "run_state (mem_fetch_and_lock_job wid qs) w1 = (r, w2)"
  shows "kind (job_state j) = KEnqueued \<and> mem_jobs (store w1) (job_id j) = Some j
     \<and> (\<forall>j'. r = Inr (Some j') \<longrightarrow> job_id j' \<noteq> job_id j) \<and> mem_jobs (store w2) (job_id j) = Some j"
proof -
  have run: "run_state (mem_claim_due (due_retry now) limit) w = (Inr js, w1)"
    using assms(2) by (simp add: mem_claim_due_retry_jobs_def)
  have inv1: "mem_inv (store w1)" and clk: "clock w1 = clock w"
    and C: "claim_spec (due_retry now) limit (mem_jobs (store w)) js (mem_jobs (store w1))"
    using wp_runD [OF mem_claim_due_law [OF assms(1)] run] by (auto simp: env_kept_def)
  have stored: "mem_jobs (store w1) (job_id j) = Some j" "kind (job_state j) = KEnqueued"
    using C assms(3) claim_spec_kinds [OF C] by (simp_all add: claim_spec_def)
  have "hm_get (ms_locks (store w1)) (job_id j) = Some l"
    using claim_keeps_locks [OF assms(1) run] assms(4) by simp
  then have lock: "hm_get (live_locks (clock w1 (ticks w1)) (store w1)) (job_id j) = Some l"
    using assms(5) clk inv1 by (auto simp: live_locks_def hm_get_retain mem_inv_def)
  then have "\<not> eligible (clock w1 (ticks w1)) t qs (store w1) k" if "job_id k = job_id j" for t k
    using that by (simp add: eligible_def lockable_def)
  with wp_runD [OF mem_fetch_spec [OF inv1] assms(6)] stored show ?thesis
    by (auto split: if_splits)
qed

theorem retry_waits_for_lock_witness:
  "\<not> (\<exists>j'. fst (run_state (mem_fetch_and_lock_job ''y'' None) (snd (run_state (mem_claim_due_retry_jobs 10 5)
     (sample_world ((sample_memory [sample_job ''a'' 0 5 (AwaitingRetry 2 7 ''boom'')])
        \<lparr>ms_locks := [(''a'', \<lparr>jl_worker_id = ''x'', jl_expires_at = dur_seconds 1000\<rparr>)]\<rparr>) :: (_, unit) world))))
     = Inr (Some j') \<and> job_id j' = ''a'')"
proof -
  let ?s = "(sample_memory [sample_job ''a'' 0 5 (AwaitingRetry 2 7 ''boom'')])
        \<lparr>ms_locks := [(''a'', \<lparr>jl_worker_id = ''x'', jl_expires_at = dur_seconds 1000\<rparr>)]\<rparr>"
  let ?w = "sample_world ?s :: (_, unit) world"
  let ?w1 = "snd (run_state (mem_claim_due_retry_jobs 10 5) ?w)"
  let ?j = "(sample_job ''a'' 0 5 (AwaitingRetry 2 7 ''boom''))\<lparr>job_state := Enqueued (dur_seconds 100) ''default''\<rparr>"
  have inv: "mem_inv (store ?w)" by (simp add: mem_inv_put_locks)
  have run: "run_state (mem_claim_due_retry_jobs 10 5) ?w = (Inr [?j], ?w1)" and t: "ticks ?w1 = 1"
    by (simp_all add: mem_claim_due_retry_jobs_def mem_claim_due_def due_ids_def js_enqueued_def)
  have id_j: "job_id ?j = ''a''" by simp
  have "\<forall>j'. fst (run_state (mem_fetch_and_lock_job ''y'' None) ?w1) = Inr (Some j') \<longrightarrow> job_id j' \<noteq> ''a''"
    using retry_waits_for_lock [OF inv run _ _ _ surjective_pairing, of ?j
        "\<lparr>jl_worker_id = ''x'', jl_expires_at = dur_seconds 1000\<rparr>" "''y''" None] t id_j
    by (simp add: dur_defs)
  then show ?thesis by blast
qed

end
