(* ===== verification/Worker.thy ===== *)
theory Worker
  imports Job
begin

text \<open>
  What the processor runs: worker configuration, context and result
  (\<^verbatim>\<open>src/processing/worker.rs\<close>), the worker registry and the typed adapter
  (\<^verbatim>\<open>src/processing/mod.rs\<close>), and the middleware stack (\<^verbatim>\<open>src/processing/middleware.rs\<close>). A worker
  and a middleware are user code: arbitrary actions on the world. The cancellation token a context
  carries is only read by that code and is not represented; neither are the tracing spans.
\<close>

section \<open>Configuration and context\<close>

record worker_config =
  wcf_worker_id :: string
  wcf_server_name :: string
  wcf_queues :: "string list"
  wcf_job_timeout :: duration
  wcf_polling_interval :: duration

definition worker_config_default :: "('s, 'e, worker_config) act" where
  "worker_config_default = do {
     i \<leftarrow> new_uuid;
     ret \<lparr>wcf_worker_id = i, wcf_server_name = ''default'', wcf_queues = [''default''],
          wcf_job_timeout = dur_minutes 5, wcf_polling_interval = dur_seconds 1\<rparr> }"

definition worker_config_new :: "string \<Rightarrow> ('s, 'e, worker_config) act" where
  "worker_config_new wid = do {
     c \<leftarrow> worker_config_default;
     ret (c\<lparr>wcf_worker_id := wid\<rparr>) }"

definition wcf_with_server_name :: "string \<Rightarrow> worker_config \<Rightarrow> worker_config" where
  "wcf_with_server_name n c = c\<lparr>wcf_server_name := n\<rparr>"

definition wcf_with_queues :: "string list \<Rightarrow> worker_config \<Rightarrow> worker_config" where
  "wcf_with_queues qs c = c\<lparr>wcf_queues := qs\<rparr>"

definition wcf_with_job_timeout :: "duration \<Rightarrow> worker_config \<Rightarrow> worker_config" where
  "wcf_with_job_timeout d c = c\<lparr>wcf_job_timeout := d\<rparr>"

definition wcf_with_polling_interval :: "duration \<Rightarrow> worker_config \<Rightarrow> worker_config" where
  "wcf_with_polling_interval d c = c\<lparr>wcf_polling_interval := d\<rparr>"

record worker_context =
  wx_config :: worker_config
  wx_started_at :: time
  wx_execution_metadata :: "(string, string) hmap"
  wx_attempt :: u32
  wx_previous_exception :: "string option"

definition retry_from :: "worker_config \<Rightarrow> u32 \<Rightarrow> string option \<Rightarrow> ('s, 'e, worker_context) act" where
  "retry_from c attempt previous = do {
     now \<leftarrow> utc_now;
     ret \<lparr>wx_config = c, wx_started_at = now, wx_execution_metadata = [],
          wx_attempt = attempt, wx_previous_exception = previous\<rparr> }"

definition worker_context_new :: "worker_config \<Rightarrow> ('s, 'e, worker_context) act" where
  "worker_context_new c = do {
     now \<leftarrow> utc_now;
     ret \<lparr>wx_config = c, wx_started_at = now, wx_execution_metadata = [],
          wx_attempt = 1, wx_previous_exception = None\<rparr> }"

definition wx_add_metadata :: "string \<Rightarrow> string \<Rightarrow> worker_context \<Rightarrow> worker_context" where
  "wx_add_metadata k v c = c\<lparr>wx_execution_metadata := hm_insert k v (wx_execution_metadata c)\<rparr>"

definition wx_duration :: "worker_context \<Rightarrow> ('s, 'e, duration) act" where
  "wx_duration c = do { now \<leftarrow> utc_now; ret (now - wx_started_at c) }"

definition wx_is_timed_out :: "worker_context \<Rightarrow> ('s, 'e, bool) act" where
  "wx_is_timed_out c = do { d \<leftarrow> wx_duration c; ret (d > wcf_job_timeout (wx_config c)) }"

definition wx_is_retry :: "worker_context \<Rightarrow> bool" where
  "wx_is_retry c = (wx_attempt c > 1)"

section \<open>Results\<close>

text \<open>The arguments are the fields of the variants, in the order of the source.\<close>

datatype worker_result =
    Success "string option" u64 "(string, string) hmap"
  | Retry string "string option" "time option" "(string, string) hmap"
  | Failure string "string option" "(string, string) hmap"

definition wr_success :: "string option \<Rightarrow> u64 \<Rightarrow> worker_result" where
  "wr_success r ms = Success r ms []"

definition wr_success_with_metadata :: "string option \<Rightarrow> u64 \<Rightarrow> (string, string) hmap \<Rightarrow> worker_result" where
  "wr_success_with_metadata r ms md = Success r ms md"

definition wr_retry :: "string \<Rightarrow> time option \<Rightarrow> worker_result" where
  "wr_retry err retry_at = Retry err None retry_at []"

definition wr_retry_with_context :: "string \<Rightarrow> time option \<Rightarrow> (string, string) hmap \<Rightarrow> worker_result" where
  "wr_retry_with_context err retry_at ctx = Retry err None retry_at ctx"

definition wr_failure :: "string \<Rightarrow> worker_result" where
  "wr_failure err = Failure err None []"

definition wr_failure_with_context :: "string \<Rightarrow> (string, string) hmap \<Rightarrow> worker_result" where
  "wr_failure_with_context err ctx = Failure err None ctx"

fun wr_is_success :: "worker_result \<Rightarrow> bool" where
  "wr_is_success (Success _ _ _) = True" | "wr_is_success _ = False"

fun wr_should_retry :: "worker_result \<Rightarrow> bool" where
  "wr_should_retry (Retry _ _ _ _) = True" | "wr_should_retry _ = False"

fun wr_is_failure :: "worker_result \<Rightarrow> bool" where
  "wr_is_failure (Failure _ _ _) = True" | "wr_is_failure _ = False"

fun wr_error_message :: "worker_result \<Rightarrow> string option" where
  "wr_error_message (Retry err _ _ _) = Some err"
| "wr_error_message (Failure err _ _) = Some err"
| "wr_error_message (Success _ _ _) = None"

type_synonym exec_result = "qml_error + worker_result"

section \<open>Workers and their registry\<close>

record ('p, 's, 'e) worker =
  wk_method_name :: string
  wk_execute :: "'p job \<Rightarrow> worker_context \<Rightarrow> ('s, 'e, exec_result) act"

definition can_handle :: "('p, 's, 'e) worker \<Rightarrow> string \<Rightarrow> bool" where
  "can_handle wk meth = (wk_method_name wk = meth)"

record ('a, 's, 'e) typed_worker =
  tw_method_name :: string
  tw_execute :: "'a \<Rightarrow> worker_context \<Rightarrow> ('s, 'e, exec_result) act"

text \<open>\<open>from_value\<close> is \<^verbatim>\<open>serde_json::from_value\<close> at the argument type.\<close>

definition typed_worker_adapter ::
  "('p \<Rightarrow> string + 'a) \<Rightarrow> ('a, 's, 'e) typed_worker \<Rightarrow> ('p, 's, 'e) worker" where
  "typed_worker_adapter from_value inner =
     \<lparr>wk_method_name = tw_method_name inner,
      wk_execute = (\<lambda>j ctx.
        case from_value (job_payload j) of
          Inl e \<Rightarrow> ret (Inl (WorkerError
            (''Failed to deserialize typed payload for method '' @ tw_method_name inner @ '': '' @ e)))
        | Inr args \<Rightarrow> tw_execute inner args ctx)\<rparr>"

type_synonym ('p, 's, 'e) worker_registry = "(string, ('p, 's, 'e) worker) hmap"

definition wreg_register :: "('p, 's, 'e) worker \<Rightarrow> ('p, 's, 'e) worker_registry \<Rightarrow> ('p, 's, 'e) worker_registry" where
  "wreg_register wk m = hm_insert (wk_method_name wk) wk m"

definition wreg_register_typed ::
  "('p \<Rightarrow> string + 'a) \<Rightarrow> ('a, 's, 'e) typed_worker \<Rightarrow> ('p, 's, 'e) worker_registry
     \<Rightarrow> ('p, 's, 'e) worker_registry" where
  "wreg_register_typed from_value tw m = wreg_register (typed_worker_adapter from_value tw) m"

definition get_worker :: "('p, 's, 'e) worker_registry \<Rightarrow> string \<Rightarrow> ('p, 's, 'e) worker option" where
  "get_worker m meth = hm_get m meth"

definition get_methods :: "('p, 's, 'e) worker_registry \<Rightarrow> string list" where
  "get_methods m = map fst m"

definition has_worker :: "('p, 's, 'e) worker_registry \<Rightarrow> string \<Rightarrow> bool" where
  "has_worker m meth = hm_contains m meth"

definition wreg_len :: "('p, 's, 'e) worker_registry \<Rightarrow> nat" where
  "wreg_len m = length m"

definition wreg_is_empty :: "('p, 's, 'e) worker_registry \<Rightarrow> bool" where
  "wreg_is_empty m = (m = [])"

section \<open>Middleware\<close>

type_synonym ('p, 's, 'e) next_fn = "'p job \<Rightarrow> worker_context \<Rightarrow> ('s, 'e, exec_result) act"
type_synonym ('p, 's, 'e) middleware =
  "'p job \<Rightarrow> worker_context \<Rightarrow> ('p, 's, 'e) next_fn \<Rightarrow> ('s, 'e, exec_result) act"

text \<open>\<^verbatim>\<open>Next::run\<close>: the first remaining layer gets the handle on the rest, the worker is the last.\<close>

fun next_run :: "('p, 's, 'e) middleware list \<Rightarrow> ('p, 's, 'e) worker \<Rightarrow> ('p, 's, 'e) next_fn" where
  "next_run [] wk j ctx = wk_execute wk j ctx"
| "next_run (first # rest) wk j ctx = first j ctx (next_run rest wk)"

definition run_stack ::
  "('p, 's, 'e) middleware list \<Rightarrow> ('p, 's, 'e) worker \<Rightarrow> 'p job \<Rightarrow> worker_context
     \<Rightarrow> ('s, 'e, exec_result) act" where
  "run_stack ms wk j ctx = next_run ms wk j ctx"

definition tracing_middleware :: "('p, 's, 'e) middleware" where
  "tracing_middleware j ctx next = next j ctx"

section \<open>Library facts\<close>

lemma next_run_append:
  "next_run (ms @ ns) wk = next_run ms \<lparr>wk_method_name = wk_method_name wk, wk_execute = next_run ns wk\<rparr>"
  by (induction ms) (auto intro!: ext)

section \<open>Properties\<close>

text \<open>
  A registered worker is the one that is looked up: registering makes the worker the answer for
  its own method name, replaces an earlier one of the same name and leaves the others; every worker
  the registry returns handles the method it was asked for.
\<close>

theorem register_then_get:
  assumes "\<forall>m wk. get_worker reg m = Some wk \<longrightarrow> can_handle wk m"
  shows "get_worker (wreg_register wk reg) m = (if can_handle wk m then Some wk else get_worker reg m)
       \<and> (\<forall>m' wk'. get_worker (wreg_register wk reg) m' = Some wk' \<longrightarrow> can_handle wk' m')
       \<and> wreg_len (wreg_register wk reg)
           = (if has_worker reg (wk_method_name wk) then wreg_len reg else Suc (wreg_len reg))"
  using assms
  by (auto simp: can_handle_def get_worker_def wreg_len_def has_worker_def wreg_register_def
      length_hm_insert)

theorem register_then_get_witness:
  "get_worker (wreg_register \<lparr>wk_method_name = ''m'', wk_execute = \<lambda>j c. ret (Inr (wr_success None 0))\<rparr>
      ([] :: (unit, unit, unit) worker_registry)) ''n'' = None"
  using register_then_get [of "[] :: (unit, unit, unit) worker_registry"
      "\<lparr>wk_method_name = ''m'', wk_execute = \<lambda>j c. ret (Inr (wr_success None 0))\<rparr>" "''n''"]
  by (simp add: get_worker_def can_handle_def)

text \<open>
  Order of the middleware stack: the first layer is the outermost. Running a stack is running
  its first layer around the rest; a layer that answers without calling \<^verbatim>\<open>next\<close> decides the result
  whatever the layers and the worker below it are; and layers that only pass on, such as the
  built-in tracing layer, leave the result and the effects unchanged wherever they stand.
\<close>

theorem run_stack_order:
  fixes ms ns :: "('p, 's, 'e) middleware list"
  shows "run_stack (m # ms) wk j ctx = m j ctx (\<lambda>j' ctx'. run_stack ms wk j' ctx')
    \<and> run_stack ((\<lambda>j ctx next. answer) # ms) wk j ctx = answer
    \<and> run_stack (ms @ tracing_middleware # ns) wk j ctx = run_stack (ms @ ns) wk j ctx"
proof -
  have "next_run (tracing_middleware # ns) wk = next_run ns wk"
    by (simp add: fun_eq_iff tracing_middleware_def)
  then have "run_stack (ms @ tracing_middleware # ns) wk j ctx = run_stack (ms @ ns) wk j ctx"
    by (simp only: run_stack_def next_run_append)
  then show ?thesis by (simp add: run_stack_def)
qed

end
