(* ===== verification/F64.thy ===== *)
theory F64
  imports Qml_Prelude
begin

text \<open>
  The part of \<^verbatim>\<open>f64\<close> that the retry delays and the queue scores use: conversion from integers,
  multiplication, division and addition with rounding to nearest even on a 53-bit significand,
  \<^verbatim>\<open>f64::min\<close>, and the saturating \<^verbatim>\<open>as i64\<close>. A finite value is the rational it denotes; the sign of
  zero is not kept, nothing in the crate observes it.
\<close>

section \<open>Values and rounding\<close>

datatype f64 = NaN | Infinity bool | Fin rat   \<comment> \<open>the flag of an infinity is set when it is negative\<close>

fun ilog2 :: "nat \<Rightarrow> nat" where
  "ilog2 n = (if n < 2 then 0 else Suc (ilog2 (n div 2)))"

declare ilog2.simps [simp del]

definition pow2 :: "int \<Rightarrow> rat" where
  "pow2 e = (if 0 \<le> e then 2 ^ nat e else 1 / 2 ^ nat (- e))"

text \<open>The exponent of the binade of a positive rational: \<open>pow2 e \<le> x < pow2 (e + 1)\<close>.\<close>

definition binade :: "rat \<Rightarrow> int" where
  "binade x =
     (case quotient_of x of
        (p, q) \<Rightarrow> let e = int (ilog2 (nat p)) - int (ilog2 (nat q)) in
                  if pow2 e \<le> x then e else e - 1)"

definition round_even :: "rat \<Rightarrow> int" where
  "round_even x =
     (let f = \<lfloor>x\<rfloor>; d = x - of_int f in
      if d < 1 / 2 then f else if d > 1 / 2 then f + 1 else if even f then f else f + 1)"

definition f64_round :: "rat \<Rightarrow> f64" where
  "f64_round x =
     (if x = 0 then Fin 0
      else let u = pow2 (max (-1074) (binade \<bar>x\<bar> - 52));
               r = of_int (round_even (x / u)) * u
           in if \<bar>r\<bar> < pow2 1024 then Fin r else Infinity (x < 0))"

section \<open>Operations\<close>

definition f64_of_int :: "int \<Rightarrow> f64" where
  "f64_of_int n = f64_round (of_int n)"

fun f64_mul :: "f64 \<Rightarrow> f64 \<Rightarrow> f64" where
  "f64_mul (Fin a) (Fin b) = f64_round (a * b)"
| "f64_mul (Fin a) (Infinity s) = (if a = 0 then NaN else Infinity ((a < 0) \<noteq> s))"
| "f64_mul (Infinity s) (Fin b) = (if b = 0 then NaN else Infinity ((b < 0) \<noteq> s))"
| "f64_mul (Infinity s) (Infinity t) = Infinity (s \<noteq> t)"
| "f64_mul NaN _ = NaN"
| "f64_mul _ NaN = NaN"

fun f64_add :: "f64 \<Rightarrow> f64 \<Rightarrow> f64" where
  "f64_add (Fin a) (Fin b) = f64_round (a + b)"
| "f64_add (Fin a) (Infinity s) = Infinity s"
| "f64_add (Infinity s) (Fin b) = Infinity s"
| "f64_add (Infinity s) (Infinity t) = (if s = t then Infinity s else NaN)"
| "f64_add NaN _ = NaN"
| "f64_add _ NaN = NaN"

text \<open>The sign of a zero divisor is not kept either.\<close>

fun f64_div :: "f64 \<Rightarrow> f64 \<Rightarrow> f64" where
  "f64_div (Fin a) (Fin b) =
     (if b \<noteq> 0 then f64_round (a / b) else if a = 0 then NaN else Infinity (a < 0))"
| "f64_div (Fin a) (Infinity s) = Fin 0"
| "f64_div (Infinity s) (Fin b) = Infinity (s \<noteq> (b < 0))"
| "f64_div (Infinity s) (Infinity t) = NaN"
| "f64_div NaN _ = NaN"
| "f64_div _ NaN = NaN"

text \<open>\<^verbatim>\<open>f64::min\<close> ignores a NaN operand.\<close>

fun f64_min :: "f64 \<Rightarrow> f64 \<Rightarrow> f64" where
  "f64_min NaN y = y"
| "f64_min x NaN = x"
| "f64_min (Infinity s) y = (if s then Infinity True else y)"
| "f64_min x (Infinity s) = (if s then Infinity True else x)"
| "f64_min (Fin a) (Fin b) = Fin (min a b)"

definition trunc :: "rat \<Rightarrow> int" where
  "trunc x = (if 0 \<le> x then \<lfloor>x\<rfloor> else \<lceil>x\<rceil>)"

text \<open>\<^verbatim>\<open>as i64\<close>: truncation, saturating at the ends of the range, 0 for NaN.\<close>

fun f64_as_i64 :: "f64 \<Rightarrow> int" where
  "f64_as_i64 NaN = 0"
| "f64_as_i64 (Infinity s) = (if s then - (2 ^ 63) else 2 ^ 63 - 1)"
| "f64_as_i64 (Fin x) = max (- (2 ^ 63)) (min (2 ^ 63 - 1) (trunc x))"

section \<open>Small integers are exact\<close>

lemma round_even_of_int [simp]: "round_even (of_int n) = n"
  by (simp add: round_even_def)

lemma round_even_mono: "x \<le> y \<Longrightarrow> round_even x \<le> round_even y"
proof -
  assume le: "x \<le> y"
  then have fl: "\<lfloor>x\<rfloor> \<le> \<lfloor>y\<rfloor>" by (rule floor_mono)
  show ?thesis
  proof (cases "\<lfloor>x\<rfloor> = \<lfloor>y\<rfloor>")
    case True
    with le show ?thesis by (auto simp: round_even_def Let_def)
  next
    case False
    with fl show ?thesis by (auto simp: round_even_def Let_def)
  qed
qed

lemma ilog2_bounds: "0 < n \<Longrightarrow> 2 ^ ilog2 n \<le> n \<and> n < 2 ^ Suc (ilog2 n)"
proof (induction n rule: ilog2.induct)
  case (1 n)
  show ?case
  proof (cases "n < 2")
    case True
    with 1 show ?thesis by (simp add: ilog2.simps [of n])
  next
    case False
    with 1 have "2 ^ ilog2 (n div 2) \<le> n div 2 \<and> n div 2 < 2 ^ Suc (ilog2 (n div 2))" by simp
    with False show ?thesis by (simp add: ilog2.simps [of n]) linarith
  qed
qed

lemma pow2_pos [simp]: "0 < pow2 e"
  by (simp add: pow2_def)

lemma pow2_neq_0 [simp]: "pow2 e \<noteq> 0"
  by (metis less_irrefl pow2_pos)

lemma pow2_Suc: "pow2 (e + 1) = 2 * pow2 e"
proof (cases "0 \<le> e")
  case True
  then show ?thesis by (simp add: pow2_def nat_add_distrib)
next
  case False
  then have "nat (- e) = Suc (nat (- (e + 1)))" by simp
  with False show ?thesis by (auto simp: pow2_def)
qed

lemma pow2_add: "pow2 (a + b) = pow2 a * pow2 b"
proof -
  have nonneg: "pow2 (a + int n) = pow2 a * 2 ^ n" for a n
  proof (induction n)
    case (Suc n)
    have "a + int (Suc n) = (a + int n) + 1" by simp
    then have "pow2 (a + int (Suc n)) = 2 * pow2 (a + int n)" by (simp only: pow2_Suc)
    then show ?case by (simp only: Suc) simp
  qed simp
  have nn: "pow2 (int n) = 2 ^ n" for n by (simp add: pow2_def)
  show ?thesis
  proof (cases "0 \<le> b")
    case True
    with nonneg [of a "nat b"] nn [of "nat b"] show ?thesis by simp
  next
    case False
    with nonneg [of "a + b" "nat (- b)"] have "pow2 a = pow2 (a + b) * 2 ^ nat (- b)" by simp
    moreover from False have "pow2 b = 1 / 2 ^ nat (- b)" by (simp add: pow2_def)
    ultimately show ?thesis by simp
  qed
qed

lemma pow2_le_iff [simp]: "pow2 a \<le> pow2 b \<longleftrightarrow> a \<le> b"
proof -
  have up: "pow2 a \<le> pow2 b" if "a \<le> b" for a b
  proof -
    from that have "pow2 b = pow2 a * 2 ^ nat (b - a)"
      using pow2_add [of a "b - a"] by (simp add: pow2_def [of "b - a"])
    moreover have "pow2 a * 1 \<le> pow2 a * 2 ^ nat (b - a)"
      by (intro mult_left_mono) (simp_all add: less_imp_le)
    ultimately show ?thesis by simp
  qed
  have "pow2 b < pow2 a" if "b < a"
    using up [of "b + 1" a] that pow2_Suc [of b] pow2_pos [of b] by linarith
  with up [of a b] show ?thesis by (meson linorder_not_le)
qed

lemma pow2_less_iff [simp]: "pow2 a < pow2 b \<longleftrightarrow> a < b"
  by (meson linorder_not_le pow2_le_iff)

lemma binade_bounds:
  assumes "0 < x"
  shows "pow2 (binade x) \<le> x \<and> x < pow2 (binade x + 1)"
proof -
  obtain p q where pq: "quotient_of x = (p, q)" by (cases "quotient_of x")
  have q: "0 < q" using quotient_of_denom_pos [OF pq] .
  have x: "x = of_int p / of_int q" using quotient_of_div [OF pq] .
  have p: "0 < p" using assms q unfolding x by (simp add: zero_less_divide_iff)
  have nn: "pow2 (int n) = 2 ^ n" for n by (simp add: pow2_def)
  have bnd: "pow2 (int (ilog2 (nat n))) \<le> of_int n \<and> of_int n < pow2 (int (ilog2 (nat n)) + 1)"
    if "0 < n" for n :: int
  proof -
    have "(of_nat (2 ^ ilog2 (nat n)) :: rat) \<le> of_nat (nat n)"
      and "(of_nat (nat n) :: rat) < of_nat (2 ^ Suc (ilog2 (nat n)))"
      using ilog2_bounds [of "nat n"] that by (simp_all only: of_nat_le_iff of_nat_less_iff)
    with that show ?thesis by (simp add: nn pow2_Suc)
  qed
  let ?e = "int (ilog2 (nat p)) - int (ilog2 (nat q))"
  have split: "pow2 ?e * pow2 (int (ilog2 (nat q))) = pow2 (int (ilog2 (nat p)))"
    by (simp flip: pow2_add)
  have Q: "0 < (of_int q :: rat)" using q by simp
  have upper: "x < pow2 (?e + 1)"
  proof -
    have "of_int p < 2 * pow2 (int (ilog2 (nat p)))" using bnd [OF p] by (simp add: pow2_Suc)
    also have "\<dots> = 2 * pow2 ?e * pow2 (int (ilog2 (nat q)))" using split by simp
    also have "\<dots> \<le> 2 * pow2 ?e * of_int q"
      using bnd [OF q] by (intro mult_left_mono) (simp_all add: less_imp_le)
    finally show ?thesis using Q by (simp add: x pow2_Suc divide_less_eq)
  qed
  have lower: "pow2 (?e - 1) \<le> x"
  proof -
    have "2 * pow2 (?e - 1) = pow2 ?e" using pow2_Suc [of "?e - 1"] by simp
    then have half: "2 * pow2 (?e - 1) * pow2 (int (ilog2 (nat q))) \<le> of_int p"
      using bnd [OF p] split by simp
    have "pow2 (?e - 1) * of_int q \<le> pow2 (?e - 1) * (2 * pow2 (int (ilog2 (nat q))))"
      using bnd [OF q] by (intro mult_left_mono) (simp_all add: pow2_Suc less_imp_le)
    also have "\<dots> = 2 * pow2 (?e - 1) * pow2 (int (ilog2 (nat q)))" by simp
    also note half
    finally have "pow2 (?e - 1) * of_int q \<le> of_int p" .
    then show ?thesis using Q by (simp add: x le_divide_eq)
  qed
  show ?thesis
    using upper lower by (simp add: binade_def pq Let_def)
qed

lemma binade_le: "0 < x \<Longrightarrow> x < pow2 (e + 1) \<Longrightarrow> binade x \<le> e"
  using binade_bounds [of x] by (metis order.strict_trans1 pow2_less_iff zless_iff_Suc_zadd zle_add1_eq_le)

lemma binade_mono: "0 < x \<Longrightarrow> x \<le> y \<Longrightarrow> binade x \<le> binade y"
  using binade_bounds [of y] by (intro binade_le) auto

section \<open>Rounding\<close>

text \<open>The rounded value before the overflow test.\<close>

definition rnd_exp :: "rat \<Rightarrow> int" where
  "rnd_exp x = max (-1074) (binade \<bar>x\<bar> - 52)"

definition rnd :: "rat \<Rightarrow> rat" where
  "rnd x = (if x = 0 then 0 else of_int (round_even (x / pow2 (rnd_exp x))) * pow2 (rnd_exp x))"

lemma f64_round_rnd: "f64_round x = (if \<bar>rnd x\<bar> < pow2 1024 then Fin (rnd x) else Infinity (x < 0))"
  by (simp add: f64_round_def rnd_def rnd_exp_def Let_def)

lemma round_even_minus: "round_even (- x) = - round_even x"
proof (cases "x = of_int \<lfloor>x\<rfloor>")
  case True
  then show ?thesis by (metis of_int_minus round_even_of_int)
next
  case False
  then have "\<lfloor>- x\<rfloor> = - \<lfloor>x\<rfloor> - 1"
    using floor_minus [of x] ceiling_altdef [of x] by simp
  then show ?thesis by (auto simp: round_even_def Let_def)
qed

lemma rnd_minus: "rnd (- x) = - rnd x"
  by (simp add: rnd_def rnd_exp_def round_even_minus)

lemma rnd_nonneg: "0 \<le> x \<Longrightarrow> 0 \<le> rnd x"
proof -
  assume "0 \<le> x"
  then have "round_even 0 \<le> round_even (x / pow2 (rnd_exp x))"
    by (intro round_even_mono) (simp add: less_imp_le)
  then show ?thesis using round_even_of_int [of 0] by (simp add: rnd_def less_imp_le)
qed

lemma rnd_exp_mono: "0 < x \<Longrightarrow> x \<le> y \<Longrightarrow> rnd_exp x \<le> rnd_exp y"
  using binade_mono [of x y] by (simp add: rnd_exp_def)

lemma rnd_mono_pos:
  assumes "0 < x" and "x \<le> y"
  shows "rnd x \<le> rnd y"
proof (cases "rnd_exp x = rnd_exp y")
  case True
  have "x / pow2 (rnd_exp y) \<le> y / pow2 (rnd_exp y)"
    using assms(2) by (intro divide_right_mono) (simp_all add: less_imp_le)
  from round_even_mono [OF this] assms True show ?thesis
    by (simp add: rnd_def mult_right_mono less_imp_le)
next
  case False
  then have less: "rnd_exp x < rnd_exp y" using rnd_exp_mono [OF assms] by simp
  then have ey: "rnd_exp y = binade y - 52" and ex: "binade x < binade y"
    using assms by (auto simp: rnd_exp_def)
  define b where "b = binade y"
  have int_pow: "pow2 k = of_int (2 ^ nat k)" if "0 \<le> k" for k
    using that by (simp add: pow2_def)
  have quot: "pow2 b / pow2 e = pow2 (b - e)" for e
    using pow2_add [of "b - e" e] by (simp add: field_simps)
  have "x \<le> pow2 b"
  proof -
    have "x < pow2 (binade x + 1)" using binade_bounds [OF assms(1)] by simp
    also have "\<dots> \<le> pow2 b" using ex by (simp add: b_def)
    finally show ?thesis by simp
  qed
  then have "x / pow2 (rnd_exp x) \<le> pow2 (b - rnd_exp x)"
    unfolding quot [symmetric] by (intro divide_right_mono) (simp_all add: less_imp_le)
  then have "round_even (x / pow2 (rnd_exp x)) \<le> round_even (pow2 (b - rnd_exp x))"
    by (rule round_even_mono)
  moreover have k: "pow2 (b - rnd_exp x) = of_int (2 ^ nat (b - rnd_exp x))"
    using less ey by (intro int_pow) (simp add: b_def)
  ultimately have "round_even (x / pow2 (rnd_exp x)) \<le> 2 ^ nat (b - rnd_exp x)"
    by (simp only: round_even_of_int)
  then have "of_int (round_even (x / pow2 (rnd_exp x))) \<le> pow2 (b - rnd_exp x)"
    unfolding k by (simp only: of_int_le_iff)
  then have "of_int (round_even (x / pow2 (rnd_exp x))) * pow2 (rnd_exp x) \<le> pow2 b"
    unfolding quot [symmetric] by (simp add: le_divide_eq)
  then have "rnd x \<le> pow2 b" using assms by (simp add: rnd_def)
  moreover have "pow2 b \<le> rnd y"
  proof -
    have y: "0 < y" using assms by simp
    have "pow2 52 \<le> y / pow2 (rnd_exp y)"
      using binade_bounds [OF y] quot [of "b - 52"] by (simp add: ey b_def le_divide_eq flip: pow2_add)
    then have "round_even (pow2 52) \<le> round_even (y / pow2 (rnd_exp y))"
      by (rule round_even_mono)
    moreover have k52: "pow2 52 = of_int (2 ^ 52)" by (simp add: pow2_def)
    ultimately have "2 ^ 52 \<le> round_even (y / pow2 (rnd_exp y))"
      by (simp only: round_even_of_int)
    then have "pow2 52 \<le> of_int (round_even (y / pow2 (rnd_exp y)))"
      unfolding k52 by (simp only: of_int_le_iff)
    then have "pow2 52 * pow2 (b - 52) \<le> of_int (round_even (y / pow2 (rnd_exp y))) * pow2 (rnd_exp y)"
      unfolding ey b_def [symmetric] by (intro mult_right_mono) (simp_all add: less_imp_le)
    then show ?thesis using y by (simp add: rnd_def flip: pow2_add)
  qed
  ultimately show ?thesis by simp
qed

lemma rnd_mono: "x \<le> y \<Longrightarrow> rnd x \<le> rnd y"
proof -
  assume le: "x \<le> y"
  consider "0 < x" | "x \<le> 0" "0 \<le> y" | "y < 0" by linarith
  then show ?thesis
  proof cases
    case 1
    then show ?thesis using le by (rule rnd_mono_pos)
  next
    case 2
    then show ?thesis using rnd_nonneg [of "- x"] rnd_nonneg [of y] by (simp add: rnd_minus)
  next
    case 3
    then show ?thesis using rnd_mono_pos [of "- y" "- x"] le by (simp add: rnd_minus)
  qed
qed

section \<open>Representable values\<close>

lemma pow2_int: "0 \<le> k \<Longrightarrow> pow2 k = of_int (2 ^ nat k)"
  by (simp add: pow2_def)

lemma rnd_exact_pos:
  assumes "0 < m" and "m < 2 ^ 53" and "-1074 \<le> e"
  shows "rnd (of_int m * pow2 e) = of_int m * pow2 e"
proof -
  let ?x = "of_int m * pow2 e"
  have pos: "0 < ?x" using assms(1) by simp
  have "(of_int m :: rat) < of_int (2 ^ 53)" using assms(2) by (simp only: of_int_less_iff)
  then have "?x < pow2 53 * pow2 e"
    by (intro mult_strict_right_mono) (simp_all add: pow2_int)
  then have "?x < pow2 ((52 + e) + 1)" by (simp add: add.commute flip: pow2_add)
  then have "binade ?x \<le> 52 + e" using pos by (intro binade_le)
  then have le: "rnd_exp ?x \<le> e" using assms(3) pos by (simp add: rnd_exp_def)
  then have "?x / pow2 (rnd_exp ?x) = of_int m * pow2 (e - rnd_exp ?x)"
    using pow2_add [of "e - rnd_exp ?x" "rnd_exp ?x"] by (simp add: field_simps)
  also have "\<dots> = of_int (m * 2 ^ nat (e - rnd_exp ?x))" using le by (simp add: pow2_int)
  finally have "round_even (?x / pow2 (rnd_exp ?x)) = m * 2 ^ nat (e - rnd_exp ?x)"
    by (metis round_even_of_int)
  moreover have "of_int (m * 2 ^ nat (e - rnd_exp ?x)) * pow2 (rnd_exp ?x) = ?x"
    using le pow2_add [of "e - rnd_exp ?x" "rnd_exp ?x"] by (simp add: pow2_int)
  ultimately show ?thesis using assms(1) by (simp only: rnd_def) auto
qed

lemma rnd_exact:
  assumes "\<bar>m\<bar> < 2 ^ 53" and "-1074 \<le> e"
  shows "rnd (of_int m * pow2 e) = of_int m * pow2 e"
proof -
  consider "m = 0" | "0 < m" | "0 < - m" by linarith
  then show ?thesis
  proof cases
    case 1
    then show ?thesis by (simp add: rnd_def)
  next
    case 2
    then show ?thesis using assms by (intro rnd_exact_pos) simp_all
  next
    case 3
    then show ?thesis using rnd_exact_pos [of "- m" e] assms rnd_minus [of "of_int m * pow2 e"] by simp
  qed
qed

lemma rnd_of_int: "\<bar>m\<bar> < 2 ^ 53 \<Longrightarrow> rnd (of_int m) = of_int m"
  using rnd_exact [of m 0] by (simp add: pow2_def)

lemma rnd_quarter: "\<bar>m\<bar> < 2 ^ 53 \<Longrightarrow> rnd (of_int m / 4) = of_int m / 4"
  using rnd_exact [of m "-2"] by (simp add: pow2_def)

lemma pow2_1024_big: "x \<le> of_int (2 ^ 53) \<Longrightarrow> x < pow2 1024"
proof -
  assume "x \<le> of_int (2 ^ 53)"
  also have "\<dots> = pow2 53" by (simp add: pow2_int)
  also have "\<dots> < pow2 1024" by simp
  finally show ?thesis .
qed

lemma f64_of_int_exact: "\<bar>m\<bar> < 2 ^ 53 \<Longrightarrow> f64_of_int m = Fin (of_int m)"
proof -
  assume m: "\<bar>m\<bar> < 2 ^ 53"
  then have "\<bar>of_int m :: rat\<bar> \<le> of_int (2 ^ 53)"
    by (metis less_imp_le of_int_abs of_int_le_iff)
  with m pow2_1024_big show ?thesis by (simp add: f64_of_int_def f64_round_rnd rnd_of_int)
qed

lemma rnd_abs_le_int: "\<bar>x\<bar> \<le> of_int m \<Longrightarrow> \<bar>m\<bar> < 2 ^ 53 \<Longrightarrow> \<bar>rnd x\<bar> \<le> of_int m"
  using rnd_mono [of x "of_int m"] rnd_mono [of "- of_int m" x] rnd_minus [of "of_int m"]
  by (simp add: rnd_of_int abs_le_iff)

lemma rnd_idem_pos:
  assumes "0 < x"
  shows "rnd (rnd x) = rnd x"
proof -
  define e where "e = rnd_exp x"
  define n where "n = round_even (x / pow2 e)"
  have e: "-1074 \<le> e" and "binade x + 1 \<le> 53 + e" using assms by (auto simp: e_def rnd_exp_def)
  then have "pow2 (binade x + 1) \<le> pow2 53 * pow2 e" by (simp flip: pow2_add)
  then have "x < pow2 53 * pow2 e" using binade_bounds [OF assms] by simp
  then have "x / pow2 e \<le> of_int (2 ^ 53)" by (simp add: divide_le_eq pow2_int)
  then have le: "n \<le> 2 ^ 53" unfolding n_def using round_even_mono round_even_of_int by metis
  have ge: "0 \<le> n"
    using round_even_mono [of 0 "x / pow2 e"] round_even_of_int [of 0] assms
    by (simp add: n_def less_imp_le)
  have x: "rnd x = of_int n * pow2 e" using assms by (simp add: rnd_def n_def e_def)
  show ?thesis
  proof (cases "n = 2 ^ 53")
    case True
    then have "rnd x = of_int (2 ^ 52) * pow2 (e + 1)" unfolding x by (simp add: pow2_Suc)
    then show ?thesis using rnd_exact [of "2 ^ 52" "e + 1"] e by simp
  next
    case False
    with le ge have "\<bar>n\<bar> < 2 ^ 53" by simp
    from rnd_exact [OF this e] show ?thesis unfolding x .
  qed
qed

lemma rnd_idem [simp]: "rnd (rnd x) = rnd x"
proof -
  consider "x = 0" | "0 < x" | "0 < - x" by linarith
  then show ?thesis
  proof cases
    case 1
    then show ?thesis by (simp add: rnd_def)
  next
    case 2
    then show ?thesis by (rule rnd_idem_pos)
  next
    case 3
    from rnd_idem_pos [OF 3] show ?thesis by (simp add: rnd_minus)
  qed
qed

text \<open>The values a product of non-negative factors can take.\<close>

fun f64_nonneg :: "f64 \<Rightarrow> bool" where
  "f64_nonneg NaN = True"
| "f64_nonneg (Infinity s) = (\<not> s)"
| "f64_nonneg (Fin x) = (0 \<le> x \<and> rnd x = x)"

lemma f64_round_nonneg: "0 \<le> x \<Longrightarrow> f64_nonneg (f64_round x)"
  by (simp add: f64_round_rnd rnd_nonneg)

lemma f64_mul_nonneg: "f64_nonneg a \<Longrightarrow> f64_nonneg b \<Longrightarrow> f64_nonneg (f64_mul a b)"
  by (cases a; cases b) (auto simp: f64_round_nonneg)

lemma f64_of_int_nonneg: "0 \<le> n \<Longrightarrow> f64_nonneg (f64_of_int n)"
  by (simp add: f64_of_int_def f64_round_nonneg)

lemma f64_min_nonneg:
  assumes "f64_nonneg a" and "0 \<le> m" and "m < 2 ^ 53"
  obtains d where "f64_min a (f64_of_int m) = Fin d" "0 \<le> d" "d \<le> of_int m" "rnd d = d"
proof -
  have m: "f64_of_int m = Fin (of_int m)" "rnd (of_int m) = of_int m"
    using assms by (simp_all add: f64_of_int_exact rnd_of_int)
  show ?thesis
  proof (cases a)
    case (Fin x)
    with assms m that [of "min x (of_int m)"] show ?thesis by (simp add: min_def split: if_splits)
  qed (use assms m that [of "of_int m"] in auto)
qed

lemma trunc_le: "x \<le> of_int n \<Longrightarrow> trunc x \<le> n"
  by (auto simp: trunc_def floor_le_iff ceiling_le_iff)

lemma trunc_nonneg: "0 \<le> x \<Longrightarrow> 0 \<le> trunc x"
  by (simp add: trunc_def)

lemma trunc_of_int [simp]: "trunc (of_int n) = n"
  by (simp add: trunc_def)

lemma f64_as_i64_of_int: "0 \<le> n \<Longrightarrow> n < 2 ^ 53 \<Longrightarrow> f64_as_i64 (Fin (of_int n)) = n"
  by simp

end
