(* ===== verification/Retry.thy ===== *)
theory Retry
  imports F64
begin

text \<open>
  Retry strategies and policies, \<^verbatim>\<open>src/processing/retry.rs\<close>.
\<close>

section \<open>Strategies\<close>

datatype retry_strategy =
    NoRetry
  | Fixed duration u32                              \<comment> \<open>interval, max attempts\<close>
  | ExponentialBackoff duration f64 duration u32 bool
      \<comment> \<open>initial delay, multiplier, max delay, max attempts, jitter\<close>
  | LinearBackoff duration duration duration u32
      \<comment> \<open>initial delay, increment, max delay, max attempts\<close>

definition retry_strategy_default :: retry_strategy where
  "retry_strategy_default = ExponentialBackoff (dur_seconds 1) (Fin 2) (dur_minutes 15) 5 True"

definition exponential_backoff :: "duration \<Rightarrow> f64 \<Rightarrow> duration \<Rightarrow> u32 \<Rightarrow> retry_strategy" where
  "exponential_backoff initial_delay multiplier max_delay max_attempts =
     ExponentialBackoff initial_delay multiplier max_delay max_attempts True"

text \<open>The loop \<^verbatim>\<open>for _ in 1..attempt { delay *= multiplier; }\<close>.\<close>

fun multiply :: "nat \<Rightarrow> f64 \<Rightarrow> f64 \<Rightarrow> f64" where
  "multiply 0 m delay = delay"
| "multiply (Suc n) m delay = multiply n m (f64_mul delay m)"

definition with_jitter :: "f64 \<Rightarrow> rat \<Rightarrow> f64" where
  "with_jitter delay random =
     (let jitter_amount = f64_mul delay (Fin (1 / 4));
          random_factor = f64_add (f64_mul (Fin random) (Fin 2)) (Fin (-1))
      in f64_add delay (f64_mul jitter_amount random_factor))"

text \<open>\<^verbatim>\<open>attempt as i32 - 1\<close> wraps at 32 bits.\<close>

fun calculate_delay :: "retry_strategy \<Rightarrow> u32 \<Rightarrow> ('s, 'e, duration option) act" where
  "calculate_delay NoRetry attempt = ret None"
| "calculate_delay (Fixed interval max_attempts) attempt =
     ret (if attempt \<le> max_attempts then Some interval else None)"
| "calculate_delay (ExponentialBackoff initial_delay multiplier max_delay max_attempts jitter) attempt =
     (if attempt > max_attempts then ret None
      else do {
        let delay = multiply (unat attempt - 1) multiplier (f64_of_int (num_milliseconds initial_delay));
        let capped = f64_min delay (f64_of_int (num_milliseconds max_delay));
        if jitter
        then do {
          x \<leftarrow> fastrand_f64;
          ret (Some (dur_milliseconds (f64_as_i64 (with_jitter capped x)))) }
        else ret (Some (dur_milliseconds (f64_as_i64 capped))) })"
| "calculate_delay (LinearBackoff initial_delay increment max_delay max_attempts) attempt =
     ret (if attempt > max_attempts then None
          else Some (min (initial_delay + increment * sint (attempt - 1)) max_delay))"

fun max_attempts :: "retry_strategy \<Rightarrow> u32" where
  "max_attempts NoRetry = 0"
| "max_attempts (Fixed _ n) = n"
| "max_attempts (ExponentialBackoff _ _ _ n _) = n"
| "max_attempts (LinearBackoff _ _ _ n) = n"

fun is_retry_enabled :: "retry_strategy \<Rightarrow> bool" where
  "is_retry_enabled NoRetry = False"
| "is_retry_enabled _ = True"

section \<open>Policies\<close>

record retry_policy =
  rp_strategy :: retry_strategy
  rp_retry_on_all_exceptions :: bool
  rp_retryable_exceptions :: "string list"
  rp_non_retryable_exceptions :: "string list"

definition retry_policy_default :: retry_policy where
  "retry_policy_default =
     \<lparr>rp_strategy = retry_strategy_default, rp_retry_on_all_exceptions = True,
      rp_retryable_exceptions = [],
      rp_non_retryable_exceptions =
        [''ArgumentError'', ''ValidationError'', ''AuthenticationError'', ''AuthorizationError'']\<rparr>"

definition retry_policy_new :: "retry_strategy \<Rightarrow> retry_policy" where
  "retry_policy_new s = retry_policy_default\<lparr>rp_strategy := s\<rparr>"

definition no_retry :: retry_policy where
  "no_retry = \<lparr>rp_strategy = NoRetry, rp_retry_on_all_exceptions = False,
     rp_retryable_exceptions = [], rp_non_retryable_exceptions = []\<rparr>"

definition retry_on_all_exceptions :: "bool \<Rightarrow> retry_policy \<Rightarrow> retry_policy" where
  "retry_on_all_exceptions b p = p\<lparr>rp_retry_on_all_exceptions := b\<rparr>"

definition add_retryable_exception :: "string \<Rightarrow> retry_policy \<Rightarrow> retry_policy" where
  "add_retryable_exception e p = p\<lparr>rp_retryable_exceptions := rp_retryable_exceptions p @ [e]\<rparr>"

definition add_non_retryable_exception :: "string \<Rightarrow> retry_policy \<Rightarrow> retry_policy" where
  "add_non_retryable_exception e p =
     p\<lparr>rp_non_retryable_exceptions := rp_non_retryable_exceptions p @ [e]\<rparr>"

definition should_retry :: "retry_policy \<Rightarrow> string option \<Rightarrow> u32 \<Rightarrow> bool" where
  "should_retry p exception_type attempt =
     (if attempt > max_attempts (rp_strategy p) then False
      else if \<not> is_retry_enabled (rp_strategy p) then False
      else (case exception_type of
              None \<Rightarrow> rp_retry_on_all_exceptions p
            | Some ex \<Rightarrow>
                if ex \<in> set (rp_non_retryable_exceptions p) then False
                else if rp_retry_on_all_exceptions p then True
                else ex \<in> set (rp_retryable_exceptions p)))"

definition calculate_retry_time :: "retry_policy \<Rightarrow> u32 \<Rightarrow> ('s, 'e, time option) act" where
  "calculate_retry_time p attempt = do {
     d \<leftarrow> calculate_delay (rp_strategy p) attempt;
     (case d of
        None \<Rightarrow> ret None
      | Some delay \<Rightarrow> do { now \<leftarrow> utc_now; ret (Some (now + delay)) }) }"

section \<open>Library facts\<close>

lemma multiply_nonneg: "f64_nonneg m \<Longrightarrow> f64_nonneg d \<Longrightarrow> f64_nonneg (multiply n m d)"
  by (induction n arbitrary: d) (simp_all add: f64_mul_nonneg)

lemma multiply_int:
  assumes "0 \<le> a" and "1 \<le> m" and "a * m ^ n < 2 ^ 53"
  shows "multiply n (Fin (of_int m)) (Fin (of_int a)) = Fin (of_int (a * m ^ n))"
  using assms
proof (induction n arbitrary: a)
  case (Suc n)
  have "a * m * 1 \<le> a * m * m ^ n" using Suc.prems by (intro mult_left_mono one_le_power) simp_all
  then have am: "\<bar>a * m\<bar> < 2 ^ 53" using Suc.prems by (simp add: mult.assoc abs_mult)
  have "f64_mul (Fin (of_int a)) (Fin (of_int m)) = f64_of_int (a * m)"
    by (simp add: f64_of_int_def)
  also have "\<dots> = Fin (of_int (a * m))" using am by (rule f64_of_int_exact)
  finally show ?case using Suc.IH [of "a * m"] Suc.prems by (simp add: mult.assoc)
qed simp

lemma calculate_delay_Some_iff:
  "wp (calculate_delay s attempt) (\<lambda>d w'. (d \<noteq> None) = (is_retry_enabled s \<and> attempt \<le> max_attempts s)
     \<and> store w' = store w \<and> ticks w' = ticks w \<and> clock w' = clock w \<and> events w' = events w
     \<and> uuids w' = uuids w \<and> uuid_calls w' = uuid_calls w) w"
  by (cases s) (auto simp: wp_simps)

lemma random_factor_bounds:
  assumes "0 \<le> x" and "x < 1"
  obtains f where "f64_add (f64_mul (Fin x) (Fin 2)) (Fin (-1)) = Fin f" "\<bar>f\<bar> \<le> 1"
proof -
  have two: "\<bar>rnd (x * 2)\<bar> \<le> of_int 2" using assms by (intro rnd_abs_le_int) (simp_all add: abs_mult)
  have nn: "0 \<le> rnd (x * 2)" using assms by (intro rnd_nonneg) simp
  then have one: "\<bar>rnd (rnd (x * 2) + -1)\<bar> \<le> of_int 1" using two by (intro rnd_abs_le_int) simp_all
  have "\<bar>rnd (x * 2)\<bar> < pow2 1024" "\<bar>rnd (rnd (x * 2) + -1)\<bar> < pow2 1024"
    using two one by (auto intro!: pow2_1024_big)
  with one that [of "rnd (rnd (x * 2) + -1)"] show ?thesis by (simp add: f64_round_rnd)
qed

text \<open>Jitter moves a capped delay by at most a quarter of the cap, in rounded arithmetic.\<close>

lemma with_jitter_bounds:
  assumes d: "0 \<le> d" "d \<le> of_int m" "rnd d = d" and m: "0 \<le> m" "5 * m < 2 ^ 53"
    and x: "0 \<le> x" "x < 1"
  obtains v where "with_jitter (Fin d) x = Fin v" "0 \<le> v" "v \<le> of_int (5 * m) / 4"
proof -
  obtain f where f: "f64_add (f64_mul (Fin x) (Fin 2)) (Fin (-1)) = Fin f" "\<bar>f\<bar> \<le> 1"
    using random_factor_bounds [OF x] .
  have m': "(of_int (5 * m) :: rat) \<le> of_int (2 ^ 53)" using m by (simp only: of_int_le_iff)
  have big: "y < pow2 1024" if "y \<le> of_int (5 * m) / 4" for y
    using that m m' by (intro pow2_1024_big) simp
  define j where "j = rnd (d * (1 / 4))"
  have j: "0 \<le> j" "j \<le> d" "j \<le> of_int m / 4"
    using rnd_nonneg [of "d * (1 / 4)"] rnd_mono [of "d * (1 / 4)" d]
      rnd_mono [of "d * (1 / 4)" "of_int m / 4"] rnd_quarter [of m] d m by (simp_all add: j_def)
  define k where "k = rnd (j * f)"
  have jf: "\<bar>j * f\<bar> \<le> j" using f j by (simp add: abs_mult mult_left_le)
  then have jf': "- d \<le> j * f" "j * f \<le> of_int m / 4" using j by (simp_all add: abs_le_iff)
  have k: "- d \<le> k" using rnd_mono [OF jf'(1)] rnd_minus [of d] d by (simp add: k_def)
  have k': "k \<le> of_int m / 4" using rnd_mono [OF jf'(2)] rnd_quarter [of m] m by (simp add: k_def)
  have v: "0 \<le> rnd (d + k)" "rnd (d + k) \<le> of_int (5 * m) / 4"
    using rnd_nonneg [of "d + k"] rnd_mono [of "d + k" "of_int (5 * m) / 4"] rnd_quarter [of "5 * m"] d m k k'
    by simp_all
  have "\<bar>j\<bar> < pow2 1024" "\<bar>k\<bar> < pow2 1024" "\<bar>rnd (d + k)\<bar> < pow2 1024"
    using j k k' v d m by (auto intro!: big simp: abs_le_iff)
  then have "f64_mul (Fin d) (Fin (1 / 4)) = Fin j" "f64_mul (Fin j) (Fin f) = Fin k"
      "f64_add (Fin d) (Fin k) = Fin (rnd (d + k))"
    unfolding f64_mul.simps f64_add.simps f64_round_rnd j_def k_def by simp_all
  then have "with_jitter (Fin d) x = Fin (rnd (d + k))"
    by (simp only: with_jitter_def Let_def f(1))
  with that v show ?thesis by blast
qed

section \<open>Properties\<close>

text \<open>
  C27. Exponential backoff with jitter stays in range: for a non-negative initial delay and
  multiplier and a cap of \<open>m\<close> milliseconds (with \<open>5 m < 2\<^sup>5\<^sup>3\<close>, where \<^verbatim>\<open>f64\<close> is exact), every attempt up
  to the maximum gets a delay, whatever the random generator answers in [0,1): it is not negative
  and at most a quarter above the cap, rounding errors and overflow of the intermediate values included.
\<close>

theorem backoff_jitter_bounds:
  fixes w :: "('s, 'e) world"
  assumes "0 \<le> num_milliseconds initial" and "f64_nonneg mult"
    and "0 \<le> num_milliseconds cap" and "5 * num_milliseconds cap < 2 ^ 53"
    and "attempt \<le> n" and "0 \<le> rng w (rng_calls w)" and "rng w (rng_calls w) < 1"
  shows "\<exists>ms. fst (run_state (calculate_delay (ExponentialBackoff initial mult cap n True) attempt) w)
              = Some (dur_milliseconds ms)
            \<and> 0 \<le> ms \<and> 4 * ms \<le> 5 * num_milliseconds cap"
proof -
  let ?m = "num_milliseconds cap"
  let ?d = "multiply (unat attempt - 1) mult (f64_of_int (num_milliseconds initial))"
  have nn: "f64_nonneg ?d" using assms by (intro multiply_nonneg f64_of_int_nonneg)
  have "?m < 2 ^ 53" using assms by simp
  then obtain d where d: "f64_min ?d (f64_of_int ?m) = Fin d" "0 \<le> d" "d \<le> of_int ?m" "rnd d = d"
    using f64_min_nonneg [OF nn assms(3)] by metis
  obtain v where v: "with_jitter (Fin d) (rng w (rng_calls w)) = Fin v" "0 \<le> v" "v \<le> of_int (5 * ?m) / 4"
    using with_jitter_bounds [OF d(2-4) assms(3,4,6,7)] .
  have "of_int (trunc v) \<le> v" using v(2) by (simp add: trunc_def)
  then have "(of_int (4 * trunc v) :: rat) \<le> of_int (5 * ?m)" using v(3) by simp
  then have le: "4 * trunc v \<le> 5 * ?m" by (simp only: of_int_le_iff)
  have "f64_as_i64 (Fin v) = trunc v" using le trunc_nonneg [OF v(2)] assms(4) by simp
  with v d le trunc_nonneg [OF v(2)] assms(5) show ?thesis by (auto simp: not_less)
qed

theorem backoff_jitter_bounds_witness:
  "\<exists>ms. fst (run_state (calculate_delay retry_strategy_default 3) (sample_world () :: (unit, unit) world))
          = Some (dur_milliseconds ms) \<and> 0 \<le> ms \<and> 4 * ms \<le> 5 * 900000"
proof -
  have two: "rnd 2 = 2" using rnd_of_int [of 2] by simp
  have ms: "num_milliseconds (dur_seconds 1) = 1000" "num_milliseconds (dur_minutes 15) = 900000"
    by (simp_all add: num_milliseconds_def dur_defs signed_divide_int_def)
  show ?thesis
    using backoff_jitter_bounds [of "dur_seconds 1" "Fin 2" "dur_minutes 15" 3 5
        "sample_world () :: (unit, unit) world"]
    by (simp add: ms two retry_strategy_default_def)
qed

text \<open>
  C29. Without jitter the delays are the exact geometric sequence, capped: for an integral multiplier
  and as long as the product stays below \<open>2\<^sup>5\<^sup>3\<close> milliseconds, attempt \<open>k\<close> waits
  \<open>min (initial * m ^ (k - 1)) cap\<close>.
\<close>

theorem backoff_exact:
  fixes w :: "('s, 'e) world"
  assumes "0 \<le> a" and "1 \<le> m" and "a * m ^ (unat attempt - 1) < 2 ^ 53"
    and "0 \<le> c" and "c < 2 ^ 53" and "attempt \<le> n"
  shows "run_state (calculate_delay (ExponentialBackoff (dur_milliseconds a) (Fin (of_int m))
             (dur_milliseconds c) n False) attempt) w
       = (Some (dur_milliseconds (min (a * m ^ (unat attempt - 1)) c)), w)"
proof -
  let ?p = "a * m ^ (unat attempt - 1)"
  have "1 \<le> m ^ (unat attempt - 1)" using assms(2) by simp
  then have "a * 1 \<le> ?p" using assms(1) by (intro mult_left_mono) auto
  then have a: "f64_of_int a = Fin (of_int a)" using assms by (intro f64_of_int_exact) simp
  have c: "f64_of_int c = Fin (of_int c)" using assms by (intro f64_of_int_exact) simp
  have "min (of_int ?p :: rat) (of_int c) = of_int (min ?p c)"
    by (simp only: min_def of_int_le_iff) simp
  moreover have "f64_as_i64 (Fin (of_int (min ?p c))) = min ?p c"
    using assms by (intro f64_as_i64_of_int) simp_all
  ultimately have "f64_as_i64 (f64_min (multiply (unat attempt - 1) (Fin (of_int m)) (f64_of_int a)) (f64_of_int c))
      = min ?p c"
    unfolding a c multiply_int [OF assms(1,2,3)] by (simp only: f64_min.simps)
  then show ?thesis using assms(6) by (simp add: not_less)
qed

theorem backoff_exact_witness:
  "run_state (calculate_delay (ExponentialBackoff (dur_milliseconds 1000) (Fin (of_int 2))
       (dur_milliseconds 5000) 5 False) 3) (sample_world () :: (unit, unit) world)
   = (Some (dur_milliseconds 4000), sample_world ())"
  using backoff_exact [of 1000 2 3 5000 5 "sample_world () :: (unit, unit) world"] by simp

text \<open>
  When a policy retries: exactly when its strategy retries at all, the attempt is within the
  maximum, and the exception is not excluded and either all exceptions are retried or this one is
  listed; without an exception the policy-wide flag decides.
\<close>

theorem should_retry_iff:
  "should_retry p ex attempt \<longleftrightarrow>
     is_retry_enabled (rp_strategy p) \<and> unat attempt \<le> unat (max_attempts (rp_strategy p)) \<and>
     (case ex of
        None \<Rightarrow> rp_retry_on_all_exceptions p
      | Some e \<Rightarrow> e \<notin> set (rp_non_retryable_exceptions p)
                 \<and> (rp_retry_on_all_exceptions p \<or> e \<in> set (rp_retryable_exceptions p)))"
  by (auto simp: should_retry_def word_le_nat_alt word_less_nat_alt split: option.split)

end
