(* ===== verification/Processor.thy ===== *)
theory Processor
  imports Worker Retry Storage_Api
begin

text \<open>
  The job processor, \<^verbatim>\<open>src/processing/processor.rs\<close>: one job through one execution, from the claim
  to the persisted outcome. \<^verbatim>\<open>tokio::time::timeout\<close> and the \<^verbatim>\<open>Debug\<close> texts of states and durations are
  not part of the crate; they are the record \<open>runtime\<close>. A timeout turns an action into one that
  answers \<open>None\<close> when the time has run out. The result \<open>None\<close> of \<open>process_job\<close> is a panic.
\<close>

section \<open>State\<close>

record ('s, 'e) runtime =
  rt_timeout :: "nat \<Rightarrow> ('s, 'e, exec_result) act \<Rightarrow> ('s, 'e, exec_result option) act"
  rt_debug_state :: "job_state \<Rightarrow> string"
  rt_debug_duration :: "duration \<Rightarrow> string"

definition default_succeeded_ttl :: duration where
  "default_succeeded_ttl = dur_hours 24"

definition default_failed_ttl :: duration where
  "default_failed_ttl = dur_days 7"

definition default_middleware :: "('p, 's, 'e) middleware list" where
  "default_middleware = [tracing_middleware]"

text \<open>A state-change hook is given by the event it records for a call.\<close>

record ('p, 's, 'e) job_processor =
  jp_worker_registry :: "('p, 's, 'e) worker_registry"
  jp_storage :: "('p, 's, 'e) storage"
  jp_retry_policy :: retry_policy
  jp_worker_config :: worker_config
  jp_succeeded_ttl :: duration
  jp_failed_ttl :: duration
  jp_middleware :: "('p, 's, 'e) middleware list"
  jp_on_state_change :: "('p job \<Rightarrow> job_state \<Rightarrow> job_state \<Rightarrow> 'e) option"
  jp_runtime :: "('s, 'e) runtime"

definition jp_with_retry_policy ::
  "('s, 'e) runtime \<Rightarrow> ('p, 's, 'e) worker_registry \<Rightarrow> ('p, 's, 'e) storage \<Rightarrow> worker_config \<Rightarrow> retry_policy
     \<Rightarrow> ('p, 's, 'e) job_processor" where
  "jp_with_retry_policy rt reg st cfg pol =
     \<lparr>jp_worker_registry = reg, jp_storage = st, jp_retry_policy = pol, jp_worker_config = cfg,
      jp_succeeded_ttl = default_succeeded_ttl, jp_failed_ttl = default_failed_ttl,
      jp_middleware = default_middleware, jp_on_state_change = None, jp_runtime = rt\<rparr>"

definition jp_new ::
  "('s, 'e) runtime \<Rightarrow> ('p, 's, 'e) worker_registry \<Rightarrow> ('p, 's, 'e) storage \<Rightarrow> worker_config
     \<Rightarrow> ('p, 's, 'e) job_processor" where
  "jp_new rt reg st cfg =
     \<lparr>jp_worker_registry = reg, jp_storage = st, jp_retry_policy = retry_policy_default,
      jp_worker_config = cfg, jp_succeeded_ttl = default_succeeded_ttl,
      jp_failed_ttl = default_failed_ttl, jp_middleware = default_middleware,
      jp_on_state_change = None, jp_runtime = rt\<rparr>"

definition jp_with_ttls :: "duration \<Rightarrow> duration \<Rightarrow> ('p, 's, 'e) job_processor \<Rightarrow> ('p, 's, 'e) job_processor" where
  "jp_with_ttls succeeded failed P = P\<lparr>jp_succeeded_ttl := succeeded, jp_failed_ttl := failed\<rparr>"

definition jp_with_middleware ::
  "('p, 's, 'e) middleware list \<Rightarrow> ('p, 's, 'e) job_processor \<Rightarrow> ('p, 's, 'e) job_processor" where
  "jp_with_middleware ms P = P\<lparr>jp_middleware := ms\<rparr>"

definition jp_with_state_change_hook ::
  "('p job \<Rightarrow> job_state \<Rightarrow> job_state \<Rightarrow> 'e) \<Rightarrow> ('p, 's, 'e) job_processor \<Rightarrow> ('p, 's, 'e) job_processor" where
  "jp_with_state_change_hook h P = P\<lparr>jp_on_state_change := Some h\<rparr>"

section \<open>Steps\<close>

definition fire_state_change_hook ::
  "('p, 's, 'e) job_processor \<Rightarrow> 'p job \<Rightarrow> job_state \<Rightarrow> ('s, 'e, unit) act" where
  "fire_state_change_hook P j prev =
     (case jp_on_state_change P of
        Some hook \<Rightarrow> emit (hook j prev (job_state j))
      | None \<Rightarrow> ret ())"

definition apply_state_change ::
  "('p, 's, 'e) job_processor \<Rightarrow> 'p job \<Rightarrow> job_state \<Rightarrow> ('s, 'e, qml_error + 'p job) act" where
  "apply_state_change P j new =
     (case set_state (rt_debug_state (jp_runtime P)) new j of
        Inl e \<Rightarrow> ret (Inl e)
      | Inr j' \<Rightarrow> do { fire_state_change_hook P j' (job_state j); ret (Inr j') })"

text \<open>\<^verbatim>\<open>self.storage.update(job).await?\<close>\<close>

definition update_job :: "('p, 's, 'e) job_processor \<Rightarrow> 'p job \<Rightarrow> ('s, 'e, qml_error + unit) act" where
  "update_job P j = do {
     r \<leftarrow> st_update (jp_storage P) j;
     ret (case r of Inl e \<Rightarrow> Inl (qml_of_storage e) | Inr u \<Rightarrow> Inr u) }"

definition should_retry_attempt :: "('p, 's, 'e) job_processor \<Rightarrow> 'p job \<Rightarrow> string option \<Rightarrow> bool" where
  "should_retry_attempt P j ex =
     (if job_max_retries j > 0 \<and> job_attempt j > job_max_retries j then False
      else should_retry (jp_retry_policy P) ex (job_attempt j))"

definition extract_previous_exception :: "'p job \<Rightarrow> string option" where
  "extract_previous_exception j =
     (case job_state j of
        AwaitingRetry _ _ last_exception \<Rightarrow> Some last_exception
      | Failed _ ex _ \<Rightarrow> Some ex
      | _ \<Rightarrow> None)"

definition exec_metadata :: "(string, string) hmap \<Rightarrow> 'p job \<Rightarrow> 'p job" where
  "exec_metadata md j = fold (\<lambda>(k, v). add_metadata (''exec_'' @ k) v) md j"

definition complete_job_successfully ::
  "('p, 's, 'e) job_processor \<Rightarrow> 'p job \<Rightarrow> string option \<Rightarrow> u64 \<Rightarrow> (string, string) hmap
     \<Rightarrow> ('s, 'e, qml_error + unit) act" where
  "complete_job_successfully P j result duration_ms metadata =
     (if is_final (job_state j) then ret (Inr ())
      else do {
        st \<leftarrow> js_succeeded duration_ms result;
        r \<leftarrow> apply_state_change P j st;
        (case r of
           Inl e \<Rightarrow> ret (Inl e)
         | Inr j' \<Rightarrow> do {
             now \<leftarrow> utc_now;
             update_job P (exec_metadata metadata (j'\<lparr>job_expires_at := Some (now + jp_succeeded_ttl P)\<rparr>)) }) })"

definition fail_job_permanently ::
  "('p, 's, 'e) job_processor \<Rightarrow> 'p job \<Rightarrow> string \<Rightarrow> string option \<Rightarrow> ('s, 'e, qml_error + unit) act" where
  "fail_job_permanently P j err stack_trace =
     (if is_final (job_state j) then ret (Inr ())
      else do {
        st \<leftarrow> js_failed err stack_trace;
        r \<leftarrow> apply_state_change P j st;
        (case r of
           Inl e \<Rightarrow> ret (Inl e)
         | Inr j' \<Rightarrow> do {
             now \<leftarrow> utc_now;
             update_job P (j'\<lparr>job_expires_at := Some (now + jp_failed_ttl P)\<rparr>) }) })"

definition retry_time :: "('p, 's, 'e) job_processor \<Rightarrow> u32 \<Rightarrow> time option \<Rightarrow> ('s, 'e, time) act" where
  "retry_time P attempt retry_at =
     (case retry_at of
        Some t \<Rightarrow> ret t
      | None \<Rightarrow> do {
          r \<leftarrow> calculate_retry_time (jp_retry_policy P) attempt;
          (case r of
             Some t \<Rightarrow> ret t
           | None \<Rightarrow> do { now \<leftarrow> utc_now; ret (now + dur_seconds 60) }) })"

definition handle_job_retry ::
  "('p, 's, 'e) job_processor \<Rightarrow> 'p job \<Rightarrow> string \<Rightarrow> time option \<Rightarrow> ('s, 'e, qml_error + unit) act" where
  "handle_job_retry P j err retry_at =
     (if is_final (job_state j) then ret (Inr ())
      else if \<not> should_retry_attempt P j None then fail_job_permanently P j err None
      else do {
        t \<leftarrow> retry_time P (job_attempt j) retry_at;
        st \<leftarrow> js_awaiting_retry t err;
        (case set_state (rt_debug_state (jp_runtime P)) st j of
           Inl e \<Rightarrow> ret (Inl e)
         | Inr j' \<Rightarrow> do {
             fire_state_change_hook P j' (job_state j);
             update_job P j' }) })"

definition handle_job_timeout ::
  "('p, 's, 'e) job_processor \<Rightarrow> 'p job \<Rightarrow> ('s, 'e, qml_error + unit) act" where
  "handle_job_timeout P j =
     (let err = ''Job timed out after '' @ rt_debug_duration (jp_runtime P) (wcf_job_timeout (jp_worker_config P))
      in if should_retry_attempt P j (Some ''TimeoutError'') then handle_job_retry P j err None
         else fail_job_permanently P j err None)"

fun error_type :: "qml_error \<Rightarrow> string" where
  "error_type (StorageError _) = ''StorageError''"
| "error_type (WorkerError _) = ''WorkerError''"
| "error_type (TimeoutError _) = ''TimeoutError''"
| "error_type _ = ''UnknownError''"

definition handle_execution_error ::
  "('p, 's, 'e) job_processor \<Rightarrow> 'p job \<Rightarrow> qml_error \<Rightarrow> ('s, 'e, qml_error + unit) act" where
  "handle_execution_error P j err =
     (if should_retry_attempt P j (Some (error_type err))
      then handle_job_retry P j (qml_error_display err) None
      else fail_job_permanently P j (qml_error_display err) None)"

definition make_context :: "('p, 's, 'e) job_processor \<Rightarrow> 'p job \<Rightarrow> ('s, 'e, worker_context) act" where
  "make_context P j =
     (if job_attempt j > 1
      then retry_from (jp_worker_config P) (job_attempt j) (extract_previous_exception j)
      else worker_context_new (jp_worker_config P))"

text \<open>The branch that makes sure the job is \<open>Processing\<close>, in memory and in the storage.\<close>

definition ensure_processing ::
  "('p, 's, 'e) job_processor \<Rightarrow> 'p job \<Rightarrow> ('s, 'e, qml_error + 'p job) act" where
  "ensure_processing P j =
     (if kind (job_state j) = KProcessing then ret (Inr j)
      else do {
        st \<leftarrow> js_processing (wcf_worker_id (jp_worker_config P)) (wcf_server_name (jp_worker_config P));
        r \<leftarrow> apply_state_change P j st;
        (case r of
           Inl e \<Rightarrow> ret (Inl e)
         | Inr j' \<Rightarrow> do {
             u \<leftarrow> update_job P j';
             ret (case u of Inl e \<Rightarrow> Inl e | Inr _ \<Rightarrow> Inr j') }) })"

definition handle_result ::
  "('p, 's, 'e) job_processor \<Rightarrow> 'p job \<Rightarrow> u64 \<Rightarrow> exec_result \<Rightarrow> ('s, 'e, qml_error + unit) act" where
  "handle_result P j duration r =
     (case r of
        Inr (Success result _ metadata) \<Rightarrow> complete_job_successfully P j result duration metadata
      | Inr (Retry err _ retry_at _) \<Rightarrow> handle_job_retry P j err retry_at
      | Inr (Failure err _ _) \<Rightarrow> fail_job_permanently P j err None
      | Inl e \<Rightarrow> handle_execution_error P j e)"

definition process_job ::
  "('p, 's, 'e) job_processor \<Rightarrow> 'p job \<Rightarrow> ('s, 'e, (qml_error + unit) option) act" where
  "process_job P j0 =
     (let j1 = j0\<lparr>job_attempt := saturating_add (job_attempt j0) 1\<rparr> in
      case get_worker (jp_worker_registry P) (job_method j0) of
        None \<Rightarrow> do {
          r \<leftarrow> fail_job_permanently P j1 (''No worker registered for method: '' @ job_method j0) None;
          ret (Some r) }
      | Some wk \<Rightarrow> do {
          p \<leftarrow> ensure_processing P j1;
          (case p of
             Inl e \<Rightarrow> ret (Some (Inl e))
           | Inr j \<Rightarrow> do {
               ctx \<leftarrow> make_context P j;
               start \<leftarrow> utc_now;
               (case dur_to_std (wcf_job_timeout (jp_worker_config P)) of
                  None \<Rightarrow> ret None
                | Some limit \<Rightarrow> do {
                    x \<leftarrow> rt_timeout (jp_runtime P) limit (run_stack (jp_middleware P) wk j ctx);
                    (case x of
                       None \<Rightarrow> do { r \<leftarrow> handle_job_timeout P j; ret (Some r) }
                     | Some res \<Rightarrow> do {
                         now \<leftarrow> utc_now;
                         r \<leftarrow> handle_result P j (word_of_int (num_milliseconds (now - start))) res;
                         ret (Some r) }) }) }) })"

end
