(* ===== verification/Processor_Contract.thy ===== *)
theory Processor_Contract
  imports Processor Samples
begin

text \<open>
  What processing a job does to the storage, for every backend that satisfies the contract \<open>job_updates\<close>.
  \<open>decide\<close> is the specification: what becomes of a job, from the result of its execution and the
  retry policy. The handlers of the processor implement it.
\<close>

section \<open>Specification\<close>

datatype verdict =
    Succeed "string option" "(string, string) hmap"
  | RetryLater string "time option"
  | GiveUp string

text \<open>\<open>None\<close> is a timeout. An error is retried when the policy says so for its type and also for no
  type at all: \<^verbatim>\<open>handle_job_retry\<close> asks again, without the type.\<close>

definition timeout_message :: "('p, 's, 'e) job_processor \<Rightarrow> string" where
  "timeout_message P =
     ''Job timed out after '' @ rt_debug_duration (jp_runtime P) (wcf_job_timeout (jp_worker_config P))"

definition retry_or_give_up ::
  "('p, 's, 'e) job_processor \<Rightarrow> 'p job \<Rightarrow> string \<Rightarrow> string \<Rightarrow> verdict" where
  "retry_or_give_up P j ty msg =
     (if should_retry_attempt P j (Some ty) \<and> should_retry_attempt P j None then RetryLater msg None
      else GiveUp msg)"

fun decide :: "('p, 's, 'e) job_processor \<Rightarrow> 'p job \<Rightarrow> exec_result option \<Rightarrow> verdict" where
  "decide P j None = retry_or_give_up P j ''TimeoutError'' (timeout_message P)"
| "decide P j (Some (Inr (Success result _ metadata))) = Succeed result metadata"
| "decide P j (Some (Inr (Retry err _ retry_at _))) =
     (if should_retry_attempt P j None then RetryLater err retry_at else GiveUp err)"
| "decide P j (Some (Inr (Failure err _ _))) = GiveUp err"
| "decide P j (Some (Inl e)) = retry_or_give_up P j (error_type e) (qml_error_display e)"

text \<open>The job a verdict leaves; \<open>t\<close> and \<open>u\<close> are readings of the clock during the call.\<close>

definition outcome :: "('p, 's, 'e) job_processor \<Rightarrow> ('s, 'e) world \<Rightarrow> 'p job \<Rightarrow> verdict \<Rightarrow> 'p job \<Rightarrow> bool" where
  "outcome P w j v j' \<longleftrightarrow>
     (\<exists>t u d r. t \<in> clock w ` {ticks w..} \<and> u \<in> clock w ` {ticks w..} \<and>
        j' = (case v of
          Succeed result metadata \<Rightarrow>
            exec_metadata metadata
              (j\<lparr>job_state := Succeeded t d result, job_expires_at := Some (u + jp_succeeded_ttl P)\<rparr>)
        | RetryLater err retry_at \<Rightarrow>
            j\<lparr>job_state := AwaitingRetry t (case retry_at of Some a \<Rightarrow> a | None \<Rightarrow> r) err\<rparr>
        | GiveUp err \<Rightarrow>
            j\<lparr>job_state := Failed t err None, job_expires_at := Some (u + jp_failed_ttl P)\<rparr>))"

definition hook_events :: "('p, 's, 'e) job_processor \<Rightarrow> 'p job \<Rightarrow> job_state \<Rightarrow> 'e list" where
  "hook_events P j prev =
     (case jp_on_state_change P of None \<Rightarrow> [] | Some hook \<Rightarrow> [hook j prev (job_state j)])"

text \<open>One call of a handler: the verdict is persisted, or the storage has refused the update and the
  table is as before; the hook has fired once either way.\<close>

definition settled ::
  "('s \<Rightarrow> 'p jobs) \<Rightarrow> ('p job \<Rightarrow> 'p job \<Rightarrow> 'p job) \<Rightarrow> ('p, 's, 'e) job_processor \<Rightarrow> ('s, 'e) world \<Rightarrow> 'p job \<Rightarrow> verdict
     \<Rightarrow> qml_error + unit \<Rightarrow> ('s, 'e) world \<Rightarrow> bool" where
  "settled jobs_of kept P w j v r w' \<longleftrightarrow>
     (\<exists>j'. outcome P w j v j'
        \<and> events w' = events w @ hook_events P (j\<lparr>job_state := job_state j'\<rparr>) (job_state j)
        \<and> (case r of
             Inl e \<Rightarrow> jobs_of (store w') = jobs_of (store w)
           | Inr _ \<Rightarrow> \<exists>j0. jobs_of (store w) (job_id j) = Some j0
                        \<and> jobs_of (store w') = (jobs_of (store w))(job_id j \<mapsto> kept j0 j')))"

section \<open>Helper facts\<close>

lemma fold_add_metadata_fields [simp]:
  "job_id (exec_metadata md j) = job_id j"
  "job_state (exec_metadata md j) = job_state j"
  "job_attempt (exec_metadata md j) = job_attempt j"
  "job_queue (exec_metadata md j) = job_queue j"
  "job_expires_at (exec_metadata md j) = job_expires_at j"
proof -
  have "job_id (fold (\<lambda>(k, v). add_metadata (''exec_'' @ k) v) md j) = job_id j
      \<and> job_state (fold (\<lambda>(k, v). add_metadata (''exec_'' @ k) v) md j) = job_state j
      \<and> job_attempt (fold (\<lambda>(k, v). add_metadata (''exec_'' @ k) v) md j) = job_attempt j
      \<and> job_queue (fold (\<lambda>(k, v). add_metadata (''exec_'' @ k) v) md j) = job_queue j
      \<and> job_expires_at (fold (\<lambda>(k, v). add_metadata (''exec_'' @ k) v) md j) = job_expires_at j"
    by (induction md arbitrary: j) (auto split: prod.split)
  then show "job_id (exec_metadata md j) = job_id j" "job_state (exec_metadata md j) = job_state j"
    "job_attempt (exec_metadata md j) = job_attempt j" "job_queue (exec_metadata md j) = job_queue j"
    "job_expires_at (exec_metadata md j) = job_expires_at j"
    by (simp_all add: exec_metadata_def)
qed

lemma fire_hook_wp [wp_simps]:
  "wp (fire_state_change_hook P j prev) Q w = Q () (w\<lparr>events := events w @ hook_events P j prev\<rparr>)"
  by (simp add: fire_state_change_hook_def hook_events_def wp_simps split: option.split)

lemma processing_transitions:
  assumes "kind s = KProcessing"
  shows "can_transition_to s (Succeeded t d r)" "can_transition_to s (Failed t e st)"
    "can_transition_to s (AwaitingRetry t u e)" "\<not> is_final s"
  using assms by (simp_all add: can_transition_iff_edge kind_edges_def is_final_iff_kind)

text \<open>Computing the retry time reads the clock and the random generator only.\<close>

definition quiet :: "('s, 'e) world \<Rightarrow> ('s, 'e) world \<Rightarrow> bool" where
  "quiet w w' \<longleftrightarrow> store w' = store w \<and> clock w' = clock w \<and> events w' = events w \<and> ticks w \<le> ticks w'"

lemma calculate_delay_quiet: "wp (calculate_delay s a) (\<lambda>_ w'. quiet w w' \<and> ticks w' = ticks w) w"
  by (cases s) (auto simp: wp_simps quiet_def)

lemma retry_time_quiet:
  "wp (retry_time P a retry_at) (\<lambda>t w'. quiet w w' \<and> (\<forall>b. retry_at = Some b \<longrightarrow> t = b)) w"
proof (cases retry_at)
  case None
  have "wp (calculate_retry_time p a) (\<lambda>_ w'. quiet w w') w" for p
    unfolding calculate_retry_time_def wp_simps
    by (rule wp_mono [OF calculate_delay_quiet]) (auto simp: wp_simps quiet_def split: option.split)
  then have "wp (calculate_retry_time (jp_retry_policy P) a)
      (\<lambda>r. wp (case r of Some t \<Rightarrow> ret t | None \<Rightarrow> do { now \<leftarrow> utc_now; ret (now + dur_seconds 60) })
         (\<lambda>_ w'. quiet w w')) w"
    by (rule wp_mono) (auto simp: wp_simps quiet_def split: option.split)
  with None show ?thesis by (simp add: retry_time_def wp_simps)
qed (simp add: retry_time_def wp_simps quiet_def)

section \<open>The handlers\<close>

context job_updates
begin

lemma update_job_law:
  assumes "jp_storage P = S" and "inv (store w)" and "known (job_id j)"
  shows "wp (update_job P j) (\<lambda>r w'. events w' = events w \<and> inv (store w') \<and>
     (case r of
        Inl e \<Rightarrow> jobs_of (store w') = jobs_of (store w)
      | Inr _ \<Rightarrow> \<exists>j0. jobs_of (store w) (job_id j) = Some j0
                   \<and> jobs_of (store w') = (jobs_of (store w))(job_id j \<mapsto> kept j0 j))) w"
  unfolding update_job_def assms(1) wp_simps
  by (rule wp_mono [OF replace_law [OF assms(2, 3)]]) (auto simp: env_kept_events split: sum.splits)

text \<open>The common end of the handlers: an update from a world that differs from the start of the
  call in its time stamps and in the event of the hook.\<close>

lemma settle_by_update:
  assumes "jp_storage P = S" and "inv (store w)" and "store w1 = store w"
    and "events w1 = events w @ hook_events P (j\<lparr>job_state := job_state j'\<rparr>) (job_state j)"
    and "outcome P w j v j'" and "job_id j' = job_id j" and "known (job_id j)"
  shows "wp (update_job P j') (\<lambda>r w'. inv (store w') \<and> settled jobs_of kept P w j v r w') w1"
proof -
  have "inv (store w1)" "known (job_id j')" using assms by simp_all
  from update_job_law [OF assms(1) this] show ?thesis
    by (rule wp_mono) (use assms in \<open>auto simp: settled_def split: sum.splits\<close>)
qed

lemma complete_law:
  assumes P: "jp_storage P = S" and inv: "inv (store w)" and k: "kind (job_state j) = KProcessing"
    and known: "known (job_id j)"
  shows "wp (complete_job_successfully P j result d metadata)
           (\<lambda>r w'. inv (store w') \<and> settled jobs_of kept P w j (Succeed result metadata) r w') w"
proof -
  let ?t = "clock w (ticks w)" and ?u = "clock w (Suc (ticks w))"
  have out: "outcome P w j (Succeed result metadata)
     (exec_metadata metadata (j\<lparr>job_state := Succeeded ?t d result,
         job_expires_at := Some (?u + jp_succeeded_ttl P)\<rparr>))"
    unfolding outcome_def by (intro exI [of _ ?t] exI [of _ ?u] exI [of _ d]) auto
  show ?thesis
    by (simp add: complete_job_successfully_def apply_state_change_def wp_simps set_state_def
        processing_transitions [OF k])
       (rule settle_by_update [OF P inv _ _ out], simp_all add: known)
qed

lemma give_up_law:
  assumes P: "jp_storage P = S" and inv: "inv (store w)" and k: "kind (job_state j) = KProcessing"
    and known: "known (job_id j)"
  shows "wp (fail_job_permanently P j err None)
           (\<lambda>r w'. inv (store w') \<and> settled jobs_of kept P w j (GiveUp err) r w') w"
proof -
  let ?t = "clock w (ticks w)" and ?u = "clock w (Suc (ticks w))"
  have out: "outcome P w j (GiveUp err)
     (j\<lparr>job_state := Failed ?t err None, job_expires_at := Some (?u + jp_failed_ttl P)\<rparr>)"
    unfolding outcome_def by (intro exI [of _ ?t] exI [of _ ?u]) auto
  show ?thesis
    by (simp add: fail_job_permanently_def apply_state_change_def wp_simps set_state_def
        processing_transitions [OF k])
       (rule settle_by_update [OF P inv _ _ out], simp_all add: known)
qed

lemma retry_law:
  assumes P: "jp_storage P = S" and inv: "inv (store w)" and k: "kind (job_state j) = KProcessing"
    and known: "known (job_id j)"
  shows "wp (handle_job_retry P j err retry_at)
           (\<lambda>r w'. inv (store w') \<and> settled jobs_of kept P w j
              (if should_retry_attempt P j None then RetryLater err retry_at else GiveUp err) r w') w"
proof (cases "should_retry_attempt P j None")
  case False
  with give_up_law [OF assms] processing_transitions [OF k] show ?thesis
    by (simp add: handle_job_retry_def)
next
  case True
  have "wp (retry_time P (job_attempt j) retry_at)
      (\<lambda>t. wp (do { st \<leftarrow> js_awaiting_retry t err;
                   (case set_state (rt_debug_state (jp_runtime P)) st j of
                      Inl e \<Rightarrow> ret (Inl e)
                    | Inr j' \<Rightarrow> do { fire_state_change_hook P j' (job_state j); update_job P j' }) })
         (\<lambda>r w'. inv (store w') \<and> settled jobs_of kept P w j (RetryLater err retry_at) r w')) w"
  proof (rule wp_mono [OF retry_time_quiet])
    fix t w1
    assume q: "quiet w w1 \<and> (\<forall>b. retry_at = Some b \<longrightarrow> t = b)"
    let ?t = "clock w1 (ticks w1)"
    have "?t \<in> clock w ` {ticks w..}" using q by (simp add: quiet_def)
    then have out: "outcome P w j (RetryLater err retry_at) (j\<lparr>job_state := AwaitingRetry ?t t err\<rparr>)"
      using q unfolding outcome_def
      by (intro exI [of _ ?t] exI [of _ t]) (auto split: option.split)
    show "wp (do { st \<leftarrow> js_awaiting_retry t err;
                   (case set_state (rt_debug_state (jp_runtime P)) st j of
                      Inl e \<Rightarrow> ret (Inl e)
                    | Inr j' \<Rightarrow> do { fire_state_change_hook P j' (job_state j); update_job P j' }) })
         (\<lambda>r w'. inv (store w') \<and> settled jobs_of kept P w j (RetryLater err retry_at) r w') w1"
      by (simp add: wp_simps set_state_def processing_transitions [OF k])
         (rule settle_by_update [OF P inv _ _ out], use q known in \<open>simp_all add: quiet_def\<close>)
  qed
  with True processing_transitions [OF k] show ?thesis
    by (simp add: handle_job_retry_def wp_bind)
qed

lemma timeout_law:
  assumes P: "jp_storage P = S" and inv: "inv (store w)" and k: "kind (job_state j) = KProcessing"
    and known: "known (job_id j)"
  shows "wp (handle_job_timeout P j)
           (\<lambda>r w'. inv (store w') \<and> settled jobs_of kept P w j (decide P j None) r w') w"
  using retry_law [OF assms, of "timeout_message P" None] give_up_law [OF assms, of "timeout_message P"]
  unfolding handle_job_timeout_def Let_def timeout_message_def [symmetric]
  by (simp add: retry_or_give_up_def)

lemma result_law:
  assumes P: "jp_storage P = S" and inv: "inv (store w)" and k: "kind (job_state j) = KProcessing"
    and known: "known (job_id j)"
  shows "wp (handle_result P j d x)
           (\<lambda>r w'. inv (store w') \<and> settled jobs_of kept P w j (decide P j (Some x)) r w') w"
proof (cases x)
  case (Inl e)
  then show ?thesis
    using retry_law [OF assms, of "qml_error_display e" None] give_up_law [OF assms, of "qml_error_display e"]
    by (simp add: handle_result_def handle_execution_error_def retry_or_give_up_def)
next
  case (Inr res)
  then show ?thesis
    using retry_law [OF assms] give_up_law [OF assms] complete_law [OF assms]
    by (cases res) (simp_all add: handle_result_def)
qed

text \<open>
  A whole call on a claimed job. The execution may do anything to the storage but to the entry of
  the job; \<open>X\<close> is what is known of its result.
\<close>

lemma process_job_law:
  assumes P: "jp_storage P = S" and inv: "inv (store w)"
    and stored: "jobs_of (store w) (job_id j) = Some j" and k: "kind (job_state j) = KProcessing"
    and wk: "get_worker (jp_worker_registry P) (job_method j) = Some wk"
    and timeout: "dur_to_std (wcf_job_timeout (jp_worker_config P)) = Some limit"
    and j1: "j1 = j\<lparr>job_attempt := saturating_add (job_attempt j) 1\<rparr>"
    and exec: "\<And>ctx w1. inv (store w1) \<Longrightarrow> jobs_of (store w1) = jobs_of (store w) \<Longrightarrow>
      wp (rt_timeout (jp_runtime P) limit (run_stack (jp_middleware P) wk j1 ctx))
        (\<lambda>x w2. inv (store w2) \<and> jobs_of (store w2) (job_id j) = Some j \<and> X x) w1"
  shows "wp (process_job P j) (\<lambda>r w'. inv (store w') \<and>
     (\<exists>x w2 j'. X x \<and> outcome P w2 j1 (decide P j1 x) j' \<and>
        (case r of
           None \<Rightarrow> False
         | Some (Inl e) \<Rightarrow> jobs_of (store w') (job_id j) = Some j
         | Some (Inr _) \<Rightarrow> jobs_of (store w') (job_id j) = Some (kept j j')))) w"
    (is "wp _ ?Q w")
proof -
  have k1: "kind (job_state j1) = KProcessing" and id1: "job_id j1 = job_id j"
    using k by (simp_all add: j1)
  have known: "known (job_id j1)" using stored_known [OF inv stored] by (simp add: id1)
  have fin: "?Q (Some r) w'"
    if "inv (store w')" "settled jobs_of kept P w2 j1 (decide P j1 x) r w'" "X x"
      "jobs_of (store w2) (job_id j) = Some j" for r w' w2 x
    using that unfolding settled_def id1 by (cases r) (auto, fastforce+)
  let ?run = "\<lambda>ctx. rt_timeout (jp_runtime P) limit (run_stack (jp_middleware P) wk j1 ctx)"
  have step: "wp (?run ctx) (\<lambda>x. wp (case x of
       None \<Rightarrow> do { r \<leftarrow> handle_job_timeout P j1; ret (Some r) }
     | Some res \<Rightarrow> do {
         now \<leftarrow> utc_now;
         r \<leftarrow> handle_result P j1 (word_of_int (num_milliseconds (now - start))) res;
         ret (Some r) }) ?Q) w1"
    if "inv (store w1)" "jobs_of (store w1) = jobs_of (store w)" for ctx w1 start
  proof (rule wp_mono [OF exec [OF that]])
    fix x and w2 :: "('s, 'e) world"
    assume x: "inv (store w2) \<and> jobs_of (store w2) (job_id j) = Some j \<and> X x"
    show "wp (case x of
       None \<Rightarrow> do { r \<leftarrow> handle_job_timeout P j1; ret (Some r) }
     | Some res \<Rightarrow> do {
         now \<leftarrow> utc_now;
         r \<leftarrow> handle_result P j1 (word_of_int (num_milliseconds (now - start))) res;
         ret (Some r) }) ?Q w2"
    proof (cases x)
      case None
      have "inv (store w2)" using x by simp
      from timeout_law [OF P this k1 known] show ?thesis
        unfolding None option.case wp_simps
        by (rule wp_mono) (use fin [where x = x] x None in \<open>simp, blast\<close>)
    next
      case (Some res)
      have "inv (store (w2\<lparr>ticks := Suc (ticks w2)\<rparr>))" using x by simp
      from result_law [OF P this k1 known] show ?thesis
        unfolding Some option.case wp_simps
        by (rule wp_mono)
           (use fin [where x = "Some res" and ?w2.0 = "w2\<lparr>ticks := Suc (ticks w2)\<rparr>"] x Some in simp)
    qed
  qed
  show ?thesis
    using k1 step inv
    by (simp add: process_job_def wk ensure_processing_def make_context_def retry_from_def
        worker_context_new_def timeout wp_simps Let_def flip: j1)
qed

end

end
