(* ===== verification/Processor_Props.thy ===== *)
theory Processor_Props
  imports Processor_Contract
begin

text \<open>
  Properties of the processor on the in-memory backend, and what modelling it brought to light about
  retries, previous exceptions and job locks.
\<close>

section \<open>Instances\<close>

text \<open>A runtime that never times out, and a processor over it with one worker.\<close>

definition sample_runtime :: "('s, 'e) runtime" where
  "sample_runtime = \<lparr>rt_timeout = (\<lambda>limit m. do { r \<leftarrow> m; ret (Some r) }),
     rt_debug_state = (\<lambda>s. kind_name (kind s)), rt_debug_duration = (\<lambda>d. ''duration'')\<rparr>"

definition sample_config :: worker_config where
  "sample_config = \<lparr>wcf_worker_id = ''w'', wcf_server_name = ''srv'', wcf_queues = [''default''],
     wcf_job_timeout = dur_minutes 5, wcf_polling_interval = dur_seconds 1\<rparr>"

definition sample_processor ::
  "retry_policy \<Rightarrow> exec_result \<Rightarrow> (unit, unit memory_storage, job_state) job_processor" where
  "sample_processor pol answer =
     (jp_with_retry_policy sample_runtime
        [(''m'', \<lparr>wk_method_name = ''m'', wk_execute = \<lambda>j ctx. ret answer\<rparr>)]
        memory_storage_api sample_config pol)\<lparr>jp_on_state_change := Some (\<lambda>j prev new. new)\<rparr>"

definition claimed :: "unit job" where
  "claimed = sample_job ''a'' 0 5 (Processing 6 ''w'' ''memory-storage'')"

lemma sample_processor_simps [simp]:
  "jp_storage (sample_processor pol answer) = memory_storage_api"
  "get_worker (jp_worker_registry (sample_processor pol answer)) ''m''
     = Some \<lparr>wk_method_name = ''m'', wk_execute = \<lambda>j ctx. ret answer\<rparr>"
  "dur_to_std (wcf_job_timeout (jp_worker_config (sample_processor pol answer))) = Some 300000000000"
  "jp_retry_policy (sample_processor pol answer) = pol"
  by (simp_all add: sample_processor_def jp_with_retry_policy_def get_worker_def sample_config_def
      dur_to_std_def dur_defs)

lemma sample_exec [simp]:
  "wp (rt_timeout (jp_runtime (sample_processor pol answer)) limit
         (run_stack (jp_middleware (sample_processor pol answer))
            \<lparr>wk_method_name = ''m'', wk_execute = \<lambda>j ctx. ret answer\<rparr> j ctx)) Q w = Q (Some answer) w"
  by (simp add: sample_processor_def jp_with_retry_policy_def sample_runtime_def run_stack_def
      default_middleware_def tracing_middleware_def wp_simps)

text \<open>A processor on any backend whose worker answers at once.\<close>

definition answering_processor :: "('p, 's, 'e) storage \<Rightarrow> exec_result \<Rightarrow> ('p, 's, 'e) job_processor" where
  "answering_processor S answer =
     jp_with_retry_policy sample_runtime
       [(''m'', \<lparr>wk_method_name = ''m'', wk_execute = \<lambda>j ctx. ret answer\<rparr>)] S sample_config retry_policy_default"

lemma answering_processor_simps [simp]:
  "jp_storage (answering_processor S answer) = S"
  "get_worker (jp_worker_registry (answering_processor S answer)) ''m''
     = Some \<lparr>wk_method_name = ''m'', wk_execute = \<lambda>j ctx. ret answer\<rparr>"
  "dur_to_std (wcf_job_timeout (jp_worker_config (answering_processor S answer))) = Some 300000000000"
  "wp (rt_timeout (jp_runtime (answering_processor S answer)) limit
     (run_stack (jp_middleware (answering_processor S answer))
        \<lparr>wk_method_name = ''m'', wk_execute = \<lambda>j ctx. ret answer\<rparr> j ctx)) Q w = Q (Some answer) w"
  by (simp_all add: answering_processor_def jp_with_retry_policy_def get_worker_def sample_config_def
      dur_to_std_def dur_defs sample_runtime_def run_stack_def default_middleware_def tracing_middleware_def wp_simps)

section \<open>Verdicts\<close>

lemma decide_RetryLaterD:
  "decide P j x = RetryLater err retry_at \<Longrightarrow> should_retry_attempt P j None"
  by (cases "(P, j, x)" rule: decide.cases) (auto simp: retry_or_give_up_def split: if_splits)

lemma should_retry_attemptD:
  assumes "should_retry_attempt P j ex"
  shows "job_max_retries j \<noteq> 0 \<Longrightarrow> unat (job_attempt j) \<le> unat (job_max_retries j)"
    and "unat (job_attempt j) \<le> unat (max_attempts (rp_strategy (jp_retry_policy P)))"
proof -
  have cap: "\<not> (job_max_retries j > 0 \<and> job_attempt j > job_max_retries j)"
    and pol: "should_retry (jp_retry_policy P) ex (job_attempt j)"
    using assms by (auto simp: should_retry_attempt_def split: if_splits)
  show "unat (job_attempt j) \<le> unat (job_max_retries j)" if "job_max_retries j \<noteq> 0"
  proof -
    have "job_max_retries j > 0" using that by (simp add: word_neq_0_conv)
    with cap have "job_attempt j \<le> job_max_retries j" by simp
    then show ?thesis by (simp add: word_le_nat_alt)
  qed
  show "unat (job_attempt j) \<le> unat (max_attempts (rp_strategy (jp_retry_policy P)))"
    using pol by (auto simp: should_retry_def not_less word_le_nat_alt split: if_splits)
qed

lemma outcome_kind:
  "outcome P w j v j' \<Longrightarrow>
     kind (job_state j') = (case v of Succeed _ _ \<Rightarrow> KSucceeded | RetryLater _ _ \<Rightarrow> KAwaitingRetry | GiveUp _ \<Rightarrow> KFailed)
     \<and> job_attempt j' = job_attempt j \<and> job_id j' = job_id j"
  by (cases v) (auto simp: outcome_def)

text \<open>A job is only left in \<open>AwaitingRetry\<close> when the policy, asked without an exception, allows it.\<close>

lemma process_job_retry_decided:
  fixes w :: "('p memory_storage, 'e) world"
  assumes "jp_storage P = memory_storage_api" and "mem_inv (store w)"
    and "mem_jobs (store w) (job_id j) = Some j" and "kind (job_state j) = KProcessing"
    and "get_worker (jp_worker_registry P) (job_method j) = Some wk"
    and "dur_to_std (wcf_job_timeout (jp_worker_config P)) = Some limit"
    and "\<And>ctx w1. mem_inv (store w1) \<Longrightarrow> mem_jobs (store w1) = mem_jobs (store w) \<Longrightarrow>
      wp (rt_timeout (jp_runtime P) limit (run_stack (jp_middleware P) wk
            (j\<lparr>job_attempt := saturating_add (job_attempt j) 1\<rparr>) ctx))
        (\<lambda>x w2. mem_inv (store w2) \<and> mem_jobs (store w2) (job_id j) = Some j) w1"
  shows "wp (process_job P j) (\<lambda>r w'. \<forall>j'. mem_jobs (store w') (job_id j) = Some j'
           \<and> kind (job_state j') = KAwaitingRetry \<longrightarrow>
         job_attempt j' = saturating_add (job_attempt j) 1
         \<and> should_retry_attempt P (j\<lparr>job_attempt := saturating_add (job_attempt j) 1\<rparr>) None) w"
proof -
  let ?j1 = "j\<lparr>job_attempt := saturating_add (job_attempt j) 1\<rparr>"
  have "wp (process_job P j) (\<lambda>r w'. mem_inv (store w') \<and>
     (\<exists>x w2 j'. True \<and> outcome P w2 ?j1 (decide P ?j1 x) j' \<and>
        (case r of
           None \<Rightarrow> False
         | Some (Inl e) \<Rightarrow> mem_jobs (store w') (job_id j) = Some j
         | Some (Inr _) \<Rightarrow> mem_jobs (store w') (job_id j) = Some j'))) w"
    using mem.process_job_law [OF assms(1-6) refl, where X = "\<lambda>_. True"] assms(7) by simp
  then show ?thesis
  proof (rule wp_mono, intro allI impI, elim conjE exE)
    fix r w' j' x w2 j2
    assume out: "outcome P w2 ?j1 (decide P ?j1 x) j2"
      and r: "case r of None \<Rightarrow> False
         | Some (Inl e) \<Rightarrow> mem_jobs (store w') (job_id j) = Some j
         | Some (Inr _) \<Rightarrow> mem_jobs (store w') (job_id j) = Some j2"
      and j': "mem_jobs (store w') (job_id j) = Some j'" and k: "kind (job_state j') = KAwaitingRetry"
    have "j' = j2" using r j' k assms(4) by (auto split: option.splits sum.splits)
    with outcome_kind [OF out] k obtain err retry_at where d: "decide P ?j1 x = RetryLater err retry_at"
        and a: "job_attempt j' = saturating_add (job_attempt j) 1"
      by (auto split: verdict.splits)
    then show "job_attempt j' = saturating_add (job_attempt j) 1 \<and> should_retry_attempt P ?j1 None"
      using decide_RetryLaterD by blast
  qed
qed

text \<open>A middleware that erases the previous exception from the context.\<close>

definition forget_previous :: "('p, 's, 'e) middleware" where
  "forget_previous j ctx next = next j (ctx\<lparr>wx_previous_exception := None\<rparr>)"

lemma handlers_ignore_middleware [simp]:
  "fail_job_permanently (P\<lparr>jp_middleware := ms\<rparr>) j err st = fail_job_permanently P j err st"
  "ensure_processing (P\<lparr>jp_middleware := ms\<rparr>) j = ensure_processing P j"
  "make_context (P\<lparr>jp_middleware := ms\<rparr>) j = make_context P j"
  "handle_job_timeout (P\<lparr>jp_middleware := ms\<rparr>) j = handle_job_timeout P j"
  "handle_result (P\<lparr>jp_middleware := ms\<rparr>) j d x = handle_result P j d x"
proof -
  have hook: "fire_state_change_hook (P\<lparr>jp_middleware := ms\<rparr>) = fire_state_change_hook P"
    by (simp add: fire_state_change_hook_def fun_eq_iff)
  have app: "apply_state_change (P\<lparr>jp_middleware := ms\<rparr>) = apply_state_change P"
    by (simp add: apply_state_change_def hook fun_eq_iff split: sum.split)
  have upd: "update_job (P\<lparr>jp_middleware := ms\<rparr>) = update_job P"
    by (simp add: update_job_def fun_eq_iff)
  have sra: "should_retry_attempt (P\<lparr>jp_middleware := ms\<rparr>) = should_retry_attempt P"
    by (intro ext) (simp add: should_retry_attempt_def)
  have rt: "retry_time (P\<lparr>jp_middleware := ms\<rparr>) = retry_time P"
    by (simp add: retry_time_def fun_eq_iff cong: option.case_cong)
  have fail: "fail_job_permanently (P\<lparr>jp_middleware := ms\<rparr>) = fail_job_permanently P"
    by (simp add: fail_job_permanently_def app upd fun_eq_iff cong: sum.case_cong)
  have retry: "handle_job_retry (P\<lparr>jp_middleware := ms\<rparr>) = handle_job_retry P"
    by (simp add: handle_job_retry_def sra rt fail hook upd fun_eq_iff cong: sum.case_cong)
  have complete: "complete_job_successfully (P\<lparr>jp_middleware := ms\<rparr>) = complete_job_successfully P"
    by (intro ext) (simp add: complete_job_successfully_def app upd cong: sum.case_cong)
  have exec: "handle_execution_error (P\<lparr>jp_middleware := ms\<rparr>) = handle_execution_error P"
    by (intro ext) (simp add: handle_execution_error_def sra retry fail)
  show "fail_job_permanently (P\<lparr>jp_middleware := ms\<rparr>) j err st = fail_job_permanently P j err st"
    by (simp add: fail)
  show "ensure_processing (P\<lparr>jp_middleware := ms\<rparr>) j = ensure_processing P j"
    by (simp add: ensure_processing_def app upd cong: sum.case_cong)
  show "make_context (P\<lparr>jp_middleware := ms\<rparr>) j = make_context P j"
    by (simp add: make_context_def)
  show "handle_job_timeout (P\<lparr>jp_middleware := ms\<rparr>) j = handle_job_timeout P j"
    by (simp add: handle_job_timeout_def sra retry fail Let_def)
  show "handle_result (P\<lparr>jp_middleware := ms\<rparr>) j d x = handle_result P j d x"
    by (simp add: handle_result_def complete exec retry fail split: sum.split worker_result.split)
qed

lemma ensure_processing_kind:
  "run_state (ensure_processing P j) w = (Inr j', w') \<Longrightarrow> kind (job_state j') = KProcessing"
  by (auto simp: ensure_processing_def apply_state_change_def js_processing_def set_state_def
      split: if_splits sum.splits prod.splits)

lemma make_context_no_previous:
  "kind (job_state j) = KProcessing \<Longrightarrow> run_state (make_context P j) w = (ctx, w') \<Longrightarrow>
     ctx\<lparr>wx_previous_exception := None\<rparr> = ctx"
  by (cases "job_state j")
     (auto simp: make_context_def retry_from_def worker_context_new_def extract_previous_exception_def
        split: if_splits)

section \<open>Properties\<close>



text \<open>
  C23. The retry budget. Whatever the worker answers, a job that \<^verbatim>\<open>process_job\<close> leaves waiting for
  another retry is within the maximum of the retry strategy and, when its own \<^verbatim>\<open>max_retries\<close> is not
  0, within that as well: no job is retried for ever. (A \<^verbatim>\<open>max_retries\<close> of 0 sets no limit of its own.)
\<close>

theorem retry_budget:
  fixes w :: "('p memory_storage, 'e) world"
  assumes "jp_storage P = memory_storage_api" and "mem_inv (store w)"
    and "mem_jobs (store w) (job_id j) = Some j" and "kind (job_state j) = KProcessing"
    and "get_worker (jp_worker_registry P) (job_method j) = Some wk"
    and "dur_to_std (wcf_job_timeout (jp_worker_config P)) = Some limit"
    and "\<And>ctx w1. mem_inv (store w1) \<Longrightarrow> mem_jobs (store w1) = mem_jobs (store w) \<Longrightarrow>
      wp (rt_timeout (jp_runtime P) limit (run_stack (jp_middleware P) wk
            (j\<lparr>job_attempt := saturating_add (job_attempt j) 1\<rparr>) ctx))
        (\<lambda>x w2. mem_inv (store w2) \<and> mem_jobs (store w2) (job_id j) = Some j) w1"
  shows "wp (process_job P j) (\<lambda>r w'. \<forall>j'. mem_jobs (store w') (job_id j) = Some j'
           \<and> kind (job_state j') = KAwaitingRetry \<longrightarrow>
         unat (job_attempt j') \<le> unat (max_attempts (rp_strategy (jp_retry_policy P)))
         \<and> unat (job_attempt j') = min (Suc (unat (job_attempt j))) (2 ^ 32 - 1)
         \<and> (job_max_retries j \<noteq> 0 \<longrightarrow> unat (job_attempt j') \<le> unat (job_max_retries j))) w"
proof -
  have inc: "unat (saturating_add (job_attempt j) 1) = min (Suc (unat (job_attempt j))) (2 ^ 32 - 1)"
    by (simp add: unat_saturating_add)
  show ?thesis
    by (rule wp_mono [OF process_job_retry_decided [OF assms]])
       (use inc should_retry_attemptD [of P "j\<lparr>job_attempt := saturating_add (job_attempt j) 1\<rparr>" None]
         in auto)
qed

theorem retry_budget_witness:
  "wp (process_job (sample_processor retry_policy_default (Inr (wr_retry ''boom'' None))) claimed)
     (\<lambda>r w'. \<forall>j'. mem_jobs (store w') (job_id claimed) = Some j' \<and> kind (job_state j') = KAwaitingRetry \<longrightarrow>
         unat (job_attempt j')
           \<le> unat (max_attempts (rp_strategy (jp_retry_policy (sample_processor retry_policy_default (Inr (wr_retry ''boom'' None))))))
         \<and> unat (job_attempt j') = min (Suc (unat (job_attempt claimed))) (2 ^ 32 - 1)
         \<and> (job_max_retries claimed \<noteq> 0 \<longrightarrow> unat (job_attempt j') \<le> unat (job_max_retries claimed)))
     (sample_world (sample_memory [claimed]))"
  by (rule retry_budget [where limit = 300000000000 and
      wk = "\<lparr>wk_method_name = ''m'', wk_execute = \<lambda>j ctx. ret (Inr (wr_retry ''boom'' None))\<rparr>"])
     (simp_all add: claimed_def)

text \<open>
  A worker is never told why the previous attempt failed: erasing \<^verbatim>\<open>previous_exception\<close> from
  every context changes nothing. \<^verbatim>\<open>process_job\<close> reads it off the state after it has made that
  state \<open>Processing\<close>, so the field it documents for retries is always \<open>None\<close>.
\<close>

theorem previous_exception_always_none:
  "process_job (P\<lparr>jp_middleware := forget_previous # jp_middleware P\<rparr>) j = process_job P j"
proof (rule state.expand, rule ext)
  fix w
  let ?P = "P\<lparr>jp_middleware := forget_previous # jp_middleware P\<rparr>"
  let ?j1 = "j\<lparr>job_attempt := saturating_add (job_attempt j) 1\<rparr>"
  show "run_state (process_job ?P j) w = run_state (process_job P j) w"
  proof (cases "get_worker (jp_worker_registry P) (job_method j)")
    case None
    then show ?thesis by (simp add: process_job_def Let_def)
  next
    case (Some wk)
    obtain r w1 where pr: "run_state (ensure_processing P ?j1) w = (r, w1)" by force
    show ?thesis
    proof (cases r)
      case (Inl e)
      with pr Some show ?thesis by (simp add: process_job_def Let_def)
    next
      case (Inr j')
      obtain ctx w2 where ctx: "run_state (make_context P j') w1 = (ctx, w2)" by force
      have "kind (job_state j') = KProcessing" using pr Inr by (simp add: ensure_processing_kind)
      from make_context_no_previous [OF this ctx]
      have "run_stack (forget_previous # jp_middleware P) wk j' ctx = run_stack (jp_middleware P) wk j' ctx"
        by (simp add: run_stack_def forget_previous_def)
      with pr Some Inr ctx show ?thesis
        by (simp add: process_job_def Let_def cong: option.case_cong)
    qed
  qed
qed

text \<open>
  C33. Selective retry does not retry: under a policy with \<^verbatim>\<open>retry_on_all_exceptions = false\<close> no job is
  ever left waiting for a retry, whatever \<^verbatim>\<open>retryable_exceptions\<close> lists and whatever the worker
  answers, because \<^verbatim>\<open>handle_job_retry\<close> asks the policy again without the exception type.
\<close>

theorem selective_retry_never_retries:
  fixes w :: "('p memory_storage, 'e) world"
  assumes "jp_storage P = memory_storage_api" and "mem_inv (store w)"
    and "mem_jobs (store w) (job_id j) = Some j" and "kind (job_state j) = KProcessing"
    and "get_worker (jp_worker_registry P) (job_method j) = Some wk"
    and "dur_to_std (wcf_job_timeout (jp_worker_config P)) = Some limit"
    and "\<And>ctx w1. mem_inv (store w1) \<Longrightarrow> mem_jobs (store w1) = mem_jobs (store w) \<Longrightarrow>
      wp (rt_timeout (jp_runtime P) limit (run_stack (jp_middleware P) wk
            (j\<lparr>job_attempt := saturating_add (job_attempt j) 1\<rparr>) ctx))
        (\<lambda>x w2. mem_inv (store w2) \<and> mem_jobs (store w2) (job_id j) = Some j) w1"
    and "\<not> rp_retry_on_all_exceptions (jp_retry_policy P)"
  shows "wp (process_job P j) (\<lambda>r w'. \<forall>j'. mem_jobs (store w') (job_id j) = Some j' \<longrightarrow>
           kind (job_state j') \<noteq> KAwaitingRetry) w"
  by (rule wp_mono [OF process_job_retry_decided [OF assms(1-7)]])
     (use assms(8) in \<open>auto simp: should_retry_attempt_def should_retry_def split: if_splits\<close>)

theorem selective_retry_never_retries_witness:
  "wp (process_job (sample_processor
        (add_retryable_exception ''WorkerError'' (retry_on_all_exceptions False retry_policy_default))
        (Inl (WorkerError ''boom''))) claimed)
     (\<lambda>r w'. \<forall>j'. mem_jobs (store w') (job_id claimed) = Some j' \<longrightarrow> kind (job_state j') \<noteq> KAwaitingRetry)
     (sample_world (sample_memory [claimed]))"
  by (rule selective_retry_never_retries [where limit = 300000000000 and
      wk = "\<lparr>wk_method_name = ''m'', wk_execute = \<lambda>j ctx. ret (Inl (WorkerError ''boom''))\<rparr>"])
     (simp_all add: claimed_def add_retryable_exception_def retry_on_all_exceptions_def)

text \<open>
  The state-change hook: whatever a claimed job's execution answers, the handlers call the hook
  exactly once, with the job in its new state and the state it had before; also when the storage
  then refuses the update.
\<close>

theorem hook_fires_once:
  fixes w :: "('p memory_storage, 'e) world"
  assumes "jp_storage P = memory_storage_api" and "mem_inv (store w)" and "kind (job_state j) = KProcessing"
    and "jp_on_state_change P = Some hook"
  shows "wp (handle_result P j d x) (\<lambda>r w'. \<exists>j'. outcome P w j (decide P j (Some x)) j'
           \<and> events w' = events w @ [hook (j\<lparr>job_state := job_state j'\<rparr>) (job_state j) (job_state j')]) w"
  by (rule wp_mono [OF mem.result_law [OF assms(1-3) TrueI]])
     (auto simp: settled_def hook_events_def assms(4))

theorem hook_fires_once_witness:
  "wp (handle_result (sample_processor retry_policy_default (Inl (WorkerError ''boom''))) claimed 0
        (Inr (wr_failure ''no'')))
     (\<lambda>r w'. \<exists>j'. outcome (sample_processor retry_policy_default (Inl (WorkerError ''boom'')))
           (sample_world (sample_memory [])) claimed
           (decide (sample_processor retry_policy_default (Inl (WorkerError ''boom''))) claimed
              (Some (Inr (wr_failure ''no'')))) j'
        \<and> events w' = events (sample_world (sample_memory [])) @ [job_state j'])
     (sample_world (sample_memory []))"
  by (rule hook_fires_once [where hook = "\<lambda>j prev new. new"])
     (simp_all add: claimed_def sample_processor_def jp_with_retry_policy_def)

text \<open>
  A job without a worker fails at once: the attempt is counted, the job is stored as \<open>Failed\<close> with
  the missing method in its message and an expiry, and no user code runs.
\<close>

theorem missing_worker_fails:
  fixes w :: "('p memory_storage, 'e) world"
  assumes "jp_storage P = memory_storage_api" and "mem_inv (store w)"
    and "mem_jobs (store w) (job_id j) = Some j" and "kind (job_state j) = KProcessing"
    and "get_worker (jp_worker_registry P) (job_method j) = None"
  shows "wp (process_job P j) (\<lambda>r w'. r = Some (Inr ()) \<and>
      mem_jobs (store w') = (mem_jobs (store w))(job_id j \<mapsto>
        j\<lparr>job_attempt := saturating_add (job_attempt j) 1,
          job_state := Failed (clock w (ticks w)) (''No worker registered for method: '' @ job_method j) None,
          job_expires_at := Some (clock w (Suc (ticks w)) + jp_failed_ttl P)\<rparr>)) w"
proof -
  have present: "hm_contains (ms_jobs (store w)) (job_id j)"
    using assms(3) by (simp add: mem_jobs_def)
  have st: "st_update memory_storage_api = (mem_update :: 'p job \<Rightarrow> _)"
    by (simp add: memory_storage_api_def)
  show ?thesis
    using present
    by (simp add: process_job_def assms(1,5) fail_job_permanently_def apply_state_change_def set_state_def
        processing_transitions [OF assms(4)] update_job_def st mem_update_def wp_simps Let_def)
qed

theorem missing_worker_fails_witness:
  "wp (process_job (sample_processor retry_policy_default (Inr (wr_success None 0))\<lparr>jp_worker_registry := []\<rparr>) claimed)
     (\<lambda>r w'. r = Some (Inr ()) \<and> (\<exists>j'. mem_jobs (store w') ''a'' = Some j' \<and> kind (job_state j') = KFailed))
     (sample_world (sample_memory [claimed]))"
  by (rule wp_mono [OF missing_worker_fails])
     (auto simp: claimed_def get_worker_def)

text \<open>
  A negative \<^verbatim>\<open>job_timeout\<close> makes the processor panic: the conversion of the timeout is unwrapped, after
  the job has been claimed and before the worker has run; the job stays \<open>Processing\<close> in the storage.
\<close>

lemma negative_timeout_panics:
  fixes w :: "('s, 'e) world"
  assumes "kind (job_state j) = KProcessing"
    and "get_worker (jp_worker_registry P) (job_method j) = Some wk"
    and "wcf_job_timeout (jp_worker_config P) < 0"
  shows "wp (process_job P j) (\<lambda>r w'. r = None \<and> store w' = store w) w"
  using assms
  by (simp add: process_job_def ensure_processing_def make_context_def retry_from_def worker_context_new_def
      dur_to_std_def wp_simps Let_def)

end
