(* ===== verification/Background.thy ===== *)
theory Background
  imports Samples Worker
begin

text \<open>
  The background services that run beside the workers: the scheduler
  (\<^verbatim>\<open>src/processing/scheduler.rs\<close>), the recurring-job poller (\<^verbatim>\<open>recurring.rs\<close>), the cleanup worker
  (\<^verbatim>\<open>cleanup.rs\<close>) and the heartbeat worker (\<^verbatim>\<open>heartbeat.rs\<close>). Each loops on \<^verbatim>\<open>tokio::select!\<close> over
  cancellation and the ticks of a timer; what the select answers, in order, is a list of loop events.
  A loop that has consumed the list is still running; a panic in a task ends it.
\<close>

datatype loop_event = Cancelled | Tick

datatype loop_status = Stopped "qml_error + unit" | Running | Panicked

text \<open>The common shape of the loops: exit on cancellation, else run the body and go on. The body logs
  its own errors.\<close>

fun service_loop :: "('s, 'e, unit) act \<Rightarrow> loop_event list \<Rightarrow> ('s, 'e, loop_status) act" where
  "service_loop body [] = ret Running"
| "service_loop body (Cancelled # es) = ret (Stopped (Inr ()))"
| "service_loop body (Tick # es) = do { body; service_loop body es }"

text \<open>The interval is converted first; a negative one is a configuration error, and the timer of
  \<^verbatim>\<open>tokio::time::interval\<close> panics on a period of zero.\<close>

definition run_service ::
  "string \<Rightarrow> duration \<Rightarrow> ('s, 'e, unit) act \<Rightarrow> loop_event list \<Rightarrow> ('s, 'e, loop_status) act" where
  "run_service name interval body es =
     (case dur_to_std interval of
        None \<Rightarrow> ret (Stopped (Inl (ConfigurationError
          (''Invalid '' @ name @ '' interval: Source duration value is out of range for the target type''))))
      | Some period \<Rightarrow> if period = 0 then ret Panicked else service_loop body es)"

definition discard :: "('s, 'e, 'a) act \<Rightarrow> ('s, 'e, unit) act" where
  "discard m = do { _ \<leftarrow> m; ret () }"

section \<open>Scheduler\<close>

record ('p, 's, 'e) job_scheduler =
  sc_storage :: "('p, 's, 'e) storage"
  sc_poll_interval :: duration
  sc_batch_size :: nat

definition scheduler_with_poll_interval ::
  "('p, 's, 'e) storage \<Rightarrow> duration \<Rightarrow> ('p, 's, 'e) job_scheduler" where
  "scheduler_with_poll_interval st d = \<lparr>sc_storage = st, sc_poll_interval = d, sc_batch_size = 1000\<rparr>"

definition scheduler_new :: "('p, 's, 'e) storage \<Rightarrow> ('p, 's, 'e) job_scheduler" where
  "scheduler_new st = \<lparr>sc_storage = st, sc_poll_interval = dur_seconds 30, sc_batch_size = 1000\<rparr>"

definition process_due_jobs ::
  "('p, 's, 'e) job_scheduler \<Rightarrow> string
     \<Rightarrow> (time \<Rightarrow> nat \<Rightarrow> ('s, 'e, storage_error + 'p job list) act) \<Rightarrow> ('s, 'e, qml_error + unit) act" where
  "process_due_jobs sc knd claim = do {
     now \<leftarrow> utc_now;
     r \<leftarrow> claim now (sc_batch_size sc);
     ret (case r of
            Inl e \<Rightarrow> Inl (StorageError (''Failed to claim due '' @ knd @ '' jobs: '' @ storage_error_display e))
          | Inr _ \<Rightarrow> Inr ()) }"

definition scheduler_tick :: "('p, 's, 'e) job_scheduler \<Rightarrow> ('s, 'e, unit) act" where
  "scheduler_tick sc = do {
     discard (process_due_jobs sc ''scheduled'' (st_claim_due_scheduled_jobs (sc_storage sc)));
     discard (process_due_jobs sc ''retry'' (st_claim_due_retry_jobs (sc_storage sc))) }"

definition scheduler_run_until_cancelled ::
  "('p, 's, 'e) job_scheduler \<Rightarrow> loop_event list \<Rightarrow> ('s, 'e, loop_status) act" where
  "scheduler_run_until_cancelled sc es =
     run_service ''poll'' (sc_poll_interval sc) (scheduler_tick sc) es"

definition schedule_job ::
  "(job_state \<Rightarrow> string) \<Rightarrow> ('p, 's, 'e) job_scheduler \<Rightarrow> 'p job \<Rightarrow> time \<Rightarrow> string
     \<Rightarrow> ('s, 'e, qml_error + unit) act" where
  "schedule_job dbg sc j execute_at reason = do {
     st \<leftarrow> js_scheduled execute_at reason;
     (case set_state dbg st j of
        Inl e \<Rightarrow> ret (Inl e)
      | Inr j' \<Rightarrow> do {
          r \<leftarrow> st_enqueue (sc_storage sc) j';
          ret (case r of
                 Inl e \<Rightarrow> Inl (StorageError (''Failed to schedule job: '' @ storage_error_display e))
               | Inr _ \<Rightarrow> Inr ()) }) }"

definition schedule_job_in ::
  "(job_state \<Rightarrow> string) \<Rightarrow> ('p, 's, 'e) job_scheduler \<Rightarrow> 'p job \<Rightarrow> duration \<Rightarrow> string
     \<Rightarrow> ('s, 'e, qml_error + unit) act" where
  "schedule_job_in dbg sc j delay reason = do {
     now \<leftarrow> utc_now;
     schedule_job dbg sc j (now + delay) reason }"

section \<open>Recurring poller\<close>

record ('p, 's, 'e, 'c) recurring_poller =
  rp_storage :: "('p, 's, 'e) storage"
  rp_poll_interval :: duration
  rp_batch_size :: nat
  rp_cron :: "'c cron_crate"

definition recurring_poller_new ::
  "'c cron_crate \<Rightarrow> ('p, 's, 'e) storage \<Rightarrow> duration \<Rightarrow> ('p, 's, 'e, 'c) recurring_poller" where
  "recurring_poller_new C st d =
     \<lparr>rp_storage = st, rp_poll_interval = d, rp_batch_size = 256, rp_cron = C\<rparr>"

text \<open>One due template: enqueue a job, stamp, advance (or disable), write back.\<close>

definition fire_one ::
  "('p, 's, 'e, 'c) recurring_poller \<Rightarrow> time \<Rightarrow> 'p recurring_job \<Rightarrow> ('s, 'e, unit) act" where
  "fire_one R now r = do {
     j \<leftarrow> job_with_config (rj_method r) (rj_payload r) (rj_queue r) 0 0;
     _ \<leftarrow> st_enqueue (rp_storage R) j;
     let r1 = r\<lparr>rj_last_run_at := Some now\<rparr>;
     a \<leftarrow> recurring_advance (rp_cron R) now r1;
     let r2 = (case a of Inl e \<Rightarrow> r1\<lparr>rj_enabled := False\<rparr> | Inr x \<Rightarrow> x);
     _ \<leftarrow> st_upsert_recurring_job (rp_storage R) r2;
     ret () }"

fun fire_all ::
  "('p, 's, 'e, 'c) recurring_poller \<Rightarrow> time \<Rightarrow> 'p recurring_job list \<Rightarrow> ('s, 'e, unit) act" where
  "fire_all R now [] = ret ()"
| "fire_all R now (r # rs) = do { fire_one R now r; fire_all R now rs }"

definition tick_once :: "('p, 's, 'e, 'c) recurring_poller \<Rightarrow> ('s, 'e, qml_error + nat) act" where
  "tick_once R = do {
     now \<leftarrow> utc_now;
     r \<leftarrow> st_fetch_due_recurring_jobs (rp_storage R) now (rp_batch_size R);
     (case r of
        Inl e \<Rightarrow> ret (Inl (StorageError
          (''Failed to fetch due recurring jobs: '' @ storage_error_display e)))
      | Inr due \<Rightarrow> do { fire_all R now due; ret (Inr (length due)) }) }"

definition recurring_run_until_cancelled ::
  "('p, 's, 'e, 'c) recurring_poller \<Rightarrow> loop_event list \<Rightarrow> ('s, 'e, loop_status) act" where
  "recurring_run_until_cancelled R es =
     run_service ''recurring poll'' (rp_poll_interval R) (discard (tick_once R)) es"

section \<open>Cleanup\<close>

record ('p, 's, 'e) cleanup_worker =
  cw_storage :: "('p, 's, 'e) storage"
  cw_interval :: duration

definition default_cleanup_interval :: duration where
  "default_cleanup_interval = dur_minutes 1"

definition sweep_once :: "('p, 's, 'e) cleanup_worker \<Rightarrow> ('s, 'e, qml_error + nat) act" where
  "sweep_once c = do {
     now \<leftarrow> utc_now;
     r \<leftarrow> st_delete_expired_jobs (cw_storage c) now;
     (case r of
        Inl e \<Rightarrow> ret (Inl (StorageError (''Failed to delete expired jobs: '' @ storage_error_display e)))
      | Inr removed \<Rightarrow> do {
          _ \<leftarrow> st_cleanup_expired_named_locks (cw_storage c) now;
          ret (Inr removed) }) }"

definition cleanup_run_until_cancelled ::
  "('p, 's, 'e) cleanup_worker \<Rightarrow> loop_event list \<Rightarrow> ('s, 'e, loop_status) act" where
  "cleanup_run_until_cancelled c es = run_service ''cleanup'' (cw_interval c) (discard (sweep_once c)) es"

section \<open>Heartbeat\<close>

record ('p, 's, 'e) heartbeat_worker =
  hb_storage :: "('p, 's, 'e) storage"
  hb_server_id :: string
  hb_heartbeat_interval :: duration
  hb_dead_server_timeout :: duration

definition default_heartbeat_interval :: duration where
  "default_heartbeat_interval = dur_seconds 10"

definition default_dead_server_timeout :: duration where
  "default_dead_server_timeout = dur_seconds 60"

fun reclaim_peers :: "('p, 's, 'e) heartbeat_worker \<Rightarrow> server_info list \<Rightarrow> ('s, 'e, unit) act" where
  "reclaim_peers h [] = ret ()"
| "reclaim_peers h (peer # peers) =
     (if si_server_id peer = hb_server_id h then reclaim_peers h peers
      else do {
        r \<leftarrow> st_reclaim_jobs_from_server (hb_storage h) (si_server_id peer);
        (case r of
           Inl e \<Rightarrow> reclaim_peers h peers
         | Inr n \<Rightarrow> do {
             _ \<leftarrow> st_deregister_server (hb_storage h) (si_server_id peer);
             reclaim_peers h peers }) })"

definition bump_and_scan :: "('p, 's, 'e) heartbeat_worker \<Rightarrow> ('s, 'e, qml_error + unit) act" where
  "bump_and_scan h = do {
     now \<leftarrow> utc_now;
     b \<leftarrow> st_heartbeat_server (hb_storage h) (hb_server_id h) now;
     (case b of
        Inl e \<Rightarrow> ret (Inl (StorageError (''Heartbeat bump failed: '' @ storage_error_display e)))
      | Inr _ \<Rightarrow> do {
          d \<leftarrow> st_list_dead_servers (hb_storage h) (now - hb_dead_server_timeout h);
          (case d of
             Inl e \<Rightarrow> ret (Inl (StorageError (''list_dead_servers failed: '' @ storage_error_display e)))
           | Inr peers \<Rightarrow> do { reclaim_peers h peers; ret (Inr ()) }) }) }"

definition heartbeat_run_until_cancelled ::
  "('p, 's, 'e) heartbeat_worker \<Rightarrow> loop_event list \<Rightarrow> ('s, 'e, loop_status) act" where
  "heartbeat_run_until_cancelled h es =
     run_service ''heartbeat'' (hb_heartbeat_interval h) (discard (bump_and_scan h)) es"

end
