(* ===== verification/Background_Props.thy ===== *)
theory Background_Props
  imports Background Memory_Props
begin

text \<open>
  The background services on a backend that satisfies the contract, and on the in-memory backend.
\<close>

section \<open>A cluster of servers over one storage\<close>

text \<open>What the heartbeat worker relies on beyond the job table: registering, bumping, listing and
  removing servers leaves the jobs alone, and only stale servers are listed.\<close>

locale cluster_storage = job_storage S jobs_of inv
  for S :: "('p, 's, 'e) storage" and jobs_of :: "'s \<Rightarrow> 'p jobs" and inv :: "'s \<Rightarrow> bool" +
  assumes heartbeat_law: "inv (store w) \<Longrightarrow>
      wp (st_heartbeat_server S sid now) (\<lambda>r w'. env_kept w w' \<and> inv (store w')
        \<and> jobs_of (store w') = jobs_of (store w)) w"
    and list_dead_law: "inv (store w) \<Longrightarrow>
      wp (st_list_dead_servers S before) (\<lambda>r w'. env_kept w w' \<and> inv (store w')
        \<and> jobs_of (store w') = jobs_of (store w)
        \<and> (\<forall>vs. r = Inr vs \<longrightarrow> (\<forall>v \<in> set vs. si_last_heartbeat v < before))) w"
    and deregister_law: "inv (store w) \<Longrightarrow>
      wp (st_deregister_server S sid) (\<lambda>r w'. env_kept w w' \<and> inv (store w')
        \<and> jobs_of (store w') = jobs_of (store w)) w"

definition reclaimed :: "string set \<Rightarrow> 'p jobs \<Rightarrow> 'p jobs \<Rightarrow> bool" where
  "reclaimed sids T T' \<longleftrightarrow> dom T' = dom T \<and>
     (\<forall>i j. T i = Some j \<longrightarrow> T' i = Some j
        \<or> (\<exists>sid \<in> sids. owned_by sid (job_state j))
          \<and> (\<exists>t. T' i = Some (j\<lparr>job_state := Enqueued t (job_queue j)\<rparr>)))"

lemma reclaimed_refl: "reclaimed sids T T"
  by (simp add: reclaimed_def)

lemma not_owned_enqueued [simp]: "\<not> owned_by sid (Enqueued t q)"
  by simp

lemma reclaimed_requeued:
  assumes "reclaimed sids T T1"
    and "requeued {i. \<exists>j. T1 i = Some j \<and> owned_by sid (job_state j)} T1 T2" and "sid \<in> sids"
  shows "reclaimed sids T T2"
proof -
  have "T2 i = Some j \<or> (\<exists>sid \<in> sids. owned_by sid (job_state j))
          \<and> (\<exists>t. T2 i = Some (j\<lparr>job_state := Enqueued t (job_queue j)\<rparr>))" if "T i = Some j" for i j
  proof -
    have "T1 i = Some j \<or> (\<exists>sid \<in> sids. owned_by sid (job_state j))
          \<and> (\<exists>t. T1 i = Some (j\<lparr>job_state := Enqueued t (job_queue j)\<rparr>))"
      using assms(1) that by (simp add: reclaimed_def)
    then show ?thesis
    proof
      assume T1: "T1 i = Some j"
      from requeued_at [OF assms(2) T1] T1 assms(3) show ?thesis by (auto split: if_splits)
    next
      assume r: "(\<exists>sid \<in> sids. owned_by sid (job_state j))
          \<and> (\<exists>t. T1 i = Some (j\<lparr>job_state := Enqueued t (job_queue j)\<rparr>))"
      then obtain t where T1: "T1 i = Some (j\<lparr>job_state := Enqueued t (job_queue j)\<rparr>)" by blast
      from requeued_at [OF assms(2) T1] T1 r show ?thesis by auto
    qed
  qed
  moreover have "dom T2 = dom T" using assms(1) requeued_dom [OF assms(2)] by (simp add: reclaimed_def)
  ultimately show ?thesis by (simp add: reclaimed_def)
qed

context cluster_storage
begin

lemma reclaim_peers_law:
  assumes "hb_storage h = S" and "inv (store w)" and "reclaimed (- {hb_server_id h}) T (jobs_of (store w))"
  shows "wp (reclaim_peers h peers) (\<lambda>_ w'. inv (store w')
           \<and> reclaimed (- {hb_server_id h}) T (jobs_of (store w'))) w"
  using assms(2,3)
proof (induction peers arbitrary: w)
  case Nil
  then show ?case by (simp add: wp_simps)
next
  case (Cons p ps)
  show ?case
  proof (cases "si_server_id p = hb_server_id h")
    case True
    with Cons show ?thesis by simp
  next
    case False
    have "wp (st_reclaim_jobs_from_server S (si_server_id p)) (\<lambda>r w1. inv (store w1)
        \<and> reclaimed (- {hb_server_id h}) T (jobs_of (store w1))) w"
      by (rule wp_mono [OF reclaim_law [OF Cons.prems(1)]])
         (use reclaimed_requeued [OF Cons.prems(2)] False Cons.prems(2) in \<open>auto split: sum.splits\<close>)
    then have "wp (st_reclaim_jobs_from_server S (si_server_id p))
        (\<lambda>r. wp (case r of
           Inl e \<Rightarrow> reclaim_peers h ps
         | Inr n \<Rightarrow> do { _ \<leftarrow> st_deregister_server S (si_server_id p); reclaim_peers h ps })
         (\<lambda>_ w'. inv (store w') \<and> reclaimed (- {hb_server_id h}) T (jobs_of (store w')))) w"
    proof (rule wp_mono)
      fix r and w1 :: "('s, 'e) world"
      assume w1: "inv (store w1) \<and> reclaimed (- {hb_server_id h}) T (jobs_of (store w1))"
      have "wp (st_deregister_server S (si_server_id p)) (\<lambda>_. wp (reclaim_peers h ps)
          (\<lambda>_ w'. inv (store w') \<and> reclaimed (- {hb_server_id h}) T (jobs_of (store w')))) w1"
        by (rule wp_mono [OF deregister_law]) (use w1 Cons.IH in auto)
      with w1 Cons.IH show "wp (case r of
           Inl e \<Rightarrow> reclaim_peers h ps
         | Inr n \<Rightarrow> do { _ \<leftarrow> st_deregister_server S (si_server_id p); reclaim_peers h ps })
         (\<lambda>_ w'. inv (store w') \<and> reclaimed (- {hb_server_id h}) T (jobs_of (store w'))) w1"
        by (auto simp: wp_simps split: sum.split)
    qed
    with False assms(1) show ?thesis by (simp add: wp_simps)
  qed
qed

lemma bump_and_scan_law:
  assumes "hb_storage h = S" and "inv (store w)"
  shows "wp (bump_and_scan h) (\<lambda>_ w'. inv (store w')
           \<and> reclaimed (- {hb_server_id h}) (jobs_of (store w)) (jobs_of (store w'))) w"
proof -
  let ?Q = "\<lambda>_ w'. inv (store w') \<and> reclaimed (- {hb_server_id h}) (jobs_of (store w)) (jobs_of (store w'))"
  have scan: "wp (st_list_dead_servers S before) (\<lambda>d. wp (case d of
        Inl e \<Rightarrow> ret (Inl (StorageError (''list_dead_servers failed: '' @ storage_error_display e)))
      | Inr peers \<Rightarrow> do { reclaim_peers h peers; ret (Inr ()) }) ?Q) w1"
    if "inv (store w1)" "jobs_of (store w1) = jobs_of (store w)" for before w1
    by (rule wp_mono [OF list_dead_law [OF that(1)]])
       (use that in \<open>auto simp: wp_simps reclaimed_refl split: sum.split intro!: reclaim_peers_law [OF assms(1)]\<close>)
  have "inv (store (w\<lparr>ticks := Suc (ticks w)\<rparr>))" using assms(2) by simp
  then have "wp (st_heartbeat_server S (hb_server_id h) now) (\<lambda>b. wp (case b of
        Inl e \<Rightarrow> ret (Inl (StorageError (''Heartbeat bump failed: '' @ storage_error_display e)))
      | Inr _ \<Rightarrow> do {
          d \<leftarrow> st_list_dead_servers S (now - hb_dead_server_timeout h);
          (case d of
             Inl e \<Rightarrow> ret (Inl (StorageError (''list_dead_servers failed: '' @ storage_error_display e)))
           | Inr peers \<Rightarrow> do { reclaim_peers h peers; ret (Inr ()) }) }) ?Q)
      (w\<lparr>ticks := Suc (ticks w)\<rparr>)" for now
    by (rule wp_mono [OF heartbeat_law])
       (use scan reclaimed_refl in \<open>auto simp: wp_simps simp del: append_Cons split: sum.split\<close>)
  then show ?thesis
    using assms(1) by (simp add: bump_and_scan_def wp_bind wp_utc_now del: append_Cons)
qed

end

interpretation memc: cluster_storage memory_storage_api mem_jobs mem_inv
proof (unfold_locales, goal_cases)
  case (1 w sid now)
  then have "mem_inv ((store w)\<lparr>ms_servers := hm_insert sid (v\<lparr>si_last_heartbeat := now\<rparr>) (ms_servers (store w))\<rparr>)"
    if "hm_get (ms_servers (store w)) sid = Some v" for v
    using that by (simp add: mem_inv_def)
  with 1 show ?case
    by (auto simp: mem_heartbeat_server_def wp_simps split: option.split)
next
  case (2 w before)
  then show ?case by (simp add: mem_list_dead_servers_def wp_simps)
next
  case (3 w sid)
  then have "mem_inv ((store w)\<lparr>ms_servers := hm_remove sid (ms_servers (store w))\<rparr>)"
    by (simp add: mem_inv_def)
  with 3 show ?case by (simp add: mem_deregister_server_def wp_simps)
qed

section \<open>Scheduler\<close>

lemma mem_len_card: "mem_inv s \<Longrightarrow> mem_len s = card (dom (mem_jobs s))"
proof -
  assume "mem_inv s"
  then have "distinct (map fst (ms_jobs s))" by (simp add: mem_inv_def hm_wf_def)
  then have "card (set (map fst (ms_jobs s))) = length (ms_jobs s)"
    using distinct_card by fastforce
  then show ?thesis by (simp add: mem_len_def mem_jobs_def dom_map_of_conv_image_fst)
qed

text \<open>A claim with room for every job takes all the due ones.\<close>

lemma claim_due_all:
  fixes w :: "('p memory_storage, 'e) world"
  assumes inv: "mem_inv (store w)" and room: "card (dom (mem_jobs (store w))) \<le> n"
  shows "wp (mem_claim_due due n) (\<lambda>r w'. env_kept w w' \<and> mem_inv (store w') \<and> (\<exists>js. r = Inr js)
     \<and> requeued {i. \<exists>j. mem_jobs (store w) i = Some j \<and> due (job_state j)}
         (mem_jobs (store w)) (mem_jobs (store w'))) w"
proof -
  have "length (due_list due (store w)) \<le> length (hm_values (ms_jobs (store w)))"
    unfolding due_list_def length_sort by (rule length_filter_le)
  then have all: "take n (due_list due (store w)) = due_list due (store w)"
    using room mem_len_card [OF inv] by (simp add: mem_len_def)
  have ids: "job_id ` set (due_list due (store w)) = {i. \<exists>j. mem_jobs (store w) i = Some j \<and> due (job_state j)}"
  proof -
    have "mem_jobs (store w) i = Some j \<Longrightarrow> job_id j = i" for i j
      using mem_inv_keyed [OF inv] by (simp add: keyed_def)
    then show ?thesis by (force simp: set_due_list [OF inv])
  qed
  show ?thesis
  proof (rule wp_mono [OF wp_conjI [OF claim_due_order [OF inv] mem_claim_due_law [OF inv]]], elim conjE exE)
    fix r js and w' :: "('p memory_storage, 'e) world"
    assume r: "r = Inr js" and m: "map job_id js = map job_id (take n (due_list due (store w)))"
      and w': "env_kept w w'" "mem_inv (store w')"
      and c: "case r of Inl e \<Rightarrow> mem_jobs (store w') = mem_jobs (store w)
        | Inr js \<Rightarrow> claim_spec due n (mem_jobs (store w)) js (mem_jobs (store w'))"
    have "job_id ` set js = job_id ` set (due_list due (store w))"
      using m unfolding all by (metis set_map)
    with r c w' show "env_kept w w' \<and> mem_inv (store w') \<and> (\<exists>js. r = Inr js)
     \<and> requeued {i. \<exists>j. mem_jobs (store w) i = Some j \<and> due (job_state j)}
         (mem_jobs (store w)) (mem_jobs (store w'))"
      by (simp add: claim_spec_def ids)
  qed
qed

lemma due_scheduled_Enqueued [simp]: "\<not> due_retry t (Enqueued a b)" "\<not> due_scheduled t (Enqueued a b)"
  by simp_all

lemma due_retry_mono: "due_retry t s \<Longrightarrow> t \<le> u \<Longrightarrow> due_retry u s"
  by (cases s) auto

section \<open>Properties\<close>

lemma two_claims:
  assumes rq1: "requeued {i. \<exists>j. T i = Some j \<and> due_scheduled t0 (job_state j)} T T1"
    and rq2: "requeued {i. \<exists>j. T1 i = Some j \<and> due_retry t1 (job_state j)} T1 T2"
    and le: "t0 \<le> t1" and j: "T i = Some j"
  shows "if due_scheduled t0 (job_state j) \<or> due_retry t0 (job_state j)
      then \<exists>t. T2 i = Some (j\<lparr>job_state := Enqueued t (job_queue j)\<rparr>)
      else T2 i = Some j
        \<or> (\<exists>t. T2 i = Some (j\<lparr>job_state := Enqueued t (job_queue j)\<rparr>) \<and> due_retry t1 (job_state j))"
proof (cases "due_scheduled t0 (job_state j)")
  case True
  then obtain t where T1: "T1 i = Some (j\<lparr>job_state := Enqueued t (job_queue j)\<rparr>)"
    using requeued_at [OF rq1 j] j by auto
  from requeued_at [OF rq2 T1] T1 True show ?thesis by auto
next
  case False
  then have T1: "T1 i = Some j" using requeued_at [OF rq1 j] j by auto
  from requeued_at [OF rq2 T1] T1 False le show ?thesis
    by (auto split: if_splits dest: due_retry_mono)
qed



text \<open>
  A scheduled job does not run early. Scheduling a job that is \<open>Enqueued\<close> for \<open>execute_at\<close>
  either fails and stores nothing, or stores the job as \<open>Scheduled\<close>; from then on a worker's fetch that
  reads the clock before \<open>execute_at\<close> does not return it. A job in any other state is refused.
\<close>

theorem scheduled_job_not_early:
  fixes w :: "('p memory_storage, 'e) world"
  assumes "sc_storage sc = memory_storage_api" and "mem_inv (store w)"
  shows "wp (schedule_job dbg sc j execute_at reason) (\<lambda>r w'.
      (kind (job_state j) \<noteq> KEnqueued \<longrightarrow> isl r)
      \<and> (isl r \<longrightarrow> store w' = store w)
      \<and> (r = Inr () \<longrightarrow>
           mem_jobs (store w') = (mem_jobs (store w))(job_id j \<mapsto>
             j\<lparr>job_state := Scheduled (clock w (ticks w)) execute_at reason\<rparr>)
           \<and> ((\<forall>n. clock w' n < execute_at) \<longrightarrow>
                wp (mem_fetch_and_lock_job wid queues)
                  (\<lambda>f _. \<forall>k. f = Inr (Some k) \<longrightarrow> job_id k \<noteq> job_id j) w'))) w"
proof -
  have early: "wp (mem_fetch_and_lock_job wid queues) (\<lambda>f _. \<forall>k. f = Inr (Some k) \<longrightarrow> job_id k \<noteq> job_id j) w'"
    if "mem_inv (store w')" and T: "mem_jobs (store w') (job_id j) = Some j'"
      and st: "job_state j' = Scheduled t execute_at reason" and "\<forall>n. clock w' n < execute_at"
    for w' :: "('p memory_storage, 'e) world" and j' t
  proof (rule wp_mono [OF mem_fetch_spec [OF that(1)]], intro allI impI notI)
    fix f w3 k
    assume post: "env_kept w' w3 \<and> mem_inv (store w3) \<and>
      (if \<exists>j. eligible (clock w' (ticks w')) (clock w' (Suc (ticks w'))) queues (store w') j
       then \<exists>j. eligible (clock w' (ticks w')) (clock w' (Suc (ticks w'))) queues (store w') j
         \<and> (\<forall>k. eligible (clock w' (ticks w')) (clock w' (Suc (ticks w'))) queues (store w') k \<longrightarrow>
              prio_key j \<le> prio_key k)
         \<and> f = Inr (Some (j\<lparr>job_state := Processing (clock w' (Suc (Suc (Suc (ticks w'))))) wid ''memory-storage''\<rparr>))
         \<and> mem_jobs (store w3) = (mem_jobs (store w'))(job_id j \<mapsto>
              j\<lparr>job_state := Processing (clock w' (Suc (Suc (Suc (ticks w'))))) wid ''memory-storage''\<rparr>)
         \<and> hm_get (ms_locks (store w3)) = (hm_get (live_locks (clock w' (ticks w')) (store w')))
              (job_id j \<mapsto> \<lparr>jl_worker_id = wid,
                 jl_expires_at = clock w' (Suc (Suc (ticks w'))) + dur_minutes 30\<rparr>)
       else f = Inr None \<and> mem_jobs (store w3) = mem_jobs (store w')
         \<and> ms_locks (store w3) = live_locks (clock w' (ticks w')) (store w'))"
      and f: "f = Inr (Some k)" and k: "job_id k = job_id j"
    then obtain e where e: "eligible (clock w' (ticks w')) (clock w' (Suc (ticks w'))) queues (store w') e"
        and "job_id e = job_id j"
      by (auto split: if_splits)
    then have "e = j'" using T by (simp add: eligible_def)
    with e st that(4) show False by (auto simp: eligible_def simp flip: linorder_not_less)
  qed
  have inv': "mem_inv ((store w)\<lparr>ms_jobs := hm_insert (job_id j) j' (ms_jobs (store w))\<rparr>)"
    if "job_id j' = job_id j" for j'
    using mem_inv_put_job [OF assms(2) that] .
  show ?thesis
    using assms(1)
    by (auto simp: schedule_job_def set_state_def can_transition_iff_edge kind_edges_def mem_enqueue_def
        mem_enqueue_check_def mem_enqueue_write_def wp_simps inv' intro: early)
qed

theorem scheduled_job_not_early_witness:
  "wp (schedule_job (\<lambda>s. '''') (scheduler_new memory_storage_api) (sample_job ''a'' 0 5 (Enqueued 5 ''q''))
        (dur_seconds 1000) ''later'')
     (\<lambda>r w'. r = Inr () \<longrightarrow> mem_jobs (store w') ''a'' =
        Some (sample_job ''a'' 0 5 (Scheduled (dur_seconds 100) (dur_seconds 1000) ''later'')))
     (sample_world (sample_memory []) :: (_, unit) world)"
proof -
  let ?w = "sample_world (sample_memory []) :: (_, unit) world"
  have a: "sc_storage (scheduler_new memory_storage_api) = (memory_storage_api :: (unit, _, unit) storage)"
    by (simp add: scheduler_new_def)
  have b: "mem_inv (store ?w)" by simp
  show ?thesis
    by (rule wp_mono [OF scheduled_job_not_early [OF a b, where wid = "''w''" and queues = None]])
       (auto simp: sample_job_def dest!: fun_cong [where x = "''a''"])
qed

text \<open>
  The heartbeat only takes from dead peers. On one tick of a server's heartbeat worker no job
  is lost or added, a job that is not in the hands of some other server stays as it is, and what
  changes goes back to \<open>Enqueued\<close> on its own queue. In particular a server never reclaims its own jobs.
\<close>

theorem heartbeat_reclaims_from_others_only:
  fixes w :: "('p memory_storage, 'e) world"
  assumes "hb_storage h = memory_storage_api" and "mem_inv (store w)"
  shows "wp (bump_and_scan h) (\<lambda>_ w'. mem_inv (store w')
     \<and> dom (mem_jobs (store w')) = dom (mem_jobs (store w))
     \<and> (\<forall>i j. mem_jobs (store w) i = Some j \<longrightarrow> mem_jobs (store w') i = Some j
          \<or> (\<exists>sid. sid \<noteq> hb_server_id h \<and> owned_by sid (job_state j))
            \<and> (\<exists>t. mem_jobs (store w') i = Some (j\<lparr>job_state := Enqueued t (job_queue j)\<rparr>)))) w"
  by (rule wp_mono [OF memc.bump_and_scan_law [OF assms]])
     (auto simp: reclaimed_def, metis ComplD singletonI)

theorem heartbeat_reclaims_from_others_only_witness:
  "wp (bump_and_scan \<lparr>hb_storage = memory_storage_api, hb_server_id = ''me'', hb_heartbeat_interval = 1,
         hb_dead_server_timeout = dur_seconds 60\<rparr>)
     (\<lambda>_ w'. mem_jobs (store w') ''a'' = Some (sample_job ''a'' 0 5 (Processing 5 ''w'' ''me'')))
     (sample_world (sample_memory [sample_job ''a'' 0 5 (Processing 5 ''w'' ''me'')]) :: (_, unit) world)"
  by (rule wp_mono [OF heartbeat_reclaims_from_others_only]) (auto split: if_splits)

lemma requeue_loop_noop: "\<forall>e \<in> set es. \<not> P (job_state (snd e)) \<Longrightarrow> requeue_loop P es = ret 0"
  by (induction es) simp_all

text \<open>When every running job is stamped with one server name, reclaiming from other servers finds none.\<close>

lemma reclaim_peers_noop:
  fixes w :: "('p memory_storage, 'e) world"
  assumes "hb_storage h = memory_storage_api" and "\<forall>v \<in> set peers. si_server_id v \<noteq> name"
    and "\<forall>e \<in> set (ms_jobs (store w)). kind (job_state (snd e)) = KProcessing \<longrightarrow> owned_by name (job_state (snd e))"
  shows "wp (reclaim_peers h peers) (\<lambda>_ w'. ms_jobs (store w') = ms_jobs (store w)) w"
  using assms(2, 3)
proof (induction peers arbitrary: w)
  case (Cons p ps)
  have "\<not> owned_by (si_server_id p) (job_state (snd e))" if "e \<in> set (ms_jobs (store w))" for e
    using Cons.prems that by (cases "job_state (snd e)") (force simp: kind_iffs)+
  then have "(requeue_loop (owned_by (si_server_id p)) (ms_jobs (store w)) :: ('p, 'e, nat) mact) = ret 0"
    by (intro requeue_loop_noop) blast
  moreover have "wp (reclaim_peers h ps) (\<lambda>_ w'. ms_jobs (store w') = ms_jobs (store w)) w1"
    if "ms_jobs (store w1) = ms_jobs (store w)" for w1
    using Cons.IH [of w1] Cons.prems by (simp add: that)
  ultimately show ?case
    using assms(1)
    by (simp add: mem_reclaim_jobs_from_server_def mem_deregister_server_def wp_simps)
qed (simp add: wp_simps)

text \<open>
  Peer reclaim recovers nothing on this backend: \<^verbatim>\<open>fetch_and_lock_job\<close> stamps every claimed job with
  the server name \<^verbatim>\<open>memory-storage\<close> and not with the id of the server whose worker claimed it. So as
  long as the jobs in processing were claimed by a fetch, and no server has registered under that
  very name, a heartbeat tick leaves all of them in \<open>Processing\<close>, however dead their servers are.
\<close>

theorem heartbeat_recovers_nothing:
  fixes w :: "('p memory_storage, 'e) world"
  assumes "hb_storage h = memory_storage_api" and "mem_inv (store w)"
    and "\<forall>i j. mem_jobs (store w) i = Some j \<and> kind (job_state j) = KProcessing \<longrightarrow>
           owned_by ''memory-storage'' (job_state j)"
    and "hm_get (ms_servers (store w)) ''memory-storage'' = None"
  shows "wp (bump_and_scan h) (\<lambda>_ w'. mem_jobs (store w') = mem_jobs (store w)) w"
proof -
  have keys: "\<forall>v \<in> set (hm_values (ms_servers (store w))). si_server_id v \<noteq> ''memory-storage''"
    using assms(2,4) by (auto simp: mem_inv_def hm_get_in_set map_of_eq_None_iff image_iff)
  have stamped: "\<forall>e \<in> set (ms_jobs (store w)). kind (job_state (snd e)) = KProcessing \<longrightarrow>
      owned_by ''memory-storage'' (job_state (snd e))"
  proof
    fix e
    assume "e \<in> set (ms_jobs (store w))"
    then have "mem_jobs (store w) (fst e) = Some (snd e)"
      using assms(2) by (simp add: mem_jobs_def mem_inv_def hm_get_in_set)
    with assms(3) show "kind (job_state (snd e)) = KProcessing \<longrightarrow> owned_by ''memory-storage'' (job_state (snd e))"
      by blast
  qed
  have reclaim: "wp (reclaim_peers h peers) (\<lambda>_ w'. ms_jobs (store w') = ms_jobs (store w)) w1"
    if "ms_jobs (store w1) = ms_jobs (store w)" "\<forall>v \<in> set peers. si_server_id v \<noteq> ''memory-storage''" for peers w1
    using reclaim_peers_noop [OF assms(1) that(2), of w1] stamped by (simp add: that(1))
  have keys': "si_server_id v \<noteq> ''memory-storage''"
    if "hm_get (ms_servers (store w)) (hb_server_id h) = Some v0"
      "(i, v) \<in> set (hm_insert (hb_server_id h) (v0\<lparr>si_last_heartbeat := now\<rparr>) (ms_servers (store w)))"
    for i v v0 now
  proof -
    have "v0 \<in> set (hm_values (ms_servers (store w)))"
      using that(1) assms(2) by (force simp: mem_inv_def hm_get_in_set)
    then show ?thesis
      using keys that(2)
        set_hm_insert_subset [of "hb_server_id h" "v0\<lparr>si_last_heartbeat := now\<rparr>" "ms_servers (store w)"]
      by force
  qed
  have "wp (bump_and_scan h) (\<lambda>_ w'. ms_jobs (store w') = ms_jobs (store w)) w"
    using assms(1) keys
    by (auto simp: bump_and_scan_def mem_heartbeat_server_def mem_list_dead_servers_def wp_simps
        intro!: reclaim split: option.split)
       (use keys' in blast)
  then show ?thesis by (rule wp_mono) (simp add: mem_jobs_def)
qed

theorem heartbeat_recovers_nothing_witness:
  "wp (bump_and_scan \<lparr>hb_storage = memory_storage_api, hb_server_id = ''me'', hb_heartbeat_interval = 1,
         hb_dead_server_timeout = dur_seconds 60\<rparr>)
     (\<lambda>_ w'. mem_jobs (store w') = mem_jobs (sample_memory [sample_job ''a'' 0 5 (Processing 5 ''peer:worker:0'' ''memory-storage'')]))
     (sample_world ((sample_memory [sample_job ''a'' 0 5 (Processing 5 ''peer:worker:0'' ''memory-storage'')])
        \<lparr>ms_servers := [(''peer'', \<lparr>si_server_id = ''peer'', si_server_name = ''peer'', si_started_at = 0,
            si_last_heartbeat = 0, si_worker_count = 1, si_queues = []\<rparr>)]\<rparr>) :: (_, unit) world)"
  by (rule wp_mono [OF heartbeat_recovers_nothing])
     (auto simp: mem_inv_def mem_jobs_def keyed_def split: if_splits)

section \<open>Recurring poller\<close>

text \<open>The template a firing leaves: stamped, and advanced or disabled.\<close>

definition fired :: "'c cron_crate \<Rightarrow> time \<Rightarrow> 'p recurring_job \<Rightarrow> 'p recurring_job \<Rightarrow> bool" where
  "fired C now r r' \<longleftrightarrow>
     rj_last_run_at r' = Some now \<and> rj_id r' = rj_id r \<and> rj_cron r' = rj_cron r \<and>
     (case next_after C (rj_cron r) now of
        Inl e \<Rightarrow> \<not> rj_enabled r'
      | Inr t \<Rightarrow> rj_next_run_at r' = t \<and> rj_enabled r' = rj_enabled r)"

text \<open>The job a firing of a template enqueues.\<close>

definition firing :: "'p recurring_job \<Rightarrow> string \<Rightarrow> 'p job \<Rightarrow> bool" where
  "firing r i j \<longleftrightarrow> job_id j = i \<and> job_method j = rj_method r \<and> job_payload j = rj_payload r \<and>
     job_queue j = rj_queue r \<and> kind (job_state j) = KEnqueued \<and> job_attempt j = 0 \<and> job_expires_at j = None"

definition unbounded :: "'p memory_storage \<Rightarrow> bool" where
  "unbounded s \<longleftrightarrow> mc_max_jobs (ms_config s) = None"

lemma map_upd_same_iff [simp]: "m(a \<mapsto> x) = m(a \<mapsto> y) \<longleftrightarrow> x = y"
  by (metis map_upd_eqD1)

lemma fire_one_wp:
  fixes w :: "('p memory_storage, 'e) world"
  assumes "rp_storage R = memory_storage_api" and "unbounded (store w)"
  shows "wp (fire_one R now r) (\<lambda>_ w'. unbounded (store w') \<and> uuids w' = uuids w
     \<and> uuid_calls w' = Suc (uuid_calls w)
     \<and> (\<exists>j. firing r (uuids w (uuid_calls w)) j
          \<and> mem_jobs (store w') = (mem_jobs (store w))(uuids w (uuid_calls w) \<mapsto> j))
     \<and> (\<exists>r'. fired (rp_cron R) now r r'
          \<and> hm_get (ms_recurring (store w')) = (hm_get (ms_recurring (store w)))(rj_id r \<mapsto> r'))) w"
  using assms
  by (auto simp: fire_one_def mem_enqueue_def mem_enqueue_check_def mem_enqueue_write_def is_at_capacity_def
      mem_upsert_recurring_job_def unbounded_def wp_simps firing_def fired_def mem_jobs_def
      split: sum.split)

lemma fire_all_wp:
  fixes w :: "('p memory_storage, 'e) world"
  assumes "rp_storage R = memory_storage_api" and "unbounded (store w)" and "inj (uuids w)"
    and "distinct (map rj_id rs)"
  shows "wp (fire_all R now rs) (\<lambda>_ w'. uuids w' = uuids w
     \<and> (\<forall>k < length rs. \<exists>j. firing (rs ! k) (uuids w (uuid_calls w + k)) j
          \<and> mem_jobs (store w') (uuids w (uuid_calls w + k)) = Some j)
     \<and> (\<forall>i. i \<notin> uuids w ` {uuid_calls w..<uuid_calls w + length rs} \<longrightarrow>
          mem_jobs (store w') i = mem_jobs (store w) i)
     \<and> (\<forall>r \<in> set rs. \<exists>r'. fired (rp_cron R) now r r' \<and> hm_get (ms_recurring (store w')) (rj_id r) = Some r')
     \<and> (\<forall>i. i \<notin> rj_id ` set rs \<longrightarrow> hm_get (ms_recurring (store w')) i = hm_get (ms_recurring (store w)) i)) w"
  using assms(2-4)
proof (induction rs arbitrary: w)
  case Nil
  then show ?case by (simp add: wp_simps)
next
  case (Cons r rs)
  let ?u = "uuids w (uuid_calls w)"
  show ?case
    unfolding fire_all.simps wp_bind
  proof (rule wp_mono [OF fire_one_wp [OF assms(1) Cons.prems(1), of now r]])
    fix w1 :: "('p memory_storage, 'e) world"
    assume w1: "unbounded (store w1) \<and> uuids w1 = uuids w \<and> uuid_calls w1 = Suc (uuid_calls w)
     \<and> (\<exists>j. firing r ?u j \<and> mem_jobs (store w1) = (mem_jobs (store w))(?u \<mapsto> j))
     \<and> (\<exists>r'. fired (rp_cron R) now r r'
          \<and> hm_get (ms_recurring (store w1)) = (hm_get (ms_recurring (store w)))(rj_id r \<mapsto> r'))"
    then obtain j r' where j: "firing r ?u j" "mem_jobs (store w1) = (mem_jobs (store w))(?u \<mapsto> j)"
      and r': "fired (rp_cron R) now r r'"
        "hm_get (ms_recurring (store w1)) = (hm_get (ms_recurring (store w)))(rj_id r \<mapsto> r')" by blast
    have fresh: "?u \<notin> uuids w ` {Suc (uuid_calls w)..<Suc (uuid_calls w) + length rs}"
      using Cons.prems(2) by (auto dest: injD)
    have "wp (fire_all R now rs) (\<lambda>_ w'. uuids w' = uuids w1
     \<and> (\<forall>k < length rs. \<exists>j. firing (rs ! k) (uuids w1 (uuid_calls w1 + k)) j
          \<and> mem_jobs (store w') (uuids w1 (uuid_calls w1 + k)) = Some j)
     \<and> (\<forall>i. i \<notin> uuids w1 ` {uuid_calls w1..<uuid_calls w1 + length rs} \<longrightarrow>
          mem_jobs (store w') i = mem_jobs (store w1) i)
     \<and> (\<forall>r \<in> set rs. \<exists>r'. fired (rp_cron R) now r r' \<and> hm_get (ms_recurring (store w')) (rj_id r) = Some r')
     \<and> (\<forall>i. i \<notin> rj_id ` set rs \<longrightarrow> hm_get (ms_recurring (store w')) i = hm_get (ms_recurring (store w1)) i)) w1"
      using w1 Cons.prems by (intro Cons.IH) auto
    then show "wp (fire_all R now rs) (\<lambda>_ w'. uuids w' = uuids w
     \<and> (\<forall>k < length (r # rs). \<exists>j. firing ((r # rs) ! k) (uuids w (uuid_calls w + k)) j
          \<and> mem_jobs (store w') (uuids w (uuid_calls w + k)) = Some j)
     \<and> (\<forall>i. i \<notin> uuids w ` {uuid_calls w..<uuid_calls w + length (r # rs)} \<longrightarrow>
          mem_jobs (store w') i = mem_jobs (store w) i)
     \<and> (\<forall>r \<in> set (r # rs). \<exists>r'. fired (rp_cron R) now r r' \<and> hm_get (ms_recurring (store w')) (rj_id r) = Some r')
     \<and> (\<forall>i. i \<notin> rj_id ` set (r # rs) \<longrightarrow> hm_get (ms_recurring (store w')) i = hm_get (ms_recurring (store w)) i)) w1"
    proof (rule wp_mono, elim conjE, intro conjI)
      fix w' :: "('p memory_storage, 'e) world"
      assume jobs: "\<forall>k < length rs. \<exists>j. firing (rs ! k) (uuids w1 (uuid_calls w1 + k)) j
          \<and> mem_jobs (store w') (uuids w1 (uuid_calls w1 + k)) = Some j"
        and rest: "\<forall>i. i \<notin> uuids w1 ` {uuid_calls w1..<uuid_calls w1 + length rs} \<longrightarrow>
          mem_jobs (store w') i = mem_jobs (store w1) i"
        and tmpl: "\<forall>r \<in> set rs. \<exists>r'. fired (rp_cron R) now r r' \<and> hm_get (ms_recurring (store w')) (rj_id r) = Some r'"
        and others: "\<forall>i. i \<notin> rj_id ` set rs \<longrightarrow> hm_get (ms_recurring (store w')) i = hm_get (ms_recurring (store w1)) i"
      have u: "mem_jobs (store w') ?u = Some j" using rest fresh w1 j by simp
      show "\<forall>k < length (r # rs). \<exists>j. firing ((r # rs) ! k) (uuids w (uuid_calls w + k)) j
          \<and> mem_jobs (store w') (uuids w (uuid_calls w + k)) = Some j"
        using jobs w1 j(1) u by (auto simp: less_Suc_eq_0_disj)
      show "\<forall>i. i \<notin> uuids w ` {uuid_calls w..<uuid_calls w + length (r # rs)} \<longrightarrow>
          mem_jobs (store w') i = mem_jobs (store w) i"
      proof (intro allI impI)
        fix i
        assume i: "i \<notin> uuids w ` {uuid_calls w..<uuid_calls w + length (r # rs)}"
        then have "i \<noteq> ?u" by auto
        moreover have "i \<notin> uuids w1 ` {uuid_calls w1..<uuid_calls w1 + length rs}" using i w1 by auto
        ultimately show "mem_jobs (store w') i = mem_jobs (store w) i" using rest j by simp
      qed
      show "\<forall>r \<in> set (r # rs). \<exists>r'. fired (rp_cron R) now r r' \<and> hm_get (ms_recurring (store w')) (rj_id r) = Some r'"
        using tmpl others r' Cons.prems(3) by auto
      show "\<forall>i. i \<notin> rj_id ` set (r # rs) \<longrightarrow> hm_get (ms_recurring (store w')) i = hm_get (ms_recurring (store w)) i"
        using others r' by auto
    qed (use w1 in simp)
  qed
qed

lemma distinct_due_recurring:
  assumes "mem_inv s"
  shows "distinct (map rj_id (due_recurring now n (ms_recurring s)))"
proof -
  have wf: "hm_wf (ms_recurring s)" and key: "\<forall>i r. hm_get (ms_recurring s) i = Some r \<longrightarrow> rj_id r = i"
    using assms by (simp_all add: mem_inv_def)
  have "map rj_id (hm_values (ms_recurring s)) = map fst (ms_recurring s)"
    using key wf by (auto simp: hm_get_in_set)
  moreover have "distinct (map fst (ms_recurring s))" using wf by (simp add: hm_wf_def)
  ultimately have "distinct (map rj_id (hm_values (ms_recurring s)))" by metis
  then have "distinct (map rj_id (filter P (hm_values (ms_recurring s))))" for P
    by (rule distinct_map_filter)
  then have "distinct (map rj_id (sort_key rj_next_run_at (filter P (hm_values (ms_recurring s)))))" for P
    by (metis distinct_map distinct_sort set_sort)
  then show ?thesis unfolding due_recurring_def by (metis distinct_take take_map)
qed


definition sample_cron :: "unit cron_crate" where
  "sample_cron = \<lparr>cron_from_str = (\<lambda>_. Inr ()), cron_next_after = (\<lambda>_ t. Some (t + 1))\<rparr>"


text \<open>
  The cleanup sweep removes exactly the jobs whose \<^verbatim>\<open>expires_at\<close> has passed (no job without one, and
  none whose time is still to come), reports their number, and drops the named locks that have expired.
\<close>

theorem sweep_exact:
  fixes w :: "('p memory_storage, 'e) world"
  assumes "cw_storage c = memory_storage_api" and "mem_inv (store w)" and "now = clock w (ticks w)"
  shows "wp (sweep_once c) (\<lambda>r w'.
      r = Inr (card {i. \<exists>j. mem_jobs (store w) i = Some j \<and> expired now j})
      \<and> (\<forall>i. mem_jobs (store w') i = (case mem_jobs (store w) i of None \<Rightarrow> None
                    | Some j \<Rightarrow> if expired now j then None else Some j))
      \<and> (\<forall>i l. hm_get (ms_named_locks (store w')) i = Some l \<longleftrightarrow>
           hm_get (ms_named_locks (store w)) i = Some l \<and> now < nl_expires_at l)) w"
proof -
  let ?P = "\<lambda>j :: 'p job. case job_expires_at j of Some ts \<Rightarrow> ts > now | None \<Rightarrow> True"
  have wf: "hm_wf (ms_jobs (store w))" "hm_wf (ms_named_locks (store w))"
    using assms(2) by (simp_all add: mem_inv_def)
  have P: "?P j \<longleftrightarrow> \<not> expired now j" for j
    by (auto simp: expired_def split: option.split)
  have "length (filter (\<lambda>p. ?P (snd p)) m) + length (filter (\<lambda>j. \<not> ?P j) (hm_values m)) = length m"
    for m :: "(string \<times> 'p job) list"
    by (induction m) auto
  from this [of "ms_jobs (store w)"]
  have n: "length (ms_jobs (store w)) - length (hm_retain ?P (ms_jobs (store w)))
      = card {i. \<exists>j. mem_jobs (store w) i = Some j \<and> expired now j}"
    using length_filter_values [OF wf(1), of "\<lambda>j. \<not> ?P j"] unfolding hm_retain_def mem_jobs_def P by simp
  have T: "mem_jobs ((store w)\<lparr>ms_jobs := hm_retain ?P (ms_jobs (store w)), ms_named_locks := l\<rparr>) i =
      (case mem_jobs (store w) i of None \<Rightarrow> None | Some j \<Rightarrow> if expired now j then None else Some j)" for i l
    using mem_delete_expired_table [OF assms(2), of now i] by (simp add: mem_jobs_def)
  have L: "hm_get (hm_retain (\<lambda>l. nl_expires_at l > now) (ms_named_locks (store w))) i = Some l \<longleftrightarrow>
      hm_get (ms_named_locks (store w)) i = Some l \<and> now < nl_expires_at l" for i l
    by (auto simp: hm_get_retain [OF wf(2)] split: option.splits)
  show ?thesis
    unfolding sweep_once_def wp_bind wp_utc_now assms(3) [symmetric]
    using assms(1)
    by (simp add: mem_delete_expired_jobs_def mem_cleanup_expired_named_locks_def wp_simps Let_def n T [simplified] L)
qed

theorem sweep_exact_witness:
  "wp (sweep_once \<lparr>cw_storage = memory_storage_api, cw_interval = default_cleanup_interval\<rparr>)
     (\<lambda>r w'. mem_jobs (store w') ''a'' = None \<and> mem_jobs (store w') ''b'' \<noteq> None)
     (sample_world (sample_memory
        [(sample_job ''a'' 0 5 (Succeeded 6 7 None))\<lparr>job_expires_at := Some 8\<rparr>,
         sample_job ''b'' 0 5 (Enqueued 6 ''q'')]) :: (_, unit) world)"
  by (rule wp_mono [OF sweep_exact [OF _ _ refl]]) (auto simp: expired_def dur_defs)

end
