(* ===== verification/Server.thy ===== *)
theory Server
  imports Background Processor
begin

text \<open>
  The background job server, \<^verbatim>\<open>src/processing/server.rs\<close>: configuration, start and stop, and the loop of
  a worker. A spawned task is recorded in the list of handles with what it runs; the shutdown token
  is the flag whether it has been cancelled. When a task ends is the runtime's affair: the wait for the tasks at a stop
  is a function of the times after which they end.
\<close>

section \<open>Configuration\<close>

record server_config =
  scf_server_name :: string
  scf_worker_count :: nat
  scf_polling_interval :: duration
  scf_job_timeout :: duration
  scf_queues :: "string list"
  scf_auto_start :: bool
  scf_fetch_batch_size :: nat
  scf_enable_scheduler :: bool
  scf_scheduler_poll_interval :: duration
  scf_shutdown_timeout :: duration
  scf_stale_processing_after :: duration
  scf_enable_recurring :: bool
  scf_recurring_poll_interval :: duration
  scf_enable_cleanup :: bool
  scf_cleanup_interval :: duration
  scf_succeeded_ttl :: duration
  scf_failed_ttl :: duration
  scf_enable_heartbeat :: bool
  scf_heartbeat_interval :: duration
  scf_dead_server_timeout :: duration

definition server_config_default :: server_config where
  "server_config_default =
     \<lparr>scf_server_name = ''qml-server'',
      scf_worker_count = 5,
      scf_polling_interval = dur_seconds 1,
      scf_job_timeout = dur_minutes 5,
      scf_queues = [''default''],
      scf_auto_start = True,
      scf_fetch_batch_size = 10,
      scf_enable_scheduler = True,
      scf_scheduler_poll_interval = dur_seconds 30,
      scf_shutdown_timeout = dur_seconds 30,
      scf_stale_processing_after = dur_minutes 5,
      scf_enable_recurring = True,
      scf_recurring_poll_interval = dur_seconds 5,
      scf_enable_cleanup = True,
      scf_cleanup_interval = default_cleanup_interval,
      scf_succeeded_ttl = default_succeeded_ttl,
      scf_failed_ttl = default_failed_ttl,
      scf_enable_heartbeat = False,
      scf_heartbeat_interval = default_heartbeat_interval,
      scf_dead_server_timeout = default_dead_server_timeout\<rparr>"

definition server_config_new :: "string \<Rightarrow> server_config" where
  "server_config_new name = server_config_default\<lparr>scf_server_name := name\<rparr>"

definition sc_with_worker_count :: "nat \<Rightarrow> server_config \<Rightarrow> server_config" where
  "sc_with_worker_count x c = c\<lparr>scf_worker_count := x\<rparr>"

definition sc_with_polling_interval :: "duration \<Rightarrow> server_config \<Rightarrow> server_config" where
  "sc_with_polling_interval x c = c\<lparr>scf_polling_interval := x\<rparr>"

definition sc_with_job_timeout :: "duration \<Rightarrow> server_config \<Rightarrow> server_config" where
  "sc_with_job_timeout x c = c\<lparr>scf_job_timeout := x\<rparr>"

definition sc_with_queues :: "string list \<Rightarrow> server_config \<Rightarrow> server_config" where
  "sc_with_queues x c = c\<lparr>scf_queues := x\<rparr>"

definition sc_with_fetch_batch_size :: "nat \<Rightarrow> server_config \<Rightarrow> server_config" where
  "sc_with_fetch_batch_size x c = c\<lparr>scf_fetch_batch_size := x\<rparr>"

definition sc_with_enable_scheduler :: "bool \<Rightarrow> server_config \<Rightarrow> server_config" where
  "sc_with_enable_scheduler x c = c\<lparr>scf_enable_scheduler := x\<rparr>"

definition sc_with_shutdown_timeout :: "duration \<Rightarrow> server_config \<Rightarrow> server_config" where
  "sc_with_shutdown_timeout x c = c\<lparr>scf_shutdown_timeout := x\<rparr>"

definition sc_with_stale_processing_after :: "duration \<Rightarrow> server_config \<Rightarrow> server_config" where
  "sc_with_stale_processing_after x c = c\<lparr>scf_stale_processing_after := x\<rparr>"

definition sc_with_enable_recurring :: "bool \<Rightarrow> server_config \<Rightarrow> server_config" where
  "sc_with_enable_recurring x c = c\<lparr>scf_enable_recurring := x\<rparr>"

definition sc_with_recurring_poll_interval :: "duration \<Rightarrow> server_config \<Rightarrow> server_config" where
  "sc_with_recurring_poll_interval x c = c\<lparr>scf_recurring_poll_interval := x\<rparr>"

definition sc_with_enable_cleanup :: "bool \<Rightarrow> server_config \<Rightarrow> server_config" where
  "sc_with_enable_cleanup x c = c\<lparr>scf_enable_cleanup := x\<rparr>"

definition sc_with_cleanup_interval :: "duration \<Rightarrow> server_config \<Rightarrow> server_config" where
  "sc_with_cleanup_interval x c = c\<lparr>scf_cleanup_interval := x\<rparr>"

definition sc_with_succeeded_ttl :: "duration \<Rightarrow> server_config \<Rightarrow> server_config" where
  "sc_with_succeeded_ttl x c = c\<lparr>scf_succeeded_ttl := x\<rparr>"

definition sc_with_failed_ttl :: "duration \<Rightarrow> server_config \<Rightarrow> server_config" where
  "sc_with_failed_ttl x c = c\<lparr>scf_failed_ttl := x\<rparr>"

definition sc_with_enable_heartbeat :: "bool \<Rightarrow> server_config \<Rightarrow> server_config" where
  "sc_with_enable_heartbeat x c = c\<lparr>scf_enable_heartbeat := x\<rparr>"

definition sc_with_heartbeat_interval :: "duration \<Rightarrow> server_config \<Rightarrow> server_config" where
  "sc_with_heartbeat_interval x c = c\<lparr>scf_heartbeat_interval := x\<rparr>"

definition sc_with_dead_server_timeout :: "duration \<Rightarrow> server_config \<Rightarrow> server_config" where
  "sc_with_dead_server_timeout x c = c\<lparr>scf_dead_server_timeout := x\<rparr>"

section \<open>State\<close>

datatype ('p, 's, 'e, 'c) task =
    SchedulerTask "('p, 's, 'e) job_scheduler"
  | RecurringTask "('p, 's, 'e, 'c) recurring_poller"
  | CleanupTask "('p, 's, 'e) cleanup_worker"
  | HeartbeatTask "('p, 's, 'e) heartbeat_worker"
  | WorkerTask "('p, 's, 'e) job_processor"

record ('p, 's, 'e, 'c) server =
  sv_config :: server_config
  sv_storage :: "('p, 's, 'e) storage"
  sv_worker_registry :: "('p, 's, 'e) worker_registry"
  sv_retry_policy :: retry_policy
  sv_middleware :: "('p, 's, 'e) middleware list"
  sv_on_state_change :: "('p job \<Rightarrow> job_state \<Rightarrow> job_state \<Rightarrow> 'e) option"
  sv_is_running :: bool
  sv_shutdown_cancelled :: bool
  sv_worker_handles :: "('p, 's, 'e, 'c) task list"
  sv_server_id :: "string option"
  sv_runtime :: "('s, 'e) runtime"
  sv_cron :: "'c cron_crate"

definition server_new ::
  "('s, 'e) runtime \<Rightarrow> 'c cron_crate \<Rightarrow> server_config \<Rightarrow> ('p, 's, 'e) storage \<Rightarrow> ('p, 's, 'e) worker_registry
     \<Rightarrow> ('p, 's, 'e, 'c) server" where
  "server_new rt C cfg st reg =
     \<lparr>sv_config = cfg, sv_storage = st, sv_worker_registry = reg, sv_retry_policy = retry_policy_default,
      sv_middleware = [tracing_middleware], sv_on_state_change = None, sv_is_running = False,
      sv_shutdown_cancelled = False, sv_worker_handles = [], sv_server_id = None,
      sv_runtime = rt, sv_cron = C\<rparr>"

definition sv_with_middleware ::
  "('p, 's, 'e) middleware list \<Rightarrow> ('p, 's, 'e, 'c) server \<Rightarrow> ('p, 's, 'e, 'c) server" where
  "sv_with_middleware ms sv = sv\<lparr>sv_middleware := ms\<rparr>"

definition sv_with_state_change_hook ::
  "('p job \<Rightarrow> job_state \<Rightarrow> job_state \<Rightarrow> 'e) \<Rightarrow> ('p, 's, 'e, 'c) server \<Rightarrow> ('p, 's, 'e, 'c) server" where
  "sv_with_state_change_hook h sv = sv\<lparr>sv_on_state_change := Some h\<rparr>"

definition sv_with_retry_policy ::
  "('s, 'e) runtime \<Rightarrow> 'c cron_crate \<Rightarrow> server_config \<Rightarrow> ('p, 's, 'e) storage \<Rightarrow> ('p, 's, 'e) worker_registry
     \<Rightarrow> retry_policy \<Rightarrow> ('p, 's, 'e, 'c) server" where
  "sv_with_retry_policy rt C cfg st reg pol = (server_new rt C cfg st reg)\<lparr>sv_retry_policy := pol\<rparr>"

section \<open>Start and stop\<close>

text \<open>One worker: its configuration, under the id \<^verbatim>\<open>name:worker:i\<close>, and its processor.\<close>

definition build_worker ::
  "('p, 's, 'e, 'c) server \<Rightarrow> string \<Rightarrow> nat \<Rightarrow> ('s, 'e, ('p, 's, 'e) job_processor) act" where
  "build_worker sv stamped i = do {
     let cfg = sv_config sv;
     c0 \<leftarrow> worker_config_new (scf_server_name cfg @ '':worker:'' @ show_nat i);
     let c = wcf_with_polling_interval (scf_polling_interval cfg)
               (wcf_with_job_timeout (scf_job_timeout cfg)
                 (wcf_with_queues (scf_queues cfg) (wcf_with_server_name stamped c0)));
     let p = jp_with_middleware (sv_middleware sv)
               (jp_with_ttls (scf_succeeded_ttl cfg) (scf_failed_ttl cfg)
                 (jp_with_retry_policy (sv_runtime sv) (sv_worker_registry sv) (sv_storage sv) c
                    (sv_retry_policy sv)));
     ret (case sv_on_state_change sv of
            Some hook \<Rightarrow> jp_with_state_change_hook hook p
          | None \<Rightarrow> p) }"

fun build_workers ::
  "('p, 's, 'e, 'c) server \<Rightarrow> string \<Rightarrow> nat list \<Rightarrow> ('s, 'e, ('p, 's, 'e, 'c) task list) act" where
  "build_workers sv stamped [] = ret []"
| "build_workers sv stamped (i # is) = do {
     p \<leftarrow> build_worker sv stamped i;
     ts \<leftarrow> build_workers sv stamped is;
     ret (WorkerTask p # ts) }"

definition start_workers ::
  "string \<Rightarrow> ('p, 's, 'e, 'c) server \<Rightarrow> ('s, 'e, ('p, 's, 'e, 'c) server) act" where
  "start_workers stamped sv = do {
     ts \<leftarrow> build_workers sv stamped [0..<scf_worker_count (sv_config sv)];
     ret (sv\<lparr>sv_worker_handles := sv_worker_handles sv @ ts\<rparr>) }"

text \<open>The services that are enabled, in the order they are spawned.\<close>

definition services :: "('p, 's, 'e, 'c) server \<Rightarrow> string option \<Rightarrow> ('p, 's, 'e, 'c) task list" where
  "services sv identity =
     (let cfg = sv_config sv; st = sv_storage sv in
      (if scf_enable_scheduler cfg
       then [SchedulerTask (scheduler_with_poll_interval st (scf_scheduler_poll_interval cfg))] else [])
      @ (if scf_enable_recurring cfg
         then [RecurringTask (recurring_poller_new (sv_cron sv) st (scf_recurring_poll_interval cfg))] else [])
      @ (if scf_enable_cleanup cfg
         then [CleanupTask \<lparr>cw_storage = st, cw_interval = scf_cleanup_interval cfg\<rparr>] else [])
      @ (case identity of
           None \<Rightarrow> []
         | Some i \<Rightarrow> [HeartbeatTask \<lparr>hb_storage = st, hb_server_id = i,
                       hb_heartbeat_interval = scf_heartbeat_interval cfg,
                       hb_dead_server_timeout = scf_dead_server_timeout cfg\<rparr>]))"

text \<open>The identity of a run: registered under a fresh id when heartbeats are on.\<close>

definition register_identity ::
  "('p, 's, 'e, 'c) server \<Rightarrow> ('s, 'e, qml_error + string option) act" where
  "register_identity sv =
     (let cfg = sv_config sv in
      if scf_enable_heartbeat cfg
      then do {
        u \<leftarrow> new_uuid;
        let i = scf_server_name cfg @ ''#'' @ u;
        info \<leftarrow> server_info_new i (scf_server_name cfg) (word_of_nat (scf_worker_count cfg)) (scf_queues cfg);
        r \<leftarrow> st_register_server (sv_storage sv) info;
        ret (case r of
               Inl e \<Rightarrow> Inl (StorageError (''Failed to register server heartbeat: '' @ storage_error_display e))
             | Inr _ \<Rightarrow> Inr (Some i)) }
      else ret (Inr None))"

definition sv_start ::
  "('p, 's, 'e, 'c) server \<Rightarrow> ('s, 'e, (qml_error + unit) \<times> ('p, 's, 'e, 'c) server) act" where
  "sv_start sv =
     (if sv_is_running sv then ret (Inl (ConfigurationError ''Server is already running''), sv)
      else do {
        now \<leftarrow> utc_now;
        _ \<leftarrow> st_requeue_stranded_jobs (sv_storage sv) (now - scf_stale_processing_after (sv_config sv));
        let sv1 = sv\<lparr>sv_shutdown_cancelled := False\<rparr>;
        identity \<leftarrow> register_identity sv1;
        (case identity of
           Inl e \<Rightarrow> ret (Inl e, sv1)
         | Inr i \<Rightarrow> do {
             let sv2 = sv1\<lparr>sv_server_id := i, sv_is_running := True,
                           sv_worker_handles := sv_worker_handles sv1 @ services sv1 i\<rparr>;
             sv3 \<leftarrow> start_workers (case i of Some s \<Rightarrow> s | None \<Rightarrow> scf_server_name (sv_config sv)) sv2;
             ret (Inr (), sv3) }) })"

definition sv_stop ::
  "('p, 's, 'e, 'c) server \<Rightarrow> ('s, 'e, (qml_error + unit) \<times> ('p, 's, 'e, 'c) server) act" where
  "sv_stop sv =
     (if \<not> sv_is_running sv then ret (Inr (), sv)
      else do {
        let sv1 = sv\<lparr>sv_shutdown_cancelled := True, sv_is_running := False, sv_server_id := None,
                      sv_worker_handles := []\<rparr>;
        (case sv_server_id sv of
           Some i \<Rightarrow> do { _ \<leftarrow> st_deregister_server (sv_storage sv) i; ret (Inr (), sv1) }
         | None \<Rightarrow> ret (Inr (), sv1)) })"

text \<open>The end of the tasks after the token has been cancelled, given for each task the time after which it ends by itself,
  \<open>None\<close> if it never does: they are awaited one after the other within the grace period, and when that is over all
  of them are aborted, which the ended ones do not notice.\<close>

datatype task_end = Joined | Aborted

definition grace_period :: "server_config \<Rightarrow> nat" where
  "grace_period cfg = (case dur_to_std (scf_shutdown_timeout cfg) of Some d \<Rightarrow> d | None \<Rightarrow> from_secs 30)"

fun join_all :: "nat \<Rightarrow> nat option list \<Rightarrow> nat option" where
  "join_all now [] = Some now"
| "join_all now (None # ts) = None"
| "join_all now (Some t # ts) = join_all (max now t) ts"

definition await_tasks :: "server_config \<Rightarrow> nat option list \<Rightarrow> nat \<times> task_end list" where
  "await_tasks cfg ts =
     (let limit = grace_period cfg;
          cut = (limit, map (\<lambda>t. case t of Some n \<Rightarrow> if n \<le> limit then Joined else Aborted | None \<Rightarrow> Aborted) ts)
      in case join_all 0 ts of
           None \<Rightarrow> cut
         | Some d \<Rightarrow> if d \<le> limit then (d, map (\<lambda>_. Joined) ts) else cut)"

definition schedule_recurring ::
  "('p, 's, 'e, 'c) server \<Rightarrow> string \<Rightarrow> string \<Rightarrow> string \<Rightarrow> 'p \<Rightarrow> string \<Rightarrow> ('s, 'e, qml_error + unit) act" where
  "schedule_recurring sv i cron meth pay queue = do {
     r \<leftarrow> recurring_new (sv_cron sv) i cron meth pay queue;
     (case r of
        Inl e \<Rightarrow> ret (Inl e)
      | Inr t \<Rightarrow> do {
          u \<leftarrow> st_upsert_recurring_job (sv_storage sv) t;
          ret (case u of
                 Inl e \<Rightarrow> Inl (StorageError (''Failed to upsert recurring job: '' @ storage_error_display e))
               | Inr x \<Rightarrow> Inr x) }) }"

definition remove_recurring :: "('p, 's, 'e, 'c) server \<Rightarrow> string \<Rightarrow> ('s, 'e, qml_error + bool) act" where
  "remove_recurring sv i = do {
     r \<leftarrow> st_remove_recurring_job (sv_storage sv) i;
     ret (case r of
            Inl e \<Rightarrow> Inl (StorageError (''Failed to remove recurring job: '' @ storage_error_display e))
          | Inr b \<Rightarrow> Inr b) }"

section \<open>The loop of a worker\<close>

definition queue_filter :: "server_config \<Rightarrow> string list option" where
  "queue_filter cfg = (if scf_queues cfg = [] then None else Some (scf_queues cfg))"

text \<open>After an error of the fetch the loop naps; the next event says whether it is cancelled meanwhile.\<close>

fun worker_rounds ::
  "('p, 's, 'e) job_processor \<Rightarrow> ('p, 's, 'e) storage \<Rightarrow> server_config \<Rightarrow> loop_event list
     \<Rightarrow> ('s, 'e, loop_status) act" where
  "worker_rounds P st cfg [] = ret Running"
| "worker_rounds P st cfg (Cancelled # es) = ret (Stopped (Inr ()))"
| "worker_rounds P st cfg (Tick # es) = do {
     r \<leftarrow> st_fetch_and_lock_job st (wcf_worker_id (jp_worker_config P)) (queue_filter cfg);
     (case r of
        Inr (Some j) \<Rightarrow> do {
          p \<leftarrow> process_job P j;
          (case p of None \<Rightarrow> ret Panicked | Some _ \<Rightarrow> worker_rounds P st cfg es) }
      | Inr None \<Rightarrow> worker_rounds P st cfg es
      | Inl e \<Rightarrow>
          (case es of
             [] \<Rightarrow> ret Running
           | Cancelled # _ \<Rightarrow> ret (Stopped (Inr ()))
           | Tick # es' \<Rightarrow> worker_rounds P st cfg es')) }"

text \<open>The timer is set up first: a negative polling interval means one second, and zero panics.\<close>

definition worker_loop ::
  "('p, 's, 'e) job_processor \<Rightarrow> ('p, 's, 'e) storage \<Rightarrow> server_config \<Rightarrow> loop_event list
     \<Rightarrow> ('s, 'e, loop_status) act" where
  "worker_loop P st cfg es =
     (let period = (case dur_to_std (scf_polling_interval cfg) of Some d \<Rightarrow> d | None \<Rightarrow> from_secs 1)
      in if period = 0 then ret Panicked else worker_rounds P st cfg es)"

end
