(* ===== verification/Server_Props.thy ===== *)
theory Server_Props
  imports Server Background_Props Processor_Props
begin

text \<open>
  Properties of the server: its start and stop, the recovery of stranded jobs, and one turn of a
  worker's loop.
\<close>

section \<open>Library facts\<close>

definition worker_name :: "server_config \<Rightarrow> nat \<Rightarrow> string" where
  "worker_name cfg i = scf_server_name cfg @ '':worker:'' @ show_nat i"

text \<open>A processor as the server builds it.\<close>

definition server_worker :: "('p, 's, 'e, 'c) server \<Rightarrow> string \<Rightarrow> nat \<Rightarrow> ('p, 's, 'e) job_processor \<Rightarrow> bool" where
  "server_worker sv stamped i P \<longleftrightarrow>
     wcf_worker_id (jp_worker_config P) = worker_name (sv_config sv) i
     \<and> wcf_server_name (jp_worker_config P) = stamped
     \<and> wcf_job_timeout (jp_worker_config P) = scf_job_timeout (sv_config sv)
     \<and> jp_storage P = sv_storage sv \<and> jp_worker_registry P = sv_worker_registry sv
     \<and> jp_retry_policy P = sv_retry_policy sv \<and> jp_middleware P = sv_middleware sv
     \<and> jp_on_state_change P = sv_on_state_change sv \<and> jp_runtime P = sv_runtime sv
     \<and> jp_succeeded_ttl P = scf_succeeded_ttl (sv_config sv) \<and> jp_failed_ttl P = scf_failed_ttl (sv_config sv)"

lemma build_worker_wp:
  "wp (build_worker sv stamped i) (\<lambda>P w'. server_worker sv stamped i P \<and> store w' = store w) w"
  by (simp add: build_worker_def worker_config_new_def worker_config_default_def wcf_with_polling_interval_def
      wcf_with_job_timeout_def wcf_with_queues_def wcf_with_server_name_def jp_with_middleware_def
      jp_with_ttls_def jp_with_retry_policy_def jp_with_state_change_hook_def server_worker_def
      worker_name_def wp_simps split: option.split)

lemma build_workers_wp:
  "wp (build_workers sv stamped is) (\<lambda>ts w'. store w' = store w
     \<and> (\<exists>Ps. ts = map WorkerTask Ps \<and> list_all2 (server_worker sv stamped) is Ps)) w"
proof (induction "is" arbitrary: w)
  case Nil
  then show ?case by (simp add: wp_simps)
next
  case (Cons i "is")
  have step: "wp (build_workers sv stamped is) (\<lambda>ts w'. store w' = store w
       \<and> (\<exists>Ps. WorkerTask P # ts = map WorkerTask Ps \<and> list_all2 (server_worker sv stamped) (i # is) Ps)) w1"
    if P: "server_worker sv stamped i P \<and> store w1 = store w" for P w1
  proof (rule wp_mono [OF Cons.IH], elim conjE exE)
    fix ts w' Ps
    assume "store w' = store w1" "ts = map WorkerTask Ps" "list_all2 (server_worker sv stamped) is Ps"
    with P show "store w' = store w \<and> (\<exists>Ps. WorkerTask P # ts = map WorkerTask Ps
        \<and> list_all2 (server_worker sv stamped) (i # is) Ps)"
      by (intro conjI exI [of _ "P # Ps"]) simp_all
  qed
  show ?case
    unfolding build_workers.simps wp_simps
    by (rule wp_mono [OF build_worker_wp]) (rule step)
qed

section \<open>Properties\<close>

lemma server_workers_named_apart:
  assumes "list_all2 (server_worker sv stamped) [0..<n] Ps"
  shows "length Ps = n" and "distinct (map (\<lambda>P. wcf_worker_id (jp_worker_config P)) Ps)"
proof -
  show "length Ps = n" using assms by (auto dest: list_all2_lengthD)
  then have "map (\<lambda>P. wcf_worker_id (jp_worker_config P)) Ps = map (worker_name (sv_config sv)) [0..<n]"
    using assms by (auto simp: list_all2_conv_all_nth server_worker_def intro!: nth_equalityI)
  moreover have "inj (worker_name (sv_config sv))"
    by (rule injI) (simp add: worker_name_def show_nat_inj)
  ultimately show "distinct (map (\<lambda>P. wcf_worker_id (jp_worker_config P)) Ps)"
    by (auto simp: distinct_map intro: inj_on_subset)
qed

lemma started_server_views:
  "server_worker (sv\<lparr>sv_shutdown_cancelled := a, sv_server_id := b, sv_is_running := c, sv_worker_handles := d\<rparr>)
      = server_worker sv"
  "services (sv\<lparr>sv_shutdown_cancelled := a\<rparr>) i = services sv i"
  by (simp_all add: server_worker_def services_def fun_eq_iff Let_def)

lemma register_identity_succeeds:
  "sv_storage sv = memory_storage_api \<Longrightarrow> wp (register_identity sv) (\<lambda>r _. \<exists>i. r = Inr i) w"
  by (simp add: register_identity_def server_info_new_def mem_register_server_def wp_simps Let_def)

text \<open>
  Starting a server that is running is refused and does nothing. Starting a stopped server, when
  the backend accepts its registration, spawns exactly the enabled services and \<^verbatim>\<open>worker_count\<close>
  workers, each over the server's storage, registry, retry policy, middleware and TTLs, under
  worker ids that are pairwise different; the server is then running with a token that is not cancelled.
\<close>

theorem start_spawns_workers:
  fixes sv :: "('p, 'p memory_storage, 'e, 'c) server"
  assumes "sv_storage sv = memory_storage_api"
  shows "(sv_is_running sv \<longrightarrow>
           run_state (sv_start sv) w = ((Inl (ConfigurationError ''Server is already running''), sv), w))
    \<and> (\<not> sv_is_running sv \<longrightarrow> wp (sv_start sv) (\<lambda>(r, sv') w'. r = Inr () \<and> sv_is_running sv'
           \<and> \<not> sv_shutdown_cancelled sv'
           \<and> (\<exists>Ps stamped. sv_worker_handles sv' = sv_worker_handles sv @ services sv (sv_server_id sv') @ map WorkerTask Ps
                \<and> length Ps = scf_worker_count (sv_config sv)
                \<and> distinct (map (\<lambda>P. wcf_worker_id (jp_worker_config P)) Ps)
                \<and> list_all2 (server_worker sv stamped) [0..<scf_worker_count (sv_config sv)] Ps)) w)"
proof (rule conjI)
  show "sv_is_running sv \<longrightarrow>
           run_state (sv_start sv) w = ((Inl (ConfigurationError ''Server is already running''), sv), w)"
    by (simp add: sv_start_def)
next
  let ?n = "scf_worker_count (sv_config sv)"
  let ?Q = "\<lambda>(r :: qml_error + unit, sv') w'. r = Inr () \<and> sv_is_running sv' \<and> \<not> sv_shutdown_cancelled sv'
           \<and> (\<exists>Ps stamped. sv_worker_handles sv' = sv_worker_handles sv @ services sv (sv_server_id sv') @ map WorkerTask Ps
                \<and> length Ps = ?n
                \<and> distinct (map (\<lambda>P. wcf_worker_id (jp_worker_config P)) Ps)
                \<and> list_all2 (server_worker sv stamped) [0..<?n] Ps)"
  have workers: "wp (start_workers stamped (sv\<lparr>sv_shutdown_cancelled := False, sv_server_id := i, sv_is_running := True,
          sv_worker_handles := sv_worker_handles sv @ services sv i\<rparr>)) (\<lambda>sv3. ?Q (Inr (), sv3)) w1" for stamped i w1
    unfolding start_workers_def wp_bind
    by (rule wp_mono [OF build_workers_wp]) (use server_workers_named_apart in \<open>fastforce simp: started_server_views wp_simps\<close>)
  have rest: "wp (register_identity (sv\<lparr>sv_shutdown_cancelled := False\<rparr>)) (\<lambda>identity. wp (case identity of
        Inl e \<Rightarrow> ret (Inl e, sv\<lparr>sv_shutdown_cancelled := False\<rparr>)
      | Inr i \<Rightarrow> do {
          sv3 \<leftarrow> start_workers (case i of Some s \<Rightarrow> s | None \<Rightarrow> scf_server_name (sv_config sv))
            (sv\<lparr>sv_shutdown_cancelled := False, sv_server_id := i, sv_is_running := True,
                sv_worker_handles := sv_worker_handles sv @ services sv i\<rparr>);
          ret (Inr (), sv3) }) ?Q) w1" for w1
    by (rule wp_mono [OF register_identity_succeeds]) (use assms workers in \<open>auto simp: wp_simps\<close>)
  have "wp (st_requeue_stranded_jobs (sv_storage sv) t) (\<lambda>_ _. True) w1" for t w1
    by (simp add: wp_def split: prod.split)
  then have "wp (st_requeue_stranded_jobs (sv_storage sv) t) (\<lambda>_ w2.
      wp (register_identity (sv\<lparr>sv_shutdown_cancelled := False\<rparr>)) (\<lambda>identity. wp (case identity of
        Inl e \<Rightarrow> ret (Inl e, sv\<lparr>sv_shutdown_cancelled := False\<rparr>)
      | Inr i \<Rightarrow> do {
          sv3 \<leftarrow> start_workers (case i of Some s \<Rightarrow> s | None \<Rightarrow> scf_server_name (sv_config sv))
            (sv\<lparr>sv_shutdown_cancelled := False, sv_server_id := i, sv_is_running := True,
                sv_worker_handles := sv_worker_handles sv @ services sv i\<rparr>);
          ret (Inr (), sv3) }) ?Q) w2) w1" for t w1
    by (rule wp_mono) (rule rest)
  then show "\<not> sv_is_running sv \<longrightarrow> wp (sv_start sv) ?Q w"
    by (simp add: sv_start_def wp_bind wp_let wp_utc_now started_server_views Let_def)
qed

definition sample_server :: "(unit, unit memory_storage, job_state, unit) server" where
  "sample_server = server_new sample_runtime sample_cron
     (sc_with_worker_count 2 (server_config_new ''srv'')) memory_storage_api []"

theorem start_spawns_workers_witness:
  "wp (sv_start sample_server) (\<lambda>(r, sv') w'. r = Inr () \<and> sv_is_running sv') (sample_world (sample_memory []))"
  by (rule wp_mono [OF start_spawns_workers [THEN conjunct2, rule_format]])
     (auto simp: sample_server_def server_new_def)

text \<open>
  C24. Starting recovers what a crash has stranded: when the server starts (heartbeats off), every job
  that has been in \<open>Processing\<close> since before the threshold goes back to \<open>Enqueued\<close> on its queue and its
  lock is dropped, so that a worker can take it at once; every other job and every other lock is as before.
\<close>

theorem start_recovers_stranded:
  fixes sv :: "('p, 'p memory_storage, 'e, 'c) server"
  assumes "sv_storage sv = memory_storage_api" and "mem_inv (store w)" and "\<not> sv_is_running sv"
    and "\<not> scf_enable_heartbeat (sv_config sv)"
    and "stale = clock w (ticks w) - scf_stale_processing_after (sv_config sv)"
    and "I = {i. \<exists>j. mem_jobs (store w) i = Some j \<and> stranded stale (job_state j)}"
  shows "wp (sv_start sv) (\<lambda>_ w'. mem_inv (store w')
     \<and> requeued I (mem_jobs (store w)) (mem_jobs (store w'))
     \<and> hm_get (ms_locks (store w')) = hm_get (ms_locks (store w)) |` (- I)) w"
proof -
  let ?Q = "\<lambda>w'. mem_inv (store w') \<and> requeued I (mem_jobs (store w)) (mem_jobs (store w'))
     \<and> hm_get (ms_locks (store w')) = hm_get (ms_locks (store w)) |` (- I)"
  have inv0: "mem_inv (store (w\<lparr>ticks := Suc (ticks w)\<rparr>))" using assms(2) by simp
  have "wp (mem_requeue_stranded_jobs stale) (\<lambda>_ w'. ?Q w') (w\<lparr>ticks := Suc (ticks w)\<rparr>)"
    unfolding mem_requeue_stranded_jobs_def wp_simps
    by (rule wp_mono [OF mem_requeue_law [OF inv0]]) (simp add: assms(6))
  moreover have "wp (start_workers stamped sv2) (\<lambda>_ w'. ?Q w') w1" if "?Q w1"
    for stamped w1 and sv2 :: "('p, 'p memory_storage, 'e, 'c) server"
    unfolding start_workers_def wp_bind
    by (rule wp_mono [OF build_workers_wp]) (use that in \<open>auto simp: wp_simps\<close>)
  ultimately have "wp (mem_requeue_stranded_jobs stale) (\<lambda>_ w1. wp (start_workers stamped sv2) (\<lambda>_ w'. ?Q w') w1)
      (w\<lparr>ticks := Suc (ticks w)\<rparr>)" for stamped and sv2 :: "('p, 'p memory_storage, 'e, 'c) server"
    by (rule wp_mono)
  then show ?thesis
    using assms(1,3,4) by (simp add: sv_start_def register_identity_def wp_simps flip: assms(5))
qed

theorem start_recovers_stranded_witness:
  "wp (sv_start sample_server)
     (\<lambda>_ w'. \<exists>t. mem_jobs (store w') ''a'' = Some (sample_job ''a'' 0 5 (Enqueued t ''default'')))
     (sample_world (sample_memory [sample_job ''a'' 0 5 (Processing (- dur_hours 1) ''x'' ''memory-storage'')]))"
proof -
  let ?j = "sample_job ''a'' 0 5 (Processing (- dur_hours 1) ''x'' ''memory-storage'')"
  let ?w = "sample_world (sample_memory [?j]) :: (unit memory_storage, job_state) world"
  let ?I = "{i. \<exists>j. mem_jobs (store ?w) i = Some j \<and> stranded (clock ?w (ticks ?w)
      - scf_stale_processing_after (sv_config sample_server)) (job_state j)}"
  have I: "''a'' \<in> ?I"
    by (auto simp: sample_server_def server_new_def sc_with_worker_count_def server_config_new_def
        server_config_default_def dur_defs)
  have j: "mem_jobs (store ?w) ''a'' = Some ?j" by simp
  have pre: "sv_storage sample_server = memory_storage_api" "mem_inv (store ?w)" "\<not> sv_is_running sample_server"
      "\<not> scf_enable_heartbeat (sv_config sample_server)"
    by (simp_all add: sample_server_def server_new_def sc_with_worker_count_def server_config_new_def
        server_config_default_def)
  show ?thesis
    by (rule wp_mono [OF start_recovers_stranded [OF pre refl refl]])
       (use requeued_at [where T = "mem_jobs (store ?w)" and I = ?I, OF _ j] I in \<open>auto simp: sample_job_def\<close>)
qed

text \<open>
  Stopping: a server that is not running is left alone. A running one is afterwards not running, its
  token is cancelled, it keeps no handle and no server id, its registration is gone from the
  storage, and no job has changed; a second stop then does nothing.
\<close>

theorem stop_clears:
  fixes sv :: "('p, 'p memory_storage, 'e, 'c) server"
  assumes "sv_storage sv = memory_storage_api" and "sv_is_running sv"
  shows "wp (do { a \<leftarrow> sv_stop sv; b \<leftarrow> sv_stop (snd a); ret (a, b) }) (\<lambda>((r, sv1), b) w'.
      r = Inr () \<and> b = (Inr (), sv1)
      \<and> sv1 = sv\<lparr>sv_shutdown_cancelled := True, sv_is_running := False, sv_server_id := None, sv_worker_handles := []\<rparr>
      \<and> mem_jobs (store w') = mem_jobs (store w)
      \<and> (\<forall>i. sv_server_id sv = Some i \<longrightarrow> hm_get (ms_servers (store w')) i = None)) w"
  using assms
  by (cases "sv_server_id sv") (simp_all add: sv_stop_def mem_deregister_server_def wp_simps Let_def)

theorem stop_clears_witness:
  "wp (do { a \<leftarrow> sv_stop (sample_server\<lparr>sv_is_running := True\<rparr>); b \<leftarrow> sv_stop (snd a); ret (a, b) })
     (\<lambda>((r, sv1), b) w'. b = (Inr (), sv1) \<and> \<not> sv_is_running sv1) (sample_world (sample_memory []))"
  by (rule wp_mono [OF stop_clears]) (auto simp: sample_server_def server_new_def)

section \<open>Shutdown\<close>

fun repeat_act :: "nat \<Rightarrow> ('s, 'e, unit) act \<Rightarrow> ('s, 'e, unit) act" where
  "repeat_act 0 m = ret ()"
| "repeat_act (Suc n) m = do { m; repeat_act n m }"

lemma service_loop_cancel:
  "service_loop body (replicate n Tick @ Cancelled # es) = do { repeat_act n body; ret (Stopped (Inr ())) }"
  by (induction n) (simp_all add: State_Monad.bind_assoc)

lemma run_service_cancel:
  "0 < interval \<Longrightarrow> run_service name interval body (replicate n Tick @ Cancelled # es)
     = do { repeat_act n body; ret (Stopped (Inr ())) }"
  by (simp add: run_service_def dur_to_std_def service_loop_cancel)

lemma worker_rounds_cancel:
  "wp (worker_rounds P st cfg (replicate n Tick @ Cancelled # es)) (\<lambda>s w'. s \<noteq> Running) w"
proof (induction n arbitrary: w rule: less_induct)
  case (less n)
  show ?case
  proof (cases n)
    case 0
    then show ?thesis by (simp add: wp_simps)
  next
    case (Suc m)
    have IH: "wp (worker_rounds P st cfg (replicate m Tick @ Cancelled # es)) (\<lambda>s w'. s \<noteq> Running) w'" for w'
      using less Suc by simp
    have nap: "wp (case replicate m Tick @ Cancelled # es of [] \<Rightarrow> ret Running | Cancelled # _ \<Rightarrow> ret (Stopped (Inr ()))
        | Tick # es' \<Rightarrow> worker_rounds P st cfg es') (\<lambda>s w'. s \<noteq> Running) w'" for w'
      using less Suc by (cases m) (simp_all add: wp_simps)
    have ran: "wp (process_job P j) (\<lambda>p. wp (case p of None \<Rightarrow> ret Panicked
        | Some _ \<Rightarrow> worker_rounds P st cfg (replicate m Tick @ Cancelled # es)) (\<lambda>s w'. s \<noteq> Running)) w'" for j w'
      using IH by (simp add: wp_run [of "process_job P j"] wp_simps split: option.split)
    show ?thesis
      using IH nap ran
      by (simp add: Suc wp_bind wp_run [of "st_fetch_and_lock_job st i q" for i q] wp_simps
          split: sum.split option.split)
  qed
qed

text \<open>
  The wait at a stop is bounded by the grace period, whatever the tasks do: exactly the tasks that do not end within it are
  aborted, and without such a task the stop returns as soon as the last one has ended.
\<close>

lemma join_all_max:
  "join_all now ts = (if None \<in> set ts then None else Some (Max (insert now {n. Some n \<in> set ts})))"
proof (induction now ts rule: join_all.induct)
  case (3 now t ts)
  have "finite {n. Some n \<in> set ts}"
    by (rule finite_subset [of _ "the ` set ts"]) (force simp: image_iff)+
  moreover have "{n. Some n \<in> set (Some t # ts)} = insert t {n. Some n \<in> set ts}" by auto
  ultimately show ?case using 3
    by (cases "{n. Some n \<in> set ts} = {}") (simp_all add: max.assoc)
qed auto

theorem stop_bounded:
  fixes cfg :: server_config
  assumes limit: "limit = grace_period cfg"
  shows "fst (await_tasks cfg ts) \<le> limit \<and> length (snd (await_tasks cfg ts)) = length ts
     \<and> (\<forall>k < length ts. snd (await_tasks cfg ts) ! k = Joined \<longleftrightarrow> (\<exists>n \<le> limit. ts ! k = Some n))
     \<and> ((\<forall>t \<in> set ts. \<exists>n \<le> limit. t = Some n) \<longrightarrow>
          fst (await_tasks cfg ts) = Max (insert 0 {n. Some n \<in> set ts}))"
proof -
  have fin: "finite (insert 0 {n. Some n \<in> set ts})"
    by simp (rule finite_subset [of _ "the ` set ts"], force simp: image_iff, simp)
  have iff: "(case join_all 0 ts of None \<Rightarrow> False | Some d \<Rightarrow> d \<le> limit) \<longleftrightarrow> (\<forall>t \<in> set ts. \<exists>n \<le> limit. t = Some n)"
    unfolding join_all_max using Max_le_iff [OF fin]
    by (auto split: if_splits) (metis option.exhaust)+
  show ?thesis
  proof (cases "\<forall>t \<in> set ts. \<exists>n \<le> limit. t = Some n")
    case True
    with iff obtain d where "join_all 0 ts = Some d" "d \<le> limit" by (auto split: option.splits)
    with True show ?thesis
      by (auto simp: await_tasks_def limit join_all_max split: if_splits)
  next
    case False
    with iff have "await_tasks cfg ts =
        (limit, map (\<lambda>t. case t of Some n \<Rightarrow> if n \<le> limit then Joined else Aborted | None \<Rightarrow> Aborted) ts)"
      by (auto simp: await_tasks_def limit Let_def split: option.splits)
    with False show ?thesis by (auto split: option.splits if_splits)
  qed
qed



end
