(* ===== verification/Completion.thy ===== *)
theory Completion
  imports Processor_Props Server_Props
begin

text \<open>
  Storages that never refuse the update of a job they hold, such as the in-memory one. With them the
  processor never returns an error for a claimed job: a call of \<^verbatim>\<open>process_job\<close> ends with the
  verdict persisted. The worker loop then takes an enqueued job all the way.
\<close>

locale reliable_storage = job_storage S jobs_of inv
  for S :: "('p, 's, 'e) storage" and jobs_of :: "'s \<Rightarrow> 'p jobs" and inv :: "'s \<Rightarrow> bool" +
  assumes update_ok: "inv (store w) \<Longrightarrow> job_id j \<in> dom (jobs_of (store w)) \<Longrightarrow>
    wp (st_update S j) (\<lambda>r w'. r = Inr ()) w"
begin

lemma update_job_ok:
  assumes "jp_storage P = S" and "inv (store w)" and "job_id j \<in> dom (jobs_of (store w))"
  shows "wp (update_job P j) (\<lambda>r w'. r = Inr ()) w"
  unfolding update_job_def assms(1) wp_simps
  by (rule wp_mono [OF update_ok [OF assms(2,3)]]) simp

lemma complete_ok:
  assumes "jp_storage P = S" and "inv (store w)" and "job_id j \<in> dom (jobs_of (store w))"
    and "kind (job_state j) = KProcessing"
  shows "wp (complete_job_successfully P j result d metadata) (\<lambda>r w'. r = Inr ()) w"
  using assms
  by (simp add: complete_job_successfully_def apply_state_change_def wp_simps set_state_def
      processing_transitions update_job_ok)

lemma give_up_ok:
  assumes "jp_storage P = S" and "inv (store w)" and "job_id j \<in> dom (jobs_of (store w))"
    and "kind (job_state j) = KProcessing"
  shows "wp (fail_job_permanently P j err None) (\<lambda>r w'. r = Inr ()) w"
  using assms
  by (simp add: fail_job_permanently_def apply_state_change_def wp_simps set_state_def
      processing_transitions update_job_ok)

lemma retry_ok:
  assumes "jp_storage P = S" and "inv (store w)" and "job_id j \<in> dom (jobs_of (store w))"
    and "kind (job_state j) = KProcessing"
  shows "wp (handle_job_retry P j err retry_at) (\<lambda>r w'. r = Inr ()) w"
proof (cases "should_retry_attempt P j None")
  case False
  with give_up_ok [OF assms] processing_transitions [OF assms(4)] show ?thesis
    by (simp add: handle_job_retry_def)
next
  case True
  have "wp (retry_time P (job_attempt j) retry_at)
      (\<lambda>t. wp (do { st \<leftarrow> js_awaiting_retry t err;
                   (case set_state (rt_debug_state (jp_runtime P)) st j of
                      Inl e \<Rightarrow> ret (Inl e)
                    | Inr j' \<Rightarrow> do { fire_state_change_hook P j' (job_state j); update_job P j' }) })
         (\<lambda>r w'. r = Inr ())) w"
    by (rule wp_mono [OF retry_time_quiet])
       (use assms in \<open>simp add: wp_simps set_state_def processing_transitions update_job_ok quiet_def\<close>)
  with True processing_transitions [OF assms(4)] show ?thesis
    by (simp add: handle_job_retry_def wp_bind)
qed

lemma timeout_ok:
  assumes "jp_storage P = S" and "inv (store w)" and "job_id j \<in> dom (jobs_of (store w))"
    and "kind (job_state j) = KProcessing"
  shows "wp (handle_job_timeout P j) (\<lambda>r w'. r = Inr ()) w"
  using retry_ok [OF assms] give_up_ok [OF assms] by (simp add: handle_job_timeout_def Let_def)

lemma result_ok:
  assumes "jp_storage P = S" and "inv (store w)" and "job_id j \<in> dom (jobs_of (store w))"
    and "kind (job_state j) = KProcessing"
  shows "wp (handle_result P j d x) (\<lambda>r w'. r = Inr ()) w"
  using retry_ok [OF assms] give_up_ok [OF assms] complete_ok [OF assms]
  by (simp add: handle_result_def handle_execution_error_def split: sum.split worker_result.split)

lemma process_job_ok:
  assumes P: "jp_storage P = S" and inv: "inv (store w)" and k: "kind (job_state j) = KProcessing"
    and wk: "get_worker (jp_worker_registry P) (job_method j) = Some wk"
    and timeout: "dur_to_std (wcf_job_timeout (jp_worker_config P)) = Some limit"
    and j1: "j1 = j\<lparr>job_attempt := saturating_add (job_attempt j) 1\<rparr>"
    and exec: "\<And>ctx w1. inv (store w1) \<Longrightarrow> jobs_of (store w1) = jobs_of (store w) \<Longrightarrow>
      wp (rt_timeout (jp_runtime P) limit (run_stack (jp_middleware P) wk j1 ctx))
        (\<lambda>x w2. inv (store w2) \<and> jobs_of (store w2) (job_id j) = Some j \<and> X x) w1"
  shows "wp (process_job P j) (\<lambda>r w'. r = Some (Inr ())) w"
proof -
  have k1: "kind (job_state j1) = KProcessing" and id1: "job_id j1 = job_id j"
    using k by (simp_all add: j1)
  have step: "wp (rt_timeout (jp_runtime P) limit (run_stack (jp_middleware P) wk j1 ctx)) (\<lambda>x. wp (case x of
       None \<Rightarrow> do { r \<leftarrow> handle_job_timeout P j1; ret (Some r) }
     | Some res \<Rightarrow> do {
         now \<leftarrow> utc_now;
         r \<leftarrow> handle_result P j1 (word_of_int (num_milliseconds (now - start))) res;
         ret (Some r) }) (\<lambda>r w'. r = Some (Inr ()))) w1"
    if "inv (store w1)" "jobs_of (store w1) = jobs_of (store w)" for ctx w1 start
    by (rule wp_mono [OF exec [OF that]])
       (use P k1 id1 in \<open>auto simp: wp_simps timeout_ok result_ok dom_def split: option.split\<close>)
  show ?thesis
    using k1 step inv
    by (simp add: process_job_def wk ensure_processing_def make_context_def retry_from_def
        worker_context_new_def timeout wp_simps Let_def flip: j1)
qed

end

interpretation memr: reliable_storage memory_storage_api mem_jobs mem_inv
  by unfold_locales (auto simp: mem_update_def mem_jobs_def wp_simps)

end
