(* ===== verification/Redis_Server.thy ===== *)
theory Redis_Server
  imports F64 "HOL-Library.AList" "HOL-Library.Char_ord" "HOL-Library.List_Lexorder"
begin

text \<open>
  The Redis server that \<^verbatim>\<open>src/storage/redis.rs\<close> talks to. The server is a service outside the
  crate, so it is a parameter: the record \<open>redis\<close> of what it does with a command and of what the
  connection does with a request, and the locale \<open>redis_server\<close> with the documented
  behaviour of the commands the crate sends, over the keyspace a server state stands for.
  The last section interprets the locale on a keyspace of lists, on which the properties are
  instantiated.
\<close>

section \<open>Scores\<close>

text \<open>The order of the scores of a sorted set. Redis refuses a NaN.\<close>

instantiation f64 :: linorder
begin

fun f64_rank :: "f64 \<Rightarrow> int \<times> rat" where
  "f64_rank (Infinity s) = (if s then -1 else 1, 0)"
| "f64_rank (Fin x) = (0, x)"
| "f64_rank NaN = (2, 0)"

definition less_eq_f64 :: "f64 \<Rightarrow> f64 \<Rightarrow> bool" where
  "less_eq_f64 a b = (f64_rank a \<le> f64_rank b)"

definition less_f64 :: "f64 \<Rightarrow> f64 \<Rightarrow> bool" where
  "less_f64 a b = (f64_rank a < f64_rank b)"

lemma f64_rank_inj: "f64_rank a = f64_rank b \<Longrightarrow> a = b"
  by (cases a; cases b) (auto split: if_splits)

instance
  by standard (auto simp: less_eq_f64_def less_f64_def intro: f64_rank_inj)

end

lemma f64_Fin_le [simp]: "Fin x \<le> Fin y \<longleftrightarrow> x \<le> y"
  by (simp add: less_eq_f64_def)

lemma f64_Fin_less [simp]: "Fin x < Fin y \<longleftrightarrow> x < y"
  by (simp add: less_f64_def)

section \<open>Keyspace\<close>

text \<open>The values of keys; the flag of a string is set when the key has a time to live.\<close>

datatype 'v rval =
    Str 'v bool
  | SetV "string set"
  | Zset "string \<rightharpoonup> f64"
  | Hash "string \<rightharpoonup> int"

type_synonym 'v keyspace = "string \<rightharpoonup> 'v rval"

text \<open>An absent key is an empty collection, and an empty set or sorted set is an absent key.\<close>

fun set_of :: "'v rval option \<Rightarrow> string set" where
  "set_of (Some (SetV S)) = S"
| "set_of _ = {}"

fun zset_of :: "'v rval option \<Rightarrow> (string \<rightharpoonup> f64)" where
  "zset_of (Some (Zset z)) = z"
| "zset_of _ = Map.empty"

fun hash_of :: "'v rval option \<Rightarrow> (string \<rightharpoonup> int)" where
  "hash_of (Some (Hash h)) = h"
| "hash_of _ = Map.empty"

fun is_str :: "'v rval option \<Rightarrow> bool" where
  "is_str (Some (Str _ _)) = True"
| "is_str None = True"
| "is_str _ = False"

fun is_set :: "'v rval option \<Rightarrow> bool" where
  "is_set (Some (SetV _)) = True"
| "is_set None = True"
| "is_set _ = False"

fun is_zset :: "'v rval option \<Rightarrow> bool" where
  "is_zset (Some (Zset _)) = True"
| "is_zset None = True"
| "is_zset _ = False"

fun is_hash :: "'v rval option \<Rightarrow> bool" where
  "is_hash (Some (Hash _)) = True"
| "is_hash None = True"
| "is_hash _ = False"

definition mk_set :: "string set \<Rightarrow> 'v rval option" where
  "mk_set S = (if S = {} then None else Some (SetV S))"

definition mk_zset :: "(string \<rightharpoonup> f64) \<Rightarrow> 'v rval option" where
  "mk_zset z = (if z = Map.empty then None else Some (Zset z))"

lemma mk_set_simps [simp]: "set_of (mk_set S) = S" "is_set (mk_set S)"
  by (simp_all add: mk_set_def)

lemma mk_zset_simps [simp]: "zset_of (mk_zset z) = z" "is_zset (mk_zset z)"
  by (simp_all add: mk_zset_def)

section \<open>Commands\<close>

text \<open>The commands the crate sends, with the options it uses; a time to live is in the command's unit.\<close>

datatype 'v command =
    GET string
  | SET string 'v
  | SET_NX_EX string 'v int
  | SET_PX string 'v int
  | DEL string
  | SADD string string
  | SREM string string
  | SMEMBERS string
  | ZADD string f64 string
  | ZREM string string
  | ZRANGE string int int
  | ZREVRANGE string int int
  | ZREVRANGE_WITHSCORES string int int
  | ZRANGEBYSCORE_LIMIT string f64 f64 int int
  | HINCRBY string string int
  | HGETALL string

datatype 'v reply =
    R_nil
  | R_ok
  | R_bulk 'v
  | R_int int
  | R_members "string list"
  | R_scored "(string \<times> f64) list"
  | R_fields "(string \<times> int) list"
  | R_err string

text \<open>When a command is applicable: its key holds the right type, a time to live is positive, a score is
  a number. (The 64-bit overflow of \<^verbatim>\<open>HINCRBY\<close> and the upper bound of a time to live are not modelled.)\<close>

fun applicable :: "'v command \<Rightarrow> 'v keyspace \<Rightarrow> bool" where
  "applicable (GET k) K = is_str (K k)"
| "applicable (SET k v) K = True"
| "applicable (SET_NX_EX k v n) K = (0 < n)"
| "applicable (SET_PX k v n) K = (0 < n)"
| "applicable (DEL k) K = True"
| "applicable (SADD k m) K = is_set (K k)"
| "applicable (SREM k m) K = is_set (K k)"
| "applicable (SMEMBERS k) K = is_set (K k)"
| "applicable (ZADD k s m) K = (is_zset (K k) \<and> s \<noteq> NaN)"
| "applicable (ZREM k m) K = is_zset (K k)"
| "applicable (ZRANGE k i j) K = is_zset (K k)"
| "applicable (ZREVRANGE k i j) K = is_zset (K k)"
| "applicable (ZREVRANGE_WITHSCORES k i j) K = is_zset (K k)"
| "applicable (ZRANGEBYSCORE_LIMIT k lo hi i n) K = is_zset (K k)"
| "applicable (HINCRBY k f n) K = is_hash (K k)"
| "applicable (HGETALL k) K = is_hash (K k)"

text \<open>The keyspace after a command.\<close>

fun effect :: "'v command \<Rightarrow> 'v keyspace \<Rightarrow> 'v keyspace" where
  "effect (SET k v) K = K(k \<mapsto> Str v False)"
| "effect (SET_NX_EX k v n) K = (if K k = None then K(k \<mapsto> Str v True) else K)"
| "effect (SET_PX k v n) K = K(k \<mapsto> Str v True)"
| "effect (DEL k) K = K(k := None)"
| "effect (SADD k m) K = K(k := mk_set (insert m (set_of (K k))))"
| "effect (SREM k m) K = K(k := mk_set (set_of (K k) - {m}))"
| "effect (ZADD k s m) K = K(k := mk_zset ((zset_of (K k))(m \<mapsto> s)))"
| "effect (ZREM k m) K = K(k := mk_zset ((zset_of (K k))(m := None)))"
| "effect (HINCRBY k f n) K =
     K(k \<mapsto> Hash ((hash_of (K k))(f \<mapsto> (case hash_of (K k) f of None \<Rightarrow> 0 | Some x \<Rightarrow> x) + n)))"
| "effect _ K = K"

text \<open>The order of a sorted set: by score, members of one score in byte order. An index range is
  inclusive, a negative index counts from the end.\<close>

definition zorder :: "(string \<rightharpoonup> f64) \<Rightarrow> string list \<Rightarrow> bool" where
  "zorder z xs \<longleftrightarrow> distinct xs \<and> set xs = dom z \<and> sorted (map (\<lambda>m. (the (z m), m)) xs)"

definition range_of :: "int \<Rightarrow> int \<Rightarrow> 'a list \<Rightarrow> 'a list" where
  "range_of i j xs =
     (let a = (if i < 0 then max 0 (int (length xs) + i) else i);
          b = (if j < 0 then int (length xs) + j else j)
      in take (nat (b + 1 - a)) (drop (nat a) xs))"

definition limit_of :: "int \<Rightarrow> int \<Rightarrow> 'a list \<Rightarrow> 'a list" where
  "limit_of i n xs = (if n < 0 then drop (nat i) xs else take (nat n) (drop (nat i) xs))"

text \<open>What an applicable command answers. The order of the members of a set and of the fields of
  a hash is not specified.\<close>

fun answers :: "'v command \<Rightarrow> 'v keyspace \<Rightarrow> 'v reply \<Rightarrow> bool" where
  "answers (GET k) K x = (x = (case K k of Some (Str v _) \<Rightarrow> R_bulk v | _ \<Rightarrow> R_nil))"
| "answers (SET k v) K x = (x = R_ok)"
| "answers (SET_NX_EX k v n) K x = (x = (if K k = None then R_ok else R_nil))"
| "answers (SET_PX k v n) K x = (x = R_ok)"
| "answers (DEL k) K x = (x = R_int (if K k = None then 0 else 1))"
| "answers (SADD k m) K x = (x = R_int (if m \<in> set_of (K k) then 0 else 1))"
| "answers (SREM k m) K x = (x = R_int (if m \<in> set_of (K k) then 1 else 0))"
| "answers (SMEMBERS k) K x = (\<exists>ms. x = R_members ms \<and> distinct ms \<and> set ms = set_of (K k))"
| "answers (ZADD k s m) K x = (x = R_int (if m \<in> dom (zset_of (K k)) then 0 else 1))"
| "answers (ZREM k m) K x = (x = R_int (if m \<in> dom (zset_of (K k)) then 1 else 0))"
| "answers (ZRANGE k i j) K x =
     (\<exists>ms. zorder (zset_of (K k)) ms \<and> x = R_members (range_of i j ms))"
| "answers (ZREVRANGE k i j) K x =
     (\<exists>ms. zorder (zset_of (K k)) ms \<and> x = R_members (range_of i j (rev ms)))"
| "answers (ZREVRANGE_WITHSCORES k i j) K x =
     (\<exists>ms. zorder (zset_of (K k)) ms
        \<and> x = R_scored (map (\<lambda>m. (m, the (zset_of (K k) m))) (range_of i j (rev ms))))"
| "answers (ZRANGEBYSCORE_LIMIT k lo hi i n) K x =
     (\<exists>ms. zorder (zset_of (K k)) ms
        \<and> x = R_members (limit_of i n
               (filter (\<lambda>m. lo \<le> the (zset_of (K k) m) \<and> the (zset_of (K k) m) \<le> hi) ms)))"
| "answers (HINCRBY k f n) K x =
     (x = R_int ((case hash_of (K k) f of None \<Rightarrow> 0 | Some y \<Rightarrow> y) + n))"
| "answers (HGETALL k) K x =
     (\<exists>fs. x = R_fields fs \<and> distinct (map fst fs) \<and> map_of fs = hash_of (K k))"

section \<open>The server\<close>

text \<open>What becomes of a request: it is answered in time; the answer comes too late, or the connection
  breaks with an error text, each with the request executed by the server or not.\<close>

datatype link = Delivered | Late bool | Broken bool string

text \<open>\<open>rd_call\<close> executes one command, \<open>rd_link\<close> carries one request; time passes on the server with
  the latter, so keys with a time to live may be gone afterwards.\<close>

record ('v, 'r) redis =
  rd_call :: "'v command \<Rightarrow> 'r \<Rightarrow> 'v reply \<times> 'r"
  rd_link :: "'r \<Rightarrow> link \<times> 'r"

definition aged :: "'v keyspace \<Rightarrow> 'v keyspace \<Rightarrow> bool" where
  "aged K K' \<longleftrightarrow> (\<forall>k. K' k = K k \<or> K' k = None \<and> (\<exists>v. K k = Some (Str v True)))"

locale redis_server =
  fixes D :: "('v, 'r) redis" and ks :: "'r \<Rightarrow> 'v keyspace"
  assumes call_effect: "applicable c (ks r) \<Longrightarrow> ks (snd (rd_call D c r)) = effect c (ks r)"
    and call_reply: "applicable c (ks r) \<Longrightarrow> answers c (ks r) (fst (rd_call D c r))"
    and call_error: "\<not> applicable c (ks r) \<Longrightarrow>
          ks (snd (rd_call D c r)) = ks r \<and> (\<exists>e. fst (rd_call D c r) = R_err e)"
    and link_ages: "aged (ks r) (ks (snd (rd_link D r)))"

text \<open>A server that answers every request in time.\<close>

locale redis_up = redis_server D ks
  for D :: "('v, 'r) redis" and ks :: "'r \<Rightarrow> 'v keyspace" +
  assumes link_up: "fst (rd_link D r) = Delivered"

section \<open>A reference server\<close>

text \<open>A keyspace as lists, with the course of the requests given: what becomes of the next ones
  (in time, when the list is used up) and which keys lapse at each.\<close>

datatype 'v entry =
    E_str 'v bool
  | E_set "string list"
  | E_zset "(string \<times> f64) list"
  | E_hash "(string \<times> int) list"

record 'v ref_server =
  rf_keys :: "(string, 'v entry) hmap"
  rf_links :: "link list"
  rf_lapses :: "string list list"

fun entry_val :: "'v entry \<Rightarrow> 'v rval option" where
  "entry_val (E_str v b) = Some (Str v b)"
| "entry_val (E_set ms) = mk_set (set ms)"
| "entry_val (E_zset z) = mk_zset (map_of z)"
| "entry_val (E_hash h) = Some (Hash (map_of h))"

definition ref_ks :: "'v ref_server \<Rightarrow> 'v keyspace" where
  "ref_ks s k = Option.bind (hm_get (rf_keys s) k) entry_val"

fun members_of :: "'v entry option \<Rightarrow> string list option" where
  "members_of None = Some []"
| "members_of (Some (E_set ms)) = Some (remdups ms)"
| "members_of (Some (E_zset [])) = Some []"
| "members_of _ = None"

fun scores_of :: "'v entry option \<Rightarrow> (string \<times> f64) list option" where
  "scores_of None = Some []"
| "scores_of (Some (E_zset z)) = Some (AList.clearjunk z)"
| "scores_of (Some (E_set [])) = Some []"
| "scores_of _ = None"

fun fields_of :: "'v entry option \<Rightarrow> (string \<times> int) list option" where
  "fields_of None = Some []"
| "fields_of (Some (E_hash h)) = Some (AList.clearjunk h)"
| "fields_of (Some (E_set [])) = Some []"
| "fields_of (Some (E_zset [])) = Some []"
| "fields_of _ = None"

fun string_of :: "'v entry option \<Rightarrow> 'v option option" where
  "string_of None = Some None"
| "string_of (Some (E_str v b)) = Some (Some v)"
| "string_of (Some (E_set [])) = Some None"
| "string_of (Some (E_zset [])) = Some None"
| "string_of _ = None"

definition present :: "'v entry option \<Rightarrow> bool" where
  "present e = (e \<noteq> None \<and> e \<noteq> Some (E_set []) \<and> e \<noteq> Some (E_zset []))"

definition wrong_type :: "'v reply" where
  "wrong_type = R_err ''WRONGTYPE Operation against a key holding the wrong kind of value''"

definition rf_put :: "string \<Rightarrow> 'v entry \<Rightarrow> 'v ref_server \<Rightarrow> 'v ref_server" where
  "rf_put k e s = s\<lparr>rf_keys := hm_insert k e (rf_keys s)\<rparr>"

definition by_score :: "(string \<times> f64) list \<Rightarrow> (string \<times> f64) list" where
  "by_score z = sort_key (\<lambda>p. (snd p, fst p)) z"

definition with_entry :: "'a option \<Rightarrow> 'v ref_server \<Rightarrow> ('a \<Rightarrow> 'v reply \<times> 'v ref_server) \<Rightarrow> 'v reply \<times> 'v ref_server" where
  "with_entry x s f = (case x of None \<Rightarrow> (wrong_type, s) | Some y \<Rightarrow> f y)"

fun ref_call :: "'v command \<Rightarrow> 'v ref_server \<Rightarrow> 'v reply \<times> 'v ref_server" where
  "ref_call (GET k) s =
     with_entry (string_of (hm_get (rf_keys s) k)) s
       (\<lambda>v. ((case v of None \<Rightarrow> R_nil | Some v \<Rightarrow> R_bulk v), s))"
| "ref_call (SET k v) s = (R_ok, rf_put k (E_str v False) s)"
| "ref_call (SET_NX_EX k v n) s =
     (if n \<le> 0 then (R_err ''ERR invalid expire time'', s)
      else if present (hm_get (rf_keys s) k) then (R_nil, s)
      else (R_ok, rf_put k (E_str v True) s))"
| "ref_call (SET_PX k v n) s =
     (if n \<le> 0 then (R_err ''ERR invalid expire time'', s) else (R_ok, rf_put k (E_str v True) s))"
| "ref_call (DEL k) s =
     (R_int (if present (hm_get (rf_keys s) k) then 1 else 0), s\<lparr>rf_keys := hm_remove k (rf_keys s)\<rparr>)"
| "ref_call (SADD k m) s =
     with_entry (members_of (hm_get (rf_keys s) k)) s
       (\<lambda>ms. (R_int (if m \<in> set ms then 0 else 1), rf_put k (E_set (List.insert m ms)) s))"
| "ref_call (SREM k m) s =
     with_entry (members_of (hm_get (rf_keys s) k)) s
       (\<lambda>ms. (R_int (if m \<in> set ms then 1 else 0), rf_put k (E_set (filter (\<lambda>x. x \<noteq> m) ms)) s))"
| "ref_call (SMEMBERS k) s =
     with_entry (members_of (hm_get (rf_keys s) k)) s (\<lambda>ms. (R_members ms, s))"
| "ref_call (ZADD k x m) s =
     (if x = NaN then (R_err ''ERR value is not a valid float'', s)
      else with_entry (scores_of (hm_get (rf_keys s) k)) s
        (\<lambda>z. (R_int (if hm_contains z m then 0 else 1), rf_put k (E_zset (hm_insert m x z)) s)))"
| "ref_call (ZREM k m) s =
     with_entry (scores_of (hm_get (rf_keys s) k)) s
       (\<lambda>z. (R_int (if hm_contains z m then 1 else 0), rf_put k (E_zset (hm_remove m z)) s))"
| "ref_call (ZRANGE k i j) s =
     with_entry (scores_of (hm_get (rf_keys s) k)) s
       (\<lambda>z. (R_members (range_of i j (map fst (by_score z))), s))"
| "ref_call (ZREVRANGE k i j) s =
     with_entry (scores_of (hm_get (rf_keys s) k)) s
       (\<lambda>z. (R_members (range_of i j (rev (map fst (by_score z)))), s))"
| "ref_call (ZREVRANGE_WITHSCORES k i j) s =
     with_entry (scores_of (hm_get (rf_keys s) k)) s
       (\<lambda>z. (R_scored (map (\<lambda>m. (m, the (map_of z m))) (range_of i j (rev (map fst (by_score z))))), s))"
| "ref_call (ZRANGEBYSCORE_LIMIT k lo hi i n) s =
     with_entry (scores_of (hm_get (rf_keys s) k)) s
       (\<lambda>z. (R_members (limit_of i n
          (filter (\<lambda>m. lo \<le> the (map_of z m) \<and> the (map_of z m) \<le> hi) (map fst (by_score z)))), s))"
| "ref_call (HINCRBY k f n) s =
     with_entry (fields_of (hm_get (rf_keys s) k)) s
       (\<lambda>h. let x = (case map_of h f of None \<Rightarrow> 0 | Some x \<Rightarrow> x) + n
            in (R_int x, rf_put k (E_hash (hm_insert f x h)) s))"
| "ref_call (HGETALL k) s =
     with_entry (fields_of (hm_get (rf_keys s) k)) s (\<lambda>h. (R_fields h, s))"

fun volatile :: "'v entry option \<Rightarrow> bool" where
  "volatile (Some (E_str v b)) = b"
| "volatile _ = False"

definition lapse :: "string list \<Rightarrow> (string, 'v entry) hmap \<Rightarrow> (string, 'v entry) hmap" where
  "lapse ks m = filter (\<lambda>(k, e). \<not> (k \<in> set ks \<and> volatile (hm_get m k))) m"

definition ref_link :: "'v ref_server \<Rightarrow> link \<times> 'v ref_server" where
  "ref_link s =
     (case rf_links s of [] \<Rightarrow> Delivered | l # _ \<Rightarrow> l,
      \<lparr>rf_keys = (case rf_lapses s of [] \<Rightarrow> rf_keys s | ks # _ \<Rightarrow> lapse ks (rf_keys s)),
       rf_links = tl (rf_links s), rf_lapses = tl (rf_lapses s)\<rparr>)"

definition ref_redis :: "('v, 'v ref_server) redis" where
  "ref_redis = \<lparr>rd_call = ref_call, rd_link = ref_link\<rparr>"

lemma ref_redis_simps [simp]: "rd_call ref_redis = ref_call" "rd_link ref_redis = ref_link"
  by (simp_all add: ref_redis_def)

section \<open>The reference server has the documented behaviour\<close>

lemma members_of_view:
  "case members_of e of
     None \<Rightarrow> \<not> is_set (Option.bind e entry_val)
   | Some ms \<Rightarrow> is_set (Option.bind e entry_val) \<and> distinct ms \<and> set ms = set_of (Option.bind e entry_val)"
  by (cases e rule: members_of.cases) (auto simp: mk_zset_def fun_eq_iff)

lemma scores_of_view:
  "case scores_of e of
     None \<Rightarrow> \<not> is_zset (Option.bind e entry_val)
   | Some z \<Rightarrow> is_zset (Option.bind e entry_val) \<and> hm_wf z \<and> map_of z = zset_of (Option.bind e entry_val)"
  by (cases e rule: scores_of.cases) (auto simp: mk_set_def hm_wf_def map_of_clearjunk distinct_clearjunk)

lemma fields_of_view:
  "case fields_of e of
     None \<Rightarrow> \<not> is_hash (Option.bind e entry_val)
   | Some h \<Rightarrow> is_hash (Option.bind e entry_val) \<and> distinct (map fst h) \<and> map_of h = hash_of (Option.bind e entry_val)"
  by (cases e rule: fields_of.cases)
     (auto simp: mk_set_def mk_zset_def map_of_clearjunk distinct_clearjunk fun_eq_iff)

lemma string_of_view:
  "case string_of e of
     None \<Rightarrow> \<not> is_str (Option.bind e entry_val)
   | Some v \<Rightarrow> is_str (Option.bind e entry_val)
      \<and> v = (case Option.bind e entry_val of Some (Str v _) \<Rightarrow> Some v | _ \<Rightarrow> None)"
  by (cases e rule: string_of.cases) (auto simp: mk_set_def mk_zset_def fun_eq_iff)

lemma map_of_empty_iff: "(\<forall>x. map_of m x = None) \<longleftrightarrow> m = []"
  by (cases m) auto

lemma present_view: "present e \<longleftrightarrow> Option.bind e entry_val \<noteq> None"
proof (cases e)
  case (Some x)
  then show ?thesis
    by (cases x) (auto simp: present_def mk_set_def mk_zset_def fun_eq_iff map_of_empty_iff)
qed (simp add: present_def)

lemma ref_ks_put [simp]: "ref_ks (rf_put k e s) = (ref_ks s)(k := entry_val e)"
  by (auto simp: ref_ks_def rf_put_def fun_eq_iff)

lemma ref_ks_remove: "ref_ks (s\<lparr>rf_keys := hm_remove k (rf_keys s)\<rparr>) = (ref_ks s)(k := None)"
  by (auto simp: ref_ks_def fun_eq_iff)

lemma zorder_by_score:
  assumes "hm_wf z"
  shows "zorder (map_of z) (map fst (by_score z))"
proof -
  have z: "distinct (map fst z)" using assms by (simp add: hm_wf_def)
  have d: "distinct (map fst (by_score z))"
    using z by (simp add: by_score_def distinct_map)
  have eq: "map (\<lambda>m. (the (map_of z m), m)) (map fst (by_score z)) = map (\<lambda>p. (snd p, fst p)) (by_score z)"
    unfolding map_map by (rule map_cong) (use z in \<open>auto simp: by_score_def\<close>)
  have "sorted (map (\<lambda>m. (the (map_of z m), m)) (map fst (by_score z)))"
    unfolding eq unfolding by_score_def by (rule sorted_sort_key)
  moreover have "set (map fst (by_score z)) = dom (map_of z)"
    by (simp add: by_score_def dom_map_of_conv_image_fst)
  ultimately show ?thesis
    using d unfolding zorder_def by blast
qed

text \<open>One command, from what the views say of the entry of its key.\<close>

definition sound_call :: "'v command \<Rightarrow> 'v ref_server \<Rightarrow> bool" where
  "sound_call c s \<longleftrightarrow>
     (if applicable c (ref_ks s)
      then ref_ks (snd (ref_call c s)) = effect c (ref_ks s) \<and> answers c (ref_ks s) (fst (ref_call c s))
      else ref_ks (snd (ref_call c s)) = ref_ks s \<and> (\<exists>e. fst (ref_call c s) = R_err e))"

lemma sound_strings:
  "sound_call (GET k) s" "sound_call (SET k v) s" "sound_call (SET_NX_EX k v n) s"
  "sound_call (SET_PX k v n) s" "sound_call (DEL k) s"
  using string_of_view [of "hm_get (rf_keys s) k"] present_view [of "hm_get (rf_keys s) k"]
  by (auto simp: sound_call_def ref_ks_remove with_entry_def wrong_type_def ref_ks_def [of s]
      split: option.splits rval.splits)

lemma sound_sets:
  "sound_call (SADD k m) s" "sound_call (SREM k m) s" "sound_call (SMEMBERS k) s"
proof -
  note view = members_of_view [of "hm_get (rf_keys s) k", folded ref_ks_def]
  have diff: "{x \<in> S. x \<noteq> m} = S - {m}" for S by auto
  show "sound_call (SADD k m) s" "sound_call (SREM k m) s" "sound_call (SMEMBERS k) s"
    using view by (auto simp: sound_call_def with_entry_def wrong_type_def diff split: option.splits)
qed

lemma sound_zsets:
  "sound_call (ZADD k x m) s" "sound_call (ZREM k m) s" "sound_call (ZRANGE k i j) s"
  "sound_call (ZREVRANGE k i j) s" "sound_call (ZREVRANGE_WITHSCORES k i j) s"
  "sound_call (ZRANGEBYSCORE_LIMIT k lo hi i j) s"
proof -
  note view = scores_of_view [of "hm_get (rf_keys s) k", folded ref_ks_def]
  note facts = sound_call_def with_entry_def wrong_type_def
  show "sound_call (ZADD k x m) s" "sound_call (ZREM k m) s"
    using view by (auto simp: facts fun_upd_idem split: option.splits)
  show "sound_call (ZRANGE k i j) s" "sound_call (ZREVRANGE k i j) s"
    "sound_call (ZREVRANGE_WITHSCORES k i j) s" "sound_call (ZRANGEBYSCORE_LIMIT k lo hi i j) s"
    using view zorder_by_score by (fastforce simp: facts split: option.splits)+
qed

lemma sound_hashes: "sound_call (HINCRBY k f n) s" "sound_call (HGETALL k) s"
proof -
  note view = fields_of_view [of "hm_get (rf_keys s) k", folded ref_ks_def]
  show "sound_call (HINCRBY k f n) s" "sound_call (HGETALL k) s"
    using view by (auto simp: sound_call_def with_entry_def wrong_type_def Let_def split: option.splits)
qed

lemma sound_calls: "sound_call c s"
  by (cases c) (simp_all only: sound_strings sound_sets sound_zsets sound_hashes)

lemma volatile_iff: "volatile e \<longleftrightarrow> (\<exists>v. e = Some (E_str v True))"
  by (cases e rule: volatile.cases) auto

lemma hm_get_lapse:
  "hm_get (lapse ks m) k = (if k \<in> set ks \<and> volatile (hm_get m k) then None else hm_get m k)"
proof -
  have "hm_get (filter (\<lambda>(k, e). P k) xs) k = (if P k then hm_get xs k else None)" for P xs
    by (induction xs) auto
  from this [of "\<lambda>k. \<not> (k \<in> set ks \<and> volatile (hm_get m k))" m] show ?thesis unfolding lapse_def by auto
qed

lemma ref_link_ages: "aged (ref_ks s) (ref_ks (snd (ref_link s)))"
  by (auto simp: aged_def ref_ks_def ref_link_def hm_get_lapse volatile_iff split: list.split)

interpretation ref: redis_server ref_redis ref_ks
proof unfold_locales
  fix c :: "'v command" and s
  show "applicable c (ref_ks s) \<Longrightarrow> ref_ks (snd (rd_call ref_redis c s)) = effect c (ref_ks s)"
    and "applicable c (ref_ks s) \<Longrightarrow> answers c (ref_ks s) (fst (rd_call ref_redis c s))"
    and "\<not> applicable c (ref_ks s) \<Longrightarrow> ref_ks (snd (rd_call ref_redis c s)) = ref_ks s
           \<and> (\<exists>e. fst (rd_call ref_redis c s) = R_err e)"
    using sound_calls [of c s] by (simp_all add: sound_call_def split: if_splits)
  show "aged (ref_ks s) (ref_ks (snd (rd_link ref_redis s)))"
    by (simp add: ref_link_ages)
qed

text \<open>The same server on a connection that always answers in time.\<close>

definition steady_redis :: "('v, 'v ref_server) redis" where
  "steady_redis = \<lparr>rd_call = ref_call, rd_link = (\<lambda>s. (Delivered, snd (ref_link s)))\<rparr>"

interpretation steady: redis_up steady_redis ref_ks
  using ref.call_effect ref.call_reply ref.call_error
  by unfold_locales (simp_all add: steady_redis_def ref_link_ages)

end
