(* ===== verification/Redis_Codec.thy ===== *)
theory Redis_Codec
  imports Job F64 "HOL-Library.Char_ord" "HOL-Library.List_Lexorder"
begin

text \<open>
  The texts \<^verbatim>\<open>src/storage/redis.rs\<close> keeps in Redis and the values its Lua scripts compute with. Three
  libraries produce and read them: \<^verbatim>\<open>serde_json\<close> in the crate, \<^verbatim>\<open>cjson\<close> in the scripts, and
  the time stamps of \<^verbatim>\<open>chrono\<close>. They are parameters, the record \<open>codec\<close>; the locale
  \<open>job_codec\<close> states what the crate relies on. A text is a value of the type \<open>'v\<close>.
\<close>

section \<open>Lua values\<close>

text \<open>\<open>L_other\<close> is any other Lua value, such as the light user data \<^verbatim>\<open>cjson.null\<close>.\<close>

datatype 'o lua =
    L_nil
  | L_bool bool
  | L_num f64
  | L_str string
  | L_table "(string \<times> 'o lua) list"
  | L_other 'o

definition lua_index :: "'o lua \<Rightarrow> string \<Rightarrow> string + 'o lua" where
  "lua_index x k =
     (case x of
        L_table t \<Rightarrow> Inr (case map_of t k of None \<Rightarrow> L_nil | Some v \<Rightarrow> v)
      | L_str _ \<Rightarrow> Inr L_nil
      | _ \<Rightarrow> Inl (''attempt to index field '' @ k))"

definition lua_set :: "string \<Rightarrow> 'o lua \<Rightarrow> 'o lua \<Rightarrow> 'o lua" where
  "lua_set k v x = (case x of L_table t \<Rightarrow> L_table (hm_insert k v t) | _ \<Rightarrow> x)"

fun lua_true :: "'o lua \<Rightarrow> bool" where
  "lua_true L_nil = False"
| "lua_true (L_bool b) = b"
| "lua_true _ = True"

text \<open>The first key \<^verbatim>\<open>pairs\<close> yields.\<close>

definition lua_first_key :: "'o lua \<Rightarrow> string + string option" where
  "lua_first_key x =
     (case x of
        L_table [] \<Rightarrow> Inr None
      | L_table (p # _) \<Rightarrow> Inr (Some (fst p))
      | _ \<Rightarrow> Inl ''bad argument to pairs'')"

lemma lua_index_table [simp]:
  "lua_index (L_table t) k = Inr (case map_of t k of None \<Rightarrow> L_nil | Some v \<Rightarrow> v)"
  by (simp add: lua_index_def)

lemma lua_set_table [simp]: "lua_set k v (L_table t) = L_table (hm_insert k v t)"
  by (simp add: lua_set_def)

section \<open>The libraries\<close>

text \<open>\<open>num_text\<close> is the text of a Lua number in a concatenation, \<open>rfc3339_micros\<close> is
  \<^verbatim>\<open>to_rfc3339_opts(SecondsFormat::Micros, true)\<close>, \<open>rfc3339\<close> the form in which \<^verbatim>\<open>serde_json\<close>
  writes a \<^verbatim>\<open>DateTime<Utc>\<close>, \<open>bytes\<close> the bytes of a string.\<close>

record ('p, 'v, 'o) codec =
  job_to_json :: "'p job \<Rightarrow> string + 'v"
  job_of_json :: "'v \<Rightarrow> string + 'p job"
  recurring_to_json :: "'p recurring_job \<Rightarrow> string + 'v"
  recurring_of_json :: "'v \<Rightarrow> string + 'p recurring_job"
  server_to_json :: "server_info \<Rightarrow> string + 'v"
  server_of_json :: "'v \<Rightarrow> string + server_info"
  cjson_decode :: "'v \<Rightarrow> string + 'o lua"
  cjson_encode :: "'o lua \<Rightarrow> string + 'v"
  num_text :: "f64 \<Rightarrow> string"
  rfc3339_micros :: "time \<Rightarrow> string"
  rfc3339 :: "time \<Rightarrow> string"
  bytes :: "string \<Rightarrow> 'v"

text \<open>A string argument of a Lua function or of \<^verbatim>\<open>..\<close>: numbers are converted.\<close>

definition lua_text :: "('p, 'v, 'o) codec \<Rightarrow> 'o lua \<Rightarrow> string + string" where
  "lua_text C x =
     (case x of
        L_str s \<Rightarrow> Inr s
      | L_num n \<Rightarrow> Inr (num_text C n)
      | _ \<Rightarrow> Inl ''attempt to use a value that is not a string'')"

definition lua_number :: "'o lua \<Rightarrow> string + f64" where
  "lua_number x = (case x of L_num n \<Rightarrow> Inr n | _ \<Rightarrow> Inl ''attempt to compare values'')"

lemma lua_text_str [simp]: "lua_text C (L_str s) = Inr s"
  by (simp add: lua_text_def)

lemma lua_number_num [simp]: "lua_number (L_num n) = Inr n"
  by (simp add: lua_number_def)

section \<open>What the crate relies on\<close>

text \<open>The microsecond a time falls in, and the times of the years 1970 to 9999.\<close>

definition micros :: "time \<Rightarrow> time" where
  "micros t = t div 1000 * 1000"

definition time_ok :: "time \<Rightarrow> bool" where
  "time_ok t \<longleftrightarrow> 0 \<le> t \<and> t < dur_seconds 253402300800"

text \<open>What a script finds in the table of a job: the fields it reads. A state is externally tagged.\<close>

fun has_time_field :: "(time \<Rightarrow> string) \<Rightarrow> job_state \<Rightarrow> (string \<times> 'o lua) list \<Rightarrow> bool" where
  "has_time_field ts (Scheduled _ enqueue_at _) fs = (map_of fs ''enqueue_at'' = Some (L_str (ts enqueue_at)))"
| "has_time_field ts (AwaitingRetry _ retry_at _) fs = (map_of fs ''retry_at'' = Some (L_str (ts retry_at)))"
| "has_time_field ts _ fs = True"

definition job_table :: "(time \<Rightarrow> string) \<Rightarrow> 'p job \<Rightarrow> (string \<times> 'o lua) list \<Rightarrow> bool" where
  "job_table ts j t \<longleftrightarrow>
     map_of t ''id'' = Some (L_str (job_id j))
     \<and> map_of t ''queue'' = Some (L_str (job_queue j))
     \<and> map_of t ''priority'' = Some (L_num (f64_of_int (sint (job_priority j))))
     \<and> map_of t ''created_at'' = Some (L_str (ts (job_created_at j)))
     \<and> (\<exists>fs. map_of t ''state'' = Some (L_table [(kind_name (kind (job_state j)), L_table fs)])
          \<and> has_time_field ts (job_state j) fs)"

text \<open>The states the scripts build.\<close>

definition lua_enqueued :: "string \<Rightarrow> 'o lua \<Rightarrow> 'o lua" where
  "lua_enqueued now_iso queue =
     L_table [(''Enqueued'', L_table [(''enqueued_at'', L_str now_iso), (''queue'', queue)])]"

definition lua_processing :: "string \<Rightarrow> string \<Rightarrow> 'o lua" where
  "lua_processing worker_id now_iso =
     L_table [(''Processing'', L_table
       [(''worker_id'', L_str worker_id), (''started_at'', L_str now_iso),
        (''server_name'', L_str ''redis-storage'')])]"

definition lua_with_state :: "'o lua \<Rightarrow> string \<Rightarrow> 'o lua \<Rightarrow> 'o lua" where
  "lua_with_state st now_iso x = lua_set ''updated_at'' (L_str now_iso) (lua_set ''state'' st x)"

text \<open>
  \<open>doc v j\<close>: \<open>v\<close> is a JSON text of the job \<open>j\<close>, one written by \<^verbatim>\<open>serde_json\<close> or by a script. \<open>clean j\<close>:
  the job survives \<^verbatim>\<open>cjson\<close>, which writes an empty array as an empty object and numbers with 14
  significant digits; only the payload and the timeout can be affected, so it does not depend on the
  state. The member \<^verbatim>\<open>updated_at\<close> that the scripts add is not a field of \<^verbatim>\<open>Job\<close> and is ignored by
  \<^verbatim>\<open>serde_json\<close>. (The laws hold for payloads nested less deeply than the limit of \<^verbatim>\<open>serde_json\<close>.)
\<close>

locale job_codec =
  fixes C :: "('p, 'v, 'o) codec"
    and doc :: "'v \<Rightarrow> 'p job \<Rightarrow> bool"
    and clean :: "'p job \<Rightarrow> bool"
  assumes to_json: "\<exists>v. job_to_json C j = Inr v \<and> doc v j"
    and of_json: "doc v j \<Longrightarrow> job_of_json C v = Inr j"
    and decode: "doc v j \<Longrightarrow> \<exists>t. cjson_decode C v = Inr (L_table t) \<and> job_table (rfc3339 C) j t"
    and clean_state: "clean (j\<lparr>job_state := st\<rparr>) = clean j"
    and encode_enqueued: "doc v j \<Longrightarrow> clean j \<Longrightarrow> time_ok now \<Longrightarrow> cjson_decode C v = Inr t \<Longrightarrow>
          \<exists>v'. cjson_encode C (lua_with_state (lua_enqueued (rfc3339_micros C now) (L_str (job_queue j)))
                  (rfc3339_micros C now) t) = Inr v'
             \<and> doc v' (j\<lparr>job_state := Enqueued (micros now) (job_queue j)\<rparr>)"
    and encode_processing: "doc v j \<Longrightarrow> clean j \<Longrightarrow> time_ok now \<Longrightarrow> cjson_decode C v = Inr t \<Longrightarrow>
          \<exists>v'. cjson_encode C (lua_with_state (lua_processing wid (rfc3339_micros C now))
                  (rfc3339_micros C now) t) = Inr v'
             \<and> doc v' (j\<lparr>job_state := Processing (micros now) wid ''redis-storage''\<rparr>)"
begin

lemma doc_unique: "doc v j \<Longrightarrow> doc v j' \<Longrightarrow> j = j'"
  by (metis of_json sum.inject(2))

end

section \<open>Time stamps\<close>

text \<open>A number on \<open>n\<close> digits, and back.\<close>

fun digits :: "nat \<Rightarrow> nat \<Rightarrow> string" where
  "digits 0 x = []"
| "digits (Suc n) x = digits n (x div 10) @ [char_of (48 + x mod 10)]"

definition read_digits :: "string \<Rightarrow> nat" where
  "read_digits s = foldl (\<lambda>a c. 10 * a + (of_char c - 48)) 0 s"

lemma length_digits [simp]: "length (digits n x) = n"
  by (induction n arbitrary: x) auto

lemma read_digits [simp]: "x < 10 ^ n \<Longrightarrow> read_digits (digits n x) = x"
proof (induction n arbitrary: x)
  case (Suc n)
  then have "read_digits (digits n (x div 10)) = x div 10" by (simp add: less_mult_imp_div_less mult.commute)
  then show ?case by (simp add: read_digits_def of_char_digit del: of_char_of)
qed (simp add: read_digits_def)

lemma append_less_same_length:
  fixes xs :: "'a::linorder list"
  assumes "length xs = length ys"
  shows "xs @ us < ys @ vs \<longleftrightarrow> xs < ys \<or> xs = ys \<and> us < vs"
  using assms by (induction xs ys rule: list_induct2) auto

lemma digits_less: "x < y \<Longrightarrow> y < 10 ^ n \<Longrightarrow> digits n x < digits n y"
proof (induction n arbitrary: x y)
  case (Suc n)
  have bound: "y div 10 < 10 ^ n" using Suc.prems by (simp add: less_mult_imp_div_less mult.commute)
  show ?case
  proof (cases "x div 10 = y div 10")
    case True
    moreover have "x mod 10 < y mod 10"
      using True Suc.prems by (metis div_mult_mod_eq nat_add_left_cancel_less)
    ultimately show ?thesis
      by (simp add: append_less_same_length less_char_def of_char_digit del: of_char_of)
  next
    case False
    then have "x div 10 < y div 10" using Suc.prems by (simp add: div_le_mono le_neq_implies_less)
    from Suc.IH [OF this bound] show ?thesis by (simp add: append_less_same_length)
  qed
qed simp

text \<open>The documented forms: \<open>date\<close> is the date and the time of day up to the second, on 19
  characters. The microsecond form always has six decimals; the automatic form, which \<^verbatim>\<open>serde\<close>
  uses, has none, three, six or nine, as many as the value needs.\<close>

definition form_micros :: "(int \<Rightarrow> string) \<Rightarrow> time \<Rightarrow> string" where
  "form_micros date t = date (t div 1000000000) @ ''.'' @ digits 6 (nat (t mod 1000000000) div 1000) @ ''Z''"

definition auto_frac :: "nat \<Rightarrow> string" where
  "auto_frac n =
     (if n = 0 then []
      else if n mod 1000000 = 0 then ''.'' @ digits 3 (n div 1000000)
      else if n mod 1000 = 0 then ''.'' @ digits 6 (n div 1000)
      else ''.'' @ digits 9 n)"

definition form_auto :: "(int \<Rightarrow> string) \<Rightarrow> time \<Rightarrow> string" where
  "form_auto date t = date (t div 1000000000) @ auto_frac (nat (t mod 1000000000)) @ ''Z''"

locale iso_codec =
  fixes C :: "('p, 'v, 'o) codec" and date :: "int \<Rightarrow> string"
  assumes micros_form: "rfc3339_micros C t = form_micros date t"
    and auto_form: "rfc3339 C t = form_auto date t"
    and date_length: "length (date d) = 19"
    and date_less: "0 \<le> d \<Longrightarrow> d < d' \<Longrightarrow> d' < 253402300800 \<Longrightarrow> date d < date d'"

lemma digits_le_iff:
  assumes "x < 10 ^ n" and "y < 10 ^ n"
  shows "digits n x \<le> digits n y \<longleftrightarrow> x \<le> y"
  using digits_less [of x y n] digits_less [of y x n] assms
  by (metis leD le_less_linear less_imp_le nat_less_le order_refl)

lemma digits_eq_iff: "x < 10 ^ n \<Longrightarrow> y < 10 ^ n \<Longrightarrow> digits n x = digits n y \<longleftrightarrow> x = y"
  by (metis read_digits)

lemma digits_append: "digits (m + k) x = digits m (x div 10 ^ k) @ digits k (x mod 10 ^ k)"
proof (induction k arbitrary: x)
  case (Suc k)
  have "x mod 10 ^ Suc k mod 10 = x mod 10" by (simp add: mod_mod_cancel)
  moreover have "x mod 10 ^ Suc k div 10 = x div 10 mod 10 ^ k"
    by (simp add: mod_mult2_eq)
  ultimately show ?case using Suc [of "x div 10"] by (simp add: div_mult2_eq mult.commute)
qed simp

text \<open>A digit is below the closing \<^verbatim>\<open>Z\<close>, which is above the decimal point.\<close>

lemma digit_less_Z: "char_of (48 + x mod 10) < CHR ''Z''" for x :: nat
  by (simp add: less_char_def of_char_digit del: of_char_of)

lemma digits_below_Z: "\<not> ''Z'' \<le> digits (Suc n) x @ s"
proof (induction n arbitrary: x s)
  case 0
  then show ?case using digit_less_Z [of x] by auto
next
  case (Suc n)
  show ?case using Suc [of "x div 10" "char_of (48 + x mod 10) # s"] by simp
qed

lemma append_le_same_length:
  fixes xs :: "'a::linorder list"
  assumes "length xs = length ys" and "xs @ us \<le> ys @ vs"
  shows "xs \<le> ys"
  using assms by (metis append_less_same_length leD leI)

lemma auto_frac_le:
  assumes n: "n < 1000000000" and m: "m < 1000000"
    and le: "auto_frac n @ ''Z'' \<le> ''.'' @ digits 6 m @ ''Z''"
  shows "n div 1000 \<le> m"
proof -
  have below: "n div 1000 < 10 ^ 6" "m < 10 ^ 6" using n m by simp_all
  consider (secs) "n = 0" | (millis) "n \<noteq> 0" "n mod 1000000 = 0"
    | (micros) "n mod 1000000 \<noteq> 0" "n mod 1000 = 0" | (nanos) "n mod 1000000 \<noteq> 0" "n mod 1000 \<noteq> 0"
    by blast
  then show ?thesis
  proof cases
    case millis
    have "digits 3 (n div 1000000) @ ''Z'' \<le> digits 3 (m div 1000) @ digits 3 (m mod 1000) @ ''Z''"
      using le millis digits_append [of 3 3 m] by (simp add: auto_frac_def)
    then have "digits 3 (n div 1000000) < digits 3 (m div 1000)"
      using append_less_same_length [of "digits 3 (n div 1000000)" "digits 3 (m div 1000)"]
        digits_below_Z [of 2 "m mod 1000" "''Z''"] by (auto simp: numeral_3_eq_3 le_less)
    then have "n div 1000000 < m div 1000"
      using digits_le_iff [of "m div 1000" 3 "n div 1000000"] n m by (simp add: not_le [symmetric])
    moreover have "n div 1000000 = n div 1000 div 1000" by (simp add: div_mult2_eq [symmetric])
    ultimately have "n div 1000 div 1000 < m div 1000" by simp
    then show ?thesis by (meson div_le_mono leD le_cases)
  next
    case micros
    have "digits 6 (n div 1000) @ ''Z'' \<le> digits 6 m @ ''Z''"
      using le micros by (auto simp: auto_frac_def split: if_splits)
    from append_le_same_length [OF _ this] show ?thesis by (simp add: digits_le_iff [OF below])
  next
    case nanos
    have "digits 6 (n div 1000) @ digits 3 (n mod 1000) @ ''Z'' \<le> digits 6 m @ ''Z''"
      using le nanos digits_append [of 6 3 n] by (auto simp: auto_frac_def split: if_splits)
    from append_le_same_length [OF _ this] show ?thesis by (simp add: digits_le_iff [OF below])
  qed simp
qed

context iso_codec
begin

lemma date_append_less:
  assumes "time_ok t" and "time_ok u" and "t div 1000000000 < u div 1000000000"
  shows "date (t div 1000000000) @ us < date (u div 1000000000) @ vs"
proof -
  have "u div 1000000000 * 1000000000 \<le> u" by (simp add: minus_mod_eq_div_mult [symmetric])
  with assms(2) have "u div 1000000000 < 253402300800" unfolding time_ok_def dur_seconds_def by linarith
  moreover from assms(1) have "0 \<le> t div 1000000000" by (simp add: time_ok_def pos_imp_zdiv_nonneg_iff)
  ultimately have "date (t div 1000000000) < date (u div 1000000000)" using assms(3) by (intro date_less)
  then show ?thesis by (simp add: append_less_same_length date_length)
qed

end

context iso_codec
begin

text \<open>The textual comparison of a deadline with the current time: it is never satisfied more than a
  microsecond early, it is satisfied a second after the deadline at the latest, and a
  deadline on a whole second is missed for all of that second.\<close>

lemma due_text_sound:
  assumes ok: "time_ok t" "time_ok now" and le: "rfc3339 C t \<le> rfc3339_micros C now"
  shows "t < micros now + 1000"
proof -
  let ?s = "t div 1000000000" and ?u = "now div 1000000000"
  let ?n = "nat (t mod 1000000000)" and ?m = "nat (now mod 1000000000) div 1000"
  have t: "t = ?s * 1000000000 + int ?n" and now: "now = ?u * 1000000000 + now mod 1000000000"
    by simp_all
  have now': "micros now = ?u * 1000000000 + int ?m * 1000"
  proof -
    have "now div 1000 = (?u * 1000000 * 1000 + now mod 1000000000) div 1000" using now by simp
    also have "\<dots> = ?u * 1000000 + now mod 1000000000 div 1000" by (rule div_mult_self3) simp
    finally show ?thesis by (simp add: micros_def zdiv_int)
  qed
  have small: "?n < 1000000000" "?m < 1000000"
    by (simp_all add: nat_less_iff less_mult_imp_div_less)
  have "\<not> ?u < ?s"
    using date_append_less [OF ok(2) ok(1)] le
    by (auto simp: micros_form auto_form form_micros_def form_auto_def not_less [symmetric])
  moreover have "t < micros now + 1000" if "?s < ?u"
    using that t now' small by linarith
  moreover have "t < micros now + 1000" if eq: "?s = ?u"
  proof -
    have "auto_frac ?n @ ''Z'' \<le> ''.'' @ digits 6 ?m @ ''Z''"
      using le eq by (auto simp: micros_form auto_form form_micros_def form_auto_def append_less_same_length le_less)
    from auto_frac_le [OF small this] have "?n div 1000 \<le> ?m" .
    then have "?n < ?m * 1000 + 1000" by linarith
    then show ?thesis using t now' eq by linarith
  qed
  ultimately show ?thesis by linarith
qed

lemma due_text_complete:
  assumes ok: "time_ok t" "time_ok now" and late: "t + 1000000000 \<le> now"
  shows "rfc3339 C t \<le> rfc3339_micros C now"
proof -
  have "t div 1000000000 < now div 1000000000" using late by linarith
  from date_append_less [OF ok this] show ?thesis
    by (simp add: micros_form auto_form form_micros_def form_auto_def less_imp_le)
qed

lemma due_text_whole_second:
  assumes "t mod 1000000000 = 0" and "t div 1000000000 = now div 1000000000"
  shows "\<not> rfc3339 C t \<le> rfc3339_micros C now"
  using assms by (simp add: micros_form auto_form form_micros_def form_auto_def auto_frac_def
      append_less_same_length le_less)

end

section \<open>A reference codec\<close>

text \<open>The texts are the values they stand for; \<open>L_other\<close> carries what the scripts do not touch.\<close>

datatype 'p blob =
    B_job "'p job"
  | B_recurring "'p recurring_job"
  | B_server server_info
  | B_text string

definition ref_date :: "int \<Rightarrow> string" where
  "ref_date s = digits 19 (nat s)"

definition read_micros :: "string \<Rightarrow> time" where
  "read_micros s =
     int (read_digits (take 19 s)) * 1000000000 + int (read_digits (take 6 (drop 20 s))) * 1000"

definition state_fields :: "job_state \<Rightarrow> (string \<times> 'o lua) list" where
  "state_fields st =
     (case st of
        Scheduled _ enqueue_at _ \<Rightarrow> [(''enqueue_at'', L_str (form_auto ref_date enqueue_at))]
      | AwaitingRetry _ retry_at _ \<Rightarrow> [(''retry_at'', L_str (form_auto ref_date retry_at))]
      | _ \<Rightarrow> [])"

definition ref_table :: "'p job \<Rightarrow> (string \<times> 'p job lua) list" where
  "ref_table j =
     [(''id'', L_str (job_id j)), (''queue'', L_str (job_queue j)),
      (''priority'', L_num (f64_of_int (sint (job_priority j)))),
      (''created_at'', L_str (form_auto ref_date (job_created_at j))),
      (''state'', L_table [(kind_name (kind (job_state j)), L_table (state_fields (job_state j)))]),
      (''payload'', L_other j)]"

fun state_of_table :: "'o lua \<Rightarrow> job_state \<Rightarrow> job_state" where
  "state_of_table (L_table [(_, L_table [(_, L_str t), (_, L_str queue)])]) _ = Enqueued (read_micros t) queue"
| "state_of_table (L_table [(_, L_table [(_, L_str wid), (_, L_str t), (_, L_str server)])]) _ =
     Processing (read_micros t) wid server"
| "state_of_table _ st = st"

definition ref_encode :: "'p job lua \<Rightarrow> string + 'p blob" where
  "ref_encode x =
     (case x of
        L_table t \<Rightarrow>
          (case (map_of t ''payload'', map_of t ''state'') of
             (Some (L_other j), Some st) \<Rightarrow> Inr (B_job (j\<lparr>job_state := state_of_table st (job_state j)\<rparr>))
           | _ \<Rightarrow> Inl ''missing field'')
      | _ \<Rightarrow> Inl ''Cannot serialise value'')"

definition ref_codec :: "('p, 'p blob, 'p job) codec" where
  "ref_codec =
     \<lparr>job_to_json = (\<lambda>j. Inr (B_job j)),
      job_of_json = (\<lambda>v. case v of B_job j \<Rightarrow> Inr j | _ \<Rightarrow> Inl ''invalid type''),
      recurring_to_json = (\<lambda>r. Inr (B_recurring r)),
      recurring_of_json = (\<lambda>v. case v of B_recurring r \<Rightarrow> Inr r | _ \<Rightarrow> Inl ''invalid type''),
      server_to_json = (\<lambda>i. Inr (B_server i)),
      server_of_json = (\<lambda>v. case v of B_server i \<Rightarrow> Inr i | _ \<Rightarrow> Inl ''invalid type''),
      cjson_decode = (\<lambda>v. case v of B_job j \<Rightarrow> Inr (L_table (ref_table j)) | _ \<Rightarrow> Inl ''Expected value''),
      cjson_encode = ref_encode,
      num_text = (\<lambda>n. ''0''),
      rfc3339_micros = form_micros ref_date,
      rfc3339 = form_auto ref_date,
      bytes = B_text\<rparr>"

definition ref_doc :: "'p blob \<Rightarrow> 'p job \<Rightarrow> bool" where
  "ref_doc v j = (v = B_job j)"

lemma read_micros_form [simp]:
  assumes "time_ok t"
  shows "read_micros (form_micros ref_date t) = micros t"
proof -
  let ?n = "nat (t mod 1000000000)"
  have t: "0 \<le> t" "t < 253402300800000000000" using assms by (simp_all add: time_ok_def dur_seconds_def)
  have "t div 1000000000 * 1000000000 \<le> t" by (simp add: minus_mod_eq_div_mult [symmetric])
  with t have "nat (t div 1000000000) < 10 ^ 19" by (simp add: nat_less_iff)
  moreover have "?n div 1000 < 10 ^ 6" by (simp add: nat_less_iff less_mult_imp_div_less)
  ultimately have r: "read_micros (form_micros ref_date t) = t div 1000000000 * 1000000000 + int (?n div 1000) * 1000"
    using t by (simp add: read_micros_def form_micros_def ref_date_def pos_imp_zdiv_nonneg_iff)
  have "t div 1000 = (t div 1000000000 * 1000000 * 1000 + t mod 1000000000) div 1000" by simp
  also have "\<dots> = t div 1000000000 * 1000000 + t mod 1000000000 div 1000" by (rule div_mult_self3) simp
  finally show ?thesis by (simp add: r micros_def zdiv_int)
qed

interpretation ref_json: job_codec ref_codec ref_doc "\<lambda>j. True"
proof unfold_locales
  fix v and j :: "'p job"
  show "ref_doc v j \<Longrightarrow> \<exists>t. cjson_decode ref_codec v = Inr (L_table t) \<and> job_table (rfc3339 ref_codec) j t"
    by (cases "job_state j")
       (simp_all add: ref_codec_def ref_doc_def job_table_def ref_table_def state_fields_def)
qed (auto simp: ref_codec_def ref_doc_def ref_encode_def ref_table_def lua_with_state_def lua_enqueued_def
    lua_processing_def)

interpretation ref_iso: iso_codec ref_codec ref_date
  by unfold_locales (auto simp: ref_codec_def ref_date_def nat_less_iff intro!: digits_less)

end
