(* ===== verification/Redis_Storage.thy ===== *)
theory Redis_Storage
  imports Redis_Server Redis_Codec Storage_Api Storage_Config Memory_Storage
begin

text \<open>
  The Redis backend, \<^verbatim>\<open>src/storage/redis.rs\<close>: the keys, the index maintenance, the Lua scripts and the
  methods of the storage traits. A Redis command or script is one request: it runs on the server in one
  step, so a method that sends several requests is a sequence of actions. The Lua scripts are translated
  statement by statement; \<^verbatim>\<open>redis.call\<close> is \<open>redis_call\<close>, an error of it aborts the script and keeps
  what the script has done before. \<^verbatim>\<open>get_connection\<close> clones a handle, which cannot time out, and is left out.
\<close>

section \<open>Requests\<close>

record ('p, 'v, 'o, 'r) redis_storage =
  rs_config :: redis_config
  rs_redis :: "('v, 'r) redis"
  rs_codec :: "('p, 'v, 'o) codec"

text \<open>\<open>open_client\<close> is \<^verbatim>\<open>Client::open\<close>, \<open>connect\<close> is \<^verbatim>\<open>ConnectionManager::new\<close> under the connection timeout.\<close>

definition rs_with_config ::
  "(string \<Rightarrow> string + 'c) \<Rightarrow> ('c \<Rightarrow> (string + ('v, 'r) redis) option) \<Rightarrow> ('p, 'v, 'o) codec
     \<Rightarrow> redis_config \<Rightarrow> storage_error + ('p, 'v, 'o, 'r) redis_storage" where
  "rs_with_config open_client connect codec cfg =
     (case open_client (full_url cfg) of
        Inl e \<Rightarrow> Inl (connection_with_source ''Failed to create Redis client'' e)
      | Inr client \<Rightarrow>
          (case connect client of
             None \<Rightarrow> Inl (timeout_error (of_nat (rc_connection_timeout cfg div 1000000)))
           | Some (Inl e) \<Rightarrow> Inl (connection_with_source ''Failed to create connection manager'' e)
           | Some (Inr D) \<Rightarrow> Inr \<lparr>rs_config = cfg, rs_redis = D, rs_codec = codec\<rparr>))"

text \<open>A computation of the server, seen from the crate.\<close>

definition on_server :: "('r, 'a) state \<Rightarrow> ('r, 'e, 'a) act" where
  "on_server m = State (\<lambda>w. case run_state m (store w) of (a, r) \<Rightarrow> (a, w\<lparr>store := r\<rparr>))"

definition redis_call :: "('v, 'r) redis \<Rightarrow> 'v command \<Rightarrow> ('r, string + 'v reply) state" where
  "redis_call D c =
     State (\<lambda>r. case rd_call D c r of (x, r') \<Rightarrow> ((case x of R_err e \<Rightarrow> Inl e | _ \<Rightarrow> Inr x), r'))"

definition send_request ::
  "('p, 'v, 'o, 'r) redis_storage \<Rightarrow> ('r, string + 'a) state \<Rightarrow> ('r, 'e, link \<times> (string + 'a)) act" where
  "send_request R op = do {
     l \<leftarrow> on_server (State (rd_link (rs_redis R)));
     (case l of
        Broken False e \<Rightarrow> ret (l, Inl e)
      | Late False \<Rightarrow> ret (l, Inl ''timeout'')
      | _ \<Rightarrow> do { x \<leftarrow> on_server op; ret (l, x) }) }"

definition with_timeout ::
  "('p, 'v, 'o, 'r) redis_storage \<Rightarrow> ('r, string + 'a) state \<Rightarrow> ('r, 'e, storage_error + 'a) act" where
  "with_timeout R op = do {
     (l, x) \<leftarrow> send_request R op;
     ret (case l of
            Late _ \<Rightarrow> Inl (timeout_error (of_nat (rc_command_timeout (rs_config R) div 1000000)))
          | Broken _ e \<Rightarrow> Inl (operation_failed_with_source (''Redis command failed: '' @ e) e)
          | Delivered \<Rightarrow>
              (case x of
                 Inl e \<Rightarrow> Inl (operation_failed_with_source (''Redis command failed: '' @ e) e)
               | Inr v \<Rightarrow> Inr v)) }"

text \<open>A script without the command timeout waits for a late answer.\<close>

definition invoke_script ::
  "('p, 'v, 'o, 'r) redis_storage \<Rightarrow> string \<Rightarrow> ('r, string + 'a) state \<Rightarrow> ('r, 'e, storage_error + 'a) act" where
  "invoke_script R msg op = do {
     (l, x) \<leftarrow> send_request R op;
     ret (case l of
            Broken _ e \<Rightarrow> Inl (SE_OperationFailed (msg @ '': '' @ e) (Some e))
          | _ \<Rightarrow>
              (case x of
                 Inl e \<Rightarrow> Inl (SE_OperationFailed (msg @ '': '' @ e) (Some e))
               | Inr v \<Rightarrow> Inr v)) }"

text \<open>The conversions of a reply into the type the call asks for.\<close>

definition bad_type :: "string + 'a" where
  "bad_type = Inl ''Response was of incompatible type''"

definition as_unit :: "'v reply \<Rightarrow> string + unit" where
  "as_unit x = Inr ()"

definition as_value :: "'v reply \<Rightarrow> string + 'v option" where
  "as_value x = (case x of R_nil \<Rightarrow> Inr None | R_bulk v \<Rightarrow> Inr (Some v) | _ \<Rightarrow> bad_type)"

definition as_is_some :: "'v reply \<Rightarrow> string + bool" where
  "as_is_some x = (case x of R_nil \<Rightarrow> Inr False | R_ok \<Rightarrow> Inr True | R_bulk _ \<Rightarrow> Inr True | _ \<Rightarrow> bad_type)"

definition as_int :: "'v reply \<Rightarrow> string + int" where
  "as_int x = (case x of R_int n \<Rightarrow> Inr n | _ \<Rightarrow> bad_type)"

definition as_members :: "'v reply \<Rightarrow> string + string list" where
  "as_members x = (case x of R_members ms \<Rightarrow> Inr ms | _ \<Rightarrow> bad_type)"

definition as_i32_fields :: "'v reply \<Rightarrow> string + (string \<times> int) list" where
  "as_i32_fields x =
     (case x of
        R_fields fs \<Rightarrow> if \<forall>p \<in> set fs. - (2 ^ 31) \<le> snd p \<and> snd p < 2 ^ 31 then Inr fs else bad_type
      | _ \<Rightarrow> bad_type)"

definition command ::
  "('p, 'v, 'o, 'r) redis_storage \<Rightarrow> ('v reply \<Rightarrow> string + 'a) \<Rightarrow> 'v command
     \<Rightarrow> ('r, 'e, storage_error + 'a) act" where
  "command R conv c = with_timeout R (bindE (redis_call (rs_redis R) c) (\<lambda>x. ret (conv x)))"

section \<open>Keys\<close>

abbreviation prefix :: "('p, 'v, 'o, 'r) redis_storage \<Rightarrow> string" where
  "prefix R \<equiv> rc_key_prefix (rs_config R)"

definition job_key :: "('p, 'v, 'o, 'r) redis_storage \<Rightarrow> string \<Rightarrow> string" where
  "job_key R i = prefix R @ '':jobs:'' @ i"

definition state_index_key :: "('p, 'v, 'o, 'r) redis_storage \<Rightarrow> string \<Rightarrow> string" where
  "state_index_key R s = prefix R @ '':state:'' @ s"

definition available_jobs_key :: "('p, 'v, 'o, 'r) redis_storage \<Rightarrow> string" where
  "available_jobs_key R = prefix R @ '':available''"

definition available_jobs_by_queue_key :: "('p, 'v, 'o, 'r) redis_storage \<Rightarrow> string \<Rightarrow> string" where
  "available_jobs_by_queue_key R queue = prefix R @ '':available:'' @ queue"

definition job_counts_key :: "('p, 'v, 'o, 'r) redis_storage \<Rightarrow> string" where
  "job_counts_key R = prefix R @ '':counts''"

definition all_jobs_key :: "('p, 'v, 'o, 'r) redis_storage \<Rightarrow> string" where
  "all_jobs_key R = prefix R @ '':all''"

definition recurring_key :: "('p, 'v, 'o, 'r) redis_storage \<Rightarrow> string \<Rightarrow> string" where
  "recurring_key R i = prefix R @ '':recurring:'' @ i"

definition recurring_index_key :: "('p, 'v, 'o, 'r) redis_storage \<Rightarrow> string" where
  "recurring_index_key R = prefix R @ '':recurring:index''"

definition recurring_claim_key :: "('p, 'v, 'o, 'r) redis_storage \<Rightarrow> string \<Rightarrow> string" where
  "recurring_claim_key R i = prefix R @ '':recurring:claim:'' @ i"

definition server_key :: "('p, 'v, 'o, 'r) redis_storage \<Rightarrow> string \<Rightarrow> string" where
  "server_key R sid = prefix R @ '':server:'' @ sid"

definition servers_index_key :: "('p, 'v, 'o, 'r) redis_storage \<Rightarrow> string" where
  "servers_index_key R = prefix R @ '':servers''"

definition named_lock_key :: "('p, 'v, 'o, 'r) redis_storage \<Rightarrow> string \<Rightarrow> string" where
  "named_lock_key R resource = prefix R @ '':lock:'' @ resource"

text \<open>The key of a job lock does not use the configured prefix.\<close>

definition job_lock_key :: "string \<Rightarrow> string" where
  "job_lock_key i = ''qml:lock:'' @ i"

fun kind_to_state_name :: "job_state_kind \<Rightarrow> string" where
  "kind_to_state_name KEnqueued = ''enqueued''"
| "kind_to_state_name KProcessing = ''processing''"
| "kind_to_state_name KSucceeded = ''succeeded''"
| "kind_to_state_name KFailed = ''failed''"
| "kind_to_state_name KDeleted = ''deleted''"
| "kind_to_state_name KScheduled = ''scheduled''"
| "kind_to_state_name KAwaitingRetry = ''awaiting_retry''"

definition state_to_string :: "job_state \<Rightarrow> string" where
  "state_to_string st = kind_to_state_name (kind st)"

section \<open>Indices\<close>

definition is_job_available :: "'p job \<Rightarrow> ('s, 'e, bool) act" where
  "is_job_available j = do { now \<leftarrow> utc_now; ret (available now (job_state j)) }"

definition timestamp_millis :: "time \<Rightarrow> int" where
  "timestamp_millis t = t div 1000000"

definition job_score :: "'p job \<Rightarrow> f64" where
  "job_score j =
     f64_add (f64_of_int (sint (job_priority j)))
       (f64_div (f64_of_int (timestamp_millis (job_created_at j))) (Fin 1000000))"

definition update_job_indices ::
  "('p, 'v, 'o, 'r) redis_storage \<Rightarrow> 'p job \<Rightarrow> job_state option \<Rightarrow> ('r, 'e, storage_error + unit) act" where
  "update_job_indices R j old_state =
     (let state_str = state_to_string (job_state j) in
      bindE
        (case old_state of
           None \<Rightarrow> ret (Inr ())
         | Some old \<Rightarrow>
             bindE (command R as_unit (SREM (state_index_key R (state_to_string old)) (job_id j))) (\<lambda>_.
             command R as_unit (HINCRBY (job_counts_key R) (state_to_string old) (-1)))) (\<lambda>_.
      bindE (command R as_unit (SADD (state_index_key R state_str) (job_id j))) (\<lambda>_.
      bindE (command R as_unit (SADD (all_jobs_key R) (job_id j))) (\<lambda>_.
      bindE (command R as_unit (HINCRBY (job_counts_key R) state_str 1)) (\<lambda>_. do {
        avail \<leftarrow> is_job_available j;
        (if avail
         then bindE (command R as_unit (ZADD (available_jobs_key R) (job_score j) (job_id j))) (\<lambda>_.
              command R as_unit (ZADD (available_jobs_by_queue_key R (job_queue j)) (job_score j) (job_id j)))
         else bindE (command R as_unit (ZREM (available_jobs_key R) (job_id j))) (\<lambda>_.
              command R as_unit (ZREM (available_jobs_by_queue_key R (job_queue j)) (job_id j)))) })))))"

definition remove_job_indices ::
  "('p, 'v, 'o, 'r) redis_storage \<Rightarrow> string \<Rightarrow> 'p job \<Rightarrow> ('r, 'e, storage_error + unit) act" where
  "remove_job_indices R i j =
     bindE (command R as_unit (SREM (state_index_key R (state_to_string (job_state j))) i)) (\<lambda>_.
     bindE (command R as_unit (SREM (all_jobs_key R) i)) (\<lambda>_.
     bindE (command R as_unit (ZREM (available_jobs_key R) i)) (\<lambda>_.
     bindE (command R as_unit (ZREM (available_jobs_by_queue_key R (job_queue j)) i)) (\<lambda>_.
     command R as_unit (HINCRBY (job_counts_key R) (state_to_string (job_state j)) (-1))))))"

section \<open>Lua scripts\<close>

text \<open>\<^verbatim>\<open>string.lower\<close>.\<close>

definition string_lower :: "string \<Rightarrow> string" where
  "string_lower s = map to_lower s"

text \<open>The name of a variant in the index keys.\<close>

definition variant_state_name :: "string \<Rightarrow> string" where
  "variant_state_name variant =
     (if variant = ''AwaitingRetry'' then ''awaiting_retry'' else string_lower variant)"

text \<open>The last steps of the two update scripts: the queue indices.\<close>

definition lua_set_available ::
  "('v, 'r) redis \<Rightarrow> string \<Rightarrow> string \<Rightarrow> f64 option \<Rightarrow> string \<Rightarrow> ('r, string + unit) state" where
  "lua_set_available D available_key by_queue_key new_score i =
     (case new_score of
        Some score \<Rightarrow>
          bindE (redis_call D (ZADD available_key score i)) (\<lambda>_.
          bindE (redis_call D (ZADD by_queue_key score i)) (\<lambda>_. ret (Inr ())))
      | None \<Rightarrow>
          bindE (redis_call D (ZREM available_key i)) (\<lambda>_.
          bindE (redis_call D (ZREM by_queue_key i)) (\<lambda>_. ret (Inr ()))))"

text \<open>The move of a job between two state sets, with the counters.\<close>

definition lua_move_state ::
  "('v, 'r) redis \<Rightarrow> string \<Rightarrow> string \<Rightarrow> string \<Rightarrow> string \<Rightarrow> string \<Rightarrow> ('r, string + unit) state" where
  "lua_move_state D state_key_prefix counts_key old_name new_name i =
     bindE (redis_call D (SREM (state_key_prefix @ old_name) i)) (\<lambda>_.
     bindE (redis_call D (SADD (state_key_prefix @ new_name) i)) (\<lambda>_.
     bindE (redis_call D (HINCRBY counts_key old_name (-1))) (\<lambda>_.
     bindE (redis_call D (HINCRBY counts_key new_name 1)) (\<lambda>_. ret (Inr ())))))"

text \<open>\<^verbatim>\<open>new_score\<close> and \<^verbatim>\<open>new_available\<close> are one optional score; the text of an \<^verbatim>\<open>f64\<close> reads back as the
  same number.\<close>

definition update_script ::
  "('p, 'v, 'o, 'r) redis_storage \<Rightarrow> string \<Rightarrow> string \<Rightarrow> 'v \<Rightarrow> f64 option \<Rightarrow> ('r, string + string) state" where
  "update_script R key new_state_name new_blob new_score =
     (let D = rs_redis R; C = rs_codec R in
      bindE (redis_call D (GET key)) (\<lambda>current.
      case current of
        R_bulk cur \<Rightarrow>
          bindE (ret (cjson_decode C cur)) (\<lambda>old_job.
          bindE (ret (tryE (lua_index old_job ''state'') lua_first_key)) (\<lambda>old_variant.
          let old_state_name = (case old_variant of None \<Rightarrow> [] | Some v \<Rightarrow> variant_state_name v) in
          bindE (ret (tryE (lua_index old_job ''queue'') (lua_text C))) (\<lambda>queue.
          bindE (redis_call D (SET key new_blob)) (\<lambda>_.
          bindE (ret (tryE (lua_index old_job ''id'') (lua_text C))) (\<lambda>i.
          bindE (redis_call D (SADD (all_jobs_key R) i)) (\<lambda>_.
          bindE (if old_state_name \<noteq> new_state_name
                 then lua_move_state D (state_index_key R []) (job_counts_key R) old_state_name new_state_name i
                 else ret (Inr ())) (\<lambda>_.
          bindE (lua_set_available D (available_jobs_key R) (available_jobs_by_queue_key R queue) new_score i) (\<lambda>_.
          ret (Inr ''ok'')))))))))
      | _ \<Rightarrow> ret (Inr ''missing'')))"

definition update_if_state_script ::
  "('p, 'v, 'o, 'r) redis_storage \<Rightarrow> string \<Rightarrow> string \<Rightarrow> string \<Rightarrow> 'v \<Rightarrow> f64 option
     \<Rightarrow> ('r, string + string) state" where
  "update_if_state_script R key expected_variant new_variant new_blob new_score =
     (let D = rs_redis R; C = rs_codec R in
      bindE (redis_call D (GET key)) (\<lambda>current.
      case current of
        R_bulk cur \<Rightarrow>
          bindE (ret (cjson_decode C cur)) (\<lambda>job.
          bindE (ret (tryE (lua_index job ''state'') (\<lambda>st. lua_index st expected_variant))) (\<lambda>outer.
          if \<not> lua_true outer then ret (Inr ''mismatch'')
          else
            bindE (ret (tryE (lua_index job ''queue'') (lua_text C))) (\<lambda>queue.
            bindE (redis_call D (SET key new_blob)) (\<lambda>_.
            bindE (ret (tryE (lua_index job ''id'') (lua_text C))) (\<lambda>i.
            bindE (if expected_variant \<noteq> new_variant
                   then lua_move_state D (state_index_key R []) (job_counts_key R)
                          (variant_state_name expected_variant) (variant_state_name new_variant) i
                   else ret (Inr ())) (\<lambda>_.
            bindE (lua_set_available D (available_jobs_key R) (available_jobs_by_queue_key R queue) new_score i) (\<lambda>_.
            ret (Inr ''ok''))))))))
      | _ \<Rightarrow> ret (Inr ''missing'')))"

text \<open>A due candidate of the claim script.\<close>

record 'o lua_entry =
  le_id :: string
  le_priority :: f64
  le_created_at :: string
  le_parsed :: "'o lua"

definition lua_due :: "string \<Rightarrow> string \<Rightarrow> string \<Rightarrow> 'o lua \<Rightarrow> string + bool" where
  "lua_due variant time_field now_iso job =
     tryE (lua_index job ''state'') (\<lambda>st.
     tryE (lua_index st variant) (\<lambda>outer.
     if \<not> lua_true outer then Inr False
     else tryE (lua_index outer time_field) (\<lambda>t.
       if \<not> lua_true t then Inr False
       else (case t of L_str s \<Rightarrow> Inr (s \<le> now_iso) | _ \<Rightarrow> Inl ''attempt to compare values''))))"

definition lua_or :: "'o lua \<Rightarrow> 'o lua \<Rightarrow> 'o lua" where
  "lua_or a b = (if lua_true a then a else b)"

definition lua_entry_of :: "('p, 'v, 'o) codec \<Rightarrow> string \<Rightarrow> 'o lua \<Rightarrow> string + 'o lua_entry" where
  "lua_entry_of C i job =
     tryE (lua_index job ''priority'') (\<lambda>p.
     tryE (lua_index job ''created_at'') (\<lambda>c.
     tryE (lua_number (lua_or p (L_num (Fin 0)))) (\<lambda>prio.
     tryE (lua_text C (lua_or c (L_str []))) (\<lambda>created.
     Inr \<lparr>le_id = i, le_priority = prio, le_created_at = created, le_parsed = job\<rparr>))))"

fun lua_collect_due ::
  "('p, 'v, 'o, 'r) redis_storage \<Rightarrow> string \<Rightarrow> string \<Rightarrow> string \<Rightarrow> string \<Rightarrow> string list
     \<Rightarrow> ('r, string + 'o lua_entry list) state" where
  "lua_collect_due R from_state_key variant time_field now_iso [] = ret (Inr [])"
| "lua_collect_due R from_state_key variant time_field now_iso (i # is) =
     bindE (redis_call (rs_redis R) (GET (job_key R i))) (\<lambda>job_data.
     case job_data of
       R_bulk d \<Rightarrow>
         bindE (ret (cjson_decode (rs_codec R) d)) (\<lambda>job.
         bindE (ret (lua_due variant time_field now_iso job)) (\<lambda>due.
         if due
         then bindE (ret (lua_entry_of (rs_codec R) i job)) (\<lambda>e.
              bindE (lua_collect_due R from_state_key variant time_field now_iso is) (\<lambda>es.
              ret (Inr (e # es))))
         else lua_collect_due R from_state_key variant time_field now_iso is))
     | _ \<Rightarrow>
         bindE (redis_call (rs_redis R) (SREM from_state_key i)) (\<lambda>_.
         lua_collect_due R from_state_key variant time_field now_iso is))"

fun f64_neg :: "f64 \<Rightarrow> f64" where
  "f64_neg (Fin x) = Fin (- x)"
| "f64_neg (Infinity s) = Infinity (\<not> s)"
| "f64_neg NaN = NaN"

text \<open>\<^verbatim>\<open>table.sort\<close> by descending priority, then creation time. It is not stable, but the candidates come
  in the unspecified order of \<^verbatim>\<open>SMEMBERS\<close>, so any order of ties is one of a stable sort.\<close>

definition lua_sort_due :: "'o lua_entry list \<Rightarrow> 'o lua_entry list" where
  "lua_sort_due es = sort_key (\<lambda>e. (f64_neg (le_priority e), le_created_at e)) es"

definition lua_claim_entry ::
  "('p, 'v, 'o, 'r) redis_storage \<Rightarrow> string \<Rightarrow> string \<Rightarrow> string \<Rightarrow> 'o lua_entry \<Rightarrow> ('r, string + 'v) state" where
  "lua_claim_entry R from_state_key from_state_name now_iso e =
     (let D = rs_redis R; C = rs_codec R; i = le_id e in
      bindE (ret (lua_index (le_parsed e) ''queue'')) (\<lambda>queue.
      let job = lua_with_state (lua_enqueued now_iso queue) now_iso (le_parsed e) in
      bindE (ret (cjson_encode C job)) (\<lambda>new_data.
      bindE (redis_call D (SET (job_key R i) new_data)) (\<lambda>_.
      bindE (redis_call D (SREM from_state_key i)) (\<lambda>_.
      bindE (redis_call D (SADD (state_index_key R ''enqueued'') i)) (\<lambda>_.
      bindE (redis_call D (ZADD (available_jobs_key R) (le_priority e) i)) (\<lambda>_.
      bindE (ret (lua_text C queue)) (\<lambda>q.
      bindE (redis_call D (ZADD (available_jobs_by_queue_key R q) (le_priority e) i)) (\<lambda>_.
      bindE (redis_call D (HINCRBY (job_counts_key R) from_state_name (-1))) (\<lambda>_.
      bindE (redis_call D (HINCRBY (job_counts_key R) ''enqueued'' 1)) (\<lambda>_.
      ret (Inr new_data))))))))))))"

fun lua_claim_entries ::
  "('p, 'v, 'o, 'r) redis_storage \<Rightarrow> string \<Rightarrow> string \<Rightarrow> string \<Rightarrow> 'o lua_entry list
     \<Rightarrow> ('r, string + 'v list) state" where
  "lua_claim_entries R from_state_key from_state_name now_iso [] = ret (Inr [])"
| "lua_claim_entries R from_state_key from_state_name now_iso (e # es) =
     bindE (lua_claim_entry R from_state_key from_state_name now_iso e) (\<lambda>new_data.
     bindE (lua_claim_entries R from_state_key from_state_name now_iso es) (\<lambda>claimed.
     ret (Inr (new_data # claimed))))"

text \<open>\<^verbatim>\<open>as i64\<close> and \<^verbatim>\<open>as isize\<close> of a \<^verbatim>\<open>usize\<close>.\<close>

definition as_i64 :: "nat \<Rightarrow> int" where
  "as_i64 n = (let m = int (n mod 2 ^ 64) in if m < 2 ^ 63 then m else m - 2 ^ 64)"

definition claim_script ::
  "('p, 'v, 'o, 'r) redis_storage \<Rightarrow> string \<Rightarrow> string \<Rightarrow> string \<Rightarrow> string \<Rightarrow> int
     \<Rightarrow> ('r, string + 'v list) state" where
  "claim_script R from_state_name variant time_field now_iso limit =
     (let from_state_key = state_index_key R from_state_name in
      bindE (bindE (redis_call (rs_redis R) (SMEMBERS from_state_key)) (\<lambda>x. ret (as_members x))) (\<lambda>candidate_ids.
      bindE (lua_collect_due R from_state_key variant time_field now_iso candidate_ids) (\<lambda>due.
      let n = min limit (int (length due)) in
      lua_claim_entries R from_state_key from_state_name now_iso (take (nat n) (lua_sort_due due)))))"

fun parse_jobs :: "('p, 'v, 'o) codec \<Rightarrow> string \<Rightarrow> 'v list \<Rightarrow> storage_error + 'p job list" where
  "parse_jobs C msg [] = Inr []"
| "parse_jobs C msg (v # vs) =
     (case job_of_json C v of
        Inl e \<Rightarrow> Inl (serialization_with_source msg e)
      | Inr j \<Rightarrow> tryE (parse_jobs C msg vs) (\<lambda>js. Inr (j # js)))"

definition claim_due_jobs_lua ::
  "('p, 'v, 'o, 'r) redis_storage \<Rightarrow> string \<Rightarrow> string \<Rightarrow> string \<Rightarrow> time \<Rightarrow> nat
     \<Rightarrow> ('r, 'e, storage_error + 'p job list) act" where
  "claim_due_jobs_lua R from_state_str variant time_field now limit =
     (if limit = 0 then ret (Inr [])
      else
        bindE (invoke_script R (''Failed to claim due '' @ from_state_str @ '' jobs'')
                 (claim_script R from_state_str variant time_field
                    (rfc3339_micros (rs_codec R) now) (as_i64 limit))) (\<lambda>result.
        ret (parse_jobs (rs_codec R) (''Failed to parse claimed '' @ from_state_str @ '' job'') result)))"

text \<open>The best head of the candidate sets: strictly higher scores win, so the first of equals.\<close>

fun lua_best ::
  "('v, 'r) redis \<Rightarrow> string list \<Rightarrow> string option \<times> f64 \<Rightarrow> ('r, string + string option) state" where
  "lua_best D [] best = ret (Inr (fst best))"
| "lua_best D (k # ks) best =
     bindE (redis_call D (ZREVRANGE_WITHSCORES k 0 0)) (\<lambda>top.
     case top of
       R_scored ((i, score) # _) \<Rightarrow>
         lua_best D ks (if snd best < score then (Some i, score) else best)
     | _ \<Rightarrow> lua_best D ks best)"

fun lua_zrem_all :: "('v, 'r) redis \<Rightarrow> string list \<Rightarrow> string \<Rightarrow> ('r, string + unit) state" where
  "lua_zrem_all D [] i = ret (Inr ())"
| "lua_zrem_all D (k # ks) i = bindE (redis_call D (ZREM k i)) (\<lambda>_. lua_zrem_all D ks i)"

text \<open>The stale entry of the index is dropped from the sets scanned and from the global one.\<close>

definition lua_drop_stale ::
  "('p, 'v, 'o, 'r) redis_storage \<Rightarrow> string list \<Rightarrow> string \<Rightarrow> ('r, string + 'v option) state" where
  "lua_drop_stale R candidate_keys i =
     bindE (lua_zrem_all (rs_redis R) candidate_keys i) (\<lambda>_.
     bindE (redis_call (rs_redis R) (ZREM (available_jobs_key R) i)) (\<lambda>_. ret (Inr None)))"

text \<open>The transition to \<open>Processing\<close>, from the state set \<open>old_state_name\<close>.\<close>

definition lua_start_job ::
  "('p, 'v, 'o, 'r) redis_storage \<Rightarrow> string \<Rightarrow> string \<Rightarrow> string \<Rightarrow> 'o lua \<Rightarrow> string
     \<Rightarrow> ('r, string + 'v option) state" where
  "lua_start_job R worker_id now_iso i job old_state_name =
     (let D = rs_redis R; C = rs_codec R;
          job' = lua_with_state (lua_processing worker_id now_iso) now_iso job in
      bindE (ret (cjson_encode C job')) (\<lambda>new_job_data.
      bindE (redis_call D (SET (job_key R i) new_job_data)) (\<lambda>_.
      bindE (redis_call D (ZREM (available_jobs_key R) i)) (\<lambda>_.
      bindE (ret (tryE (lua_index job ''queue'') (lua_text C))) (\<lambda>queue.
      bindE (redis_call D (ZREM (available_jobs_by_queue_key R queue) i)) (\<lambda>_.
      bindE (lua_move_state D (state_index_key R []) (job_counts_key R) old_state_name ''processing'' i) (\<lambda>_.
      ret (Inr (Some new_job_data)))))))))"

text \<open>The candidate the scan has found: started when it is enqueued or awaits a retry, dropped otherwise.\<close>

definition lua_take_job ::
  "('p, 'v, 'o, 'r) redis_storage \<Rightarrow> string list \<Rightarrow> string \<Rightarrow> string \<Rightarrow> string
     \<Rightarrow> ('r, string + 'v option) state" where
  "lua_take_job R candidate_keys worker_id now_iso i =
     bindE (redis_call (rs_redis R) (GET (job_key R i))) (\<lambda>job_data.
     case job_data of
       R_bulk d \<Rightarrow>
         bindE (ret (cjson_decode (rs_codec R) d)) (\<lambda>job.
         bindE (ret (lua_index job ''state'')) (\<lambda>st.
         bindE (ret (lua_index st ''Enqueued'')) (\<lambda>enq.
         bindE (ret (lua_index st ''AwaitingRetry'')) (\<lambda>retry.
         if enq = L_nil \<and> retry = L_nil then lua_drop_stale R candidate_keys i
         else lua_start_job R worker_id now_iso i job
                (if enq \<noteq> L_nil then ''enqueued'' else ''awaiting_retry'')))))
     | _ \<Rightarrow> lua_drop_stale R candidate_keys i)"

definition fetch_script ::
  "('p, 'v, 'o, 'r) redis_storage \<Rightarrow> string list \<Rightarrow> string \<Rightarrow> string \<Rightarrow> ('r, string + 'v option) state" where
  "fetch_script R candidate_keys worker_id now_iso =
     bindE (lua_best (rs_redis R) candidate_keys (None, Infinity True)) (\<lambda>best.
     case best of
       None \<Rightarrow> ret (Inr None)
     | Some i \<Rightarrow> lua_take_job R candidate_keys worker_id now_iso i)"

section \<open>\<^verbatim>\<open>MonitoringApi\<close>\<close>

definition redis_get ::
  "('p, 'v, 'o, 'r) redis_storage \<Rightarrow> string \<Rightarrow> ('r, 'e, storage_error + 'p job option) act" where
  "redis_get R i =
     bindE (command R as_value (GET (job_key R i))) (\<lambda>job_json.
     ret (case job_json of
            None \<Rightarrow> Inr None
          | Some json \<Rightarrow>
              (case job_of_json (rs_codec R) json of
                 Inl e \<Rightarrow> Inl (serialization_with_source ''Failed to deserialize job'' e)
               | Inr j \<Rightarrow> Inr (Some j))))"

definition job_blob :: "('p, 'v, 'o, 'r) redis_storage \<Rightarrow> 'p job \<Rightarrow> storage_error + 'v" where
  "job_blob R j =
     (case job_to_json (rs_codec R) j of
        Inl e \<Rightarrow> Inl (serialization_with_source ''Failed to serialize job'' e)
      | Inr v \<Rightarrow> Inr v)"

definition redis_update ::
  "('p, 'v, 'o, 'r) redis_storage \<Rightarrow> 'p job \<Rightarrow> ('r, 'e, storage_error + unit) act" where
  "redis_update R j =
     bindE (ret (job_blob R j)) (\<lambda>new_blob. do {
       avail \<leftarrow> is_job_available j;
       bindE (invoke_script R ''Failed to update job''
                (update_script R (job_key R (job_id j)) (state_to_string (job_state j)) new_blob
                   (if avail then Some (job_score j) else None))) (\<lambda>result.
       ret (if result = ''ok'' then Inr ()
            else if result = ''missing'' then Inl (job_not_found (job_id j))
            else Inl (SE_OperationFailed (''Unexpected update response: '' @ result) None))) })"

definition redis_update_if_state ::
  "('p, 'v, 'o, 'r) redis_storage \<Rightarrow> 'p job \<Rightarrow> job_state_kind \<Rightarrow> ('r, 'e, storage_error + bool) act" where
  "redis_update_if_state R j expected =
     bindE (ret (job_blob R j)) (\<lambda>new_blob. do {
       avail \<leftarrow> is_job_available j;
       bindE (invoke_script R ''Failed to update_if_state job''
                (update_if_state_script R (job_key R (job_id j)) (kind_name expected)
                   (kind_name (kind (job_state j))) new_blob
                   (if avail then Some (job_score j) else None))) (\<lambda>result.
       ret (if result = ''ok'' then Inr True
            else if result = ''mismatch'' then Inr False
            else if result = ''missing'' then Inl (job_not_found (job_id j))
            else Inl (SE_OperationFailed (''Unexpected update_if_state response: '' @ result) None))) })"

definition redis_delete ::
  "('p, 'v, 'o, 'r) redis_storage \<Rightarrow> string \<Rightarrow> ('r, 'e, storage_error + bool) act" where
  "redis_delete R i =
     bindE (redis_get R i) (\<lambda>job.
     case job of
       None \<Rightarrow> ret (Inr False)
     | Some j \<Rightarrow>
         bindE (command R as_int (DEL (job_key R i))) (\<lambda>deleted.
         if 0 < deleted then bindE (remove_job_indices R i j) (\<lambda>_. ret (Inr True))
         else ret (Inr False)))"

fun redis_get_each ::
  "('p, 'v, 'o, 'r) redis_storage \<Rightarrow> string list \<Rightarrow> ('r, 'e, storage_error + 'p job list) act" where
  "redis_get_each R [] = ret (Inr [])"
| "redis_get_each R (i # is) =
     bindE (redis_get R i) (\<lambda>job.
     bindE (redis_get_each R is) (\<lambda>js.
     ret (Inr (case job of None \<Rightarrow> js | Some j \<Rightarrow> j # js))))"

text \<open>\<open>None\<close> is the panic of the slice when the wrapped \<open>start + limit\<close> lies before \<open>start\<close>.\<close>

definition redis_list ::
  "('p, 'v, 'o, 'r) redis_storage \<Rightarrow> job_state_kind option \<Rightarrow> nat option \<Rightarrow> nat option
     \<Rightarrow> ('r, 'e, (storage_error + 'p job list) option) act" where
  "redis_list R state_filter limit offset = do {
     r \<leftarrow> bindE (command R as_members (SMEMBERS
            (case state_filter of
               Some k \<Rightarrow> state_index_key R (kind_to_state_name k) | None \<Rightarrow> all_jobs_key R)))
          (redis_get_each R);
     ret (case r of
            Inl e \<Rightarrow> Some (Inl e)
          | Inr js \<Rightarrow>
              (let sorted = sort_key (\<lambda>j. - job_created_at j) js;
                   start = (case offset of None \<Rightarrow> 0 | Some n \<Rightarrow> n);
                   stop = (case limit of
                             Some n \<Rightarrow> min ((start + n) mod 2 ^ 64) (length sorted)
                           | None \<Rightarrow> length sorted)
               in if start \<ge> length sorted then Some (Inr [])
                  else if start > stop then None
                  else Some (Inr (take (stop - start) (drop start sorted))))) }"

definition kind_of_state_name :: "string \<Rightarrow> job_state_kind option" where
  "kind_of_state_name s =
     (if s = ''enqueued'' then Some KEnqueued
      else if s = ''processing'' then Some KProcessing
      else if s = ''succeeded'' then Some KSucceeded
      else if s = ''failed'' then Some KFailed
      else if s = ''deleted'' then Some KDeleted
      else if s = ''scheduled'' then Some KScheduled
      else if s = ''awaiting_retry'' then Some KAwaitingRetry
      else None)"

fun counts_of :: "(string \<times> int) list \<Rightarrow> (job_state_kind, nat) hmap \<Rightarrow> (job_state_kind, nat) hmap" where
  "counts_of [] counts = counts"
| "counts_of ((state_str, n) # fs) counts =
     counts_of fs
       (if 0 < n
        then (case kind_of_state_name state_str of
                None \<Rightarrow> counts | Some k \<Rightarrow> hm_insert k (nat n) counts)
        else counts)"

definition redis_get_job_counts ::
  "('p, 'v, 'o, 'r) redis_storage \<Rightarrow> ('r, 'e, storage_error + (job_state_kind, nat) hmap) act" where
  "redis_get_job_counts R =
     bindE (command R as_i32_fields (HGETALL (job_counts_key R))) (\<lambda>raw_counts.
     ret (Inr (counts_of raw_counts [])))"

section \<open>\<^verbatim>\<open>JobStore\<close>\<close>

definition redis_enqueue ::
  "('p, 'v, 'o, 'r) redis_storage \<Rightarrow> 'p job \<Rightarrow> ('r, 'e, storage_error + unit) act" where
  "redis_enqueue R j =
     bindE (ret (job_blob R j)) (\<lambda>job_json.
     bindE (command R as_unit (SET (job_key R (job_id j)) job_json)) (\<lambda>_.
     update_job_indices R j None))"

text \<open>The length is compared after a push, so the limit 0 does not stop the loop at once.\<close>

fun get_available_each ::
  "('p, 'v, 'o, 'r) redis_storage \<Rightarrow> nat option \<Rightarrow> string list \<Rightarrow> 'p job list
     \<Rightarrow> ('r, 'e, storage_error + 'p job list) act" where
  "get_available_each R limit [] jobs = ret (Inr jobs)"
| "get_available_each R limit (i # is) jobs =
     bindE (redis_get R i) (\<lambda>job.
     case job of
       None \<Rightarrow> get_available_each R limit is jobs
     | Some j \<Rightarrow> do {
         avail \<leftarrow> is_job_available j;
         (if \<not> avail then get_available_each R limit is jobs
          else if (case limit of None \<Rightarrow> False | Some n \<Rightarrow> n \<le> length jobs + 1)
          then ret (Inr (jobs @ [j]))
          else get_available_each R limit is (jobs @ [j])) })"

definition redis_get_available_jobs ::
  "('p, 'v, 'o, 'r) redis_storage \<Rightarrow> nat option \<Rightarrow> ('r, 'e, storage_error + 'p job list) act" where
  "redis_get_available_jobs R limit =
     bindE (command R as_members (ZREVRANGE (available_jobs_key R) 0
        (case limit of Some n \<Rightarrow> as_i64 n - 1 | None \<Rightarrow> -1))) (\<lambda>job_ids.
     get_available_each R limit job_ids [])"

definition redis_fetch_due ::
  "('p, 'v, 'o, 'r) redis_storage \<Rightarrow> string \<Rightarrow> (job_state \<Rightarrow> bool) \<Rightarrow> nat
     \<Rightarrow> ('r, 'e, storage_error + 'p job list) act" where
  "redis_fetch_due R state due limit =
     bindE (command R as_members (SMEMBERS (state_index_key R state))) (\<lambda>job_ids.
     bindE (redis_get_each R job_ids) (\<lambda>js.
     ret (Inr (take limit (sort_key prio_key (filter (\<lambda>j. due (job_state j)) js))))))"

definition redis_fetch_due_scheduled_jobs ::
  "('p, 'v, 'o, 'r) redis_storage \<Rightarrow> time \<Rightarrow> nat \<Rightarrow> ('r, 'e, storage_error + 'p job list) act" where
  "redis_fetch_due_scheduled_jobs R now limit = redis_fetch_due R ''scheduled'' (due_scheduled now) limit"

definition redis_fetch_due_retry_jobs ::
  "('p, 'v, 'o, 'r) redis_storage \<Rightarrow> time \<Rightarrow> nat \<Rightarrow> ('r, 'e, storage_error + 'p job list) act" where
  "redis_fetch_due_retry_jobs R now limit = redis_fetch_due R ''awaiting_retry'' (due_retry now) limit"

definition redis_claim_due_scheduled_jobs ::
  "('p, 'v, 'o, 'r) redis_storage \<Rightarrow> time \<Rightarrow> nat \<Rightarrow> ('r, 'e, storage_error + 'p job list) act" where
  "redis_claim_due_scheduled_jobs R now limit =
     claim_due_jobs_lua R ''scheduled'' ''Scheduled'' ''enqueue_at'' now limit"

definition redis_claim_due_retry_jobs ::
  "('p, 'v, 'o, 'r) redis_storage \<Rightarrow> time \<Rightarrow> nat \<Rightarrow> ('r, 'e, storage_error + 'p job list) act" where
  "redis_claim_due_retry_jobs R now limit =
     claim_due_jobs_lua R ''awaiting_retry'' ''AwaitingRetry'' ''retry_at'' now limit"

fun delete_expired_each ::
  "('p, 'v, 'o, 'r) redis_storage \<Rightarrow> time \<Rightarrow> string list \<Rightarrow> ('r, 'e, storage_error + nat) act" where
  "delete_expired_each R now [] = ret (Inr 0)"
| "delete_expired_each R now (i # is) =
     bindE (command R as_value (GET (job_key R i))) (\<lambda>json.
     case json of
       None \<Rightarrow> delete_expired_each R now is
     | Some s \<Rightarrow>
         (case job_of_json (rs_codec R) s of
            Inl _ \<Rightarrow> delete_expired_each R now is
          | Inr j \<Rightarrow>
              if (case job_expires_at j of Some ts \<Rightarrow> ts < now | None \<Rightarrow> False)
              then bindE (remove_job_indices R i j) (\<lambda>_.
                   bindE (command R as_int (DEL (job_key R i))) (\<lambda>_.
                   bindE (delete_expired_each R now is) (\<lambda>removed.
                   ret (Inr (Suc removed)))))
              else delete_expired_each R now is))"

definition redis_delete_expired_jobs ::
  "('p, 'v, 'o, 'r) redis_storage \<Rightarrow> time \<Rightarrow> ('r, 'e, storage_error + nat) act" where
  "redis_delete_expired_jobs R now =
     bindE (command R as_members (SMEMBERS (all_jobs_key R))) (delete_expired_each R now)"

section \<open>\<^verbatim>\<open>JobLocker\<close>\<close>

text \<open>The loop shared by the stale sweep and the peer reclaim.\<close>

fun redis_requeue_each ::
  "('p, 'v, 'o, 'r) redis_storage \<Rightarrow> (job_state \<Rightarrow> bool) \<Rightarrow> string list \<Rightarrow> ('r, 'e, storage_error + nat) act" where
  "redis_requeue_each R P [] = ret (Inr 0)"
| "redis_requeue_each R P (i # is) =
     bindE (redis_get R i) (\<lambda>job.
     case job of
       None \<Rightarrow> redis_requeue_each R P is
     | Some j \<Rightarrow>
         if \<not> P (job_state j) then redis_requeue_each R P is
         else do {
           st \<leftarrow> js_enqueued (job_queue j);
           bindE (redis_update R (j\<lparr>job_state := st\<rparr>)) (\<lambda>_.
           bindE (redis_requeue_each R P is) (\<lambda>n.
           ret (Inr (Suc n)))) })"

definition redis_requeue_stranded_jobs ::
  "('p, 'v, 'o, 'r) redis_storage \<Rightarrow> time \<Rightarrow> ('r, 'e, storage_error + nat) act" where
  "redis_requeue_stranded_jobs R stale_before =
     bindE (command R as_members (SMEMBERS (state_index_key R ''processing'')))
       (redis_requeue_each R (stranded stale_before))"

definition candidate_keys ::
  "('p, 'v, 'o, 'r) redis_storage \<Rightarrow> string list option \<Rightarrow> string list" where
  "candidate_keys R queues =
     (case queues of
        Some qs \<Rightarrow> if qs \<noteq> [] then map (available_jobs_by_queue_key R) qs else [available_jobs_key R]
      | None \<Rightarrow> [available_jobs_key R])"

definition redis_fetch_and_lock_job ::
  "('p, 'v, 'o, 'r) redis_storage \<Rightarrow> string \<Rightarrow> string list option
     \<Rightarrow> ('r, 'e, storage_error + 'p job option) act" where
  "redis_fetch_and_lock_job R worker_id queues = do {
     now \<leftarrow> utc_now;
     bindE (invoke_script R ''Failed to fetch and lock job''
              (fetch_script R (candidate_keys R queues) worker_id (rfc3339_micros (rs_codec R) now)))
       (\<lambda>result.
        ret (case result of
               None \<Rightarrow> Inr None
             | Some json \<Rightarrow>
                 (case job_of_json (rs_codec R) json of
                    Inl e \<Rightarrow> Inl (serialization_with_source ''Failed to parse job'' e)
                  | Inr j \<Rightarrow> Inr (Some j)))) }"

definition redis_try_acquire_job_lock ::
  "('p, 'v, 'o, 'r) redis_storage \<Rightarrow> string \<Rightarrow> string \<Rightarrow> u64 \<Rightarrow> ('r, 'e, storage_error + bool) act" where
  "redis_try_acquire_job_lock R i worker_id timeout_seconds =
     command R as_is_some
       (SET_NX_EX (job_lock_key i) (bytes (rs_codec R) worker_id) (int (unat timeout_seconds)))"

text \<open>The owner-checked deletion of both kinds of locks.\<close>

definition release_script ::
  "('v, 'r) redis \<Rightarrow> string \<Rightarrow> 'v \<Rightarrow> ('r, string + int) state" where
  "release_script D lock_key owner =
     bindE (redis_call D (GET lock_key)) (\<lambda>cur.
     if cur = R_bulk owner
     then bindE (redis_call D (DEL lock_key)) (\<lambda>_. ret (Inr 1))
     else ret (Inr 0))"

definition redis_release_job_lock ::
  "('p, 'v, 'o, 'r) redis_storage \<Rightarrow> string \<Rightarrow> string \<Rightarrow> ('r, 'e, storage_error + bool) act" where
  "redis_release_job_lock R i worker_id =
     bindE (invoke_script R ''Failed to release job lock''
              (release_script (rs_redis R) (job_lock_key i) (bytes (rs_codec R) worker_id)))
       (\<lambda>result. ret (Inr (result = 1)))"

fun redis_fetch_up_to ::
  "('p, 'v, 'o, 'r) redis_storage \<Rightarrow> nat \<Rightarrow> string \<Rightarrow> string list option
     \<Rightarrow> ('r, 'e, storage_error + 'p job list) act" where
  "redis_fetch_up_to R 0 worker_id queues = ret (Inr [])"
| "redis_fetch_up_to R (Suc n) worker_id queues =
     bindE (redis_fetch_and_lock_job R worker_id queues) (\<lambda>job.
     case job of
       None \<Rightarrow> ret (Inr [])
     | Some j \<Rightarrow>
         bindE (redis_fetch_up_to R n worker_id queues) (\<lambda>js. ret (Inr (j # js))))"

definition redis_fetch_available_jobs_atomic ::
  "('p, 'v, 'o, 'r) redis_storage \<Rightarrow> string \<Rightarrow> nat option \<Rightarrow> string list option
     \<Rightarrow> ('r, 'e, storage_error + 'p job list) act" where
  "redis_fetch_available_jobs_atomic R worker_id limit queues =
     redis_fetch_up_to R (min (case limit of None \<Rightarrow> 10 | Some n \<Rightarrow> n) 50) worker_id queues"

section \<open>\<^verbatim>\<open>RecurringStore\<close>\<close>

definition redis_upsert_recurring_job ::
  "('p, 'v, 'o, 'r) redis_storage \<Rightarrow> 'p recurring_job \<Rightarrow> ('r, 'e, storage_error + unit) act" where
  "redis_upsert_recurring_job R r =
     bindE (ret (case recurring_to_json (rs_codec R) r of
                   Inl e \<Rightarrow> Inl (serialization_with_source ''Failed to serialize recurring job'' e)
                 | Inr v \<Rightarrow> Inr v)) (\<lambda>json.
     bindE (command R as_unit (SET (recurring_key R (rj_id r)) json)) (\<lambda>_.
     command R as_unit
       (ZADD (recurring_index_key R) (f64_of_int (timestamp_millis (rj_next_run_at r))) (rj_id r))))"

definition redis_remove_recurring_job ::
  "('p, 'v, 'o, 'r) redis_storage \<Rightarrow> string \<Rightarrow> ('r, 'e, storage_error + bool) act" where
  "redis_remove_recurring_job R i =
     bindE (command R as_int (DEL (recurring_key R i))) (\<lambda>removed.
     bindE (command R as_int (ZREM (recurring_index_key R) i)) (\<lambda>_.
     ret (Inr (0 < removed))))"

definition parse_recurring :: "('p, 'v, 'o, 'r) redis_storage \<Rightarrow> 'v \<Rightarrow> storage_error + 'p recurring_job" where
  "parse_recurring R v =
     (case recurring_of_json (rs_codec R) v of
        Inl e \<Rightarrow> Inl (serialization_with_source ''Failed to parse recurring job'' e)
      | Inr r \<Rightarrow> Inr r)"

fun list_recurring_each ::
  "('p, 'v, 'o, 'r) redis_storage \<Rightarrow> string list \<Rightarrow> ('r, 'e, storage_error + 'p recurring_job list) act" where
  "list_recurring_each R [] = ret (Inr [])"
| "list_recurring_each R (i # is) =
     bindE (command R as_value (GET (recurring_key R i))) (\<lambda>json.
     case json of
       None \<Rightarrow> list_recurring_each R is
     | Some s \<Rightarrow>
         bindE (ret (parse_recurring R s)) (\<lambda>r.
         bindE (list_recurring_each R is) (\<lambda>rs. ret (Inr (r # rs)))))"

definition redis_list_recurring_jobs ::
  "('p, 'v, 'o, 'r) redis_storage \<Rightarrow> ('r, 'e, storage_error + 'p recurring_job list) act" where
  "redis_list_recurring_jobs R =
     bindE (command R as_members (ZRANGE (recurring_index_key R) 0 (-1))) (\<lambda>ids.
     bindE (list_recurring_each R ids) (\<lambda>out. ret (Inr (sort_key rj_id out))))"

text \<open>The claim key lives for 60 seconds and is never deleted.\<close>

fun fetch_recurring_each ::
  "('p, 'v, 'o, 'r) redis_storage \<Rightarrow> time \<Rightarrow> nat \<Rightarrow> string list \<Rightarrow> 'p recurring_job list
     \<Rightarrow> ('r, 'e, storage_error + 'p recurring_job list) act" where
  "fetch_recurring_each R now limit [] claimed = ret (Inr claimed)"
| "fetch_recurring_each R now limit (i # is) claimed =
     bindE (command R as_is_some
              (SET_NX_EX (recurring_claim_key R i) (bytes (rs_codec R) ''1'') 60)) (\<lambda>claimed_ok.
     if \<not> claimed_ok then fetch_recurring_each R now limit is claimed
     else
       bindE (command R as_value (GET (recurring_key R i))) (\<lambda>json.
       case json of
         None \<Rightarrow> fetch_recurring_each R now limit is claimed
       | Some s \<Rightarrow>
           bindE (ret (parse_recurring R s)) (\<lambda>r.
           if \<not> rj_enabled r \<or> now < rj_next_run_at r
           then fetch_recurring_each R now limit is claimed
           else
             bindE (command R as_unit
                      (ZADD (recurring_index_key R)
                        (f64_of_int (timestamp_millis (now + dur_days 3650))) i)) (\<lambda>_.
             if limit \<le> length claimed + 1 then ret (Inr (claimed @ [r]))
             else fetch_recurring_each R now limit is (claimed @ [r])))))"

definition redis_fetch_due_recurring_jobs ::
  "('p, 'v, 'o, 'r) redis_storage \<Rightarrow> time \<Rightarrow> nat \<Rightarrow> ('r, 'e, storage_error + 'p recurring_job list) act" where
  "redis_fetch_due_recurring_jobs R now limit =
     bindE (command R as_members
              (ZRANGEBYSCORE_LIMIT (recurring_index_key R) (Infinity True)
                 (f64_of_int (timestamp_millis now)) 0 (as_i64 limit))) (\<lambda>ids.
     fetch_recurring_each R now limit ids [])"

section \<open>\<^verbatim>\<open>ServerRegistry\<close>\<close>

definition server_blob :: "('p, 'v, 'o, 'r) redis_storage \<Rightarrow> server_info \<Rightarrow> storage_error + 'v" where
  "server_blob R info =
     (case server_to_json (rs_codec R) info of
        Inl e \<Rightarrow> Inl (serialization_with_source ''Failed to serialize ServerInfo'' e)
      | Inr v \<Rightarrow> Inr v)"

definition redis_register_server ::
  "('p, 'v, 'o, 'r) redis_storage \<Rightarrow> server_info \<Rightarrow> ('r, 'e, storage_error + unit) act" where
  "redis_register_server R info =
     bindE (ret (server_blob R info)) (\<lambda>json.
     bindE (command R as_unit (SET (server_key R (si_server_id info)) json)) (\<lambda>_.
     command R as_unit (SADD (servers_index_key R) (si_server_id info))))"

definition redis_heartbeat_server ::
  "('p, 'v, 'o, 'r) redis_storage \<Rightarrow> string \<Rightarrow> time \<Rightarrow> ('r, 'e, storage_error + bool) act" where
  "redis_heartbeat_server R sid now =
     bindE (command R as_value (GET (server_key R sid))) (\<lambda>json.
     case json of
       None \<Rightarrow> ret (Inr False)
     | Some s \<Rightarrow>
         bindE (ret (case server_of_json (rs_codec R) s of
                       Inl e \<Rightarrow> Inl (serialization_with_source ''Failed to parse ServerInfo'' e)
                     | Inr info \<Rightarrow> Inr info)) (\<lambda>info.
         bindE (ret (server_blob R (info\<lparr>si_last_heartbeat := now\<rparr>))) (\<lambda>updated.
         bindE (command R as_unit (SET (server_key R sid) updated)) (\<lambda>_.
         ret (Inr True)))))"

definition redis_deregister_server ::
  "('p, 'v, 'o, 'r) redis_storage \<Rightarrow> string \<Rightarrow> ('r, 'e, storage_error + bool) act" where
  "redis_deregister_server R sid =
     bindE (command R as_int (DEL (server_key R sid))) (\<lambda>deleted.
     bindE (command R as_int (SREM (servers_index_key R) sid)) (\<lambda>_.
     ret (Inr (0 < deleted))))"

fun list_dead_each ::
  "('p, 'v, 'o, 'r) redis_storage \<Rightarrow> time \<Rightarrow> string list \<Rightarrow> ('r, 'e, storage_error + server_info list) act" where
  "list_dead_each R stale_before [] = ret (Inr [])"
| "list_dead_each R stale_before (i # is) =
     bindE (command R as_value (GET (server_key R i))) (\<lambda>json.
     case json of
       None \<Rightarrow>
         bindE (command R as_int (SREM (servers_index_key R) i)) (\<lambda>_.
         list_dead_each R stale_before is)
     | Some s \<Rightarrow>
         (case server_of_json (rs_codec R) s of
            Inl _ \<Rightarrow> list_dead_each R stale_before is
          | Inr info \<Rightarrow>
              bindE (list_dead_each R stale_before is) (\<lambda>dead.
              ret (Inr (if si_last_heartbeat info < stale_before then info # dead else dead)))))"

definition redis_list_dead_servers ::
  "('p, 'v, 'o, 'r) redis_storage \<Rightarrow> time \<Rightarrow> ('r, 'e, storage_error + server_info list) act" where
  "redis_list_dead_servers R stale_before =
     bindE (command R as_members (SMEMBERS (servers_index_key R))) (list_dead_each R stale_before)"

definition redis_reclaim_jobs_from_server ::
  "('p, 'v, 'o, 'r) redis_storage \<Rightarrow> string \<Rightarrow> ('r, 'e, storage_error + nat) act" where
  "redis_reclaim_jobs_from_server R sid =
     bindE (command R as_members (SMEMBERS (state_index_key R ''processing'')))
       (redis_requeue_each R (owned_by sid))"

section \<open>\<^verbatim>\<open>NamedLocks\<close>\<close>

definition try_lock_script :: "('v, 'r) redis \<Rightarrow> string \<Rightarrow> 'v \<Rightarrow> int \<Rightarrow> ('r, string + int) state" where
  "try_lock_script D key owner ttl_ms =
     bindE (redis_call D (GET key)) (\<lambda>cur.
     if cur = R_nil \<or> cur = R_bulk owner
     then bindE (redis_call D (SET_PX key owner ttl_ms)) (\<lambda>_. ret (Inr 1))
     else ret (Inr 0))"

definition redis_try_acquire_lock ::
  "('p, 'v, 'o, 'r) redis_storage \<Rightarrow> string \<Rightarrow> string \<Rightarrow> nat \<Rightarrow> ('r, 'e, storage_error + bool) act" where
  "redis_try_acquire_lock R resource owner ttl =
     bindE (with_timeout R (try_lock_script (rs_redis R) (named_lock_key R resource)
              (bytes (rs_codec R) owner) (int (ttl div 1000000 mod 2 ^ 64)))) (\<lambda>acquired.
     ret (Inr (acquired = 1)))"

definition release_lock_script :: "('v, 'r) redis \<Rightarrow> string \<Rightarrow> 'v \<Rightarrow> ('r, string + int) state" where
  "release_lock_script D key owner =
     bindE (redis_call D (GET key)) (\<lambda>cur.
     if cur = R_bulk owner then bindE (redis_call D (DEL key)) (\<lambda>x. ret (as_int x)) else ret (Inr 0))"

definition redis_release_lock ::
  "('p, 'v, 'o, 'r) redis_storage \<Rightarrow> string \<Rightarrow> string \<Rightarrow> ('r, 'e, storage_error + bool) act" where
  "redis_release_lock R resource owner =
     bindE (with_timeout R (release_lock_script (rs_redis R) (named_lock_key R resource)
              (bytes (rs_codec R) owner))) (\<lambda>deleted.
     ret (Inr (deleted = 1)))"

definition redis_cleanup_expired_named_locks ::
  "('p, 'v, 'o, 'r) redis_storage \<Rightarrow> time \<Rightarrow> ('r, 'e, storage_error + nat) act" where
  "redis_cleanup_expired_named_locks R now = ret (Inr 0)"

section \<open>The trait object\<close>

definition redis_storage_api :: "('p, 'v, 'o, 'r) redis_storage \<Rightarrow> ('p, 'r, 'e) storage" where
  "redis_storage_api R =
     \<lparr>st_get = redis_get R, st_update = redis_update R, st_update_if_state = redis_update_if_state R,
      st_delete = redis_delete R, st_list = redis_list R, st_get_job_counts = redis_get_job_counts R,
      st_enqueue = redis_enqueue R, st_get_available_jobs = redis_get_available_jobs R,
      st_fetch_due_scheduled_jobs = redis_fetch_due_scheduled_jobs R,
      st_fetch_due_retry_jobs = redis_fetch_due_retry_jobs R,
      st_claim_due_scheduled_jobs = redis_claim_due_scheduled_jobs R,
      st_claim_due_retry_jobs = redis_claim_due_retry_jobs R,
      st_delete_expired_jobs = redis_delete_expired_jobs R,
      st_fetch_and_lock_job = redis_fetch_and_lock_job R,
      st_fetch_available_jobs_atomic = redis_fetch_available_jobs_atomic R,
      st_try_acquire_job_lock = redis_try_acquire_job_lock R,
      st_release_job_lock = redis_release_job_lock R,
      st_requeue_stranded_jobs = redis_requeue_stranded_jobs R,
      st_upsert_recurring_job = redis_upsert_recurring_job R,
      st_remove_recurring_job = redis_remove_recurring_job R,
      st_list_recurring_jobs = redis_list_recurring_jobs R,
      st_fetch_due_recurring_jobs = redis_fetch_due_recurring_jobs R,
      st_register_server = redis_register_server R, st_heartbeat_server = redis_heartbeat_server R,
      st_deregister_server = redis_deregister_server R,
      st_list_dead_servers = redis_list_dead_servers R,
      st_reclaim_jobs_from_server = redis_reclaim_jobs_from_server R,
      st_try_acquire_lock = redis_try_acquire_lock R, st_release_lock = redis_release_lock R,
      st_cleanup_expired_named_locks = redis_cleanup_expired_named_locks R\<rparr>"

lemma redis_storage_api_simps [simp]:
  "st_get (redis_storage_api R) = redis_get R"
  "st_update (redis_storage_api R) = redis_update R"
  "st_update_if_state (redis_storage_api R) = redis_update_if_state R"
  "st_delete (redis_storage_api R) = redis_delete R"
  "st_enqueue (redis_storage_api R) = redis_enqueue R"
  "st_fetch_and_lock_job (redis_storage_api R) = redis_fetch_and_lock_job R"
  by (simp_all add: redis_storage_api_def)

end
