(* ===== verification/Redis_Indices.thy ===== *)
theory Redis_Indices
  imports Redis_Storage
begin

text \<open>
  The indices of the Redis backend. The jobs of a keyspace are the texts under the job keys; every
  other key of a job, its state set, the set of all jobs, the counters and the two kinds of queue sets, is
  redundant and has to agree with them. \<open>indexed\<close> says that the sets and the counters do, \<open>queued\<close> that the
  queue sets hold every enqueued job and nothing that is not waiting. The lemmas give the keyspace after
  each Lua script and each index command, and the preservation of both.
\<close>

section \<open>The jobs of a keyspace\<close>

definition redis_jobs :: "('p, 'v, 'o, 'r) redis_storage \<Rightarrow> 'v keyspace \<Rightarrow> 'p jobs" where
  "redis_jobs R K i =
     (case K (job_key R i) of
        Some (Str v _) \<Rightarrow> (case job_of_json (rs_codec R) v of Inr j \<Rightarrow> Some j | Inl _ \<Rightarrow> None)
      | _ \<Rightarrow> None)"

definition blobs_ok ::
  "('v \<Rightarrow> 'p job \<Rightarrow> bool) \<Rightarrow> ('p, 'v, 'o, 'r) redis_storage \<Rightarrow> 'v keyspace \<Rightarrow> bool" where
  "blobs_ok doc R K \<longleftrightarrow>
     (\<forall>i. K (job_key R i) = None
        \<or> (\<exists>v j. K (job_key R i) = Some (Str v False) \<and> doc v j \<and> job_id j = i))"

section \<open>The indices of a keyspace\<close>

definition in_state :: "'p jobs \<Rightarrow> job_state_kind \<Rightarrow> string set" where
  "in_state J k = {i. \<exists>j. J i = Some j \<and> kind (job_state j) = k}"

definition state_set :: "('p, 'v, 'o, 'r) redis_storage \<Rightarrow> 'v keyspace \<Rightarrow> job_state_kind \<Rightarrow> string set" where
  "state_set R K k = set_of (K (state_index_key R (kind_to_state_name k)))"

definition state_count :: "('p, 'v, 'o, 'r) redis_storage \<Rightarrow> 'v keyspace \<Rightarrow> job_state_kind \<Rightarrow> int" where
  "state_count R K k =
     (case hash_of (K (job_counts_key R)) (kind_to_state_name k) of None \<Rightarrow> 0 | Some n \<Rightarrow> n)"

definition well_typed :: "('p, 'v, 'o, 'r) redis_storage \<Rightarrow> 'v keyspace \<Rightarrow> bool" where
  "well_typed R K \<longleftrightarrow>
     (\<forall>s. is_set (K (state_index_key R s))) \<and> is_set (K (all_jobs_key R)) \<and> is_hash (K (job_counts_key R))
     \<and> is_zset (K (available_jobs_key R)) \<and> (\<forall>q. is_zset (K (available_jobs_by_queue_key R q)))"

definition indexed :: "('p, 'v, 'o, 'r) redis_storage \<Rightarrow> 'v keyspace \<Rightarrow> bool" where
  "indexed R K \<longleftrightarrow>
     finite (dom (redis_jobs R K))
     \<and> (\<forall>k. state_set R K k = in_state (redis_jobs R K) k)
     \<and> (\<forall>k. state_count R K k = int (card (in_state (redis_jobs R K) k)))
     \<and> set_of (K (all_jobs_key R)) = dom (redis_jobs R K)"

definition global_queue :: "('p, 'v, 'o, 'r) redis_storage \<Rightarrow> 'v keyspace \<Rightarrow> (string \<rightharpoonup> f64)" where
  "global_queue R K = zset_of (K (available_jobs_key R))"

definition named_queue :: "('p, 'v, 'o, 'r) redis_storage \<Rightarrow> 'v keyspace \<Rightarrow> string \<Rightarrow> (string \<rightharpoonup> f64)" where
  "named_queue R K q = zset_of (K (available_jobs_by_queue_key R q))"

text \<open>A queue set may hold a scheduled job that was due when it was written; the fetch drops it.\<close>

definition waiting :: "job_state \<Rightarrow> bool" where
  "waiting st \<longleftrightarrow> kind st = KEnqueued \<or> kind st = KScheduled \<or> kind st = KAwaitingRetry"

definition queued :: "('p, 'v, 'o, 'r) redis_storage \<Rightarrow> 'v keyspace \<Rightarrow> bool" where
  "queued R K \<longleftrightarrow>
     (\<forall>i. i \<in> dom (global_queue R K) \<longrightarrow> (\<exists>j. redis_jobs R K i = Some j \<and> waiting (job_state j)))
     \<and> (\<forall>q i. i \<in> dom (named_queue R K q) \<longrightarrow>
          (\<exists>j. redis_jobs R K i = Some j \<and> waiting (job_state j) \<and> job_queue j = q))
     \<and> (\<forall>i j. redis_jobs R K i = Some j \<and> kind (job_state j) = KEnqueued \<longrightarrow>
          i \<in> dom (global_queue R K) \<and> named_queue R K (job_queue j) i = global_queue R K i)"

section \<open>Keys\<close>

lemma kind_to_state_name_inj [simp]: "kind_to_state_name k = kind_to_state_name k' \<longleftrightarrow> k = k'"
  by (cases k; cases k') simp_all

lemma variant_state_name_kind [simp]: "variant_state_name (kind_name k) = kind_to_state_name k"
  by (induction k; code_simp)

lemma key_eqs [simp]:
  "job_key R i = job_key R i' \<longleftrightarrow> i = i'"
  "state_index_key R s = state_index_key R s' \<longleftrightarrow> s = s'"
  "available_jobs_by_queue_key R q = available_jobs_by_queue_key R q' \<longleftrightarrow> q = q'"
  by (simp_all add: job_key_def state_index_key_def available_jobs_by_queue_key_def)

lemma key_neqs [simp]:
  "job_key R i \<noteq> state_index_key R s" "job_key R i \<noteq> available_jobs_key R"
  "job_key R i \<noteq> available_jobs_by_queue_key R q" "job_key R i \<noteq> job_counts_key R"
  "job_key R i \<noteq> all_jobs_key R"
  "state_index_key R s \<noteq> available_jobs_key R" "state_index_key R s \<noteq> available_jobs_by_queue_key R q"
  "state_index_key R s \<noteq> job_counts_key R" "state_index_key R s \<noteq> all_jobs_key R"
  "available_jobs_key R \<noteq> available_jobs_by_queue_key R q" "available_jobs_key R \<noteq> job_counts_key R"
  "available_jobs_key R \<noteq> all_jobs_key R" "available_jobs_by_queue_key R q \<noteq> job_counts_key R"
  "available_jobs_by_queue_key R q \<noteq> all_jobs_key R" "job_counts_key R \<noteq> all_jobs_key R"
  by (simp_all add: job_key_def state_index_key_def available_jobs_key_def available_jobs_by_queue_key_def
      job_counts_key_def all_jobs_key_def)

lemmas key_neqs' [simp] = key_neqs [symmetric]

lemma state_key_append [simp]: "state_index_key R [] @ s = state_index_key R s"
  by (simp add: state_index_key_def)

section \<open>What the scripts and index commands write\<close>

definition put_blob :: "('p, 'v, 'o, 'r) redis_storage \<Rightarrow> string \<Rightarrow> 'v \<Rightarrow> 'v keyspace \<Rightarrow> 'v keyspace" where
  "put_blob R i v K = K(job_key R i \<mapsto> Str v False)"

definition put_all :: "('p, 'v, 'o, 'r) redis_storage \<Rightarrow> string \<Rightarrow> 'v keyspace \<Rightarrow> 'v keyspace" where
  "put_all R i K = K(all_jobs_key R := mk_set (insert i (set_of (K (all_jobs_key R)))))"

definition add_count :: "('p, 'v, 'o, 'r) redis_storage \<Rightarrow> string \<Rightarrow> int \<Rightarrow> 'v keyspace \<Rightarrow> 'v keyspace" where
  "add_count R s n K = effect (HINCRBY (job_counts_key R) s n) K"

definition join_state :: "('p, 'v, 'o, 'r) redis_storage \<Rightarrow> string \<Rightarrow> string \<Rightarrow> 'v keyspace \<Rightarrow> 'v keyspace" where
  "join_state R s i K = K(state_index_key R s := mk_set (insert i (set_of (K (state_index_key R s)))))"

definition leave_state :: "('p, 'v, 'o, 'r) redis_storage \<Rightarrow> string \<Rightarrow> string \<Rightarrow> 'v keyspace \<Rightarrow> 'v keyspace" where
  "leave_state R s i K = K(state_index_key R s := mk_set (set_of (K (state_index_key R s)) - {i}))"

definition move_state ::
  "('p, 'v, 'o, 'r) redis_storage \<Rightarrow> string \<Rightarrow> string \<Rightarrow> string \<Rightarrow> 'v keyspace \<Rightarrow> 'v keyspace" where
  "move_state R i s s' K =
     add_count R s' 1 (add_count R s (-1) (join_state R s' i (leave_state R s i K)))"

definition put_queues ::
  "('p, 'v, 'o, 'r) redis_storage \<Rightarrow> string \<Rightarrow> string \<Rightarrow> f64 option \<Rightarrow> 'v keyspace \<Rightarrow> 'v keyspace" where
  "put_queues R q i score K =
     K(available_jobs_key R := mk_zset ((global_queue R K)(i := score)),
       available_jobs_by_queue_key R q := mk_zset ((named_queue R K q)(i := score)))"

lemmas write_defs = put_blob_def put_all_def add_count_def join_state_def leave_state_def move_state_def
  put_queues_def

lemma jobs_writes [simp]:
  "redis_jobs R (put_all R i K) = redis_jobs R K"
  "redis_jobs R (add_count R s n K) = redis_jobs R K"
  "redis_jobs R (join_state R s i K) = redis_jobs R K"
  "redis_jobs R (leave_state R s i K) = redis_jobs R K"
  "redis_jobs R (put_queues R q i score K) = redis_jobs R K"
  by (simp_all add: fun_eq_iff redis_jobs_def write_defs)

lemma jobs_move [simp]: "redis_jobs R (move_state R i s s' K) = redis_jobs R K"
  by (simp add: move_state_def)

lemma blobs_writes [simp]:
  "blobs_ok doc R (put_all R i K) = blobs_ok doc R K"
  "blobs_ok doc R (add_count R s n K) = blobs_ok doc R K"
  "blobs_ok doc R (join_state R s i K) = blobs_ok doc R K"
  "blobs_ok doc R (leave_state R s i K) = blobs_ok doc R K"
  "blobs_ok doc R (put_queues R q i score K) = blobs_ok doc R K"
  by (simp_all add: blobs_ok_def write_defs)

lemma blobs_move [simp]: "blobs_ok doc R (move_state R i s s' K) = blobs_ok doc R K"
  by (simp add: move_state_def)

lemma typed_writes [simp]:
  "well_typed R K \<Longrightarrow> well_typed R (put_blob R i v K)"
  "well_typed R K \<Longrightarrow> well_typed R (put_all R i K)"
  "well_typed R K \<Longrightarrow> well_typed R (add_count R s n K)"
  "well_typed R K \<Longrightarrow> well_typed R (join_state R s i K)"
  "well_typed R K \<Longrightarrow> well_typed R (leave_state R s i K)"
  "well_typed R K \<Longrightarrow> well_typed R (put_queues R q i score K)"
  by (auto simp: well_typed_def write_defs)

lemma typed_move [simp]: "well_typed R K \<Longrightarrow> well_typed R (move_state R i s s' K)"
  by (simp add: move_state_def)

lemma well_typedD:
  assumes "well_typed R K"
  shows "is_set (K (state_index_key R s))" "is_set (K (all_jobs_key R))" "is_hash (K (job_counts_key R))"
    "is_zset (K (available_jobs_key R))" "is_zset (K (available_jobs_by_queue_key R q))"
  using assms by (simp_all add: well_typed_def)

section \<open>The indices after a write\<close>

lemma views_writes [simp]:
  "state_set R (put_blob R i v K) k = state_set R K k"
  "state_set R (put_all R i K) k = state_set R K k"
  "state_set R (add_count R s n K) k = state_set R K k"
  "state_set R (put_queues R q i score K) k = state_set R K k"
  "state_set R (join_state R s i K) k =
     (if s = kind_to_state_name k then insert i (state_set R K k) else state_set R K k)"
  "state_set R (leave_state R s i K) k =
     (if s = kind_to_state_name k then state_set R K k - {i} else state_set R K k)"
  "state_count R (put_blob R i v K) k = state_count R K k"
  "state_count R (put_all R i K) k = state_count R K k"
  "state_count R (join_state R s i K) k = state_count R K k"
  "state_count R (leave_state R s i K) k = state_count R K k"
  "state_count R (put_queues R q i score K) k = state_count R K k"
  "state_count R (add_count R s n K) k =
     (if s = kind_to_state_name k then state_count R K k + n else state_count R K k)"
  by (auto simp: state_set_def state_count_def write_defs)

lemma all_writes [simp]:
  "set_of (put_blob R i v K (all_jobs_key R)) = set_of (K (all_jobs_key R))"
  "set_of (put_all R i K (all_jobs_key R)) = insert i (set_of (K (all_jobs_key R)))"
  "set_of (add_count R s n K (all_jobs_key R)) = set_of (K (all_jobs_key R))"
  "set_of (join_state R s i K (all_jobs_key R)) = set_of (K (all_jobs_key R))"
  "set_of (leave_state R s i K (all_jobs_key R)) = set_of (K (all_jobs_key R))"
  "set_of (put_queues R q i score K (all_jobs_key R)) = set_of (K (all_jobs_key R))"
  by (simp_all add: write_defs)

lemma queues_writes [simp]:
  "global_queue R (put_blob R i v K) = global_queue R K"
  "global_queue R (put_all R i K) = global_queue R K"
  "global_queue R (add_count R s n K) = global_queue R K"
  "global_queue R (join_state R s i K) = global_queue R K"
  "global_queue R (leave_state R s i K) = global_queue R K"
  "global_queue R (put_queues R q i score K) = (global_queue R K)(i := score)"
  "named_queue R (put_blob R i v K) = named_queue R K"
  "named_queue R (put_all R i K) = named_queue R K"
  "named_queue R (add_count R s n K) = named_queue R K"
  "named_queue R (join_state R s i K) = named_queue R K"
  "named_queue R (leave_state R s i K) = named_queue R K"
  "named_queue R (put_queues R q i score K) = (named_queue R K)(q := (named_queue R K q)(i := score))"
  by (auto simp: global_queue_def named_queue_def write_defs fun_eq_iff)

lemma queues_move [simp]:
  "global_queue R (move_state R i s s' K) = global_queue R K"
  "named_queue R (move_state R i s s' K) = named_queue R K"
  by (simp_all add: move_state_def)

section \<open>Moving a job through the indices\<close>

lemma in_state_upd: "in_state (J(i \<mapsto> j)) k =
   (if kind (job_state j) = k then insert i (in_state J k) else in_state J k - {i})"
  by (auto simp: in_state_def)

lemma in_state_del: "in_state (J(i := None)) k = in_state J k - {i}"
  by (auto simp: in_state_def)

lemma finite_in_state: "finite (dom J) \<Longrightarrow> finite (in_state J k)"
  by (rule finite_subset [of _ "dom J"]) (auto simp: in_state_def)

lemma in_state_iff: "J i = Some j \<Longrightarrow> i \<in> in_state J k \<longleftrightarrow> kind (job_state j) = k"
  by (simp add: in_state_def)

text \<open>A stored job gets a new text: its state set and the counters move exactly when the state does.\<close>

lemma indexed_move:
  assumes K: "indexed R K" and J: "redis_jobs R K i = Some j"
    and J': "redis_jobs R K' = (redis_jobs R K)(i \<mapsto> j')"
    and sets: "\<And>k. state_set R K' k = (if kind (job_state j') = k then insert i (state_set R K k)
                else state_set R K k - {i})"
    and counts: "\<And>k. state_count R K' k = state_count R K k
                + (if kind (job_state j') = k then 1 else 0) - (if kind (job_state j) = k then 1 else 0)"
    and all: "set_of (K' (all_jobs_key R)) = insert i (set_of (K (all_jobs_key R)))"
  shows "indexed R K'"
proof -
  let ?J = "redis_jobs R K"
  have fin: "finite (dom ?J)" using K by (simp add: indexed_def)
  have "state_count R K' k = int (card (in_state (?J(i \<mapsto> j')) k))" for k
  proof -
    have "finite (in_state ?J k)" using finite_in_state [OF fin] .
    moreover have "state_count R K k = int (card (in_state ?J k))" using K by (simp add: indexed_def)
    moreover have "i \<in> in_state ?J k \<longleftrightarrow> kind (job_state j) = k" using in_state_iff [of ?J, OF J] .
    ultimately show ?thesis
      by (auto simp: counts in_state_upd card_insert_if card_Diff_singleton_if insert_absorb
          dest: card_gt_0_iff [THEN iffD2, rotated])
         (metis One_nat_def Suc_leI card_gt_0_iff empty_iff of_nat_1 of_nat_diff)
  qed
  then show ?thesis using K by (simp add: indexed_def J' sets in_state_upd all)
qed

text \<open>A new job, and a job that goes.\<close>

lemma indexed_insert:
  assumes K: "indexed R K" and J: "redis_jobs R K i = None"
    and J': "redis_jobs R K' = (redis_jobs R K)(i \<mapsto> j)"
    and sets: "\<And>k. state_set R K' k = (if kind (job_state j) = k then insert i (state_set R K k) else state_set R K k)"
    and counts: "\<And>k. state_count R K' k = state_count R K k + (if kind (job_state j) = k then 1 else 0)"
    and all: "set_of (K' (all_jobs_key R)) = insert i (set_of (K (all_jobs_key R)))"
  shows "indexed R K'"
proof -
  let ?J = "redis_jobs R K"
  have fin: "finite (dom ?J)" using K by (simp add: indexed_def)
  have new: "i \<notin> in_state ?J k" for k using J by (simp add: in_state_def)
  have "state_count R K' k = int (card (in_state (?J(i \<mapsto> j)) k))" for k
    using K finite_in_state [OF fin] new by (simp add: counts in_state_upd indexed_def)
  then show ?thesis using K new by (auto simp: indexed_def J' sets in_state_upd all)
qed

lemma indexed_remove:
  assumes K: "indexed R K" and J: "redis_jobs R K i = Some j"
    and J': "redis_jobs R K' = (redis_jobs R K)(i := None)"
    and sets: "\<And>k. state_set R K' k = (if kind (job_state j) = k then state_set R K k - {i} else state_set R K k)"
    and counts: "\<And>k. state_count R K' k = state_count R K k - (if kind (job_state j) = k then 1 else 0)"
    and all: "set_of (K' (all_jobs_key R)) = set_of (K (all_jobs_key R)) - {i}"
  shows "indexed R K'"
proof -
  let ?J = "redis_jobs R K"
  have fin: "finite (dom ?J)" using K by (simp add: indexed_def)
  have mem: "i \<in> in_state ?J k \<longleftrightarrow> kind (job_state j) = k" for k using in_state_iff [of ?J, OF J] .
  have "state_count R K' k = int (card (in_state (?J(i := None)) k))" for k
  proof (cases "kind (job_state j) = k")
    case True
    then have "card (in_state ?J k) > 0" using mem finite_in_state [OF fin] by (auto simp: card_gt_0_iff)
    with True show ?thesis using K mem
      by (simp add: counts in_state_del indexed_def card_Diff_singleton_if of_nat_diff Suc_leI)
  next
    case False
    then show ?thesis using K mem by (simp add: counts in_state_del indexed_def)
  qed
  moreover have "in_state ?J k - {i} = in_state ?J k" if "kind (job_state j) \<noteq> k" for k
    using that mem by auto
  ultimately show ?thesis using K by (auto simp: indexed_def J' sets in_state_del all)
qed

lemma views_move:
  "state_set R (move_state R i s s' K) k =
     (if s' = kind_to_state_name k then insert i (if s = kind_to_state_name k then state_set R K k - {i} else state_set R K k)
      else if s = kind_to_state_name k then state_set R K k - {i} else state_set R K k)"
  "state_count R (move_state R i s s' K) k =
     state_count R K k + (if s' = kind_to_state_name k then 1 else 0) - (if s = kind_to_state_name k then 1 else 0)"
  "set_of (move_state R i s s' K (all_jobs_key R)) = set_of (K (all_jobs_key R))"
  by (simp_all add: move_state_def)

section \<open>Scripts on the keyspace\<close>

lemma wp_on_server [wp_simps]: "wp (on_server m) Q w = wp m (\<lambda>a r. Q a (w\<lparr>store := r\<rparr>)) (store w)"
  by (simp add: on_server_def wp_def split: prod.split)

lemma run_state_on_server [simp]:
  "run_state (on_server m) w = (case run_state m (store w) of (a, r) \<Rightarrow> (a, w\<lparr>store := r\<rparr>))"
  by (simp add: on_server_def)

text \<open>The weakest precondition of a script, as far as the keyspace is concerned.\<close>

definition twp ::
  "('r \<Rightarrow> 'v keyspace) \<Rightarrow> ('r, 'a) state \<Rightarrow> ('a \<Rightarrow> 'v keyspace \<Rightarrow> bool) \<Rightarrow> 'v keyspace \<Rightarrow> bool" where
  "twp ks m Q K \<longleftrightarrow> (\<forall>r. ks r = K \<longrightarrow> wp m (\<lambda>a r'. Q a (ks r')) r)"

lemma twp_ret: "Q a K \<Longrightarrow> twp ks (ret a) Q K"
  by (simp add: twp_def wp_return)

lemma twp_lift: "x = Inr v \<Longrightarrow> twp ks (f v) Q K \<Longrightarrow> twp ks (bindE (ret x) f) Q K"
  by (simp add: twp_def wp_simps)

lemma twp_error: "x = Inl e \<Longrightarrow> Q (Inl e) K \<Longrightarrow> twp ks (bindE (ret x) f) Q K"
  by (simp add: twp_def wp_simps)

lemma twp_mono: "twp ks m P K \<Longrightarrow> (\<And>a K'. P a K' \<Longrightarrow> Q a K') \<Longrightarrow> twp ks m Q K"
  unfolding twp_def by (blast intro: wp_mono)

lemma twp_bindE:
  assumes "twp ks m P K" and "\<And>e K'. P (Inl e) K' \<Longrightarrow> Q (Inl e) K'"
    and "\<And>v K'. P (Inr v) K' \<Longrightarrow> twp ks (f v) Q K'"
  shows "twp ks (bindE m f) Q K"
  unfolding twp_def
proof (intro allI impI)
  fix r
  assume "ks r = K"
  with assms(1) have "wp m (\<lambda>a r'. P a (ks r')) r" by (simp add: twp_def)
  then show "wp (bindE m f) (\<lambda>a r'. Q a (ks r')) r"
    unfolding wp_bindE by (rule wp_mono) (use assms(2, 3) in \<open>auto simp: twp_def split: sum.split\<close>)
qed

lemma twp_wp: "twp ks m Q (ks r) \<Longrightarrow> wp m (\<lambda>a r'. Q a (ks r')) r"
  by (simp add: twp_def)

context redis_server
begin

lemma call_applicable:
  assumes "applicable c (ks r)"
  obtains x r' where "run_state (redis_call D c) r = (Inr x, r')" and "answers c (ks r) x"
    and "ks r' = effect c (ks r)"
proof -
  obtain x r' where c: "rd_call D c r = (x, r')" by (cases "rd_call D c r")
  have a: "answers c (ks r) x" using call_reply [OF assms] c by simp
  then have no_err: "\<forall>e. x \<noteq> R_err e"
    by (cases c) (auto split: option.splits rval.splits if_splits)
  with c have "run_state (redis_call D c) r = (Inr x, r')"
    by (cases x) (simp_all add: redis_call_def)
  then show ?thesis using that a call_effect [OF assms] c by simp
qed

lemma twp_call:
  assumes "applicable c K" and "\<And>x. answers c K x \<Longrightarrow> twp ks (f x) Q (effect c K)"
  shows "twp ks (bindE (redis_call D c) f) Q K"
  unfolding twp_def
proof (intro allI impI)
  fix r
  assume r: "ks r = K"
  with assms(1) obtain x r' where "run_state (redis_call D c) r = (Inr x, r')" "answers c K x" "ks r' = effect c K"
    using call_applicable [of c r] by auto
  with assms(2) [of x] show "wp (bindE (redis_call D c) f) (\<lambda>a r'. Q a (ks r')) r"
    by (simp add: wp_bindE wp_def [of "redis_call D c"] twp_def)
qed

text \<open>A command whose answer is not looked at, and the reading commands.\<close>

lemma twp_command:
  "applicable c K \<Longrightarrow> twp ks m Q (effect c K) \<Longrightarrow> twp ks (bindE (redis_call D c) (\<lambda>_. m)) Q K"
  by (rule twp_call)

lemma twp_get:
  "K k = Some (Str v b) \<Longrightarrow> twp ks (f (R_bulk v)) Q K \<Longrightarrow> twp ks (bindE (redis_call D (GET k)) f) Q K"
  by (rule twp_call) auto

lemma twp_get_none:
  "K k = None \<Longrightarrow> twp ks (f R_nil) Q K \<Longrightarrow> twp ks (bindE (redis_call D (GET k)) f) Q K"
  by (rule twp_call) auto

lemma twp_smembers:
  "is_set (K k) \<Longrightarrow> (\<And>ms. distinct ms \<Longrightarrow> set ms = set_of (K k) \<Longrightarrow> twp ks (f (R_members ms)) Q K)
     \<Longrightarrow> twp ks (bindE (redis_call D (SMEMBERS k)) f) Q K"
  by (rule twp_call) auto

lemma twp_revrange:
  "is_zset (K k) \<Longrightarrow>
     (\<And>ms. zorder (zset_of (K k)) ms \<Longrightarrow>
        twp ks (f (R_scored (map (\<lambda>m. (m, the (zset_of (K k) m))) (range_of i n (rev ms))))) Q K)
     \<Longrightarrow> twp ks (bindE (redis_call D (ZREVRANGE_WITHSCORES k i n)) f) Q K"
  by (rule twp_call) auto

end

definition consistent :: "('v \<Rightarrow> 'p job \<Rightarrow> bool) \<Rightarrow> ('p, 'v, 'o, 'r) redis_storage \<Rightarrow> 'v keyspace \<Rightarrow> bool" where
  "consistent doc R K \<longleftrightarrow> blobs_ok doc R K \<and> well_typed R K \<and> indexed R K"

section \<open>The backend\<close>

locale redis_backend = redis_server "rs_redis R" ks + job_codec "rs_codec R" doc clean
  for R :: "('p, 'v, 'o, 'r) redis_storage" and ks :: "'r \<Rightarrow> 'v keyspace"
    and doc :: "'v \<Rightarrow> 'p job \<Rightarrow> bool" and clean :: "'p job \<Rightarrow> bool"
begin

lemma stored_blob:
  assumes "blobs_ok doc R K" and "redis_jobs R K i = Some j"
  obtains v where "K (job_key R i) = Some (Str v False)" and "doc v j" and "job_id j = i"
proof -
  from assms(2) have "K (job_key R i) \<noteq> None" by (auto simp: redis_jobs_def split: option.splits)
  with assms(1) obtain v j' where v: "K (job_key R i) = Some (Str v False)" "doc v j'" "job_id j' = i"
    unfolding blobs_ok_def by metis
  with assms(2) have "j' = j" by (simp add: redis_jobs_def of_json)
  with v show ?thesis using that by blast
qed

lemma absent_blob: "blobs_ok doc R K \<Longrightarrow> redis_jobs R K i = None \<Longrightarrow> K (job_key R i) = None"
  unfolding blobs_ok_def by (force simp: redis_jobs_def of_json)

lemma jobs_put_blob: "doc v j \<Longrightarrow> redis_jobs R (put_blob R i v K) = (redis_jobs R K)(i \<mapsto> j)"
  by (auto simp: redis_jobs_def put_blob_def of_json fun_eq_iff)

lemma blobs_put_blob: "blobs_ok doc R K \<Longrightarrow> doc v j \<Longrightarrow> job_id j = i \<Longrightarrow> blobs_ok doc R (put_blob R i v K)"
  by (auto simp: blobs_ok_def put_blob_def)

lemma keyed_redis_jobs: "blobs_ok doc R K \<Longrightarrow> keyed (redis_jobs R K)"
  unfolding keyed_def by (metis stored_blob)

text \<open>The common parts of the scripts.\<close>

lemma twp_set_available:
  assumes "well_typed R K" and "score \<noteq> Some NaN" and "twp ks m Q (put_queues R q i score K)"
  shows "twp ks (bindE (lua_set_available (rs_redis R) (available_jobs_key R)
           (available_jobs_by_queue_key R q) score i) (\<lambda>_. m)) Q K"
proof (rule twp_bindE [where P = "\<lambda>x K'. x = Inr () \<and> K' = put_queues R q i score K"])
  show "twp ks (lua_set_available (rs_redis R) (available_jobs_key R) (available_jobs_by_queue_key R q) score i)
          (\<lambda>x K'. x = Inr () \<and> K' = put_queues R q i score K) K"
    using assms(2) well_typedD [OF assms(1)]
    by (cases score)
       (auto simp: lua_set_available_def put_queues_def global_queue_def named_queue_def
          intro!: twp_command twp_ret)
qed (use assms(3) in auto)

lemma twp_move_state:
  assumes "well_typed R K" and "twp ks m Q (move_state R i s s' K)"
  shows "twp ks (bindE (lua_move_state (rs_redis R) (state_index_key R []) (job_counts_key R) s s' i) (\<lambda>_. m)) Q K"
proof (rule twp_bindE [where P = "\<lambda>x K'. x = Inr () \<and> K' = move_state R i s s' K"])
  show "twp ks (lua_move_state (rs_redis R) (state_index_key R []) (job_counts_key R) s s' i)
          (\<lambda>x K'. x = Inr () \<and> K' = move_state R i s s' K) K"
    unfolding lua_move_state_def
    using well_typedD [OF assms(1)] by (intro twp_command twp_ret) (auto simp: write_defs)
qed (use assms(2) in auto)

lemma decode_blob:
  assumes "doc v j"
  obtains t fs where "cjson_decode (rs_codec R) v = Inr (L_table t)"
    and "map_of t ''id'' = Some (L_str (job_id j))" and "map_of t ''queue'' = Some (L_str (job_queue j))"
    and "map_of t ''state'' = Some (L_table [(kind_name (kind (job_state j)), L_table fs)])"
    and "job_table (rfc3339 (rs_codec R)) j t"
  using decode [OF assms] unfolding job_table_def by blast

section \<open>The update scripts\<close>

definition updated ::
  "string \<Rightarrow> 'p job \<Rightarrow> 'v \<Rightarrow> job_state_kind \<Rightarrow> f64 option \<Rightarrow> 'v keyspace \<Rightarrow> 'v keyspace" where
  "updated i j blob k score K =
     put_queues R (job_queue j) i score
       ((if kind (job_state j) = k then id
         else move_state R i (kind_to_state_name (kind (job_state j))) (kind_to_state_name k))
          (put_all R i (put_blob R i blob K)))"

lemma update_script_twp:
  assumes K: "blobs_ok doc R K" "well_typed R K" and j: "redis_jobs R K i = Some j"
    and score: "score \<noteq> Some NaN"
  shows "twp ks (update_script R (job_key R i) (kind_to_state_name k) blob score)
           (\<lambda>x K'. x = Inr ''ok'' \<and> K' = updated i j blob k score K) K"
proof -
  obtain v where v: "K (job_key R i) = Some (Str v False)" "doc v j" "job_id j = i"
    using stored_blob [OF K(1) j] .
  obtain t fs where t: "cjson_decode (rs_codec R) v = Inr (L_table t)"
    "map_of t ''id'' = Some (L_str i)" "map_of t ''queue'' = Some (L_str (job_queue j))"
    "map_of t ''state'' = Some (L_table [(kind_name (kind (job_state j)), L_table fs)])"
    using decode_blob [OF v(2)] v(3) by metis
  note typed = well_typedD [OF K(2)]
  have eff: "effect (SADD (all_jobs_key R) i) (effect (SET (job_key R i) blob) K) = put_all R i (put_blob R i blob K)"
    by (simp add: put_all_def put_blob_def)
  show ?thesis
    unfolding update_script_def Let_def
    apply (rule twp_get, rule v(1), simp only: reply.case)
    apply (rule twp_lift, rule t(1))
    apply (rule twp_lift [where v = "Some (kind_name (kind (job_state j)))"], simp add: t lua_first_key_def)
    apply (rule twp_lift [where v = "job_queue j"], simp add: t)
    apply (rule twp_command, simp)
    apply (rule twp_lift [where v = i], simp add: t)
    apply (rule twp_command, simp add: typed)
    apply (simp only: eff option.case variant_state_name_kind kind_to_state_name_inj)
    apply (cases "kind (job_state j) = k")
    subgoal
      by (simp, rule twp_lift [OF refl], rule twp_set_available)
         (use K score in \<open>auto simp: updated_def intro: twp_ret\<close>)
    subgoal
      by (simp, rule twp_move_state, simp add: K, rule twp_set_available)
         (use K score in \<open>auto simp: updated_def intro: twp_ret\<close>)
    done
qed

lemma update_script_missing:
  assumes "blobs_ok doc R K" and "redis_jobs R K i = None"
  shows "twp ks (update_script R (job_key R i) s blob score) (\<lambda>x K'. x = Inr ''missing'' \<and> K' = K) K"
  unfolding update_script_def Let_def
  by (rule twp_get_none, rule absent_blob [OF assms]) (auto intro: twp_ret)

lemma update_if_state_script_twp:
  assumes K: "blobs_ok doc R K" "well_typed R K" and j: "redis_jobs R K i = Some j"
    and score: "score \<noteq> Some NaN"
  shows "twp ks (update_if_state_script R (job_key R i) (kind_name k0) (kind_name k) blob score)
           (\<lambda>x K'. if kind (job_state j) = k0
             then x = Inr ''ok'' \<and> redis_jobs R K' = redis_jobs R (put_blob R i blob K)
                \<and> K' = put_queues R (job_queue j) i score
                    ((if k0 = k then id else move_state R i (kind_to_state_name k0) (kind_to_state_name k))
                       (put_blob R i blob K))
             else x = Inr ''mismatch'' \<and> K' = K) K"
proof -
  obtain v where v: "K (job_key R i) = Some (Str v False)" "doc v j" "job_id j = i"
    using stored_blob [OF K(1) j] .
  obtain t fs where t: "cjson_decode (rs_codec R) v = Inr (L_table t)"
    "map_of t ''id'' = Some (L_str i)" "map_of t ''queue'' = Some (L_str (job_queue j))"
    "map_of t ''state'' = Some (L_table [(kind_name (kind (job_state j)), L_table fs)])"
    using decode_blob [OF v(2)] v(3) by metis
  note kn = kind_name_inj [THEN inj_eq]
  show ?thesis
  proof (cases "kind (job_state j) = k0")
    case True
    have eff: "effect (SET (job_key R i) blob) K = put_blob R i blob K" by (simp add: put_blob_def)
    show ?thesis
      unfolding update_if_state_script_def Let_def
      apply (rule twp_get, rule v(1), simp only: reply.case)
      apply (rule twp_lift, rule t(1))
      apply (rule twp_lift [where v = "L_table fs"], simp add: t True)
      apply (simp only: lua_true.simps simp_thms if_False)
      apply (rule twp_lift [where v = "job_queue j"], simp add: t)
      apply (rule twp_command, simp, simp only: eff)
      apply (rule twp_lift [where v = i], simp add: t)
      apply (simp only: kn variant_state_name_kind)
      apply (cases "k0 = k")
      subgoal
        by (simp, rule twp_lift [OF refl], rule twp_set_available)
           (use K score True in \<open>auto intro: twp_ret\<close>)
      subgoal
        by (simp, rule twp_move_state, simp add: K, rule twp_set_available)
           (use K score True in \<open>auto intro: twp_ret\<close>)
      done
  next
    case False
    then show ?thesis
      unfolding update_if_state_script_def Let_def
      apply -
      apply (rule twp_get, rule v(1), simp only: reply.case)
      apply (rule twp_lift, rule t(1))
      apply (rule twp_lift [where v = L_nil], simp add: t kn)
      apply (simp add: twp_ret)
      done
  qed
qed

lemma update_if_state_script_missing:
  assumes "blobs_ok doc R K" and "redis_jobs R K i = None"
  shows "twp ks (update_if_state_script R (job_key R i) s s' blob score) (\<lambda>x K'. x = Inr ''missing'' \<and> K' = K) K"
  unfolding update_if_state_script_def Let_def
  by (rule twp_get_none, rule absent_blob [OF assms]) (auto intro: twp_ret)

section \<open>The invariant of the state sets\<close>

lemma consistentD:
  assumes "consistent doc R K"
  shows "blobs_ok doc R K" "well_typed R K" "indexed R K"
  using assms by (simp_all add: consistent_def)

lemma insert_all_absorb: "consistent doc R K \<Longrightarrow> redis_jobs R K i = Some j \<Longrightarrow> i \<in> set_of (K (all_jobs_key R))"
  by (auto simp: consistent_def indexed_def)

text \<open>The text of a stored job is replaced, with the moves the new state asks for.\<close>

lemma consistent_replace:
  assumes K: "consistent doc R K" and j: "redis_jobs R K i = Some j" and v: "doc v j'" "job_id j' = i"
    and K': "K' = put_queues R q i score
        ((if kind (job_state j) = kind (job_state j') then id
          else move_state R i (kind_to_state_name (kind (job_state j))) (kind_to_state_name (kind (job_state j'))))
           (put_blob R i v K))"
  shows "consistent doc R K' \<and> redis_jobs R K' = (redis_jobs R K)(i \<mapsto> j')"
proof -
  have J': "redis_jobs R K' = (redis_jobs R K)(i \<mapsto> j')"
    using jobs_put_blob [OF v(1)] by (simp add: K')
  have sets: "state_set R K' k = (if kind (job_state j') = k then insert i (state_set R K k) else state_set R K k - {i})"
    for k
  proof -
    have "i \<in> state_set R K k \<longleftrightarrow> kind (job_state j) = k"
      using K in_state_iff [of "redis_jobs R K", OF j] by (simp add: consistent_def indexed_def)
    then show ?thesis by (auto simp: K' views_move)
  qed
  have "indexed R K'"
    by (rule indexed_move [OF consistentD(3) [OF K] j J' sets])
       (use insert_all_absorb [OF K j] in \<open>auto simp: K' views_move insert_absorb\<close>)
  moreover have "blobs_ok doc R K'" using blobs_put_blob [OF consistentD(1) [OF K] v] by (simp add: K')
  moreover have "well_typed R K'" using consistentD(2) [OF K] by (simp add: K')
  ultimately show ?thesis using J' by (simp add: consistent_def)
qed

lemma consistent_updated:
  assumes K: "consistent doc R K" and j: "redis_jobs R K i = Some j" and v: "doc v j'" "job_id j' = i"
    and k: "k = kind (job_state j')"
  shows "consistent doc R (updated i j v k score K) \<and> redis_jobs R (updated i j v k score K) = (redis_jobs R K)(i \<mapsto> j')"
proof -
  have "consistent doc R (put_all R i K)"
    using K insert_all_absorb [OF K j] by (auto simp: consistent_def indexed_def insert_absorb)
  moreover have "put_all R i (put_blob R i v K) = put_blob R i v (put_all R i K)"
    by (simp add: put_all_def put_blob_def fun_upd_twist)
  ultimately show ?thesis
    using consistent_replace [of "put_all R i K" i j v j' "updated i j v k score K" "job_queue j" score] j v
    by (simp add: updated_def k)
qed

section \<open>The invariant of the queue sets\<close>

text \<open>The entry of a job follows its state, as long as the job stays on its queue.\<close>

lemma queued_replace:
  assumes K: "queued R K" and j: "redis_jobs R K i = Some j"
    and J': "redis_jobs R K' = (redis_jobs R K)(i \<mapsto> j')" and q: "job_queue j' = job_queue j"
    and global: "global_queue R K' = (global_queue R K)(i := score)"
    and named: "named_queue R K' = (named_queue R K)(job_queue j := (named_queue R K (job_queue j))(i := score))"
    and waits: "score \<noteq> None \<Longrightarrow> waiting (job_state j')"
    and enq: "kind (job_state j') = KEnqueued \<Longrightarrow> score \<noteq> None"
  shows "queued R K'"
  unfolding queued_def
proof (intro conjI allI impI)
  fix i'
  assume "i' \<in> dom (global_queue R K')"
  then show "\<exists>j. redis_jobs R K' i' = Some j \<and> waiting (job_state j)"
    using K waits by (auto simp: global J' queued_def split: if_splits)
next
  fix q' i'
  assume dom: "i' \<in> dom (named_queue R K' q')"
  show "\<exists>j. redis_jobs R K' i' = Some j \<and> waiting (job_state j) \<and> job_queue j = q'"
  proof (cases "i' = i")
    case True
    have "q' = job_queue j \<and> score \<noteq> None"
    proof (cases "q' = job_queue j")
      case False
      with dom True have "i \<in> dom (named_queue R K q')" by (simp add: named)
      with K j False show ?thesis unfolding queued_def by fastforce
    qed (use dom True in \<open>auto simp: named split: if_splits\<close>)
    with True waits q show ?thesis by (simp add: J')
  next
    case False
    with dom have "i' \<in> dom (named_queue R K q')" by (auto simp: named split: if_splits)
    with K False show ?thesis by (simp add: J' queued_def)
  qed
next
  fix i' j''
  assume a: "redis_jobs R K' i' = Some j'' \<and> kind (job_state j'') = KEnqueued"
  show "i' \<in> dom (global_queue R K')" and "named_queue R K' (job_queue j'') i' = global_queue R K' i'"
  proof (atomize (full), cases "i' = i")
    case True
    with a enq q show "i' \<in> dom (global_queue R K') \<and> named_queue R K' (job_queue j'') i' = global_queue R K' i'"
      by (auto simp: J' global named)
  next
    case False
    with a K have "i' \<in> dom (global_queue R K)" "named_queue R K (job_queue j'') i' = global_queue R K i'"
      by (auto simp: J' queued_def)
    with False show "i' \<in> dom (global_queue R K') \<and> named_queue R K' (job_queue j'') i' = global_queue R K' i'"
      by (auto simp: global named)
  qed
qed

lemma queued_updated:
  assumes "queued R K" and "redis_jobs R K i = Some j" and v: "doc v j'" and "job_queue j' = job_queue j"
    and "score \<noteq> None \<Longrightarrow> waiting (job_state j')" and "kind (job_state j') = KEnqueued \<Longrightarrow> score \<noteq> None"
  shows "queued R (updated i j v k score K)"
  by (rule queued_replace [OF assms(1, 2) _ assms(4) _ _ assms(5, 6)])
     (simp_all add: updated_def jobs_put_blob [OF v])

section \<open>Time\<close>

text \<open>No key of a job has a time to live, so the passing of time changes nothing here.\<close>

lemma aged_keys:
  assumes "aged K K'" and "blobs_ok doc R K" and "well_typed R K"
  shows "K' (job_key R i) = K (job_key R i)" "K' (state_index_key R s) = K (state_index_key R s)"
    "K' (all_jobs_key R) = K (all_jobs_key R)" "K' (job_counts_key R) = K (job_counts_key R)"
    "K' (available_jobs_key R) = K (available_jobs_key R)"
    "K' (available_jobs_by_queue_key R q) = K (available_jobs_by_queue_key R q)"
proof -
  have keep: "K' k = K k" if "\<And>v. K k \<noteq> Some (Str v True)" for k
    using assms(1) that by (auto simp: aged_def)
  have set_keep: "is_set x \<Longrightarrow> x \<noteq> Some (Str v True)" "is_zset x \<Longrightarrow> x \<noteq> Some (Str v True)"
    "is_hash x \<Longrightarrow> x \<noteq> Some (Str v True)" for x :: "'v rval option" and v
    by auto
  note typed = well_typedD [OF assms(3)]
  have "K (job_key R i) \<noteq> Some (Str v True)" for v
    using assms(2) unfolding blobs_ok_def by (metis option.distinct(1) option.inject rval.inject(1))
  then show "K' (job_key R i) = K (job_key R i)" by (rule keep)
  show "K' (state_index_key R s) = K (state_index_key R s)" "K' (all_jobs_key R) = K (all_jobs_key R)"
    "K' (job_counts_key R) = K (job_counts_key R)" "K' (available_jobs_key R) = K (available_jobs_key R)"
    "K' (available_jobs_by_queue_key R q) = K (available_jobs_by_queue_key R q)"
    by (rule keep, rule set_keep, rule typed)+
qed

lemma aged_views:
  assumes "aged K K'" and "consistent doc R K"
  shows "redis_jobs R K' = redis_jobs R K" "consistent doc R K'" "global_queue R K' = global_queue R K"
    "named_queue R K' = named_queue R K" "queued R K' = queued R K" "state_set R K' = state_set R K"
    "set_of (K' (all_jobs_key R)) = set_of (K (all_jobs_key R))"
proof -
  note keys = aged_keys [OF assms(1) consistentD(1) [OF assms(2)] consistentD(2) [OF assms(2)]]
  show jobs: "redis_jobs R K' = redis_jobs R K" by (simp add: fun_eq_iff redis_jobs_def keys)
  show "consistent doc R K'"
    using assms(2) by (simp add: consistent_def blobs_ok_def well_typed_def indexed_def state_set_def
        state_count_def keys jobs)
  show g: "global_queue R K' = global_queue R K" and n: "named_queue R K' = named_queue R K"
    and "state_set R K' = state_set R K"
    by (simp_all add: fun_eq_iff global_queue_def named_queue_def state_set_def keys)
  show "queued R K' = queued R K" by (simp add: queued_def jobs g n)
  show "set_of (K' (all_jobs_key R)) = set_of (K (all_jobs_key R))" by (simp add: keys)
qed

end

end
