(* ===== verification/Redis_Scripts.thy ===== *)
theory Redis_Scripts
  imports Redis_Indices
begin

text \<open>
  The fetch and the claim script of the Redis backend on a keyspace with consistent indices.
\<close>

section \<open>The head of a queue\<close>

lemma zorder_last:
  assumes "zorder z ms" and "z m = Some s"
  shows "ms \<noteq> [] \<and> s \<le> the (z (last ms))"
proof -
  have "m \<in> set ms" using assms by (auto simp: zorder_def)
  then obtain i where i: "i < length ms" "ms ! i = m" by (auto simp: in_set_conv_nth)
  have "sorted (map (\<lambda>m. (the (z m), m)) ms)" using assms(1) by (simp add: zorder_def)
  then have "(the (z (ms ! i)), ms ! i) \<le> (the (z (ms ! (length ms - 1))), ms ! (length ms - 1))"
    using sorted_nth_mono [of "map (\<lambda>m. (the (z m), m)) ms" i "length ms - 1"] i by simp
  moreover have "last ms = ms ! (length ms - 1)" using i by (intro last_conv_nth) auto
  ultimately show ?thesis using i assms(2) by auto
qed

lemma zorder_last_in: "zorder z ms \<Longrightarrow> ms \<noteq> [] \<Longrightarrow> z (last ms) = Some (the (z (last ms)))"
  using last_in_set [of ms] by (auto simp: zorder_def)

lemma head_range [simp]: "range_of 0 0 xs = take 1 xs"
  by (simp add: range_of_def)

text \<open>What the scan has found: the candidate it started with, or an entry of one of the sets, and no
  entry of a set scores higher.\<close>

definition best_of ::
  "(string \<rightharpoonup> f64) list \<Rightarrow> string option \<times> f64 \<Rightarrow> string option \<times> f64 \<Rightarrow> bool" where
  "best_of zs b b' \<longleftrightarrow>
     (b' = b \<or> (\<exists>z \<in> set zs. \<exists>i s. z i = Some s \<and> snd b < s \<and> b' = (Some i, s)))
     \<and> snd b \<le> snd b' \<and> (\<forall>z \<in> set zs. \<forall>i s. z i = Some s \<longrightarrow> s \<le> snd b')"

lemma best_of_Cons:
  assumes z: "zorder z ms"
    and b1: "b1 = (if ms \<noteq> [] \<and> snd b < the (z (last ms)) then (Some (last ms), the (z (last ms))) else b)"
    and rest: "best_of zs b1 b'"
  shows "best_of (z # zs) b b'"
proof -
  have le: "snd b \<le> snd b1" by (auto simp: b1)
  have max: "s \<le> snd b1" if "z i = Some s" for i s
    using zorder_last [OF z that] by (auto simp: b1)
  have "b1 = b \<or> (\<exists>i s. z i = Some s \<and> snd b < s \<and> b1 = (Some i, s))"
    using zorder_last_in [OF z] by (auto simp: b1)
  with rest le show ?thesis
    unfolding best_of_def using max by (auto intro: order_trans dest: le_less_trans)
qed

context redis_server
begin

lemma lua_best_twp:
  assumes "\<forall>k \<in> set keys. is_zset (K k)"
  shows "twp ks (lua_best D keys b)
    (\<lambda>x K'. K' = K \<and> (\<exists>b'. x = Inr (fst b') \<and> best_of (map (\<lambda>k. zset_of (K k)) keys) b b')) K"
  using assms
proof (induction keys arbitrary: b)
  case Nil
  show ?case unfolding lua_best.simps by (rule twp_ret, rule conjI [OF refl], rule exI [of _ b]) (simp add: best_of_def)
next
  case (Cons k keys)
  show ?case
    unfolding lua_best.simps
  proof (rule twp_revrange)
    show "is_zset (K k)" using Cons.prems by simp
  next
    fix ms
    assume ms: "zorder (zset_of (K k)) ms"
    define b1 where "b1 = (if ms \<noteq> [] \<and> snd b < the (zset_of (K k) (last ms))
      then (Some (last ms), the (zset_of (K k) (last ms))) else b)"
    have "twp ks (lua_best D keys b1)
       (\<lambda>x K'. K' = K \<and> (\<exists>b'. x = Inr (fst b') \<and> best_of (map (\<lambda>k. zset_of (K k)) (k # keys)) b b')) K"
      by (rule twp_mono [OF Cons.IH]) (use Cons.prems in simp, auto intro: best_of_Cons [OF ms b1_def])
    then show "twp ks
          (case R_scored (map (\<lambda>m. (m, the (zset_of (K k) m))) (range_of 0 0 (rev ms))) of
             R_scored ((i, score) # _) \<Rightarrow> lua_best D keys (if snd b < score then (Some i, score) else b)
           | _ \<Rightarrow> lua_best D keys b)
          (\<lambda>x K'. K' = K \<and> (\<exists>b'. x = Inr (fst b') \<and> best_of (map (\<lambda>k. zset_of (K k)) (k # keys)) b b')) K"
      by (cases ms rule: rev_cases) (simp_all add: b1_def split: if_splits)
  qed
qed

lemma lua_zrem_all_twp:
  assumes "\<forall>k \<in> set keys. is_zset (K k)"
  shows "twp ks (lua_zrem_all D keys i)
    (\<lambda>x K'. x = Inr () \<and> K' = (\<lambda>k. if k \<in> set keys then mk_zset ((zset_of (K k))(i := None)) else K k)) K"
  using assms
proof (induction keys arbitrary: K)
  case Nil
  show ?case unfolding lua_zrem_all.simps by (rule twp_ret) simp
next
  case (Cons k keys)
  let ?K = "effect (ZREM k i) K"
  have "twp ks (lua_zrem_all D keys i)
    (\<lambda>x K'. x = Inr () \<and> K' = (\<lambda>k. if k \<in> set keys then mk_zset ((zset_of (?K k))(i := None)) else ?K k)) ?K"
    by (rule Cons.IH) (use Cons.prems in auto)
  then have "twp ks (lua_zrem_all D keys i)
    (\<lambda>x K'. x = Inr () \<and> K' = (\<lambda>l. if l \<in> set (k # keys) then mk_zset ((zset_of (K l))(i := None)) else K l)) ?K"
    by (rule twp_mono) (auto simp: fun_eq_iff)
  then show ?case unfolding lua_zrem_all.simps by (rule twp_command [rotated]) (use Cons.prems in simp)
qed

end

text \<open>The claimed job becomes \<open>Processing\<close> and leaves the queues.\<close>

definition claimed_by :: "string \<Rightarrow> time \<Rightarrow> 'p job \<Rightarrow> 'p job" where
  "claimed_by wid now j = j\<lparr>job_state := Processing (micros now) wid ''redis-storage''\<rparr>"

text \<open>The queue sets a fetch scans, and what it may do: take a job that scores at least as high as every
  entry, or drop a scheduled job that heads them, or find nothing above the least score.\<close>

definition scanned :: "('p, 'v, 'o, 'r) redis_storage \<Rightarrow> 'v keyspace \<Rightarrow> string list option \<Rightarrow> (string \<rightharpoonup> f64) list" where
  "scanned R K qs = map (\<lambda>k. zset_of (K k)) (candidate_keys R qs)"

definition tops :: "('p, 'v, 'o, 'r) redis_storage \<Rightarrow> 'v keyspace \<Rightarrow> string list option \<Rightarrow> string \<Rightarrow> bool" where
  "tops R K qs i \<longleftrightarrow>
     (\<exists>z \<in> set (scanned R K qs). \<exists>s. z i = Some s
        \<and> (\<forall>z' \<in> set (scanned R K qs). \<forall>i' s'. z' i' = Some s' \<longrightarrow> s' \<le> s))"

definition fetched ::
  "('v \<Rightarrow> 'p job \<Rightarrow> bool) \<Rightarrow> ('p, 'v, 'o, 'r) redis_storage \<Rightarrow> string \<Rightarrow> string list option \<Rightarrow> time \<Rightarrow> 'v keyspace \<Rightarrow> 'p job option \<Rightarrow> 'v keyspace \<Rightarrow> bool" where
  "fetched doc R wid qs now K x K' \<longleftrightarrow>
     consistent doc R K' \<and> queued R K' \<and>
     (case x of
        Some j' \<Rightarrow>
          \<exists>j. redis_jobs R K (job_id j) = Some j \<and> queue_ok qs (job_queue j)
            \<and> (kind (job_state j) = KEnqueued \<or> kind (job_state j) = KAwaitingRetry)
            \<and> tops R K qs (job_id j) \<and> j' = claimed_by wid now j
            \<and> redis_jobs R K' = (redis_jobs R K)(job_id j \<mapsto> j')
      | None \<Rightarrow>
          redis_jobs R K' = redis_jobs R K
          \<and> ((\<exists>i j. tops R K qs i \<and> redis_jobs R K i = Some j \<and> kind (job_state j) = KScheduled)
             \<or> (\<forall>z \<in> set (scanned R K qs). \<forall>i s. z i = Some s \<longrightarrow> s \<le> Infinity True)))"

fun deadline :: "job_state \<Rightarrow> time option" where
  "deadline (Scheduled _ enqueue_at _) = Some enqueue_at"
| "deadline (AwaitingRetry _ retry_at _) = Some retry_at"
| "deadline _ = None"

text \<open>Due, by the comparison of the texts.\<close>

definition text_due :: "('p, 'v, 'o, 'r) redis_storage \<Rightarrow> time \<Rightarrow> job_state \<Rightarrow> bool" where
  "text_due R now st =
     (case deadline st of
        None \<Rightarrow> False | Some t \<Rightarrow> rfc3339 (rs_codec R) t \<le> rfc3339_micros (rs_codec R) now)"

text \<open>The two states a claim can start from.\<close>

definition claim_args :: "job_state_kind \<Rightarrow> string \<Rightarrow> string \<Rightarrow> bool" where
  "claim_args k variant field \<longleftrightarrow>
     k = KScheduled \<and> variant = ''Scheduled'' \<and> field = ''enqueue_at''
     \<or> k = KAwaitingRetry \<and> variant = ''AwaitingRetry'' \<and> field = ''retry_at''"

text \<open>One claimed entry: its job is enqueued on its own queue, scored by its priority alone.\<close>

definition promoted_job :: "time \<Rightarrow> 'p job \<Rightarrow> 'p job" where
  "promoted_job now j = j\<lparr>job_state := Enqueued (micros now) (job_queue j)\<rparr>"

text \<open>A list of claims: \<open>js\<close> are the jobs as they were. The scores are those of the entries.\<close>

definition claims_done :: "('v \<Rightarrow> 'p job \<Rightarrow> bool) \<Rightarrow> ('p, 'v, 'o, 'r) redis_storage \<Rightarrow> time \<Rightarrow> 'p job list \<Rightarrow> 'v keyspace \<Rightarrow> 'v keyspace \<Rightarrow> bool" where
  "claims_done doc R now js K K' \<longleftrightarrow>
     consistent doc R K' \<and> queued R K'
     \<and> (\<forall>i. redis_jobs R K' i = (if i \<in> job_id ` set js then map_option (promoted_job now) (redis_jobs R K i)
                                  else redis_jobs R K i))
     \<and> (\<forall>i. global_queue R K' i =
              (if i \<in> job_id ` set js
               then map_option (\<lambda>j. f64_of_int (sint (job_priority j))) (redis_jobs R K i)
               else global_queue R K i))"

definition due_jobs :: "('p, 'v, 'o, 'r) redis_storage \<Rightarrow> 'v keyspace \<Rightarrow> job_state_kind \<Rightarrow> time \<Rightarrow> string set" where
  "due_jobs R K k now =
     {i. \<exists>j. redis_jobs R K i = Some j \<and> kind (job_state j) = k \<and> text_due R now (job_state j)}"

text \<open>The selection: a part of the due jobs, all of them when the limit allows, and none that is left
  has a higher priority than one that is taken.\<close>

definition selected :: "('p, 'v, 'o, 'r) redis_storage \<Rightarrow> 'v keyspace \<Rightarrow> job_state_kind \<Rightarrow> time \<Rightarrow> nat \<Rightarrow> 'p job list \<Rightarrow> bool" where
  "selected R K k now limit js \<longleftrightarrow>
     distinct (map job_id js) \<and> (\<forall>j \<in> set js. redis_jobs R K (job_id j) = Some j)
     \<and> job_id ` set js \<subseteq> due_jobs R K k now
     \<and> length js = min limit (card (due_jobs R K k now))
     \<and> (\<forall>j \<in> set js. \<forall>i \<in> due_jobs R K k now - job_id ` set js. \<forall>j'.
          redis_jobs R K i = Some j' \<longrightarrow> sint (job_priority j') \<le> sint (job_priority j))"

context redis_backend
begin

section \<open>The fetch script\<close>

lemma drop_stale_twp:
  assumes K: "well_typed R K" and keys: "\<forall>k \<in> set keys. k = available_jobs_key R \<or> (\<exists>q. k = available_jobs_by_queue_key R q)"
  shows "twp ks (lua_drop_stale R keys i)
    (\<lambda>x K'. x = Inr None
       \<and> K' = (\<lambda>k. if k = available_jobs_key R \<or> k \<in> set keys then mk_zset ((zset_of (K k))(i := None)) else K k)) K"
  unfolding lua_drop_stale_def
proof (rule twp_bindE [OF lua_zrem_all_twp])
  note typed = well_typedD [OF K]
  show "\<forall>k \<in> set keys. is_zset (K k)" using keys typed by auto
  fix v K'
  assume "Inr v = Inr () \<and> K' = (\<lambda>k. if k \<in> set keys then mk_zset ((zset_of (K k))(i := None)) else K k)"
  then show "twp ks (bindE (redis_call (rs_redis R) (ZREM (available_jobs_key R) i)) (\<lambda>_. ret (Inr None)))
    (\<lambda>x K'. x = Inr None
       \<and> K' = (\<lambda>k. if k = available_jobs_key R \<or> k \<in> set keys then mk_zset ((zset_of (K k))(i := None)) else K k)) K'"
    by (intro twp_command twp_ret) (auto simp: typed fun_eq_iff)
qed simp

text \<open>Dropping an entry of a job that is not enqueued keeps every invariant.\<close>

lemma drop_entry_keeps:
  assumes K: "consistent doc R K" "queued R K"
    and j: "redis_jobs R K i = Some j" "kind (job_state j) \<noteq> KEnqueued"
    and keys: "\<forall>k \<in> set keys. k = available_jobs_key R \<or> (\<exists>q. k = available_jobs_by_queue_key R q)"
    and K': "K' = (\<lambda>k. if k = available_jobs_key R \<or> k \<in> set keys then mk_zset ((zset_of (K k))(i := None)) else K k)"
  shows "consistent doc R K' \<and> queued R K' \<and> redis_jobs R K' = redis_jobs R K"
proof -
  have same: "K' k = K k" if "k \<noteq> available_jobs_key R" "\<And>q. k \<noteq> available_jobs_by_queue_key R q" for k
    using that keys by (auto simp: K')
  have J: "redis_jobs R K' = redis_jobs R K" by (simp add: fun_eq_iff redis_jobs_def same)
  have "is_zset (K' (available_jobs_key R))" by (simp add: K')
  moreover have "is_zset (K' (available_jobs_by_queue_key R q))" for q
    using well_typedD(5) [OF consistentD(2) [OF K(1)]] by (simp add: K')
  ultimately have "consistent doc R K'"
    using K(1) by (simp add: consistent_def blobs_ok_def well_typed_def indexed_def state_set_def state_count_def same J)
  moreover have g: "global_queue R K' = (global_queue R K)(i := None)"
    by (simp add: global_queue_def K')
  moreover have n: "named_queue R K' q = (named_queue R K q)(i := None) \<or> named_queue R K' q = named_queue R K q" for q
    by (simp add: named_queue_def K')
  have "queued R K'"
    unfolding queued_def J
  proof (intro conjI allI impI)
    fix q i'
    assume "i' \<in> dom (named_queue R K' q)"
    then have "i' \<in> dom (named_queue R K q)" using n [of q] by (auto split: if_splits)
    then show "\<exists>j. redis_jobs R K i' = Some j \<and> waiting (job_state j) \<and> job_queue j = q"
      using K(2) by (simp add: queued_def)
  next
    fix i' j'
    assume a: "redis_jobs R K i' = Some j' \<and> kind (job_state j') = KEnqueued"
    with j have "i' \<noteq> i" by auto
    with a K(2) n [of "job_queue j'"]
    show "i' \<in> dom (global_queue R K')" and "named_queue R K' (job_queue j') i' = global_queue R K' i'"
      by (auto simp: queued_def g)
  qed (use K(2) in \<open>auto simp: queued_def g split: if_splits\<close>)
  ultimately show ?thesis using J by simp
qed

lemma start_job_twp:
  assumes K: "consistent doc R K" "queued R K" and v: "doc v j" "redis_jobs R K i = Some j" "job_id j = i"
    and j: "clean j" and now: "time_ok now" and k: "kind (job_state j) \<noteq> KProcessing"
    and t: "cjson_decode (rs_codec R) v = Inr (L_table t)" "map_of t ''queue'' = Some (L_str (job_queue j))"
  shows "twp ks (lua_start_job R wid (rfc3339_micros (rs_codec R) now) i (L_table t)
           (kind_to_state_name (kind (job_state j))))
    (\<lambda>x K'. \<exists>v. x = Inr (Some v) \<and> doc v (claimed_by wid now j) \<and> consistent doc R K' \<and> queued R K'
       \<and> redis_jobs R K' = (redis_jobs R K)(i \<mapsto> claimed_by wid now j)) K"
proof -
  note typed = well_typedD [OF consistentD(2) [OF K(1)]]
  obtain v' where v': "cjson_encode (rs_codec R) (lua_with_state (lua_processing wid (rfc3339_micros (rs_codec R) now))
      (rfc3339_micros (rs_codec R) now) (L_table t)) = Inr v'" "doc v' (claimed_by wid now j)"
    using encode_processing [OF v(1) j now t(1)] unfolding claimed_by_def by blast
  let ?K = "put_queues R (job_queue j) i None (put_blob R i v' K)"
  have eff: "effect (ZREM (available_jobs_by_queue_key R (job_queue j)) i)
      (effect (ZREM (available_jobs_key R) i) (effect (SET (job_key R i) v') K)) = ?K"
    by (simp add: put_queues_def put_blob_def global_queue_def named_queue_def)
  let ?K' = "move_state R i (kind_to_state_name (kind (job_state j))) (kind_to_state_name KProcessing) ?K"
  have comm: "?K' = put_queues R (job_queue j) i None
     (move_state R i (kind_to_state_name (kind (job_state j))) (kind_to_state_name KProcessing) (put_blob R i v' K))"
    by (simp add: write_defs global_queue_def named_queue_def fun_eq_iff)
  have id: "job_id (claimed_by wid now j) = i" "kind (job_state (claimed_by wid now j)) = KProcessing"
    "job_queue (claimed_by wid now j) = job_queue j"
    using v(3) by (simp_all add: claimed_by_def)
  have cons: "consistent doc R ?K' \<and> redis_jobs R ?K' = (redis_jobs R K)(i \<mapsto> claimed_by wid now j)"
    by (rule consistent_replace [OF K(1) v(2) v'(2) id(1), where q = "job_queue j" and score = None])
       (simp only: comm id k if_False)
  have "queued R ?K'"
    by (rule queued_replace [OF K(2) v(2) _ id(3), where score = None]) (use cons id in auto)
  with cons v' have post: "\<exists>w. Inr (Some v') = Inr (Some w) \<and> doc w (claimed_by wid now j) \<and> consistent doc R ?K'
     \<and> queued R ?K' \<and> redis_jobs R ?K' = (redis_jobs R K)(i \<mapsto> claimed_by wid now j)"
    by blast
  show ?thesis
    unfolding lua_start_job_def Let_def
    apply (rule twp_lift, rule v'(1))
    apply (rule twp_command, simp)
    apply (rule twp_command, simp add: typed)
    apply (rule twp_lift [where v = "job_queue j"], simp add: t)
    apply (rule twp_command, simp add: typed)
    apply (unfold eff, unfold kind_to_state_name.simps(2) [symmetric])
    apply (rule twp_move_state, simp add: consistentD(2) [OF K(1)])
    apply (rule twp_ret, rule post)
    done
qed

lemma take_job_twp:
  assumes K: "consistent doc R K" "queued R K" and j: "redis_jobs R K i = Some j" "clean j" and now: "time_ok now"
    and keys: "\<forall>k \<in> set keys. k = available_jobs_key R \<or> (\<exists>q. k = available_jobs_by_queue_key R q)"
  shows "twp ks (lua_take_job R keys wid (rfc3339_micros (rs_codec R) now) i)
    (\<lambda>x K'. consistent doc R K' \<and> queued R K' \<and>
       (if kind (job_state j) = KEnqueued \<or> kind (job_state j) = KAwaitingRetry
        then (\<exists>v. x = Inr (Some v) \<and> doc v (claimed_by wid now j))
             \<and> redis_jobs R K' = (redis_jobs R K)(i \<mapsto> claimed_by wid now j)
        else x = Inr None \<and> redis_jobs R K' = redis_jobs R K)) K"
proof -
  obtain v where v: "K (job_key R i) = Some (Str v False)" "doc v j" "job_id j = i"
    using stored_blob [OF consistentD(1) [OF K(1)] j(1)] .
  obtain t fs where t: "cjson_decode (rs_codec R) v = Inr (L_table t)"
    "map_of t ''queue'' = Some (L_str (job_queue j))"
    "map_of t ''state'' = Some (L_table [(kind_name (kind (job_state j)), L_table fs)])"
    using decode_blob [OF v(2)] by metis
  let ?is = "\<lambda>k. if kind (job_state j) = k then L_table fs else L_nil"
  have enq: "lua_index (L_table [(kind_name (kind (job_state j)), L_table fs)]) ''Enqueued'' = Inr (?is KEnqueued)"
    and retry: "lua_index (L_table [(kind_name (kind (job_state j)), L_table fs)]) ''AwaitingRetry'' = Inr (?is KAwaitingRetry)"
    by (cases "kind (job_state j)"; simp)+
  show ?thesis
    unfolding lua_take_job_def
    apply (rule twp_get, rule v(1), simp only: reply.case)
    apply (rule twp_lift, rule t(1))
    apply (rule twp_lift [where v = "L_table [(kind_name (kind (job_state j)), L_table fs)]"], simp add: t(3))
    apply (rule twp_lift, rule enq)
    apply (rule twp_lift, rule retry)
    apply (cases "kind (job_state j) = KEnqueued \<or> kind (job_state j) = KAwaitingRetry")
    subgoal
      using start_job_twp [OF K v(2) j(1) v(3) j(2) now _ t(1, 2), of wid]
      by (auto elim!: twp_mono)
    subgoal
      by (simp, rule twp_mono [OF drop_stale_twp [OF consistentD(2) [OF K(1)] keys]])
         (use drop_entry_keeps [OF K j(1) _ keys] in auto)
    done
qed

lemma scanned_queued:
  assumes "queued R K" and "z \<in> set (scanned R K qs)" and "z i = Some s"
  obtains j where "redis_jobs R K i = Some j" and "waiting (job_state j)" and "queue_ok qs (job_queue j)"
proof -
  from assms(2) consider (global) "z = global_queue R K" "qs = None \<or> qs = Some []"
    | (named) q xs where "z = named_queue R K q" "qs = Some xs" "q \<in> set xs"
    by (auto simp: scanned_def candidate_keys_def global_queue_def named_queue_def split: option.splits if_splits)
  then show ?thesis
  proof cases
    case global
    with assms obtain j where "redis_jobs R K i = Some j" "waiting (job_state j)"
      unfolding queued_def by blast
    with global show ?thesis using that by (auto simp: queue_ok_def)
  next
    case named
    with assms obtain j where "redis_jobs R K i = Some j" "waiting (job_state j)" "job_queue j = q"
      unfolding queued_def by blast
    with named show ?thesis using that by (simp add: queue_ok_def)
  qed
qed

lemma scanned_enqueued:
  assumes "queued R K" and "redis_jobs R K i = Some j" and "kind (job_state j) = KEnqueued"
    and "queue_ok qs (job_queue j)"
  obtains z s where "z \<in> set (scanned R K qs)" and "z i = Some s"
proof -
  from assms(1-3) obtain s where s: "global_queue R K i = Some s" "named_queue R K (job_queue j) i = Some s"
    unfolding queued_def by (metis domD)
  show ?thesis
  proof (cases "qs = None \<or> qs = Some []")
    case True
    then have "global_queue R K \<in> set (scanned R K qs)" by (auto simp: scanned_def candidate_keys_def global_queue_def)
    with s that show ?thesis by blast
  next
    case False
    then obtain xs where "qs = Some xs" "xs \<noteq> []" by auto
    with assms(4) have "named_queue R K (job_queue j) \<in> set (scanned R K qs)"
      by (auto simp: scanned_def candidate_keys_def named_queue_def queue_ok_def)
    with s that show ?thesis by blast
  qed
qed

lemma fetch_script_twp:
  assumes K: "consistent doc R K" "queued R K" and clean: "\<And>i j. redis_jobs R K i = Some j \<Longrightarrow> clean j"
    and now: "time_ok now"
  shows "twp ks (fetch_script R (candidate_keys R qs) wid (rfc3339_micros (rs_codec R) now))
    (\<lambda>x K'. \<exists>y. fetched doc R wid qs now K y K'
       \<and> (case y of None \<Rightarrow> x = Inr None | Some j \<Rightarrow> \<exists>v. x = Inr (Some v) \<and> doc v j)) K"
  unfolding fetch_script_def
proof (rule twp_bindE)
  have keys: "\<forall>k \<in> set (candidate_keys R qs). k = available_jobs_key R \<or> (\<exists>q. k = available_jobs_by_queue_key R q)"
    by (auto simp: candidate_keys_def split: option.splits)
  note typed = well_typedD [OF consistentD(2) [OF K(1)]]
  show "twp ks (lua_best (rs_redis R) (candidate_keys R qs) (None, Infinity True))
    (\<lambda>x K'. K' = K \<and> (\<exists>b. x = Inr (fst b) \<and> best_of (scanned R K qs) (None, Infinity True) b)) K"
    unfolding scanned_def by (rule lua_best_twp) (use keys typed in auto)
  fix v K'
  assume "K' = K \<and> (\<exists>b. Inr v = Inr (fst b) \<and> best_of (scanned R K qs) (None, Infinity True) b)"
  then obtain b where b: "K' = K" "v = fst b" "best_of (scanned R K qs) (None, Infinity True) b" by auto
  show "twp ks (case v of None \<Rightarrow> ret (Inr None)
       | Some i \<Rightarrow> lua_take_job R (candidate_keys R qs) wid (rfc3339_micros (rs_codec R) now) i)
    (\<lambda>x K'. \<exists>y. fetched doc R wid qs now K y K'
       \<and> (case y of None \<Rightarrow> x = Inr None | Some j \<Rightarrow> \<exists>v. x = Inr (Some v) \<and> doc v j)) K'"
  proof (cases v)
    case None
    with b have "b = (None, Infinity True)" by (auto simp: best_of_def)
    with b K have "fetched doc R wid qs now K None K" by (auto simp: fetched_def best_of_def)
    with None b show ?thesis by (auto intro!: twp_ret)
  next
    case (Some i)
    with b have top: "tops R K qs i" by (auto simp: best_of_def tops_def) blast
    then obtain z s where "z \<in> set (scanned R K qs)" "z i = Some s" by (auto simp: tops_def)
    from scanned_queued [OF K(2) this] obtain j
      where j: "redis_jobs R K i = Some j" "waiting (job_state j)" "queue_ok qs (job_queue j)" .
    have id: "job_id j = i" using stored_blob [OF consistentD(1) [OF K(1)] j(1)] by blast
    show ?thesis
      unfolding Some b(1) option.case
    proof (rule twp_mono [OF take_job_twp [OF K j(1) clean [OF j(1)] now keys]])
      fix x L
      assume post: "consistent doc R L \<and> queued R L \<and>
        (if kind (job_state j) = KEnqueued \<or> kind (job_state j) = KAwaitingRetry
         then (\<exists>v. x = Inr (Some v) \<and> doc v (claimed_by wid now j))
              \<and> redis_jobs R L = (redis_jobs R K)(i \<mapsto> claimed_by wid now j)
         else x = Inr None \<and> redis_jobs R L = redis_jobs R K)"
      let ?y = "if kind (job_state j) = KEnqueued \<or> kind (job_state j) = KAwaitingRetry
        then Some (claimed_by wid now j) else None"
      have "fetched doc R wid qs now K ?y L"
        using post j id top by (auto simp: fetched_def waiting_def)
      moreover have "case ?y of None \<Rightarrow> x = Inr None | Some j \<Rightarrow> \<exists>v. x = Inr (Some v) \<and> doc v j"
        using post by auto
      ultimately show "\<exists>y. fetched doc R wid qs now K y L
        \<and> (case y of None \<Rightarrow> x = Inr None | Some j \<Rightarrow> \<exists>v. x = Inr (Some v) \<and> doc v j)" by blast
    qed
  qed
qed simp

section \<open>The claim script\<close>

definition entry_ok :: "'v keyspace \<Rightarrow> time \<Rightarrow> job_state_kind \<Rightarrow> 'o lua_entry \<Rightarrow> bool" where
  "entry_ok K now k e \<longleftrightarrow>
     (\<exists>v t j. K (job_key R (le_id e)) = Some (Str v False) \<and> doc v j \<and> redis_jobs R K (le_id e) = Some j
        \<and> cjson_decode (rs_codec R) v = Inr (L_table t) \<and> le_parsed e = L_table t
        \<and> map_of t ''queue'' = Some (L_str (job_queue j))
        \<and> le_priority e = f64_of_int (sint (job_priority j))
        \<and> kind (job_state j) = k \<and> text_due R now (job_state j))"

lemma lua_due_table:
  assumes "job_table (rfc3339 (rs_codec R)) j t" and "claim_args (kind (job_state j)) variant field"
  shows "lua_due variant field (rfc3339_micros (rs_codec R) now) (L_table t) = Inr (text_due R now (job_state j))"
  using assms
  by (cases "job_state j") (auto simp: claim_args_def job_table_def lua_due_def text_due_def)

lemma lua_entry_of_table:
  assumes "job_table (rfc3339 (rs_codec R)) j t"
  shows "\<exists>e. lua_entry_of (rs_codec R) i (L_table t) = Inr e \<and> le_id e = i \<and> le_parsed e = L_table t
           \<and> le_priority e = f64_of_int (sint (job_priority j))"
  using assms by (simp add: job_table_def lua_entry_of_def lua_or_def)

lemma collect_due_twp:
  assumes K: "consistent doc R K" and args: "claim_args k variant field"
    and "\<forall>i \<in> set is. \<exists>j. redis_jobs R K i = Some j \<and> kind (job_state j) = k"
  shows "twp ks (lua_collect_due R from_key variant field (rfc3339_micros (rs_codec R) now) is)
    (\<lambda>x K'. K' = K \<and> (\<exists>es. x = Inr es \<and> (\<forall>e \<in> set es. entry_ok K now k e)
       \<and> map le_id es = filter (\<lambda>i. \<exists>j. redis_jobs R K i = Some j \<and> text_due R now (job_state j)) is)) K"
  using assms(3)
proof (induction "is")
  case Nil
  show ?case unfolding lua_collect_due.simps by (rule twp_ret) simp
next
  case (Cons i "is")
  let ?due = "\<lambda>i. \<exists>j. redis_jobs R K i = Some j \<and> text_due R now (job_state j)"
  from Cons.prems obtain j where j: "redis_jobs R K i = Some j" "kind (job_state j) = k" by auto
  obtain v where v: "K (job_key R i) = Some (Str v False)" "doc v j" "job_id j = i"
    using stored_blob [OF consistentD(1) [OF K] j(1)] .
  obtain t where t: "cjson_decode (rs_codec R) v = Inr (L_table t)"
    "map_of t ''queue'' = Some (L_str (job_queue j))" "job_table (rfc3339 (rs_codec R)) j t"
    using decode_blob [OF v(2)] by metis
  obtain e where e: "lua_entry_of (rs_codec R) i (L_table t) = Inr e" "le_id e = i" "le_parsed e = L_table t"
    "le_priority e = f64_of_int (sint (job_priority j))"
    using lua_entry_of_table [OF t(3)] by blast
  have IH: "twp ks (lua_collect_due R from_key variant field (rfc3339_micros (rs_codec R) now) is)
    (\<lambda>x K'. K' = K \<and> (\<exists>es. x = Inr es \<and> (\<forall>e \<in> set es. entry_ok K now k e) \<and> map le_id es = filter ?due is)) K"
    using Cons by simp
  show ?case
    unfolding lua_collect_due.simps
    apply (rule twp_get, rule v(1), simp only: reply.case)
    apply (rule twp_lift, rule t(1))
    apply (rule twp_lift, rule lua_due_table [OF t(3)], simp add: args j(2))
    apply (cases "text_due R now (job_state j)")
    subgoal premises due
    proof -
      have ok: "entry_ok K now k e" using v t e j due by (auto simp: entry_ok_def)
      show ?thesis
        by (simp only: due if_True, rule twp_lift, rule e(1), rule twp_bindE, rule IH)
           (auto simp: j e due ok intro!: twp_ret)
    qed
    subgoal using IH by (simp add: j)
    done
qed

lemma promoted_job_simps [simp]:
  "job_id (promoted_job now j) = job_id j" "job_queue (promoted_job now j) = job_queue j"
  "job_state (promoted_job now j) = Enqueued (micros now) (job_queue j)"
  "job_priority (promoted_job now j) = job_priority j"
  by (simp_all add: promoted_job_def)

lemma claim_entry_twp:
  assumes K: "consistent doc R K" "queued R K" and e: "entry_ok K now k e"
    and j: "redis_jobs R K (le_id e) = Some j" "clean j" and now: "time_ok now"
    and k: "claim_args k variant field" and score: "le_priority e \<noteq> NaN"
  shows "twp ks (lua_claim_entry R (state_index_key R (kind_to_state_name k)) (kind_to_state_name k)
           (rfc3339_micros (rs_codec R) now) e)
    (\<lambda>x K'. (\<exists>v. x = Inr v \<and> doc v (promoted_job now j)) \<and> consistent doc R K' \<and> queued R K'
       \<and> redis_jobs R K' = (redis_jobs R K)(le_id e \<mapsto> promoted_job now j)
       \<and> global_queue R K' = (global_queue R K)(le_id e \<mapsto> le_priority e)
       \<and> (\<forall>i. i \<noteq> le_id e \<longrightarrow> K' (job_key R i) = K (job_key R i))) K"
proof -
  define i where "i = le_id e"
  note typed = well_typedD [OF consistentD(2) [OF K(1)]]
  from e j obtain v t where v: "doc v j" "cjson_decode (rs_codec R) v = Inr (L_table t)" "le_parsed e = L_table t"
    "map_of t ''queue'' = Some (L_str (job_queue j))" "kind (job_state j) = k"
    by (auto simp: entry_ok_def i_def)
  have id: "job_id j = i" using stored_blob [OF consistentD(1) [OF K(1)] j(1)] by (auto simp: i_def)
  obtain v' where v': "cjson_encode (rs_codec R) (lua_with_state
      (lua_enqueued (rfc3339_micros (rs_codec R) now) (L_str (job_queue j))) (rfc3339_micros (rs_codec R) now) (L_table t))
      = Inr v'" "doc v' (promoted_job now j)"
    using encode_enqueued [OF v(1) j(2) now v(2)] unfolding promoted_job_def by blast
  define L where "L = put_queues R (job_queue j) i (Some (le_priority e))
     (move_state R i (kind_to_state_name k) (kind_to_state_name KEnqueued) (put_blob R i v' K))"
  have kE: "k \<noteq> KEnqueued" using k by (auto simp: claim_args_def)
  have eff: "effect (HINCRBY (job_counts_key R) ''enqueued'' 1)
      (effect (HINCRBY (job_counts_key R) (kind_to_state_name k) (-1))
      (effect (ZADD (available_jobs_by_queue_key R (job_queue j)) (le_priority e) i)
      (effect (ZADD (available_jobs_key R) (le_priority e) i)
      (effect (SADD (state_index_key R ''enqueued'') i)
      (effect (SREM (state_index_key R (kind_to_state_name k)) i)
      (effect (SET (job_key R i) v') K)))))) = L"
    by (simp add: L_def write_defs global_queue_def named_queue_def fun_eq_iff)
  have cons: "consistent doc R L \<and> redis_jobs R L = (redis_jobs R K)(i \<mapsto> promoted_job now j)"
    by (rule consistent_replace [OF K(1) j(1) [folded i_def] v'(2), where q = "job_queue j" and score = "Some (le_priority e)"])
       (use v(5) kE in \<open>simp_all add: id L_def\<close>)
  have "queued R L"
    by (rule queued_replace [OF K(2) j(1) [folded i_def], where score = "Some (le_priority e)" and j' = "promoted_job now j"])
       (use cons in \<open>simp_all add: L_def waiting_def\<close>)
  moreover have "global_queue R L = (global_queue R K)(i \<mapsto> le_priority e)" by (simp add: L_def)
  moreover have "\<forall>i'. i' \<noteq> i \<longrightarrow> L (job_key R i') = K (job_key R i')" by (simp add: L_def write_defs)
  ultimately have post: "(\<exists>v. Inr v' = Inr v \<and> doc v (promoted_job now j)) \<and> consistent doc R L \<and> queued R L
       \<and> redis_jobs R L = (redis_jobs R K)(i \<mapsto> promoted_job now j)
       \<and> global_queue R L = (global_queue R K)(i \<mapsto> le_priority e)
       \<and> (\<forall>i'. i' \<noteq> i \<longrightarrow> L (job_key R i') = K (job_key R i'))"
    using cons v' by blast
  show ?thesis
    unfolding lua_claim_entry_def Let_def v(3) i_def [symmetric]
    apply (rule twp_lift [where v = "L_str (job_queue j)"], simp add: v)
    apply (rule twp_lift, rule v'(1))
    apply (rule twp_command, simp)
    apply (rule twp_command, simp add: typed)
    apply (rule twp_command, simp add: typed)
    apply (rule twp_command, simp add: typed score)
    apply (rule twp_lift, rule lua_text_str)
    apply (rule twp_command, simp add: typed score)
    apply (rule twp_command, simp add: typed)
    apply (rule twp_command, simp add: typed)
    apply (unfold eff, rule twp_ret, rule post)
    done
qed

lemma ids_of_jobs: "consistent doc R K \<Longrightarrow> map (redis_jobs R K) is = map Some js \<Longrightarrow> map job_id js = is"
proof (induction "is" arbitrary: js)
  case (Cons i "is")
  then obtain j js' where "js = j # js'" "redis_jobs R K i = Some j" "map (redis_jobs R K) is = map Some js'"
    by (cases js) auto
  then show ?case using Cons keyed_redis_jobs [OF consistentD(1) [OF Cons.prems(1)]] by (simp add: keyed_def)
qed simp

lemma claim_entries_twp:
  assumes K: "consistent doc R K" "queued R K" and es: "\<forall>e \<in> set es. entry_ok K now k e" "distinct (map le_id es)"
    and clean: "\<And>i j. redis_jobs R K i = Some j \<Longrightarrow> clean j" and now: "time_ok now"
    and k: "claim_args k variant field" and js: "map (redis_jobs R K) (map le_id es) = map Some js"
  shows "twp ks (lua_claim_entries R (state_index_key R (kind_to_state_name k)) (kind_to_state_name k)
           (rfc3339_micros (rs_codec R) now) es)
    (\<lambda>x K'. (\<exists>vs. x = Inr vs \<and> list_all2 doc vs (map (promoted_job now) js)) \<and> claims_done doc R now js K K') K"
  using K es clean js
proof (induction es arbitrary: K js)
  case Nil
  then show ?case unfolding lua_claim_entries.simps by (intro twp_ret) (simp add: claims_done_def)
next
  case (Cons e es)
  from Cons.prems(6) obtain j js' where js: "js = j # js'" "redis_jobs R K (le_id e) = Some j"
    "map (redis_jobs R K) (map le_id es) = map Some js'"
    by (cases js) auto
  have id: "job_id j = le_id e" using stored_blob [OF consistentD(1) [OF Cons.prems(1)] js(2)] by blast
  have prio: "le_priority e = f64_of_int (sint (job_priority j))"
    using Cons.prems(3) js(2) by (auto simp: entry_ok_def)
  have score: "le_priority e \<noteq> NaN" by (simp add: prio f64_of_int_def f64_round_def Let_def)
  show ?case
    unfolding lua_claim_entries.simps
  proof (rule twp_bindE [OF claim_entry_twp [OF Cons.prems(1, 2) _ js(2) Cons.prems(5) [OF js(2)] now k score]])
    show "entry_ok K now k e" using Cons.prems(3) by simp
    fix v K'
    assume post: "(\<exists>va. Inr v = Inr va \<and> doc va (promoted_job now j)) \<and> consistent doc R K' \<and> queued R K'
       \<and> redis_jobs R K' = (redis_jobs R K)(le_id e \<mapsto> promoted_job now j)
       \<and> global_queue R K' = (global_queue R K)(le_id e \<mapsto> le_priority e)
       \<and> (\<forall>i. i \<noteq> le_id e \<longrightarrow> K' (job_key R i) = K (job_key R i))"
    have fresh: "le_id e' \<noteq> le_id e" if "e' \<in> set es" for e'
      using that Cons.prems(4) by (simp, metis image_eqI)
    have oks: "\<forall>e' \<in> set es. entry_ok K' now k e'"
      using Cons.prems(3) post fresh unfolding entry_ok_def by (metis fun_upd_other list.set_intros(2))
    have clean': "clean j'" if "redis_jobs R K' i = Some j'" for i j'
      using that post Cons.prems(5) js(2) by (auto simp: promoted_job_def clean_state split: if_splits)
    have js': "map (redis_jobs R K') (map le_id es) = map Some js'"
    proof -
      have "map (redis_jobs R K') (map le_id es) = map (redis_jobs R K) (map le_id es)"
        by (rule map_cong [OF refl]) (use post fresh in auto)
      then show ?thesis using js(3) by (rule trans)
    qed
    have IH: "twp ks (lua_claim_entries R (state_index_key R (kind_to_state_name k)) (kind_to_state_name k)
           (rfc3339_micros (rs_codec R) now) es)
      (\<lambda>x K''. (\<exists>vs. x = Inr vs \<and> list_all2 doc vs (map (promoted_job now) js')) \<and> claims_done doc R now js' K' K'') K'"
      by (rule Cons.IH [OF _ _ oks _ clean' js']) (use post Cons.prems(4) in auto)
    have "map job_id js' = map le_id es" using ids_of_jobs [OF Cons.prems(1) js(3)] .
    then have "job_id ` set js' = le_id ` set es" by (metis list.set_map)
    then have new: "le_id e \<notin> job_id ` set js'" using Cons.prems(4) by simp
    show "twp ks (bindE (lua_claim_entries R (state_index_key R (kind_to_state_name k)) (kind_to_state_name k)
              (rfc3339_micros (rs_codec R) now) es) (\<lambda>claimed. ret (Inr (v # claimed))))
      (\<lambda>x K'. (\<exists>vs. x = Inr vs \<and> list_all2 doc vs (map (promoted_job now) js)) \<and> claims_done doc R now js K K') K'"
    proof (rule twp_bindE [OF IH])
      fix vs K''
      assume "(\<exists>ws. Inr vs = Inr ws \<and> list_all2 doc ws (map (promoted_job now) js')) \<and> claims_done doc R now js' K' K''"
      with post new have "list_all2 doc (v # vs) (map (promoted_job now) js) \<and> claims_done doc R now js K K''"
        by (auto simp: claims_done_def js(1) js(2) id prio)
      then show "twp ks (ret (Inr (v # vs)))
        (\<lambda>x K'. (\<exists>vs. x = Inr vs \<and> list_all2 doc vs (map (promoted_job now) js)) \<and> claims_done doc R now js K K') K''"
        by (intro twp_ret) blast
    qed simp
  qed auto
qed

lemma f64_of_prio: "f64_of_int (sint (p :: i32)) = Fin (of_int (sint p))"
proof -
  have "\<bar>sint p\<bar> \<le> 2 ^ 31" using sint_greater_eq [of p] sint_less [of p] by simp
  then show ?thesis by (intro f64_of_int_exact) simp
qed

lemma sorted_take_drop:
  assumes "sorted (map f xs)" and "x \<in> set (take n xs)" and "y \<in> set (drop n xs)"
  shows "f x \<le> f y"
proof -
  have "sorted (map f (take n xs) @ map f (drop n xs))"
    using assms(1) by (simp flip: map_append)
  with assms(2, 3) show ?thesis by (auto simp: sorted_append)
qed

lemma select_entries:
  assumes K: "consistent doc R K" and es: "\<forall>e \<in> set es. entry_ok K now k e"
    and ids: "distinct (map le_id es)" "le_id ` set es = due_jobs R K k now"
    and ts: "ts = take limit (lua_sort_due es)"
  obtains js where "map (redis_jobs R K) (map le_id ts) = map Some js" and "selected R K k now limit js"
proof -
  let ?job = "\<lambda>e. the (redis_jobs R K (le_id e))"
  have perm: "set (lua_sort_due es) = set es" "distinct (map le_id (lua_sort_due es))" "length (lua_sort_due es) = length es"
    using ids(1) by (auto simp: lua_sort_due_def distinct_map)
  have sub: "set ts \<subseteq> set es" using perm(1) by (auto simp: ts dest: in_set_takeD)
  have job: "redis_jobs R K (le_id e) = Some (?job e) \<and> job_id (?job e) = le_id e
      \<and> le_priority e = f64_of_int (sint (job_priority (?job e)))" if "e \<in> set es" for e
    using es that keyed_redis_jobs [OF consistentD(1) [OF K]] by (fastforce simp: entry_ok_def keyed_def)
  define js where "js = map ?job ts"
  have map1: "map (redis_jobs R K) (map le_id ts) = map Some js"
    using job sub by (auto simp: js_def)
  have idmap: "map job_id js = map le_id ts" using job sub by (auto simp: js_def)
  then have idset: "job_id ` set js = le_id ` set ts" by (metis list.set_map)
  have dis: "distinct (map job_id js)"
    unfolding idmap ts using perm(2) by (simp add: take_map [symmetric] distinct_take)
  have len: "length js = min limit (card (due_jobs R K k now))"
    using perm(3) ids distinct_card [OF ids(1)] by (simp add: js_def ts)
  have prio: "sint (job_priority j') \<le> sint (job_priority j)"
    if j: "j \<in> set js" and i: "i \<in> due_jobs R K k now - job_id ` set js" "redis_jobs R K i = Some j'" for j i j'
  proof -
    from j obtain e where e: "e \<in> set ts" "j = ?job e" by (auto simp: js_def)
    from i ids(2) have "i \<in> le_id ` set es" by simp
    then obtain e' where e': "e' \<in> set es" "le_id e' = i" by blast
    have "e' \<notin> set ts" using i(1) e' idset by auto
    then have "e' \<in> set (drop limit (lua_sort_due es))"
      using e' perm(1) ts by (metis Un_iff append_take_drop_id set_append)
    then have "(f64_neg (le_priority e), le_created_at e) \<le> (f64_neg (le_priority e'), le_created_at e')"
      using e(1) sorted_take_drop [of "\<lambda>e. (f64_neg (le_priority e), le_created_at e)" "lua_sort_due es" e limit e']
      by (simp add: ts lua_sort_due_def)
    moreover have "e \<in> set es" using e(1) sub by auto
    ultimately show ?thesis using job [OF e'(1)] job [of e] e(2) e'(2) i(2)
      by (auto simp: f64_of_prio simp del: of_int_sint)
  qed
  have "\<forall>j \<in> set js. redis_jobs R K (job_id j) = Some j"
    using job sub by (force simp: js_def)
  moreover have "job_id ` set js \<subseteq> due_jobs R K k now" using idset sub ids(2) by auto
  ultimately have "selected R K k now limit js" using dis len prio by (auto simp: selected_def)
  with map1 that show ?thesis by blast
qed

lemma claim_script_twp:
  assumes K: "consistent doc R K" "queued R K" and clean: "\<And>i j. redis_jobs R K i = Some j \<Longrightarrow> clean j"
    and now: "time_ok now" and k: "claim_args k variant field" and limit: "limit < 2 ^ 63"
  shows "twp ks (claim_script R (kind_to_state_name k) variant field (rfc3339_micros (rs_codec R) now) (as_i64 limit))
    (\<lambda>x K'. \<exists>vs js. x = Inr vs \<and> selected R K k now limit js \<and> list_all2 doc vs (map (promoted_job now) js)
       \<and> claims_done doc R now js K K') K"
proof -
  let ?post = "\<lambda>x K'. \<exists>vs js. x = Inr vs \<and> selected R K k now limit js \<and> list_all2 doc vs (map (promoted_job now) js)
       \<and> claims_done doc R now js K K'"
  let ?due = "\<lambda>i. \<exists>j. redis_jobs R K i = Some j \<and> text_due R now (job_state j)"
  note typed = well_typedD [OF consistentD(2) [OF K(1)]]
  have lim: "as_i64 limit = int limit" using limit by (simp add: as_i64_def Let_def)
  have inner: "twp ks (bindE (lua_collect_due R (state_index_key R (kind_to_state_name k)) variant field
        (rfc3339_micros (rs_codec R) now) ms) (\<lambda>due.
      lua_claim_entries R (state_index_key R (kind_to_state_name k)) (kind_to_state_name k)
        (rfc3339_micros (rs_codec R) now) (take (nat (min (int limit) (int (length due)))) (lua_sort_due due)))) ?post K"
    if ms: "distinct ms" "set ms = in_state (redis_jobs R K) k" for ms
  proof (rule twp_bindE [OF collect_due_twp [OF K(1) k]])
    show "\<forall>i \<in> set ms. \<exists>j. redis_jobs R K i = Some j \<and> kind (job_state j) = k"
      using ms(2) by (auto simp: in_state_def)
    fix es K'
    assume "K' = K \<and> (\<exists>fs. Inr es = Inr fs \<and> (\<forall>e \<in> set fs. entry_ok K now k e) \<and> map le_id fs = filter ?due ms)"
    then have es: "K' = K" "\<forall>e \<in> set es. entry_ok K now k e" "map le_id es = filter ?due ms" by auto
    have dis: "distinct (map le_id es)" using ms(1) es(3) by simp
    have "set (map le_id es) = due_jobs R K k now"
      unfolding es(3) using ms(2) by (auto simp: due_jobs_def in_state_def)
    then have set: "le_id ` set es = due_jobs R K k now" by simp
    define ts where "ts = take limit (lua_sort_due es)"
    have tk: "take (nat (min (int limit) (int (length es)))) (lua_sort_due es) = ts"
      by (simp add: ts_def lua_sort_due_def min_def)
    obtain js where js: "map (redis_jobs R K) (map le_id ts) = map Some js" "selected R K k now limit js"
      using select_entries [OF K(1) es(2) dis set ts_def] .
    have "\<forall>e \<in> set ts. entry_ok K now k e" using es(2) by (auto simp: ts_def lua_sort_due_def dest: in_set_takeD)
    moreover have "distinct (map le_id ts)"
      using dis by (simp add: ts_def take_map [symmetric] lua_sort_due_def distinct_map inj_on_subset)
    ultimately have "twp ks (lua_claim_entries R (state_index_key R (kind_to_state_name k)) (kind_to_state_name k)
        (rfc3339_micros (rs_codec R) now) ts)
      (\<lambda>x K'. (\<exists>vs. x = Inr vs \<and> list_all2 doc vs (map (promoted_job now) js)) \<and> claims_done doc R now js K K') K"
      by (intro claim_entries_twp [OF K _ _ clean now k js(1)])
    then show "twp ks (lua_claim_entries R (state_index_key R (kind_to_state_name k)) (kind_to_state_name k)
        (rfc3339_micros (rs_codec R) now) (take (nat (min (int limit) (int (length es)))) (lua_sort_due es))) ?post K'"
      unfolding tk es(1) by (rule twp_mono) (use js(2) in blast)
  qed auto
  have set: "set_of (K (state_index_key R (kind_to_state_name k))) = in_state (redis_jobs R K) k"
    using K(1) by (simp add: consistent_def indexed_def state_set_def)
  show ?thesis
    unfolding claim_script_def Let_def lim
  proof (rule twp_bindE)
    show "twp ks (bindE (redis_call (rs_redis R) (SMEMBERS (state_index_key R (kind_to_state_name k))))
        (\<lambda>x. ret (as_members x)))
      (\<lambda>x K'. K' = K \<and> (\<exists>ms. x = Inr ms \<and> distinct ms \<and> set ms = in_state (redis_jobs R K) k)) K"
      by (rule twp_smembers) (auto simp: typed set as_members_def intro!: twp_ret)
  qed (use inner in auto)
qed

end

end
