(* ===== verification/Redis_Contract.thy ===== *)
theory Redis_Contract
  imports Redis_Scripts Processor_Contract
begin

text \<open>
  The methods of the Redis backend as a whole: sequences of requests, between which time passes on the
  server. The locale \<open>redis_live\<close> adds that every request is answered in time; under it the backend
  satisfies the contract \<open>job_access\<close>, so the results about the processor hold on Redis too.
\<close>

section \<open>The keys of the jobs\<close>

definition relevant :: "('p, 'v, 'o, 'r) redis_storage \<Rightarrow> string \<Rightarrow> bool" where
  "relevant R k \<longleftrightarrow>
     (\<exists>i. k = job_key R i) \<or> (\<exists>s. k = state_index_key R s) \<or> k = all_jobs_key R \<or> k = job_counts_key R
     \<or> k = available_jobs_key R \<or> (\<exists>q. k = available_jobs_by_queue_key R q)"

definition core :: "('p, 'v, 'o, 'r) redis_storage \<Rightarrow> 'v keyspace \<Rightarrow> 'v keyspace" where
  "core R K = (\<lambda>k. if relevant R k then K k else None)"

lemma relevant_keys [simp]:
  "relevant R (job_key R i)" "relevant R (state_index_key R s)" "relevant R (all_jobs_key R)"
  "relevant R (job_counts_key R)" "relevant R (available_jobs_key R)"
  "relevant R (available_jobs_by_queue_key R q)"
  by (auto simp: relevant_def)

lemma core_key [simp]: "relevant R k \<Longrightarrow> core R K k = K k"
  by (simp add: core_def)

lemma core_views [simp]:
  "redis_jobs R (core R K) = redis_jobs R K" "blobs_ok doc R (core R K) = blobs_ok doc R K"
  "state_set R (core R K) = state_set R K" "state_count R (core R K) = state_count R K"
  "well_typed R (core R K) = well_typed R K" "global_queue R (core R K) = global_queue R K"
  "named_queue R (core R K) = named_queue R K"
  by (simp_all add: fun_eq_iff redis_jobs_def blobs_ok_def state_set_def state_count_def well_typed_def
      global_queue_def named_queue_def)

lemma core_views' [simp]:
  "indexed R (core R K) = indexed R K" "queued R (core R K) = queued R K"
  by (simp_all add: indexed_def queued_def)

text \<open>The key a command reads and writes.\<close>

fun key_of :: "'v command \<Rightarrow> string" where
  "key_of (GET k) = k"
| "key_of (SET k v) = k"
| "key_of (SET_NX_EX k v n) = k"
| "key_of (SET_PX k v n) = k"
| "key_of (DEL k) = k"
| "key_of (SADD k m) = k"
| "key_of (SREM k m) = k"
| "key_of (SMEMBERS k) = k"
| "key_of (ZADD k s m) = k"
| "key_of (ZREM k m) = k"
| "key_of (ZRANGE k i j) = k"
| "key_of (ZREVRANGE k i j) = k"
| "key_of (ZREVRANGE_WITHSCORES k i j) = k"
| "key_of (ZRANGEBYSCORE_LIMIT k lo hi i n) = k"
| "key_of (HINCRBY k f n) = k"
| "key_of (HGETALL k) = k"

lemma key_of_local:
  assumes "relevant R (key_of c)"
  shows "applicable c (core R K) = applicable c K" "answers c (core R K) x = answers c K x"
    "effect c (core R K) = core R (effect c K)"
  using assms by (cases c; auto simp: core_def fun_eq_iff)+

text \<open>The outcome of an update: the job takes the place of the one with its id.\<close>

definition replaced ::
  "('v \<Rightarrow> 'p job \<Rightarrow> bool) \<Rightarrow> ('p, 'v, 'o, 'r) redis_storage \<Rightarrow> 'p job \<Rightarrow> 'v keyspace \<Rightarrow> 'v keyspace \<Rightarrow> bool" where
  "replaced doc R j K K' \<longleftrightarrow>
     consistent doc R K' \<and> redis_jobs R K' = (redis_jobs R K)(job_id j \<mapsto> j)
     \<and> (queued R K \<and> map_option job_queue (redis_jobs R K (job_id j)) = Some (job_queue j) \<longrightarrow> queued R K')"

section \<open>The keyspace of the jobs\<close>

context redis_backend
begin

lemma consistent_core [simp]: "consistent doc R (core R K) = consistent doc R K"
  by (simp add: consistent_def)

lemma scanned_core [simp]: "scanned R (core R K) qs = scanned R K qs"
  by (auto simp: scanned_def candidate_keys_def split: option.split)

lemma tops_core [simp]: "tops R (core R K) qs i = tops R K qs i"
  by (simp add: tops_def)

lemma core_eqD:
  assumes "core R K' = core R K"
  shows "consistent doc R K' = consistent doc R K" "redis_jobs R K' = redis_jobs R K" "queued R K' = queued R K"
  using assms by (metis consistent_core, metis core_views(1), metis core_views'(2))

lemma aged_core:
  assumes "aged K K'" and "blobs_ok doc R K" and "well_typed R K"
  shows "core R K' = core R K"
  using aged_keys [OF assms] by (auto simp: core_def relevant_def fun_eq_iff)

lemma fetched_core: "fetched doc R wid qs now (core R K) x (core R K') = fetched doc R wid qs now K x K'"
  by (simp add: fetched_def split: option.split)

section \<open>The scripts of the updates\<close>

lemma job_score_number: "job_score j \<noteq> NaN"
proof -
  have "f64_round x \<noteq> NaN" for x by (simp add: f64_round_def Let_def)
  moreover have "f64_div (f64_of_int m) (Fin 1000000) \<noteq> NaN" for m
    by (cases "f64_of_int m") (auto simp: f64_of_int_def f64_round_def Let_def split: if_splits)
  ultimately show ?thesis
    unfolding job_score_def f64_of_prio
    by (cases "f64_div (f64_of_int (timestamp_millis (job_created_at j))) (Fin 1000000)") auto
qed

lemma score_number: "(if b then Some (job_score j) else None) \<noteq> Some NaN"
  by (simp add: job_score_number)

lemma job_blob_doc:
  obtains v where "job_blob R j = Inr v" and "doc v j"
  using to_json [of j] by (auto simp: job_blob_def)

lemma score_waits:
  "(if available t st then Some x else None) \<noteq> None \<Longrightarrow> waiting st"
  "kind st = KEnqueued \<Longrightarrow> (if available t st then Some x else None) \<noteq> None"
  by (cases st; simp add: waiting_def split: if_splits)+

lemma update_op_twp:
  assumes K: "consistent doc R K" and v: "doc v j"
  shows "twp ks (update_script R (job_key R (job_id j)) (state_to_string (job_state j)) v
           (if available t (job_state j) then Some (job_score j) else None))
    (\<lambda>x K'. if job_id j \<in> dom (redis_jobs R K) then x = Inr ''ok'' \<and> replaced doc R j K K'
             else x = Inr ''missing'' \<and> K' = K) K"
proof (cases "redis_jobs R K (job_id j)")
  case None
  from update_script_missing [OF consistentD(1) [OF K] None] None show ?thesis by (simp add: domIff)
next
  case (Some j0)
  let ?score = "if available t (job_state j) then Some (job_score j) else None"
  let ?K = "updated (job_id j) j0 v (kind (job_state j)) ?score K"
  have "queued R ?K" if "queued R K" "job_queue j0 = job_queue j"
    by (rule queued_updated [OF that(1) Some v that(2) [symmetric]]) (fact score_waits)+
  then have r: "replaced doc R j K ?K"
    using consistent_updated [OF K Some v refl refl, of ?score] Some by (simp add: replaced_def)
  show ?thesis
    unfolding state_to_string_def
    by (rule twp_mono [OF update_script_twp [OF consistentD(1, 2) [OF K] Some score_number]]) (use Some r in auto)
qed

lemma update_if_state_op_twp:
  assumes K: "consistent doc R K" and v: "doc v j"
  shows "twp ks (update_if_state_script R (job_key R (job_id j)) (kind_name k) (kind_name (kind (job_state j))) v
           (if available t (job_state j) then Some (job_score j) else None))
    (\<lambda>x K'. case redis_jobs R K (job_id j) of
        None \<Rightarrow> x = Inr ''missing'' \<and> K' = K
      | Some j0 \<Rightarrow>
          if kind (job_state j0) = k then x = Inr ''ok'' \<and> replaced doc R j K K' else x = Inr ''mismatch'' \<and> K' = K) K"
proof (cases "redis_jobs R K (job_id j)")
  case None
  from update_if_state_script_missing [OF consistentD(1) [OF K] None] None show ?thesis by simp
next
  case (Some j0)
  let ?score = "if available t (job_state j) then Some (job_score j) else None"
  let ?K = "put_queues R (job_queue j0) (job_id j) ?score
     ((if kind (job_state j0) = kind (job_state j) then id
       else move_state R (job_id j) (kind_to_state_name (kind (job_state j0))) (kind_to_state_name (kind (job_state j))))
        (put_blob R (job_id j) v K))"
  have c: "consistent doc R ?K \<and> redis_jobs R ?K = (redis_jobs R K)(job_id j \<mapsto> j)"
    by (rule consistent_replace [OF K Some v refl refl])
  have "queued R ?K" if "queued R K" "job_queue j0 = job_queue j"
    by (rule queued_replace [OF that(1) Some conjunct2 [OF c] that(2) [symmetric], of ?score])
       (simp, simp, (fact score_waits)+)
  with c Some have r: "replaced doc R j K ?K" by (auto simp: replaced_def)
  show ?thesis
    by (rule twp_mono [OF update_if_state_script_twp [OF consistentD(1, 2) [OF K] Some score_number]])
       (use Some r in \<open>simp split: if_split_asm\<close>)
qed

section \<open>Requests\<close>

text \<open>One request, whatever becomes of it: a script has run as a whole or not at all.\<close>

lemma wp_invoke:
  assumes script: "\<And>K. aged (ks (store w)) K \<Longrightarrow> twp ks op (P K) K"
    and answer: "\<And>K x r. aged (ks (store w)) K \<Longrightarrow> P K x (ks r) \<Longrightarrow>
        Q (case x of Inl e \<Rightarrow> Inl (SE_OperationFailed (msg @ '': '' @ e) (Some e)) | Inr v \<Rightarrow> Inr v) (w\<lparr>store := r\<rparr>)"
    and fault: "\<And>K r e. aged (ks (store w)) K \<Longrightarrow> ks r = K \<or> (\<exists>x. P K x (ks r)) \<Longrightarrow> Q (Inl e) (w\<lparr>store := r\<rparr>)"
  shows "wp (invoke_script R msg op) Q w"
proof -
  obtain l r1 where link: "rd_link (rs_redis R) (store w) = (l, r1)" by (cases "rd_link (rs_redis R) (store w)")
  then have aged: "aged (ks (store w)) (ks r1)" using link_ages [of "store w"] by simp
  obtain x r2 where run: "run_state op r1 = (x, r2)" by (cases "run_state op r1")
  from script [OF aged] have "wp op (\<lambda>x r'. P (ks r1) x (ks r')) r1" by (simp add: twp_def)
  with run have P: "P (ks r1) x (ks r2)" by (simp add: wp_def)
  show ?thesis
    using answer [OF aged P] fault [OF aged, of r1] fault [OF aged, of r2] P
    by (simp add: invoke_script_def send_request_def wp_def link run split: link.split bool.split prod.split)
       (auto split: sum.split)
qed

end

locale redis_live = redis_backend R ks doc clean + redis_up "rs_redis R" ks
  for R :: "('p, 'v, 'o, 'r) redis_storage" and ks :: "'r \<Rightarrow> 'v keyspace"
    and doc :: "'v \<Rightarrow> 'p job \<Rightarrow> bool" and clean :: "'p job \<Rightarrow> bool"
begin

text \<open>The weakest precondition of an action, as far as the keys of the jobs are concerned.\<close>

definition rwp ::
  "('r, 'e, 'a) act \<Rightarrow> ('a \<Rightarrow> 'v keyspace \<Rightarrow> nat \<Rightarrow> bool) \<Rightarrow> 'v keyspace \<Rightarrow> nat \<Rightarrow> ('r, 'e) world \<Rightarrow> bool" where
  "rwp m Q C n w \<longleftrightarrow>
     (\<forall>r. core R (ks r) = C \<longrightarrow>
        wp m (\<lambda>a w'. \<exists>r' t. w' = w\<lparr>store := r', ticks := t\<rparr> \<and> n \<le> t \<and> Q a (core R (ks r')) t)
          (w\<lparr>store := r, ticks := n\<rparr>))"

lemma rwp_ret: "Q a C n \<Longrightarrow> rwp (ret a) Q C n w"
  by (auto simp: rwp_def wp_return)

lemma rwp_now: "rwp (f (clock w n)) Q C (Suc n) w \<Longrightarrow> rwp (State_Monad.bind utc_now f) Q C n w"
  unfolding rwp_def wp_bind wp_utc_now
proof (intro allI impI)
  fix r
  assume post: "\<forall>r. core R (ks r) = C \<longrightarrow> wp (f (clock w n))
      (\<lambda>a w'. \<exists>r' t. w' = w\<lparr>store := r', ticks := t\<rparr> \<and> Suc n \<le> t \<and> Q a (core R (ks r')) t)
      (w\<lparr>store := r, ticks := Suc n\<rparr>)" and r: "core R (ks r) = C"
  then have "wp (f (clock w n))
      (\<lambda>a w'. \<exists>r' t. w' = w\<lparr>store := r', ticks := t\<rparr> \<and> Suc n \<le> t \<and> Q a (core R (ks r')) t)
      (w\<lparr>store := r, ticks := Suc n\<rparr>)" by blast
  then have "wp (f (clock w n))
      (\<lambda>a w'. \<exists>r' t. w' = w\<lparr>store := r', ticks := t\<rparr> \<and> n \<le> t \<and> Q a (core R (ks r')) t)
      (w\<lparr>store := r, ticks := Suc n\<rparr>)" by (rule wp_mono) (use Suc_leD in blast)
  then show "wp (f (clock (w\<lparr>store := r, ticks := n\<rparr>) (ticks (w\<lparr>store := r, ticks := n\<rparr>))))
      (\<lambda>a w'. \<exists>r' t. w' = w\<lparr>store := r', ticks := t\<rparr> \<and> n \<le> t \<and> Q a (core R (ks r')) t)
      (w\<lparr>store := r, ticks := n, ticks := Suc (ticks (w\<lparr>store := r, ticks := n\<rparr>))\<rparr>)" by simp
qed

lemma rwp_lift: "x = Inr v \<Longrightarrow> rwp (f v) Q C n w \<Longrightarrow> rwp (bindE (ret x) f) Q C n w"
  by (simp add: rwp_def wp_simps)

lemma rwp_mono: "rwp m P C n w \<Longrightarrow> (\<And>a C' t. n \<le> t \<Longrightarrow> P a C' t \<Longrightarrow> Q a C' t) \<Longrightarrow> rwp m Q C n w"
  unfolding rwp_def by (blast intro: wp_mono)

lemma rwp_bindE:
  assumes "rwp m P C n w" and "\<And>e C' t. P (Inl e) C' t \<Longrightarrow> n \<le> t \<Longrightarrow> Q (Inl e) C' t"
    and "\<And>v C' t. P (Inr v) C' t \<Longrightarrow> n \<le> t \<Longrightarrow> rwp (f v) Q C' t w"
  shows "rwp (bindE m f) Q C n w"
  unfolding rwp_def
proof (intro allI impI)
  fix r
  assume r: "core R (ks r) = C"
  with assms(1) have "wp m (\<lambda>a w'. \<exists>r' t. w' = w\<lparr>store := r', ticks := t\<rparr> \<and> n \<le> t \<and> P a (core R (ks r')) t)
      (w\<lparr>store := r, ticks := n\<rparr>)"
    by (simp add: rwp_def)
  then show "wp (bindE m f) (\<lambda>a w'. \<exists>r' t. w' = w\<lparr>store := r', ticks := t\<rparr> \<and> n \<le> t \<and> Q a (core R (ks r')) t)
      (w\<lparr>store := r, ticks := n\<rparr>)"
    unfolding wp_bindE
  proof (rule wp_mono)
    fix a w'
    assume "\<exists>r' t. w' = w\<lparr>store := r', ticks := t\<rparr> \<and> n \<le> t \<and> P a (core R (ks r')) t"
    then obtain r' t where w': "w' = w\<lparr>store := r', ticks := t\<rparr>" "n \<le> t" "P a (core R (ks r')) t" by blast
    let ?Q = "\<lambda>a w'. \<exists>r' t. w' = w\<lparr>store := r', ticks := t\<rparr> \<and> n \<le> t \<and> Q a (core R (ks r')) t"
    show "(case a of Inl e \<Rightarrow> ?Q (Inl e) | Inr v \<Rightarrow> wp (f v) ?Q) w'"
    proof (cases a)
      case (Inl e)
      with w' have "Q (Inl e) (core R (ks r')) t" using assms(2) by simp
      with Inl w' show ?thesis by (simp, intro exI [of _ r'] exI [of _ t]) simp
    next
      case (Inr v)
      with w' have "rwp (f v) Q (core R (ks r')) t w" using assms(3) by simp
      then have "wp (f v) (\<lambda>a w''. \<exists>r'' s. w'' = w\<lparr>store := r'', ticks := s\<rparr> \<and> t \<le> s \<and> Q a (core R (ks r'')) s)
          (w\<lparr>store := r', ticks := t\<rparr>)"
        by (simp add: rwp_def)
      then have "wp (f v) (\<lambda>a w''. \<exists>r'' s. w'' = w\<lparr>store := r'', ticks := s\<rparr> \<and> n \<le> s \<and> Q a (core R (ks r'')) s)
          (w\<lparr>store := r', ticks := t\<rparr>)"
        by (rule wp_mono) (use w'(2) in force)
      then show ?thesis using Inr w'(1) by simp
    qed
  qed
qed

lemma rwp_request:
  assumes C: "blobs_ok doc R C" "well_typed R C" and script: "\<And>K. core R K = C \<Longrightarrow> twp ks op (\<lambda>x K'. P x (core R K')) K"
    and x: "\<And>x C'. P x C' \<Longrightarrow> (\<exists>v. x = Inr v \<and> Q (Inr v) C' n)"
  shows "rwp (with_timeout R op) Q C n w" and "rwp (invoke_script R msg op) Q C n w"
proof -
  have sent: "\<exists>r1 v r2. rd_link (rs_redis R) r = (Delivered, r1) \<and> run_state op r1 = (Inr v, r2)
      \<and> Q (Inr v) (core R (ks r2)) n" if r: "core R (ks r) = C" for r
  proof -
    obtain r1 where link: "rd_link (rs_redis R) r = (Delivered, r1)"
      using link_up [of r] by (cases "rd_link (rs_redis R) r") simp
    have ok: "blobs_ok doc R (ks r)" "well_typed R (ks r)" using C by (simp_all flip: r)
    have "aged (ks r) (ks r1)" using link_ages [of r] link by simp
    from aged_core [OF this ok] r have "core R (ks r1) = C" by simp
    from script [OF this] have "wp op (\<lambda>x r'. P x (core R (ks r'))) r1" by (simp add: twp_def)
    moreover obtain y r2 where run: "run_state op r1 = (y, r2)" by (cases "run_state op r1")
    ultimately have "P y (core R (ks r2))" by (simp add: wp_def)
    with x link run show ?thesis by blast
  qed
  show "rwp (with_timeout R op) Q C n w" and "rwp (invoke_script R msg op) Q C n w"
    unfolding rwp_def
  proof (safe)
    fix r
    assume C: "C = core R (ks r)"
    then obtain r1 v r2 where s: "rd_link (rs_redis R) r = (Delivered, r1)" "run_state op r1 = (Inr v, r2)"
      "Q (Inr v) (core R (ks r2)) n"
      using sent by blast
    have w: "\<exists>r' t. w\<lparr>ticks := n, store := r2\<rparr> = w\<lparr>store := r', ticks := t\<rparr> \<and> n \<le> t \<and> Q (Inr v) (core R (ks r')) t"
      using s(3) by (intro exI [of _ r2] exI [of _ n]) simp
    then show "wp (with_timeout R op) (\<lambda>a w'. \<exists>r' t. w' = w\<lparr>store := r', ticks := t\<rparr> \<and> n \<le> t \<and> Q a (core R (ks r')) t)
        (w\<lparr>store := r, ticks := n\<rparr>)"
      and "wp (invoke_script R msg op) (\<lambda>a w'. \<exists>r' t. w' = w\<lparr>store := r', ticks := t\<rparr> \<and> n \<le> t \<and> Q a (core R (ks r')) t)
        (w\<lparr>store := r, ticks := n\<rparr>)"
      using s by (simp_all add: with_timeout_def invoke_script_def send_request_def wp_def)
  qed
qed

text \<open>One command on a key of the jobs.\<close>

lemma rwp_command:
  assumes C: "blobs_ok doc R C" "well_typed R C" and c: "relevant R (key_of c)" "applicable c C"
    and more: "\<And>x. answers c C x \<Longrightarrow> \<exists>v. conv x = Inr v \<and> rwp (f v) Q (effect c C) n w"
  shows "rwp (bindE (command R conv c) f) Q C n w"
proof (rule rwp_bindE)
  let ?P = "\<lambda>x C'. \<exists>y v. answers c C y \<and> conv y = Inr v \<and> x = Inr v \<and> C' = effect c C"
  show "rwp (command R conv c) (\<lambda>x C' t. ?P x C' \<and> t = n) C n w"
    unfolding command_def
  proof (rule rwp_request(1) [OF C, where P = ?P])
    fix K
    assume K: "core R K = C"
    show "twp ks (bindE (redis_call (rs_redis R) c) (\<lambda>x. ret (conv x))) (\<lambda>x K'. ?P x (core R K')) K"
    proof (rule twp_call)
      show "applicable c K" using c key_of_local(1) [OF c(1), of K] K by simp
      fix x
      assume "answers c K x"
      then have a: "answers c C x" using key_of_local(2) [OF c(1), of K x] K by simp
      with more obtain v where "conv x = Inr v" by blast
      with a show "twp ks (ret (conv x)) (\<lambda>x K'. ?P x (core R K')) (effect c K)"
        using key_of_local(3) [OF c(1), of K] K by (intro twp_ret) auto
    qed
  qed auto
next
  fix v C' t
  assume "(\<exists>y u. answers c C y \<and> conv y = Inr u \<and> Inr v = Inr u \<and> C' = effect c C) \<and> t = n"
  then obtain y where "answers c C y" "conv y = Inr v" "C' = effect c C" "t = n" by auto
  with more [of y] show "rwp (f v) Q C' t w" by auto
qed auto

lemma rwp_write:
  assumes "blobs_ok doc R C" and "well_typed R C" and "relevant R (key_of c)" and "applicable c C"
    and "rwp m Q (effect c C) n w"
  shows "rwp (bindE (command R as_unit c) (\<lambda>_. m)) Q C n w"
  using assms by (intro rwp_command) (auto simp: as_unit_def)

lemma bindE_ret: "bindE m (\<lambda>v. ret (Inr v)) = m"
proof -
  have "run_state (bindE m (\<lambda>v. ret (Inr v))) w = run_state m w" for w
    by (simp split: prod.split sum.split)
  then show ?thesis by (metis state.expand ext)
qed

lemma bindE_unit: "bindE m (\<lambda>_. ret (Inr ())) = (m :: ('w, 'f + unit) state)"
  using bindE_ret [of m] by simp

lemma rwp_write_last:
  assumes "blobs_ok doc R C" and "well_typed R C" and "relevant R (key_of c)" and "applicable c C"
    and "Q (Inr ()) (effect c C) n"
  shows "rwp (command R as_unit c) Q C n w"
  using rwp_write [OF assms(1-4), where m = "ret (Inr ())" and w = w and Q = Q and n = n]
  by (simp add: bindE_unit rwp_ret assms(5))

lemma rwp_get:
  assumes C: "blobs_ok doc R C" "well_typed R C" and more: "rwp (f (redis_jobs R C i)) Q C n w"
  shows "rwp (bindE (redis_get R i) f) Q C n w"
proof -
  have "rwp (redis_get R i) (\<lambda>x C' t. x = Inr (redis_jobs R C i) \<and> C' = C \<and> t = n) C n w"
    unfolding redis_get_def
  proof (rule rwp_command [OF C])
    show "applicable (GET (job_key R i)) C"
      using C(1) unfolding blobs_ok_def by (metis applicable.simps(1) is_str.simps(1, 2))
    fix x
    assume x: "answers (GET (job_key R i)) C x"
    show "\<exists>v. as_value x = Inr v \<and> rwp (ret (case v of None \<Rightarrow> Inr None
        | Some json \<Rightarrow> (case job_of_json (rs_codec R) json of
            Inl e \<Rightarrow> Inl (serialization_with_source ''Failed to deserialize job'' e) | Inr j \<Rightarrow> Inr (Some j))))
      (\<lambda>x C' t. x = Inr (redis_jobs R C i) \<and> C' = C \<and> t = n) (effect (GET (job_key R i)) C) n w"
    proof (cases "redis_jobs R C i")
      case None
      then have "C (job_key R i) = None" by (rule absent_blob [OF C(1)])
      with x None show ?thesis by (auto simp: as_value_def intro: rwp_ret)
    next
      case (Some j)
      then obtain v where "C (job_key R i) = Some (Str v False)" "doc v j" using stored_blob [OF C(1)] by blast
      with x Some show ?thesis by (auto simp: as_value_def of_json intro: rwp_ret)
    qed
  qed simp
  then show ?thesis by (rule rwp_bindE) (use more in auto)
qed

section \<open>The methods on one job\<close>

lemma replaced_core [simp]:
  "replaced doc R j (core R K) K' = replaced doc R j K K'" "replaced doc R j K (core R K') = replaced doc R j K K'"
  by (simp_all add: replaced_def)

lemma rwp_update:
  assumes C: "consistent doc R C"
  shows "rwp (redis_update R j) (\<lambda>x C' t.
     if job_id j \<in> dom (redis_jobs R C) then x = Inr () \<and> replaced doc R j C C'
     else x = Inl (job_not_found (job_id j)) \<and> C' = C) C n w"
proof -
  obtain v where v: "job_blob R j = Inr v" "doc v j" by (rule job_blob_doc)
  let ?P = "\<lambda>x C'. if job_id j \<in> dom (redis_jobs R C) then x = Inr ''ok'' \<and> replaced doc R j C C'
       else x = Inr ''missing'' \<and> C' = C"
  let ?script = "update_script R (job_key R (job_id j)) (state_to_string (job_state j)) v
       (if available (clock w n) (job_state j) then Some (job_score j) else None)"
  have script: "twp ks ?script (\<lambda>x K'. ?P x (core R K')) K" if K: "core R K = C" for K
  proof -
    have "consistent doc R K" using C by (simp flip: K)
    from update_op_twp [OF this v(2)] show ?thesis unfolding K [symmetric] by (rule twp_mono) simp
  qed
  have sent: "rwp (invoke_script R ''Failed to update job'' ?script) (\<lambda>x C' t. ?P x C') C (Suc n) w"
    by (rule rwp_request(2) [OF consistentD(1, 2) [OF C] script]) auto
  show ?thesis
    unfolding redis_update_def is_job_available_def
    by (rule rwp_lift, rule v(1), simp only: State_Monad.bind_assoc State_Monad.bind_left_identity,
        rule rwp_now, rule rwp_bindE, rule sent) (auto intro!: rwp_ret split: if_splits)
qed

lemma rwp_update_if_state:
  assumes C: "consistent doc R C"
  shows "rwp (redis_update_if_state R j k) (\<lambda>x C' t.
     case redis_jobs R C (job_id j) of
       None \<Rightarrow> x = Inl (job_not_found (job_id j)) \<and> C' = C
     | Some j0 \<Rightarrow>
         if kind (job_state j0) = k then x = Inr True \<and> replaced doc R j C C' else x = Inr False \<and> C' = C) C n w"
proof -
  obtain v where v: "job_blob R j = Inr v" "doc v j" by (rule job_blob_doc)
  let ?P = "\<lambda>x C'. case redis_jobs R C (job_id j) of
      None \<Rightarrow> x = Inr ''missing'' \<and> C' = C
    | Some j0 \<Rightarrow>
        if kind (job_state j0) = k then x = Inr ''ok'' \<and> replaced doc R j C C' else x = Inr ''mismatch'' \<and> C' = C"
  let ?script = "update_if_state_script R (job_key R (job_id j)) (kind_name k) (kind_name (kind (job_state j))) v
       (if available (clock w n) (job_state j) then Some (job_score j) else None)"
  have script: "twp ks ?script (\<lambda>x K'. ?P x (core R K')) K" if K: "core R K = C" for K
  proof -
    have "consistent doc R K" using C by (simp flip: K)
    from update_if_state_op_twp [OF this v(2)] show ?thesis
      unfolding K [symmetric] by (rule twp_mono) (simp split: option.splits)
  qed
  have sent: "rwp (invoke_script R ''Failed to update_if_state job'' ?script) (\<lambda>x C' t. ?P x C') C (Suc n) w"
    by (rule rwp_request(2) [OF consistentD(1, 2) [OF C] script]) (auto split: option.splits if_splits)
  show ?thesis
    unfolding redis_update_if_state_def is_job_available_def
    by (rule rwp_lift, rule v(1), simp only: State_Monad.bind_assoc State_Monad.bind_left_identity,
        rule rwp_now, rule rwp_bindE, rule sent)
       (auto split: option.splits if_splits intro!: rwp_ret)
qed

section \<open>Removal\<close>

definition drop_blob :: "string \<Rightarrow> 'v keyspace \<Rightarrow> 'v keyspace" where
  "drop_blob i K = K(job_key R i := None)"

definition drop_indices :: "string \<Rightarrow> 'p job \<Rightarrow> 'v keyspace \<Rightarrow> 'v keyspace" where
  "drop_indices i j K =
     (let K1 = leave_state R (state_to_string (job_state j)) i K;
          K2 = K1(all_jobs_key R := mk_set (set_of (K1 (all_jobs_key R)) - {i}))
      in add_count R (state_to_string (job_state j)) (-1) (put_queues R (job_queue j) i None K2))"

lemma drop_commute: "drop_indices i j (drop_blob i K) = drop_blob i (drop_indices i j K)"
  by (simp add: drop_indices_def drop_blob_def write_defs global_queue_def named_queue_def Let_def fun_eq_iff)

lemma drop_ok:
  assumes "blobs_ok doc R K" and "well_typed R K"
  shows "blobs_ok doc R (drop_blob i K)" "well_typed R (drop_blob i K)"
    "blobs_ok doc R (drop_indices i j K)" "well_typed R (drop_indices i j K)"
  using assms by (auto simp: drop_blob_def drop_indices_def blobs_ok_def well_typed_def write_defs Let_def)

lemma rwp_remove_indices:
  assumes C: "blobs_ok doc R C" "well_typed R C" and more: "Q (Inr ()) (drop_indices i j C) n"
  shows "rwp (remove_job_indices R i j) Q C n w"
proof -
  let ?s = "state_to_string (job_state j)"
  let ?C1 = "leave_state R ?s i C"
  let ?C2 = "?C1(all_jobs_key R := mk_set (set_of (?C1 (all_jobs_key R)) - {i}))"
  have ok: "blobs_ok doc R ?C1" "well_typed R ?C1" "blobs_ok doc R ?C2" "well_typed R ?C2"
    using C by (auto simp: blobs_ok_def well_typed_def write_defs)
  let ?C3 = "?C2(available_jobs_key R := mk_zset ((zset_of (?C2 (available_jobs_key R)))(i := None)))"
  have ok3: "blobs_ok doc R ?C3" "well_typed R ?C3"
    using ok(3, 4) by (auto simp: blobs_ok_def well_typed_def)
  have ok4: "blobs_ok doc R (put_queues R (job_queue j) i None ?C2)" "well_typed R (put_queues R (job_queue j) i None ?C2)"
    using ok(3, 4) by simp_all
  have eqs: "effect (SREM (state_index_key R ?s) i) C = ?C1" "effect (SREM (all_jobs_key R) i) ?C1 = ?C2"
    "effect (ZREM (available_jobs_key R) i) ?C2 = ?C3"
    "effect (ZREM (available_jobs_by_queue_key R (job_queue j)) i) ?C3 = put_queues R (job_queue j) i None ?C2"
    "effect (HINCRBY (job_counts_key R) ?s (-1)) (put_queues R (job_queue j) i None ?C2) = drop_indices i j C"
    by (simp_all add: leave_state_def put_queues_def global_queue_def named_queue_def drop_indices_def add_count_def Let_def)
  show ?thesis
    unfolding remove_job_indices_def
    apply (rule rwp_write [OF C], simp, use well_typedD [OF C(2)] in simp, unfold eqs(1))
    apply (rule rwp_write [OF ok(1, 2)], simp, use well_typedD [OF ok(2)] in simp, unfold eqs(2))
    apply (rule rwp_write [OF ok(3, 4)], simp, use well_typedD [OF ok(4)] in simp, unfold eqs(3))
    apply (rule rwp_write [OF ok3], simp, use well_typedD [OF ok3(2)] in simp, unfold eqs(4))
    apply (rule rwp_write_last [OF ok4], simp, use well_typedD [OF ok4(2)] in simp, unfold eqs(5), rule more)
    done
qed

lemma removed_job:
  assumes C: "consistent doc R C" and j: "redis_jobs R C i = Some j"
  shows "consistent doc R (drop_blob i (drop_indices i j C))"
    and "redis_jobs R (drop_blob i (drop_indices i j C)) = (redis_jobs R C)(i := None)"
    and "queued R C \<Longrightarrow> queued R (drop_blob i (drop_indices i j C))"
proof -
  let ?C = "drop_blob i (drop_indices i j C)"
  show J: "redis_jobs R ?C = (redis_jobs R C)(i := None)"
    by (simp add: fun_eq_iff redis_jobs_def drop_blob_def drop_indices_def write_defs Let_def)
  have g: "global_queue R ?C = (global_queue R C)(i := None)"
    and n: "named_queue R ?C = (named_queue R C)(job_queue j := (named_queue R C (job_queue j))(i := None))"
    by (auto simp: fun_eq_iff global_queue_def named_queue_def drop_blob_def drop_indices_def write_defs Let_def)
  have "indexed R ?C"
    by (rule indexed_remove [OF consistentD(3) [OF C] j J])
       (auto simp: drop_blob_def drop_indices_def write_defs Let_def state_set_def state_count_def state_to_string_def)
  with drop_ok(3, 4) [OF consistentD(1, 2) [OF C], of i j]
    drop_ok(1, 2) [of "drop_indices i j C" i] show "consistent doc R ?C"
    by (simp add: consistent_def)
  show "queued R ?C" if q: "queued R C"
    unfolding queued_def
  proof (intro conjI allI impI)
    fix q i'
    assume dom: "i' \<in> dom (named_queue R ?C q)"
    then have old: "i' \<in> dom (named_queue R C q)" by (auto simp: n split: if_splits)
    then obtain j' where j': "redis_jobs R C i' = Some j'" "waiting (job_state j')" "job_queue j' = q"
      using q unfolding queued_def by blast
    have "i' \<noteq> i" using dom j' j by (auto simp: n split: if_splits)
    with j' show "\<exists>j. redis_jobs R ?C i' = Some j \<and> waiting (job_state j) \<and> job_queue j = q" by (simp add: J)
  next
    fix i' j'
    assume "redis_jobs R ?C i' = Some j' \<and> kind (job_state j') = KEnqueued"
    then have "i' \<noteq> i" "redis_jobs R C i' = Some j'" "kind (job_state j') = KEnqueued" by (auto simp: J split: if_splits)
    moreover from this have "i' \<in> dom (global_queue R C)" "named_queue R C (job_queue j') i' = global_queue R C i'"
      using q unfolding queued_def by blast+
    ultimately show "i' \<in> dom (global_queue R ?C)" and "named_queue R ?C (job_queue j') i' = global_queue R ?C i'"
      by (auto simp: g n)
  qed (use q in \<open>auto simp: queued_def g J split: if_splits\<close>)
qed

lemma rwp_delete:
  assumes C: "consistent doc R C"
  shows "rwp (redis_delete R i) (\<lambda>x C' t.
     x = Inr (i \<in> dom (redis_jobs R C)) \<and> consistent doc R C' \<and> redis_jobs R C' = (redis_jobs R C)(i := None)
     \<and> (queued R C \<longrightarrow> queued R C')) C n w"
proof -
  note ok = consistentD(1, 2) [OF C]
  show ?thesis
    unfolding redis_delete_def
  proof (rule rwp_get [OF ok], cases "redis_jobs R C i")
    case None
    then have "(redis_jobs R C)(i := None) = redis_jobs R C" by auto
    with None C show "rwp (case redis_jobs R C i of None \<Rightarrow> ret (Inr False)
        | Some j \<Rightarrow> bindE (command R as_int (DEL (job_key R i))) (\<lambda>deleted.
            if 0 < deleted then bindE (remove_job_indices R i j) (\<lambda>_. ret (Inr True)) else ret (Inr False)))
      (\<lambda>x C' t. x = Inr (i \<in> dom (redis_jobs R C)) \<and> consistent doc R C' \<and> redis_jobs R C' = (redis_jobs R C)(i := None)
         \<and> (queued R C \<longrightarrow> queued R C')) C n w"
      by (auto intro!: rwp_ret)
  next
    case (Some j)
    obtain v where v: "C (job_key R i) = Some (Str v False)" using stored_blob [OF ok(1) Some] .
    have "rwp (bindE (remove_job_indices R i j) (\<lambda>_. ret (Inr True)))
      (\<lambda>x C' t. x = Inr (i \<in> dom (redis_jobs R C)) \<and> consistent doc R C' \<and> redis_jobs R C' = (redis_jobs R C)(i := None)
         \<and> (queued R C \<longrightarrow> queued R C')) (drop_blob i C) n w"
      by (rule rwp_bindE, rule rwp_remove_indices [where Q = "\<lambda>x C' t. x = Inr () \<and> C' = drop_blob i (drop_indices i j C)"])
         (use drop_ok [OF ok] removed_job [OF C Some] Some in \<open>auto simp: drop_commute intro!: rwp_ret\<close>)
    then show "rwp (case redis_jobs R C i of None \<Rightarrow> ret (Inr False)
        | Some j \<Rightarrow> bindE (command R as_int (DEL (job_key R i))) (\<lambda>deleted.
            if 0 < deleted then bindE (remove_job_indices R i j) (\<lambda>_. ret (Inr True)) else ret (Inr False)))
      (\<lambda>x C' t. x = Inr (i \<in> dom (redis_jobs R C)) \<and> consistent doc R C' \<and> redis_jobs R C' = (redis_jobs R C)(i := None)
         \<and> (queued R C \<longrightarrow> queued R C')) C n w"
      unfolding Some option.case by (intro rwp_command [OF ok]) (auto simp: as_int_def v drop_blob_def)
  qed
qed

section \<open>The contract of the processor\<close>

lemma rwp_wp:
  assumes "rwp m Q (core R (ks (store w))) (ticks w) w"
  shows "wp m (\<lambda>a w'. env_kept w w' \<and> Q a (core R (ks (store w'))) (ticks w')) w"
proof -
  have "wp m (\<lambda>a w'. \<exists>r' t. w' = w\<lparr>store := r', ticks := t\<rparr> \<and> ticks w \<le> t \<and> Q a (core R (ks r')) t)
      (w\<lparr>store := store w, ticks := ticks w\<rparr>)"
    using assms unfolding rwp_def by blast
  then have "wp m (\<lambda>a w'. \<exists>r' t. w' = w\<lparr>store := r', ticks := t\<rparr> \<and> ticks w \<le> t \<and> Q a (core R (ks r')) t) w"
    by simp
  then show ?thesis by (rule wp_mono) (auto simp: env_kept_def)
qed

end

sublocale redis_live \<subseteq> access: job_access "redis_storage_api R" "\<lambda>r. redis_jobs R (ks r)" "\<lambda>r. consistent doc R (ks r)"
proof (unfold_locales, goal_cases)
  case (1 r)
  then show ?case by (rule keyed_redis_jobs [OF consistentD(1)])
next
  case (2 w i)
  let ?C = "core R (ks (store w))"
  have "blobs_ok doc R ?C" "well_typed R ?C" using consistentD(1, 2) [OF 2] by simp_all
  then have "rwp (bindE (redis_get R i) (\<lambda>v. ret (Inr v))) (\<lambda>x C' t. x = Inr (redis_jobs R ?C i) \<and> C' = ?C) ?C (ticks w) w"
    by (rule rwp_get) (auto intro: rwp_ret)
  then have g: "rwp (redis_get R i) (\<lambda>x C' t. x = Inr (redis_jobs R ?C i) \<and> C' = ?C) ?C (ticks w) w"
    by (simp only: bindE_ret)
  show ?case
    unfolding redis_storage_api_simps
  proof (rule wp_mono [OF rwp_wp [OF g]])
    fix x w'
    assume post: "env_kept w w' \<and> x = Inr (redis_jobs R ?C i) \<and> core R (ks (store w')) = ?C"
    with 2 show "env_kept w w' \<and> consistent doc R (ks (store w')) \<and> redis_jobs R (ks (store w')) = redis_jobs R (ks (store w))
        \<and> (\<forall>v. x = Inr v \<longrightarrow> v = redis_jobs R (ks (store w)) i)" by (auto dest: core_eqD)
  qed
next
  case (3 w j)
  then have "consistent doc R (core R (ks (store w)))" by simp
  from rwp_wp [OF rwp_update [OF this]] show ?case
    unfolding redis_storage_api_simps
    by (rule wp_mono) (use 3 in \<open>auto simp: replaced_def split: if_splits dest: core_eqD\<close>)
next
  case (4 w j k)
  then have "consistent doc R (core R (ks (store w)))" by simp
  from rwp_wp [OF rwp_update_if_state [OF this]] show ?case
    unfolding redis_storage_api_simps
    by (rule wp_mono) (use 4 in \<open>auto simp: replaced_def split: option.splits if_splits dest: core_eqD\<close>)
next
  case (5 w i)
  then have "consistent doc R (core R (ks (store w)))" by simp
  from rwp_wp [OF rwp_delete [OF this]] show ?case
    unfolding redis_storage_api_simps by (rule wp_mono) auto
qed

end
