(* ===== verification/Redis_Ops.thy ===== *)
theory Redis_Ops
  imports Redis_Contract
begin

text \<open>
  The other job operations of a live Redis backend: enqueueing a new job, the fetch, the claims, the
  sweeps that requeue jobs, and the removal of expired jobs. Each keeps the indices consistent and the
  queue sets complete.
\<close>

definition chosen :: "('p, 'v, 'o, 'r) redis_storage \<Rightarrow> 'v keyspace \<Rightarrow> (job_state \<Rightarrow> bool) \<Rightarrow> string set" where
  "chosen R C P = {i. \<exists>j. redis_jobs R C i = Some j \<and> P (job_state j)}"

definition past_expiry :: "time \<Rightarrow> 'p job \<Rightarrow> bool" where
  "past_expiry now j = (case job_expires_at j of Some ts \<Rightarrow> ts < now | None \<Rightarrow> False)"

definition gone :: "('p, 'v, 'o, 'r) redis_storage \<Rightarrow> 'v keyspace \<Rightarrow> time \<Rightarrow> string set" where
  "gone R C now = {i. \<exists>j. redis_jobs R C i = Some j \<and> past_expiry now j}"

context redis_live
begin

section \<open>Enqueueing a new job\<close>

definition added :: "string \<Rightarrow> 'p job \<Rightarrow> 'v \<Rightarrow> f64 option \<Rightarrow> 'v keyspace \<Rightarrow> 'v keyspace" where
  "added i j v score K =
     put_queues R (job_queue j) i score
       (add_count R (state_to_string (job_state j)) 1
         (put_all R i (join_state R (state_to_string (job_state j)) i (put_blob R i v K))))"

lemma consistent_added:
  assumes C: "consistent doc R C" and new: "redis_jobs R C (job_id j) = None" and v: "doc v j"
  shows "consistent doc R (added (job_id j) j v score C)"
    and "redis_jobs R (added (job_id j) j v score C) = (redis_jobs R C)(job_id j \<mapsto> j)"
proof -
  let ?C = "added (job_id j) j v score C"
  show J: "redis_jobs R ?C = (redis_jobs R C)(job_id j \<mapsto> j)" by (simp add: added_def jobs_put_blob [OF v])
  have "indexed R ?C"
    by (rule indexed_insert [OF consistentD(3) [OF C] new J]) (simp_all add: added_def state_to_string_def)
  then show "consistent doc R ?C"
    using consistentD(1, 2) [OF C] blobs_put_blob [OF _ v refl] by (simp add: consistent_def added_def)
qed

lemma queued_added:
  assumes Q: "queued R C" and new: "redis_jobs R C (job_id j) = None" and v: "doc v j"
    and waits: "score \<noteq> None \<Longrightarrow> waiting (job_state j)" and enq: "kind (job_state j) = KEnqueued \<Longrightarrow> score \<noteq> None"
  shows "queued R (added (job_id j) j v score C)"
proof -
  let ?C = "added (job_id j) j v score C" and ?i = "job_id j"
  have J: "redis_jobs R ?C = (redis_jobs R C)(?i \<mapsto> j)" by (simp add: added_def jobs_put_blob [OF v])
  have g: "global_queue R ?C = (global_queue R C)(?i := score)"
    and n: "named_queue R ?C = (named_queue R C)(job_queue j := (named_queue R C (job_queue j))(?i := score))"
    by (simp_all add: added_def)
  have out: "?i \<notin> dom (named_queue R C q)" for q using Q new unfolding queued_def by fastforce
  show ?thesis
    unfolding queued_def
  proof (intro conjI allI impI)
    fix q i
    assume "i \<in> dom (named_queue R ?C q)"
    then have "if i = ?i then q = job_queue j \<and> score \<noteq> None else i \<in> dom (named_queue R C q)"
      using out [of q] by (auto simp: n split: if_splits)
    then show "\<exists>j. redis_jobs R ?C i = Some j \<and> waiting (job_state j) \<and> job_queue j = q"
      using Q waits by (auto simp: J queued_def split: if_splits)
  next
    fix i j'
    assume a: "redis_jobs R ?C i = Some j' \<and> kind (job_state j') = KEnqueued"
    show "i \<in> dom (global_queue R ?C)" and "named_queue R ?C (job_queue j') i = global_queue R ?C i"
    proof (atomize (full), cases "i = ?i")
      case True
      with a have eq: "j' = j" and k: "kind (job_state j) = KEnqueued" by (auto simp: J)
      then show "i \<in> dom (global_queue R ?C) \<and> named_queue R ?C (job_queue j') i = global_queue R ?C i"
        unfolding eq True using enq by (simp add: g n)
    next
      case False
      with a have "redis_jobs R C i = Some j'" "kind (job_state j') = KEnqueued" by (auto simp: J)
      then have "i \<in> dom (global_queue R C)" "named_queue R C (job_queue j') i = global_queue R C i"
        using Q unfolding queued_def by blast+
      with False show "i \<in> dom (global_queue R ?C) \<and> named_queue R ?C (job_queue j') i = global_queue R ?C i"
        by (auto simp: g n)
    qed
  qed (use Q waits in \<open>auto simp: queued_def g J split: if_splits\<close>)
qed

lemma rwp_enqueue:
  assumes C: "consistent doc R C" and new: "redis_jobs R C (job_id j) = None"
  shows "rwp (redis_enqueue R j) (\<lambda>x C' t.
     x = Inr () \<and> consistent doc R C' \<and> redis_jobs R C' = (redis_jobs R C)(job_id j \<mapsto> j)
     \<and> (queued R C \<longrightarrow> queued R C')) C n w"
proof -
  obtain v where v: "job_blob R j = Inr v" "doc v j" by (rule job_blob_doc)
  let ?i = "job_id j" and ?s = "state_to_string (job_state j)"
  let ?score = "if available (clock w n) (job_state j) then Some (job_score j) else None"
  let ?C1 = "put_blob R ?i v C"
  let ?C2 = "join_state R ?s ?i ?C1"
  let ?C3 = "put_all R ?i ?C2"
  let ?C4 = "add_count R ?s 1 ?C3"
  let ?C5 = "?C4(available_jobs_key R := mk_zset ((global_queue R ?C4)(?i := ?score)))"
  note ok = consistentD(1, 2) [OF C]
  have ok1: "blobs_ok doc R ?C1" "well_typed R ?C1" using blobs_put_blob [OF ok(1) v(2) refl] ok(2) by simp_all
  have ok2: "blobs_ok doc R ?C2" "well_typed R ?C2" and ok3: "blobs_ok doc R ?C3" "well_typed R ?C3"
    and ok4: "blobs_ok doc R ?C4" "well_typed R ?C4"
    using ok1 by simp_all
  have ok5: "blobs_ok doc R ?C5" "well_typed R ?C5" using ok4 by (auto simp: blobs_ok_def well_typed_def)
  have eqs: "effect (SET (job_key R ?i) v) C = ?C1" "effect (SADD (state_index_key R ?s) ?i) ?C1 = ?C2"
    "effect (SADD (all_jobs_key R) ?i) ?C2 = ?C3" "effect (HINCRBY (job_counts_key R) ?s 1) ?C3 = ?C4"
    by (simp_all add: write_defs)
  have zq: "zset_of (?C5 (available_jobs_by_queue_key R (job_queue j))) = named_queue R ?C4 (job_queue j)"
    unfolding named_queue_def by simp
  have queues: "?C5(available_jobs_by_queue_key R (job_queue j) :=
      mk_zset ((zset_of (?C5 (available_jobs_by_queue_key R (job_queue j))))(?i := ?score))) = added ?i j v ?score C"
    unfolding zq added_def put_queues_def ..
  have q: "waiting (job_state j)" if "?score \<noteq> None"
    using that by (cases "job_state j") (simp_all add: waiting_def split: if_splits)
  have e: "?score \<noteq> None" if "kind (job_state j) = KEnqueued" using that by (cases "job_state j") simp_all
  have post: "Inr () = Inr () \<and> consistent doc R (added ?i j v ?score C)
     \<and> redis_jobs R (added ?i j v ?score C) = (redis_jobs R C)(?i \<mapsto> j)
     \<and> (queued R C \<longrightarrow> queued R (added ?i j v ?score C))"
    using consistent_added [OF C new v(2)] queued_added [OF _ new v(2) q e] by blast
  show ?thesis
    unfolding redis_enqueue_def update_job_indices_def is_job_available_def Let_def option.case
    apply (rule rwp_lift, rule v(1))
    apply (rule rwp_write [OF ok], simp, simp, unfold eqs(1))
    apply (rule rwp_lift, rule refl)
    apply (rule rwp_write [OF ok1], simp, use well_typedD [OF ok1(2)] in simp, unfold eqs(2))
    apply (rule rwp_write [OF ok2], simp, use well_typedD [OF ok2(2)] in simp, unfold eqs(3))
    apply (rule rwp_write [OF ok3], simp, use well_typedD [OF ok3(2)] in simp, unfold eqs(4))
    apply (simp only: State_Monad.bind_assoc State_Monad.bind_left_identity)
    apply (rule rwp_now)
    apply (cases "available (clock w n) (job_state j)")
    subgoal
      using post queues well_typedD [OF ok4(2)] well_typedD [OF ok5(2)] ok4 ok5
      by (auto simp: job_score_number global_queue_def intro!: rwp_write rwp_write_last)
    subgoal
      using post queues well_typedD [OF ok4(2)] well_typedD [OF ok5(2)] ok4 ok5
      by (auto simp: global_queue_def intro!: rwp_write rwp_write_last)
    done
qed

section \<open>Fetch\<close>

lemma rwp_fetch:
  assumes C: "consistent doc R C" "queued R C" and clean: "\<And>i j. redis_jobs R C i = Some j \<Longrightarrow> clean j"
    and now: "time_ok (clock w n)"
  shows "rwp (redis_fetch_and_lock_job R wid qs)
     (\<lambda>x C' t. \<exists>y. x = Inr y \<and> fetched doc R wid qs (clock w n) C y C') C n w"
proof -
  let ?P = "\<lambda>x C'. \<exists>y. fetched doc R wid qs (clock w n) C y C'
       \<and> (case y of None \<Rightarrow> x = Inr None | Some j \<Rightarrow> \<exists>v. x = Inr (Some v) \<and> doc v j)"
  let ?script = "fetch_script R (candidate_keys R qs) wid (rfc3339_micros (rs_codec R) (clock w n))"
  have script: "twp ks ?script (\<lambda>x K'. ?P x (core R K')) K" if K: "core R K = C" for K
  proof -
    have ck: "consistent doc R K" "queued R K" "\<And>i j. redis_jobs R K i = Some j \<Longrightarrow> clean j"
      using C clean by (simp_all flip: K)
    show ?thesis
      unfolding K [symmetric] fetched_core by (rule fetch_script_twp [OF ck now])
  qed
  have sent: "rwp (invoke_script R ''Failed to fetch and lock job'' ?script) (\<lambda>x C' t. ?P x C') C (Suc n) w"
  proof (rule rwp_request(2) [OF consistentD(1, 2) [OF C(1)] script])
    fix x C'
    assume "?P x C'"
    then obtain y where y: "fetched doc R wid qs (clock w n) C y C'"
      "case y of None \<Rightarrow> x = Inr None | Some j \<Rightarrow> \<exists>v. x = Inr (Some v) \<and> doc v j" by blast
    then obtain v where v: "x = Inr v" by (auto split: option.splits)
    with y have "?P (Inr v) C'" by (intro exI [of _ y]) (simp split: option.splits)
    then show "\<exists>v. x = Inr v \<and> ?P (Inr v) C'" by (intro exI [of _ v] conjI [OF v])
  qed
  show ?thesis
    unfolding redis_fetch_and_lock_job_def
  proof (rule rwp_now, rule rwp_bindE [OF sent])
    fix v C' t
    assume "?P (Inr v) C'"
    then obtain y where y: "fetched doc R wid qs (clock w n) C y C'"
      "case y of None \<Rightarrow> v = None | Some j \<Rightarrow> \<exists>u. v = Some u \<and> doc u j" by (auto split: option.splits)
    then have "(case v of None \<Rightarrow> Inr None
        | Some json \<Rightarrow> (case job_of_json (rs_codec R) json of
            Inl e \<Rightarrow> Inl (serialization_with_source ''Failed to parse job'' e) | Inr j \<Rightarrow> Inr (Some j))) = Inr y"
      by (auto simp: of_json split: option.splits)
    with y show "rwp (ret (case v of None \<Rightarrow> Inr None
        | Some json \<Rightarrow> (case job_of_json (rs_codec R) json of
            Inl e \<Rightarrow> Inl (serialization_with_source ''Failed to parse job'' e) | Inr j \<Rightarrow> Inr (Some j))))
      (\<lambda>x C' t. \<exists>y. x = Inr y \<and> fetched doc R wid qs (clock w n) C y C') C' t w"
      by (auto intro!: rwp_ret)
  qed (auto split: option.splits)
qed

section \<open>Claims\<close>

lemma parse_jobs_docs: "list_all2 doc vs js \<Longrightarrow> parse_jobs (rs_codec R) msg vs = Inr js"
  by (induction vs js rule: list_all2_induct) (simp_all add: of_json)

lemma due_jobs_core [simp]: "due_jobs R (core R K) k now = due_jobs R K k now"
  by (simp add: due_jobs_def)

lemma claim_core [simp]:
  "selected R (core R K) k now limit js = selected R K k now limit js"
  "claims_done doc R now js (core R K) (core R K') = claims_done doc R now js K K'"
  by (simp_all add: selected_def claims_done_def)

lemma rwp_claim:
  assumes C: "consistent doc R C" "queued R C" and clean: "\<And>i j. redis_jobs R C i = Some j \<Longrightarrow> clean j"
    and now: "time_ok now" and k: "claim_args k variant field" and limit: "limit < 2 ^ 63"
  shows "rwp (claim_due_jobs_lua R (kind_to_state_name k) variant field now limit)
     (\<lambda>x C' t. \<exists>js. x = Inr (map (promoted_job now) js) \<and> selected R C k now limit js \<and> claims_done doc R now js C C') C n w"
proof (cases "limit = 0")
  case True
  with C show ?thesis
    by (auto simp: claim_due_jobs_lua_def selected_def claims_done_def intro!: rwp_ret)
next
  case False
  let ?P = "\<lambda>x C'. \<exists>vs js. x = Inr vs \<and> selected R C k now limit js \<and> list_all2 doc vs (map (promoted_job now) js)
       \<and> claims_done doc R now js C C'"
  let ?script = "claim_script R (kind_to_state_name k) variant field (rfc3339_micros (rs_codec R) now) (as_i64 limit)"
  have script: "twp ks ?script (\<lambda>x K'. ?P x (core R K')) K" if K: "core R K = C" for K
  proof -
    have ck: "consistent doc R K" "queued R K" "\<And>i j. redis_jobs R K i = Some j \<Longrightarrow> clean j"
      using C clean by (simp_all flip: K)
    show ?thesis unfolding K [symmetric] claim_core by (rule claim_script_twp [OF ck now k limit])
  qed
  have sent: "rwp (invoke_script R msg ?script) (\<lambda>x C' t. ?P x C') C n w" for msg
    by (rule rwp_request(2) [OF consistentD(1, 2) [OF C(1)] script]) auto
  show ?thesis
    unfolding claim_due_jobs_lua_def if_not_P [OF False]
    by (rule rwp_bindE [OF sent]) (auto simp: parse_jobs_docs intro!: rwp_ret)
qed

section \<open>Sweeps\<close>

lemma rwp_smembers:
  assumes C: "blobs_ok doc R C" "well_typed R C" and k: "relevant R k" "is_set (C k)"
    and more: "\<And>ms. distinct ms \<Longrightarrow> set ms = set_of (C k) \<Longrightarrow> rwp (f ms) Q C n w"
  shows "rwp (bindE (command R as_members (SMEMBERS k)) f) Q C n w"
  using k more by (intro rwp_command [OF C]) (auto simp: as_members_def)

lemma chosen_core [simp]: "chosen R (core R K) P = chosen R K P"
  by (simp add: chosen_def)

lemma rwp_requeue_each:
  assumes "consistent doc R C" and "distinct is"
  shows "rwp (redis_requeue_each R P is) (\<lambda>x C' t.
      x = Inr (card (set is \<inter> chosen R C P)) \<and> consistent doc R C'
      \<and> requeued (set is \<inter> chosen R C P) (redis_jobs R C) (redis_jobs R C')
      \<and> (queued R C \<longrightarrow> queued R C')) C n w"
  using assms
proof (induction "is" arbitrary: C n)
  case Nil
  then show ?case by (auto simp: requeued_def intro!: rwp_ret)
next
  case (Cons i "is")
  let ?Q = "\<lambda>is C x C' t. x = Inr (card (set is \<inter> chosen R C P)) \<and> consistent doc R C'
      \<and> requeued (set is \<inter> chosen R C P) (redis_jobs R C) (redis_jobs R C') \<and> (queued R C \<longrightarrow> queued R C')"
  note ok = consistentD(1, 2) [OF Cons.prems(1)]
  have IH: "rwp (redis_requeue_each R P is) (?Q is C') C' m w" if "consistent doc R C'" for C' m
    using Cons.IH [OF that] Cons.prems(2) by simp
  have skip: "rwp (redis_requeue_each R P is) (?Q (i # is) C) C n w" if "i \<notin> chosen R C P"
    by (rule rwp_mono [OF IH [OF Cons.prems(1)]]) (use that in auto)
  have "rwp (case redis_jobs R C i of
       None \<Rightarrow> redis_requeue_each R P is
     | Some j \<Rightarrow>
         if \<not> P (job_state j) then redis_requeue_each R P is
         else State_Monad.bind (js_enqueued (job_queue j)) (\<lambda>st.
           bindE (redis_update R (j\<lparr>job_state := st\<rparr>)) (\<lambda>_.
           bindE (redis_requeue_each R P is) (\<lambda>n. ret (Inr (Suc n)))))) (?Q (i # is) C) C n w"
  proof (cases "i \<in> chosen R C P")
    case False
    with skip show ?thesis by (auto simp: chosen_def split: option.split)
  next
    case True
    then obtain j where j: "redis_jobs R C i = Some j" "P (job_state j)" by (auto simp: chosen_def)
    have id: "job_id j = i" using keyed_redis_jobs [OF ok(1)] j(1) by (simp add: keyed_def)
    let ?j = "j\<lparr>job_state := Enqueued (clock w n) (job_queue j)\<rparr>"
    have upd: "rwp (redis_update R ?j) (\<lambda>x C' t. x = Inr () \<and> consistent doc R C'
        \<and> redis_jobs R C' = (redis_jobs R C)(i \<mapsto> ?j) \<and> (queued R C \<longrightarrow> queued R C')) C (Suc n) w"
      by (rule rwp_mono [OF rwp_update [OF Cons.prems(1)]])
         (use j id in \<open>auto simp: replaced_def split: if_splits\<close>)
    show ?thesis
      unfolding j(1) option.case if_not_P [OF not_not [THEN iffD2, OF j(2)]] js_enqueued_def
        State_Monad.bind_assoc State_Monad.bind_left_identity
    proof (rule rwp_now, rule rwp_bindE [OF upd])
      fix v C' t
      assume post: "Inr v = Inr () \<and> consistent doc R C' \<and> redis_jobs R C' = (redis_jobs R C)(i \<mapsto> ?j)
          \<and> (queued R C \<longrightarrow> queued R C')"
      have same: "set is \<inter> chosen R C' P = set is \<inter> chosen R C P"
        using Cons.prems(2) post by (auto simp: chosen_def split: if_splits)
      have new: "set (i # is) \<inter> chosen R C P = insert i (set is \<inter> chosen R C P)" using True by auto
      show "rwp (bindE (redis_requeue_each R P is) (\<lambda>n. ret (Inr (Suc n)))) (?Q (i # is) C) C' t w"
      proof (rule rwp_bindE [OF IH])
        fix m C'' s
        assume rest: "?Q is C' (Inr m) C'' s"
        have "requeued (insert i (set is \<inter> chosen R C P)) (redis_jobs R C) (redis_jobs R C'')"
          using rest post j(1) Cons.prems(2) unfolding requeued_def same by (auto split: if_splits)
        then show "rwp (ret (Inr (Suc m))) (?Q (i # is) C) C'' s w"
          using rest post Cons.prems(2) unfolding new by (intro rwp_ret) (simp add: same card_insert_if)
      qed (use post in auto)
    qed simp
  qed
  then show ?case unfolding redis_requeue_each.simps by (rule rwp_get [OF ok])
qed

lemma in_state_chosen:
  assumes "consistent doc R C" and "\<And>st. P st \<Longrightarrow> kind st = k"
  shows "set_of (C (state_index_key R (kind_to_state_name k))) \<inter> chosen R C P = chosen R C P"
  using assms by (auto simp: consistent_def indexed_def state_set_def in_state_def chosen_def)

lemma rwp_sweep:
  assumes C: "consistent doc R C" and P: "\<And>st. P st \<Longrightarrow> kind st = KProcessing"
  shows "rwp (bindE (command R as_members (SMEMBERS (state_index_key R ''processing''))) (redis_requeue_each R P))
     (\<lambda>x C' t. x = Inr (card (chosen R C P)) \<and> consistent doc R C'
        \<and> requeued (chosen R C P) (redis_jobs R C) (redis_jobs R C') \<and> (queued R C \<longrightarrow> queued R C')) C n w"
proof (rule rwp_smembers [OF consistentD(1, 2) [OF C]])
  fix ms
  assume ms: "distinct ms" "set ms = set_of (C (state_index_key R ''processing''))"
  then have "set ms \<inter> chosen R C P = chosen R C P" using in_state_chosen [OF C P] by simp
  with rwp_requeue_each [OF C ms(1), of P n w]
  show "rwp (redis_requeue_each R P ms) (\<lambda>x C' t. x = Inr (card (chosen R C P)) \<and> consistent doc R C'
        \<and> requeued (chosen R C P) (redis_jobs R C) (redis_jobs R C') \<and> (queued R C \<longrightarrow> queued R C')) C n w"
    by simp
qed (use well_typedD [OF consistentD(2) [OF C]] in simp_all)

lemma stranded_processing: "stranded t st \<Longrightarrow> kind st = KProcessing"
  by (cases st) simp_all

lemma owned_processing: "owned_by sid st \<Longrightarrow> kind st = KProcessing"
  by (cases st) simp_all

section \<open>Removal of expired jobs\<close>

lemma gone_core [simp]: "gone R (core R K) now = gone R K now"
  by (simp add: gone_def)

text \<open>The indices are dropped before the document; the result is that of a removal.\<close>

lemma rwp_drop:
  assumes C: "consistent doc R C" and j: "redis_jobs R C i = Some j"
    and more: "\<And>C'. consistent doc R C' \<Longrightarrow> redis_jobs R C' = (redis_jobs R C)(i := None) \<Longrightarrow>
      (queued R C \<Longrightarrow> queued R C') \<Longrightarrow> rwp m Q C' n w"
  shows "rwp (bindE (remove_job_indices R i j) (\<lambda>_. bindE (command R as_int (DEL (job_key R i))) (\<lambda>_. m))) Q C n w"
proof (rule rwp_bindE)
  note ok = consistentD(1, 2) [OF C]
  let ?C = "drop_indices i j C"
  show "rwp (remove_job_indices R i j) (\<lambda>x C' t. x = Inr () \<and> C' = ?C \<and> t = n) C n w"
    by (rule rwp_remove_indices [OF ok]) simp
  obtain v where v: "C (job_key R i) = Some (Str v False)" using stored_blob [OF ok(1) j] .
  have "rwp m Q (drop_blob i ?C) n w" by (rule more [OF removed_job [OF C j]])
  then show "rwp (bindE (command R as_int (DEL (job_key R i))) (\<lambda>_. m)) Q C' t w"
    if "Inr u = Inr () \<and> C' = ?C \<and> t = n" for u C' t
    using that by (auto simp: as_int_def drop_blob_def intro!: rwp_command [OF drop_ok(3, 4) [OF ok]])
qed auto

lemma rwp_peek:
  assumes C: "consistent doc R C" and none: "redis_jobs R C i = None \<Longrightarrow> rwp (f None) Q C n w"
    and some: "\<And>j v. redis_jobs R C i = Some j \<Longrightarrow> job_of_json (rs_codec R) v = Inr j \<Longrightarrow> rwp (f (Some v)) Q C n w"
  shows "rwp (bindE (command R as_value (GET (job_key R i))) f) Q C n w"
proof (cases "redis_jobs R C i")
  case None
  with absent_blob [OF consistentD(1) [OF C]] have "C (job_key R i) = None" by blast
  then show ?thesis
    using none [OF None] by (intro rwp_command [OF consistentD(1, 2) [OF C]]) (auto simp: as_value_def)
next
  case (Some j)
  then obtain v where v: "C (job_key R i) = Some (Str v False)" "doc v j"
    using stored_blob [OF consistentD(1) [OF C]] by blast
  then show ?thesis
    using some [OF Some of_json [OF v(2)]]
    by (intro rwp_command [OF consistentD(1, 2) [OF C]]) (auto simp: as_value_def)
qed

lemma rwp_expire_each:
  assumes "consistent doc R C" and "distinct is"
  shows "rwp (delete_expired_each R now is) (\<lambda>x C' t.
      x = Inr (card (set is \<inter> gone R C now)) \<and> consistent doc R C'
      \<and> redis_jobs R C' = redis_jobs R C |` (- (set is \<inter> gone R C now))
      \<and> (queued R C \<longrightarrow> queued R C')) C n w"
  using assms
proof (induction "is" arbitrary: C n)
  case Nil
  then show ?case by (auto simp: fun_eq_iff restrict_map_def intro!: rwp_ret)
next
  case (Cons i "is")
  let ?Q = "\<lambda>is C x C' t. x = Inr (card (set is \<inter> gone R C now)) \<and> consistent doc R C'
      \<and> redis_jobs R C' = redis_jobs R C |` (- (set is \<inter> gone R C now)) \<and> (queued R C \<longrightarrow> queued R C')"
  have IH: "rwp (delete_expired_each R now is) (?Q is C') C' m w" if "consistent doc R C'" for C' m
    using Cons.IH [OF that] Cons.prems(2) by simp
  have skip: "rwp (delete_expired_each R now is) (?Q (i # is) C) C n w" if "i \<notin> gone R C now"
    by (rule rwp_mono [OF IH [OF Cons.prems(1)]]) (use that in auto)
  show ?case
    unfolding delete_expired_each.simps
  proof (rule rwp_peek [OF Cons.prems(1)])
    assume "redis_jobs R C i = None"
    with skip show "rwp (case None of None \<Rightarrow> delete_expired_each R now is | Some s \<Rightarrow> m s) (?Q (i # is) C) C n w" for m
      by (simp add: gone_def)
  next
    fix j v
    assume j: "redis_jobs R C i = Some j" and v: "job_of_json (rs_codec R) v = Inr j"
    have counted: "rwp (bindE (delete_expired_each R now is) (\<lambda>removed. ret (Inr (Suc removed)))) (?Q (i # is) C) C' n w"
      if out: "i \<in> gone R C now" and C': "consistent doc R C'" "redis_jobs R C' = (redis_jobs R C)(i := None)"
        "queued R C \<Longrightarrow> queued R C'" for C'
    proof (rule rwp_bindE [OF IH [OF C'(1)]])
      have same: "set is \<inter> gone R C' now = set is \<inter> gone R C now" "set (i # is) \<inter> gone R C now = insert i (set is \<inter> gone R C now)"
        using Cons.prems(2) C'(2) out by (auto simp: gone_def split: if_splits)
      show "rwp (ret (Inr (Suc m))) (?Q (i # is) C) C'' t w" if "?Q is C' (Inr m) C'' t" for m C'' t
        using that C' Cons.prems(2) unfolding same
        by (intro rwp_ret) (auto simp: card_insert_if fun_eq_iff restrict_map_def)
    qed auto
    show "rwp (case Some v of None \<Rightarrow> delete_expired_each R now is
      | Some s \<Rightarrow> (case job_of_json (rs_codec R) s of Inl _ \<Rightarrow> delete_expired_each R now is
          | Inr j \<Rightarrow> if (case job_expires_at j of Some ts \<Rightarrow> ts < now | None \<Rightarrow> False)
              then bindE (remove_job_indices R i j) (\<lambda>_. bindE (command R as_int (DEL (job_key R i))) (\<lambda>_.
                   bindE (delete_expired_each R now is) (\<lambda>removed. ret (Inr (Suc removed)))))
              else delete_expired_each R now is)) (?Q (i # is) C) C n w"
      unfolding option.case v sum.case past_expiry_def [symmetric]
    proof (cases "past_expiry now j")
      case True
      then have "i \<in> gone R C now" using j by (simp add: gone_def)
      with True show "rwp (if past_expiry now j
          then bindE (remove_job_indices R i j) (\<lambda>_. bindE (command R as_int (DEL (job_key R i))) (\<lambda>_.
               bindE (delete_expired_each R now is) (\<lambda>removed. ret (Inr (Suc removed)))))
          else delete_expired_each R now is) (?Q (i # is) C) C n w"
        by (simp only: if_True) (rule rwp_drop [OF Cons.prems(1) j], rule counted)
    next
      case False
      then have "i \<notin> gone R C now" using j by (simp add: gone_def)
      with skip False show "rwp (if past_expiry now j then m else delete_expired_each R now is) (?Q (i # is) C) C n w" for m
        by (simp only: if_False not_False_eq_True)
    qed
  qed
qed

lemma rwp_delete_expired:
  assumes C: "consistent doc R C"
  shows "rwp (redis_delete_expired_jobs R now) (\<lambda>x C' t.
      x = Inr (card (gone R C now)) \<and> consistent doc R C' \<and> redis_jobs R C' = redis_jobs R C |` (- gone R C now)
      \<and> (queued R C \<longrightarrow> queued R C')) C n w"
  unfolding redis_delete_expired_jobs_def
proof (rule rwp_smembers [OF consistentD(1, 2) [OF C]])
  fix ms
  assume ms: "distinct ms" "set ms = set_of (C (all_jobs_key R))"
  then have "set ms \<inter> gone R C now = gone R C now"
    using consistentD(3) [OF C] by (auto simp: indexed_def gone_def)
  with rwp_expire_each [OF C ms(1), of now n w]
  show "rwp (delete_expired_each R now ms) (\<lambda>x C' t.
      x = Inr (card (gone R C now)) \<and> consistent doc R C' \<and> redis_jobs R C' = redis_jobs R C |` (- gone R C now)
      \<and> (queued R C \<longrightarrow> queued R C')) C n w"
    by simp
qed (use well_typedD [OF consistentD(2) [OF C]] in simp_all)

end

section \<open>Under any fault of the connection\<close>

context redis_backend
begin

lemma aged_trans:
  assumes "consistent doc R K" and "aged K K'"
  shows "core R K' = core R K" "consistent doc R K'"
proof -
  show core: "core R K' = core R K" by (rule aged_core [OF assms(2) consistentD(1, 2) [OF assms(1)]])
  show "consistent doc R K'" using core_eqD(1) [OF core] assms(1) by simp
qed

text \<open>A script sent on any connection: what it promises holds of its answer, and without an answer it has
  run or it has not.\<close>

lemma wp_script:
  assumes C: "consistent doc R (ks (store w))"
    and script: "\<And>K. consistent doc R K \<Longrightarrow> core R K = core R (ks (store w)) \<Longrightarrow> twp ks op P K"
  shows "wp (invoke_script R msg op) (\<lambda>x w'. (\<forall>v. x = Inr v \<longrightarrow> P (Inr v) (ks (store w')))
     \<and> (core R (ks (store w')) = core R (ks (store w)) \<or> (\<exists>y. P y (ks (store w'))))) w"
  by (rule wp_invoke [where P = "\<lambda>_. P"])
     (use script aged_trans [OF C] in \<open>auto split: sum.splits\<close>)

lemma replaced_cong: "core R L = core R K \<Longrightarrow> replaced doc R j L K' = replaced doc R j K K'"
  using core_eqD [of L K] by (simp add: replaced_def)

lemma update_any_link:
  assumes C: "consistent doc R (ks (store w))"
  shows "wp (redis_update R j) (\<lambda>x w'.
     let K = ks (store w); K' = ks (store w'); new = (job_id j \<in> dom (redis_jobs R K) \<and> replaced doc R j K K') in
     (x = Inr () \<longrightarrow> new) \<and> (core R K' = core R K \<or> new)) w"
proof -
  obtain v where v: "job_blob R j = Inr v" "doc v j" by (rule job_blob_doc)
  let ?K = "ks (store w)"
  let ?P = "\<lambda>x K'. if job_id j \<in> dom (redis_jobs R ?K) then x = Inr ''ok'' \<and> replaced doc R j ?K K'
     else x = Inr ''missing'' \<and> core R K' = core R ?K"
  have script: "twp ks (update_script R (job_key R (job_id j)) (state_to_string (job_state j)) v
      (if available t (job_state j) then Some (job_score j) else None)) ?P K"
    if "consistent doc R K" "core R K = core R ?K" for K t
    by (rule twp_mono [OF update_op_twp [OF that(1) v(2)]])
       (use that(2) core_eqD(2) [OF that(2)] replaced_cong [OF that(2)] in \<open>auto split: if_splits\<close>)
  show ?thesis
    unfolding redis_update_def is_job_available_def v(1) wp_simps Let_def sum.case
    by (rule wp_mono [OF wp_script [where P = ?P]]) (use C script in \<open>auto simp: wp_simps split: sum.splits if_splits\<close>)
qed

lemma update_if_state_any_link:
  assumes C: "consistent doc R (ks (store w))"
  shows "wp (redis_update_if_state R j k) (\<lambda>x w'.
     let K = ks (store w); K' = ks (store w');
         in_k = (\<exists>j0. redis_jobs R K (job_id j) = Some j0 \<and> kind (job_state j0) = k);
         new = (in_k \<and> replaced doc R j K K') in
     (x = Inr True \<longrightarrow> new) \<and> (x = Inr False \<longrightarrow> \<not> in_k \<and> core R K' = core R K) \<and> (core R K' = core R K \<or> new)) w"
proof -
  obtain v where v: "job_blob R j = Inr v" "doc v j" by (rule job_blob_doc)
  let ?K = "ks (store w)"
  let ?P = "\<lambda>x K'. case redis_jobs R ?K (job_id j) of
      None \<Rightarrow> x = Inr ''missing'' \<and> core R K' = core R ?K
    | Some j0 \<Rightarrow>
        if kind (job_state j0) = k then x = Inr ''ok'' \<and> replaced doc R j ?K K'
        else x = Inr ''mismatch'' \<and> core R K' = core R ?K"
  have script: "twp ks (update_if_state_script R (job_key R (job_id j)) (kind_name k) (kind_name (kind (job_state j))) v
      (if available t (job_state j) then Some (job_score j) else None)) ?P K"
    if "consistent doc R K" "core R K = core R ?K" for K t
    by (rule twp_mono [OF update_if_state_op_twp [OF that(1) v(2)]])
       (use that(2) core_eqD(2) [OF that(2)] replaced_cong [OF that(2)] in \<open>auto split: if_splits option.splits\<close>)
  show ?thesis
    unfolding redis_update_if_state_def is_job_available_def v(1) wp_simps Let_def sum.case
    by (rule wp_mono [OF wp_script [where P = ?P]])
       (use C script in \<open>auto simp: wp_simps split: sum.splits if_splits option.splits\<close>)
qed

lemma fetched_cong: "core R L = core R K \<Longrightarrow> fetched doc R wid qs now L x K' = fetched doc R wid qs now K x K'"
  using fetched_core by metis

lemma fetch_any_link:
  assumes C: "consistent doc R (ks (store w))" "queued R (ks (store w))"
    and clean: "\<And>i j. redis_jobs R (ks (store w)) i = Some j \<Longrightarrow> clean j" and now: "time_ok (clock w (ticks w))"
  shows "wp (redis_fetch_and_lock_job R wid qs) (\<lambda>x w'.
     let K = ks (store w); K' = ks (store w'); t = clock w (ticks w) in
     (\<forall>y. x = Inr y \<longrightarrow> fetched doc R wid qs t K y K')
     \<and> (core R K' = core R K \<or> (\<exists>y. fetched doc R wid qs t K y K'))) w"
proof -
  let ?K = "ks (store w)"
  let ?read = "\<lambda>v. case v of None \<Rightarrow> Inr None
     | Some json \<Rightarrow> (case job_of_json (rs_codec R) json of
         Inl e \<Rightarrow> Inl (serialization_with_source ''Failed to parse job'' e) | Inr j \<Rightarrow> Inr (Some j))"
  let ?P = "\<lambda>x K'. \<exists>y. fetched doc R wid qs (clock w (ticks w)) ?K y K' \<and> (\<forall>v. x = Inr v \<longrightarrow> ?read v = Inr y)"
  have script: "twp ks (fetch_script R (candidate_keys R qs) wid (rfc3339_micros (rs_codec R) (clock w (ticks w)))) ?P K"
    if K: "consistent doc R K" "core R K = core R ?K" for K
  proof -
    have pre: "queued R K" "\<And>i j. redis_jobs R K i = Some j \<Longrightarrow> clean j"
      using core_eqD [OF K(2)] C clean by simp_all
    show ?thesis
      by (rule twp_mono [OF fetch_script_twp [OF K(1) pre(1) _ now]], rule pre(2), assumption, unfold fetched_cong [OF K(2)],
          elim exE conjE, rule exI, erule conjI, auto simp: of_json split: option.splits)
  qed
  show ?thesis
    unfolding redis_fetch_and_lock_job_def wp_simps Let_def
  proof (rule wp_mono [OF wp_script [where P = ?P]])
    show "consistent doc R (ks (store (w\<lparr>ticks := Suc (ticks w)\<rparr>)))" using C by simp
    show "twp ks (fetch_script R (candidate_keys R qs) wid (rfc3339_micros (rs_codec R) (clock w (ticks w)))) ?P K"
      if "consistent doc R K" "core R K = core R (ks (store (w\<lparr>ticks := Suc (ticks w)\<rparr>)))" for K
      using that by (intro script) simp_all
  qed (auto simp: wp_simps split: sum.splits)
qed

end

end
