(* ===== verification/Redis_Invariant.thy ===== *)
theory Redis_Invariant
  imports Redis_Ops
begin

text \<open>
  The Redis backend over time: the steps that clients take with its job operations, in any interleaving
  of whole operations, and the invariant that every reachable state has.
\<close>

section \<open>Steps\<close>

text \<open>The invariant: consistent indices, complete queue sets, and jobs that survive the scripts.\<close>

definition redis_inv ::
  "('v \<Rightarrow> 'p job \<Rightarrow> bool) \<Rightarrow> ('p job \<Rightarrow> bool) \<Rightarrow> ('p, 'v, 'o, 'r) redis_storage \<Rightarrow> 'v keyspace \<Rightarrow> bool" where
  "redis_inv doc clean R K \<longleftrightarrow>
     consistent doc R K \<and> queued R K \<and> (\<forall>i j. redis_jobs R K i = Some j \<longrightarrow> clean j)"

text \<open>A client enqueues jobs with fresh ids, and updates a job without changing its queue. Whatever else
  happens on the server leaves the keys of the jobs alone.\<close>

definition same_queue :: "('p, 'v, 'o, 'r) redis_storage \<Rightarrow> 'p job \<Rightarrow> 'v keyspace \<Rightarrow> bool" where
  "same_queue R j K \<longleftrightarrow> (\<forall>j0. redis_jobs R K (job_id j) = Some j0 \<longrightarrow> job_queue j0 = job_queue j)"

inductive redis_step ::
  "('p, 'v, 'o, 'r) redis_storage \<Rightarrow> ('r \<Rightarrow> 'v keyspace) \<Rightarrow> ('p job \<Rightarrow> bool)
     \<Rightarrow> ('r, 'e) world \<Rightarrow> ('r, 'e) world \<Rightarrow> bool"
  for R :: "('p, 'v, 'o, 'r) redis_storage" and ks :: "'r \<Rightarrow> 'v keyspace" and clean :: "'p job \<Rightarrow> bool" where
  enqueues: "run_state (redis_enqueue R j) w = (xu, w') \<Longrightarrow> redis_jobs R (ks (store w)) (job_id j) = None \<Longrightarrow> clean j
     \<Longrightarrow> redis_step R ks clean w w'"
| updates: "run_state (redis_update R j) w = (xu, w') \<Longrightarrow> same_queue R j (ks (store w)) \<Longrightarrow> clean j
     \<Longrightarrow> redis_step R ks clean w w'"
| swaps: "run_state (redis_update_if_state R j k) w = (xb, w') \<Longrightarrow> same_queue R j (ks (store w)) \<Longrightarrow> clean j
     \<Longrightarrow> redis_step R ks clean w w'"
| deletes: "run_state (redis_delete R i) w = (xb, w') \<Longrightarrow> redis_step R ks clean w w'"
| fetches: "run_state (redis_fetch_and_lock_job R wid qs) w = (xj, w') \<Longrightarrow> time_ok (clock w (ticks w))
     \<Longrightarrow> redis_step R ks clean w w'"
| claims_scheduled: "run_state (redis_claim_due_scheduled_jobs R now limit) w = (xs, w') \<Longrightarrow> time_ok now
     \<Longrightarrow> limit < 2 ^ 63 \<Longrightarrow> redis_step R ks clean w w'"
| claims_retries: "run_state (redis_claim_due_retry_jobs R now limit) w = (xs, w') \<Longrightarrow> time_ok now
     \<Longrightarrow> limit < 2 ^ 63 \<Longrightarrow> redis_step R ks clean w w'"
| sweeps: "run_state (redis_requeue_stranded_jobs R t) w = (xn, w') \<Longrightarrow> redis_step R ks clean w w'"
| reclaims: "run_state (redis_reclaim_jobs_from_server R sid) w = (xn, w') \<Longrightarrow> redis_step R ks clean w w'"
| expires: "run_state (redis_delete_expired_jobs R now) w = (xn, w') \<Longrightarrow> redis_step R ks clean w w'"
| elsewhere: "core R (ks (store w')) = core R (ks (store w)) \<Longrightarrow> redis_step R ks clean w w'"

section \<open>Every step keeps the invariant\<close>

context redis_live
begin

lemma inv_core [simp]: "redis_inv doc clean R (core R K) = redis_inv doc clean R K"
  by (simp add: redis_inv_def)

lemma inv_run:
  assumes "run_state m w = (x, w')" and "rwp m (\<lambda>_ C' _. redis_inv doc clean R C') (core R (ks (store w))) (ticks w) w"
  shows "redis_inv doc clean R (ks (store w'))"
  using rwp_wp [OF assms(2)] by (simp add: wp_def assms(1))

lemma clean_upd: "(\<forall>i j. J i = Some j \<longrightarrow> clean j) \<Longrightarrow> clean j' \<Longrightarrow> (\<forall>i j. (J(i' \<mapsto> j')) i = Some j \<longrightarrow> clean j)"
  by simp

lemma clean_requeued:
  assumes "requeued I J J'" and "\<forall>i j. J i = Some j \<longrightarrow> clean j" and "J' i = Some j"
  shows "clean j"
proof (cases "i \<in> I")
  case True
  with assms(1) obtain t where "J' i = map_option (\<lambda>j. j\<lparr>job_state := Enqueued t (job_queue j)\<rparr>) (J i)"
    unfolding requeued_def by blast
  with assms(2, 3) show ?thesis by (auto simp: clean_state)
next
  case False
  with assms show ?thesis by (auto simp: requeued_def)
qed

lemma clean_claimed [simp]: "clean (claimed_by wid now j) = clean j" "clean (promoted_job now j) = clean j"
  by (simp_all add: claimed_by_def promoted_job_def clean_state)

lemma inv_enqueue:
  assumes "redis_inv doc clean R C" and "redis_jobs R C (job_id j) = None" and "clean j"
  shows "rwp (redis_enqueue R j) (\<lambda>_ C' _. redis_inv doc clean R C') C n w"
  by (rule rwp_mono [OF rwp_enqueue]) (use assms in \<open>auto simp: redis_inv_def split: if_splits\<close>)

lemma inv_replaced:
  assumes "redis_inv doc clean R C" and "same_queue R j C" and "clean j" and "redis_jobs R C (job_id j) = Some j0"
    and "replaced doc R j C C'"
  shows "redis_inv doc clean R C'"
  using assms by (auto simp: redis_inv_def replaced_def same_queue_def split: if_splits)

lemma inv_update:
  assumes "redis_inv doc clean R C" and "same_queue R j C" and "clean j"
  shows "rwp (redis_update R j) (\<lambda>_ C' _. redis_inv doc clean R C') C n w"
proof -
  have "consistent doc R C" using assms(1) by (simp add: redis_inv_def)
  from rwp_update [OF this] show ?thesis
    by (rule rwp_mono) (use assms inv_replaced [OF assms] in \<open>auto split: if_splits\<close>)
qed

lemma inv_update_if_state:
  assumes "redis_inv doc clean R C" and "same_queue R j C" and "clean j"
  shows "rwp (redis_update_if_state R j k) (\<lambda>_ C' _. redis_inv doc clean R C') C n w"
proof -
  have "consistent doc R C" using assms(1) by (simp add: redis_inv_def)
  from rwp_update_if_state [OF this] show ?thesis
    by (rule rwp_mono) (use assms inv_replaced [OF assms] in \<open>auto split: option.splits if_splits\<close>)
qed

lemma inv_delete: "redis_inv doc clean R C \<Longrightarrow> rwp (redis_delete R i) (\<lambda>_ C' _. redis_inv doc clean R C') C n w"
  by (rule rwp_mono [OF rwp_delete]) (auto simp: redis_inv_def split: if_splits)

lemma inv_fetch:
  assumes "redis_inv doc clean R C" and "time_ok (clock w n)"
  shows "rwp (redis_fetch_and_lock_job R wid qs) (\<lambda>_ C' _. redis_inv doc clean R C') C n w"
  by (rule rwp_mono [OF rwp_fetch])
     (use assms in \<open>auto simp: redis_inv_def fetched_def split: option.splits if_splits\<close>)

lemma inv_claim:
  assumes "redis_inv doc clean R C" and "time_ok now" and "claim_args k variant field" and "limit < 2 ^ 63"
  shows "rwp (claim_due_jobs_lua R (kind_to_state_name k) variant field now limit)
           (\<lambda>_ C' _. redis_inv doc clean R C') C n w"
  by (rule rwp_mono [OF rwp_claim [where k = k]])
     (use assms in \<open>auto simp: redis_inv_def claims_done_def split: if_splits\<close>)

lemma inv_sweep:
  assumes "redis_inv doc clean R C" and "\<And>st. P st \<Longrightarrow> kind st = KProcessing"
  shows "rwp (bindE (command R as_members (SMEMBERS (state_index_key R ''processing''))) (redis_requeue_each R P))
           (\<lambda>_ C' _. redis_inv doc clean R C') C n w"
  by (rule rwp_mono [OF rwp_sweep]) (use assms clean_requeued in \<open>auto simp: redis_inv_def\<close>)

lemma inv_sweeps:
  assumes "redis_inv doc clean R C"
  shows "rwp (redis_requeue_stranded_jobs R t) (\<lambda>_ C' _. redis_inv doc clean R C') C n w"
    and "rwp (redis_reclaim_jobs_from_server R sid) (\<lambda>_ C' _. redis_inv doc clean R C') C n w"
  unfolding redis_requeue_stranded_jobs_def redis_reclaim_jobs_from_server_def
  by (rule inv_sweep [OF assms stranded_processing], assumption, rule inv_sweep [OF assms owned_processing])

lemma inv_expire: "redis_inv doc clean R C \<Longrightarrow> rwp (redis_delete_expired_jobs R now) (\<lambda>_ C' _. redis_inv doc clean R C') C n w"
  by (rule rwp_mono [OF rwp_delete_expired]) (auto simp: redis_inv_def restrict_map_def split: if_splits)

lemma step_inv:
  assumes "redis_step R ks clean w w'" and inv: "redis_inv doc clean R (ks (store w))"
  shows "redis_inv doc clean R (ks (store w'))"
proof -
  let ?C = "core R (ks (store w))"
  have C: "redis_inv doc clean R ?C" using inv by simp
  have same: "same_queue R j ?C = same_queue R j (ks (store w))" for j by (simp add: same_queue_def)
  note claim = inv_claim [OF C, where k = KScheduled, unfolded kind_to_state_name.simps]
    inv_claim [OF C, where k = KAwaitingRetry, unfolded kind_to_state_name.simps]
  show ?thesis
    using assms(1)
  proof (cases rule: redis_step.cases)
    case (elsewhere)
    then show ?thesis using inv_core inv by metis
  qed (use C same in
        \<open>auto simp: redis_claim_due_scheduled_jobs_def redis_claim_due_retry_jobs_def claim_args_def elim!: inv_run
          intro!: inv_enqueue inv_update inv_update_if_state inv_delete inv_fetch claim inv_sweeps inv_expire\<close>)
qed

lemma reachable_inv:
  "(redis_step R ks clean)\<^sup>*\<^sup>* w w' \<Longrightarrow> redis_inv doc clean R (ks (store w)) \<Longrightarrow> redis_inv doc clean R (ks (store w'))"
  by (induction rule: rtranclp_induct) (auto intro: step_inv)

text \<open>What an operation does, seen on the keyspace itself.\<close>

lemma rwp_keys:
  assumes "rwp m (\<lambda>x C' _. Q x C') (core R (ks (store w))) (ticks w) w"
  shows "wp m (\<lambda>x w'. Q x (core R (ks (store w')))) w"
  by (rule wp_mono [OF rwp_wp [OF assms]]) simp

lemma invD:
  assumes "redis_inv doc clean R K"
  shows "consistent doc R (core R K)" "queued R (core R K)" "redis_jobs R (core R K) i = Some j \<Longrightarrow> clean j"
  using assms by (auto simp: redis_inv_def)

lemmas process_job = access.process_job_law

lemma answers:
  assumes inv: "redis_inv doc clean R (ks (store w))" and K: "K = ks (store w)" and now: "time_ok (clock w (ticks w))"
  shows "redis_jobs R K (job_id j) = None \<Longrightarrow> wp (redis_enqueue R j) (\<lambda>x _. x = Inr ()) w"
    and "wp (redis_update R j) (\<lambda>x _. x = (if redis_jobs R K (job_id j) = None
          then Inl (job_not_found (job_id j)) else Inr ())) w"
    and "wp (redis_delete R i) (\<lambda>x _. x = Inr (redis_jobs R K i \<noteq> None)) w"
    and "wp (redis_fetch_and_lock_job R wid qs) (\<lambda>x _. \<exists>y. x = Inr y) w"
    and "wp (redis_requeue_stranded_jobs R t) (\<lambda>x _. x = Inr (card (chosen R K (stranded t)))) w"
    and "wp (redis_delete_expired_jobs R t) (\<lambda>x _. x = Inr (card (gone R K t))) w"
proof -
  note C = invD [OF inv]
  show "wp (redis_enqueue R j) (\<lambda>x _. x = Inr ()) w" if "redis_jobs R K (job_id j) = None"
    by (rule rwp_keys [where Q = "\<lambda>x _. x = Inr ()"], rule rwp_mono [OF rwp_enqueue [OF C(1)]]) (use that K in auto)
  show "wp (redis_update R j) (\<lambda>x _. x = (if redis_jobs R K (job_id j) = None
          then Inl (job_not_found (job_id j)) else Inr ())) w"
    by (rule rwp_keys [where Q = "\<lambda>x _. x = (if redis_jobs R K (job_id j) = None
          then Inl (job_not_found (job_id j)) else Inr ())"], rule rwp_mono [OF rwp_update [OF C(1)]])
       (use K in \<open>auto simp: domIff split: if_splits\<close>)
  show "wp (redis_delete R i) (\<lambda>x _. x = Inr (redis_jobs R K i \<noteq> None)) w"
    by (rule rwp_keys [where Q = "\<lambda>x _. x = Inr (redis_jobs R K i \<noteq> None)"], rule rwp_mono [OF rwp_delete [OF C(1)]])
       (use K in \<open>auto simp: domIff\<close>)
  show "wp (redis_fetch_and_lock_job R wid qs) (\<lambda>x _. \<exists>y. x = Inr y) w"
    by (rule rwp_keys [where Q = "\<lambda>x _. \<exists>y. x = Inr y"], rule rwp_mono [OF rwp_fetch [OF C(1, 2) _ now]], rule C(3))
       auto
  show "wp (redis_requeue_stranded_jobs R t) (\<lambda>x _. x = Inr (card (chosen R K (stranded t)))) w"
    by (rule rwp_keys [where Q = "\<lambda>x _. x = Inr (card (chosen R K (stranded t)))"], unfold redis_requeue_stranded_jobs_def,
        rule rwp_mono [OF rwp_sweep [OF C(1) stranded_processing]]) (use K in auto)
  show "wp (redis_delete_expired_jobs R t) (\<lambda>x _. x = Inr (card (gone R K t))) w"
    by (rule rwp_keys [where Q = "\<lambda>x _. x = Inr (card (gone R K t))"],
        rule rwp_mono [OF rwp_delete_expired [OF C(1)]]) (use K in auto)
qed

text \<open>The fetch, the claims and the stale sweep on the keyspace.\<close>

lemma fetch_exact:
  assumes inv: "redis_inv doc clean R (ks (store w))" and now: "time_ok (clock w (ticks w))"
  shows "wp (redis_fetch_and_lock_job R wid qs)
     (\<lambda>x w'. \<exists>y. x = Inr y \<and> fetched doc R wid qs (clock w (ticks w)) (ks (store w)) y (ks (store w'))) w"
  by (rule rwp_keys [where Q = "\<lambda>x K'. \<exists>y. x = Inr y
        \<and> fetched doc R wid qs (clock w (ticks w)) (core R (ks (store w))) y K'", unfolded fetched_core],
      rule rwp_fetch [OF invD(1, 2) [OF inv] _ now], rule invD(3) [OF inv])

lemma claim_exact:
  assumes inv: "redis_inv doc clean R (ks (store w))" and now: "time_ok now" and limit: "limit < 2 ^ 63"
    and k: "claim_args k variant field"
  shows "wp (claim_due_jobs_lua R (kind_to_state_name k) variant field now limit)
     (\<lambda>x w'. \<exists>js. x = Inr (map (promoted_job now) js) \<and> selected R (ks (store w)) k now limit js
        \<and> claims_done doc R now js (ks (store w)) (ks (store w'))) w"
  by (rule wp_mono [OF rwp_keys [where Q = "\<lambda>x K'. \<exists>js. x = Inr (map (promoted_job now) js)
        \<and> selected R (core R (ks (store w))) k now limit js \<and> claims_done doc R now js (core R (ks (store w))) K'"]],
      rule rwp_claim [OF invD(1, 2) [OF inv] _ now k limit], rule invD(3) [OF inv], assumption, auto)

lemma sweep_exact_keys:
  assumes inv: "redis_inv doc clean R (ks (store w))" and P: "\<And>st. P st \<Longrightarrow> kind st = KProcessing"
  shows "wp (bindE (command R as_members (SMEMBERS (state_index_key R ''processing''))) (redis_requeue_each R P))
     (\<lambda>x w'. x = Inr (card (chosen R (ks (store w)) P))
        \<and> requeued (chosen R (ks (store w)) P) (redis_jobs R (ks (store w))) (redis_jobs R (ks (store w')))) w"
  by (rule wp_mono [OF rwp_keys [where Q = "\<lambda>x K'. x = Inr (card (chosen R (core R (ks (store w))) P))
        \<and> requeued (chosen R (core R (ks (store w))) P) (redis_jobs R (core R (ks (store w)))) (redis_jobs R K')"]],
      rule rwp_mono [OF rwp_sweep [OF invD(1) [OF inv] P]]) auto

end

end
