(* ===== verification/Redis_Reference.thy ===== *)
theory Redis_Reference
  imports Redis_Ops Samples
begin

text \<open>
  The backend on the reference server with the reference codec, on a connection with given faults and on
  one without. The locales of the backend hold there, and an empty server has consistent indices; the
  properties of the backend are instantiated on these.
\<close>

definition ref_storage :: "redis_config \<Rightarrow> ('p, 'p blob, 'p job, 'p blob ref_server) redis_storage" where
  "ref_storage cfg = \<lparr>rs_config = cfg, rs_redis = ref_redis, rs_codec = ref_codec\<rparr>"

definition steady_storage :: "redis_config \<Rightarrow> ('p, 'p blob, 'p job, 'p blob ref_server) redis_storage" where
  "steady_storage cfg = \<lparr>rs_config = cfg, rs_redis = steady_redis, rs_codec = ref_codec\<rparr>"

lemma reference_simps [simp]:
  "rs_config (ref_storage cfg) = cfg" "rs_redis (ref_storage cfg) = ref_redis" "rs_codec (ref_storage cfg) = ref_codec"
  "rs_config (steady_storage cfg) = cfg" "rs_redis (steady_storage cfg) = steady_redis"
  "rs_codec (steady_storage cfg) = ref_codec"
  by (simp_all add: ref_storage_def steady_storage_def)

interpretation ref_backend: redis_backend "ref_storage cfg" ref_ks ref_doc "\<lambda>j. True" for cfg
  unfolding redis_backend_def reference_simps
  by (intro conjI ref.redis_server_axioms ref_json.job_codec_axioms)

interpretation steady_backend: redis_live "steady_storage cfg" ref_ks ref_doc "\<lambda>j. True" for cfg
  unfolding redis_live_def redis_backend_def reference_simps
  by (intro conjI steady.redis_server_axioms ref_json.job_codec_axioms steady.redis_up_axioms)

section \<open>Samples\<close>

definition sample_redis_config :: redis_config where
  "sample_redis_config = redis_config_default (\<lambda>_. None)"

definition sample_server :: "link list \<Rightarrow> 'v ref_server" where
  "sample_server ls = \<lparr>rf_keys = [], rf_links = ls, rf_lapses = []\<rparr>"

definition redis_world :: "'r \<Rightarrow> ('r, unit) world" where
  "redis_world r =
     \<lparr>store = r, clock = (\<lambda>n. int n * 1000000000), ticks = 0, uuids = (\<lambda>_. ''u''), uuid_calls = 0,
      rng = (\<lambda>_. 0), rng_calls = 0, events = []\<rparr>"

lemma redis_world_simps [simp]:
  "store (redis_world r) = r" "ticks (redis_world r) = 0" "clock (redis_world r) n = int n * 1000000000"
  "redis_world r\<lparr>store := r'\<rparr> = redis_world r'"
  by (simp_all add: redis_world_def)

lemma sample_server_keys [simp]: "ref_ks (sample_server ls) = (\<lambda>_. None)"
  by (simp add: fun_eq_iff ref_ks_def sample_server_def)

lemma fresh_jobs [simp]: "redis_jobs R (\<lambda>_. None) = (\<lambda>_. None)"
  by (simp add: fun_eq_iff redis_jobs_def)

lemma fresh_keyspace [simp]:
  "consistent doc R (\<lambda>_. None)" "queued R (\<lambda>_. None)"
  by (simp_all add: consistent_def blobs_ok_def well_typed_def indexed_def state_set_def
      in_state_def state_count_def queued_def global_queue_def named_queue_def)

text \<open>After enqueueing one job on a server without faults.\<close>

lemma steady_enqueued:
  fixes j :: "unit job"
  obtains w :: "(unit blob ref_server, unit) world" where "consistent ref_doc (steady_storage cfg) (ref_ks (store w))"
    and "queued (steady_storage cfg) (ref_ks (store w))" and "redis_jobs (steady_storage cfg) (ref_ks (store w)) = [job_id j \<mapsto> j]"
    and "clock w = clock (redis_world (store w))"
proof -
  let ?w = "redis_world (sample_server [] :: unit blob ref_server)" and ?R = "steady_storage cfg"
  have "wp (redis_enqueue ?R j) (\<lambda>a w'. env_kept ?w w' \<and> a = Inr () \<and> consistent ref_doc ?R (core ?R (ref_ks (store w')))
     \<and> redis_jobs ?R (core ?R (ref_ks (store w'))) = (redis_jobs ?R (core ?R (ref_ks (store ?w))))(job_id j \<mapsto> j)
     \<and> (queued ?R (core ?R (ref_ks (store ?w))) \<longrightarrow> queued ?R (core ?R (ref_ks (store w'))))) ?w"
    by (rule steady_backend.rwp_wp [OF steady_backend.rwp_enqueue]) simp_all
  then obtain w' where "env_kept ?w w'" "consistent ref_doc ?R (ref_ks (store w'))" "queued ?R (ref_ks (store w'))"
    "redis_jobs ?R (ref_ks (store w')) = [job_id j \<mapsto> j]"
    by (auto simp: wp_def split: prod.splits)
  then show ?thesis using that [of w'] by (simp add: env_kept_def redis_world_def fun_eq_iff)
qed

end
