(* ===== verification/Redis_Props.thy ===== *)
theory Redis_Props
  imports Redis_Invariant Redis_Reference Processor_Props
begin

text \<open>
  The properties of the Redis backend. The server, its connection, the JSON codec and the library of the
  scripts are parameters; \<open>redis_live\<close> and \<open>redis_backend\<close> are the documented behaviour of these that a
  property relies on, the latter with any fault of the connection. The witnesses are on the reference
  server with the reference codec.
\<close>

section \<open>Samples\<close>

abbreviation steady :: "(unit, unit blob, unit job, unit blob ref_server) redis_storage" where
  "steady \<equiv> steady_storage sample_redis_config"

abbreviation empty_world :: "(unit blob ref_server, unit) world" where
  "empty_world \<equiv> redis_world (sample_server [])"

definition waiting_job :: "unit job" where
  "waiting_job = sample_job ''a'' 0 5 (Enqueued 5 ''default'')"

definition running_job :: "unit job" where
  "running_job = sample_job ''a'' 0 5 (Processing 6 ''w'' ''redis-storage'')"

definition late_job :: "unit job" where
  "late_job = sample_job ''a'' 0 5 (Scheduled 5 1000000000 ''timer'')"

lemma sample_job_queues [simp]:
  "job_queue waiting_job = ''default''" "job_queue running_job = ''default''" "job_queue late_job = ''default''"
  "job_id waiting_job = ''a''" "job_id running_job = ''a''" "job_id late_job = ''a''"
  "job_state waiting_job = Enqueued 5 ''default''" "job_state running_job = Processing 6 ''w'' ''redis-storage''"
  "job_state late_job = Scheduled 5 1000000000 ''timer''"
  by (simp_all add: waiting_job_def running_job_def late_job_def)

lemma early [simp]: "time_ok 0" "time_ok 1000000000" "time_ok 3000000000"
  by (simp_all add: time_ok_def dur_seconds_def)

section \<open>Every state\<close>





section \<open>The processor on Redis\<close>

abbreviation redis_processor :: "exec_result \<Rightarrow> (unit, unit blob ref_server, unit) job_processor" where
  "redis_processor answer \<equiv> answering_processor (redis_storage_api steady) answer"



section \<open>The fetch and the claims\<close>

text \<open>
  C9. The fetch of a Redis backend that answers. It returns a job only when it was enqueued or awaiting a
  retry, in a queue it serves, and scores at least as high as every entry of the queue sets scanned; the
  job becomes \<open>Processing\<close> by the worker, to the microsecond, and no other job changes. It returns nothing
  only when no entry scores above the least score, or when a job that is still \<open>Scheduled\<close> heads the sets;
  then no job changes. The invariant is kept.
\<close>

theorem redis_fetch_exact:
  assumes "redis_live R ks doc clean" and "redis_inv doc clean R (ks (store w))" and "time_ok (clock w (ticks w))"
  shows "wp (redis_fetch_and_lock_job R wid qs)
     (\<lambda>x w'. \<exists>y. x = Inr y \<and> fetched doc R wid qs (clock w (ticks w)) (ks (store w)) y (ks (store w'))) w"
  by (rule redis_live.fetch_exact [OF assms])

theorem redis_fetch_exact_witness:
  "\<exists>w. redis_jobs steady (ref_ks (store w)) = [''a'' \<mapsto> waiting_job]
     \<and> wp (redis_fetch_and_lock_job steady ''w'' None)
     (\<lambda>x w'. \<exists>y. x = Inr y \<and> fetched ref_doc steady ''w'' None (clock w (ticks w)) (ref_ks (store w)) y (ref_ks (store w')))
       (w :: (unit blob ref_server, unit) world)"
proof -
  obtain w :: "(unit blob ref_server, unit) world" where w: "consistent ref_doc steady (ref_ks (store w))"
    "queued steady (ref_ks (store w))" "redis_jobs steady (ref_ks (store w)) = [''a'' \<mapsto> waiting_job]"
    "clock w = clock (redis_world (store w))"
    by (rule steady_enqueued [of sample_redis_config waiting_job]) simp
  let ?w = "w\<lparr>ticks := 3\<rparr>"
  have "redis_inv ref_doc (\<lambda>j. True) steady (ref_ks (store ?w))" using w by (simp add: redis_inv_def)
  from redis_fetch_exact [OF steady_backend.redis_live_axioms this, of "''w''" None] show ?thesis
    using w by (intro exI [of _ ?w]) simp
qed

text \<open>
  C13. The promotion of due scheduled jobs on Redis. It returns, as they are now stored, at most \<open>limit\<close> of the
  \<open>Scheduled\<close> jobs that are due, all of them when the limit allows, and leaves no due job of a
  higher priority than one that it takes. Each becomes \<open>Enqueued\<close> on its own queue and nothing else changes. In the
  queue sets it is scored by its priority alone.
\<close>

theorem redis_claim_scheduled_exact:
  assumes "redis_live R ks doc clean" and "redis_inv doc clean R (ks (store w))" and "time_ok now" and "limit < 2 ^ 63"
  shows "wp (redis_claim_due_scheduled_jobs R now limit)
     (\<lambda>x w'. \<exists>js. x = Inr (map (promoted_job now) js) \<and> selected R (ks (store w)) KScheduled now limit js
        \<and> claims_done doc R now js (ks (store w)) (ks (store w'))) w"
  using redis_live.claim_exact [OF assms, where k = KScheduled, of "''Scheduled''" "''enqueue_at''"]
  by (simp add: redis_claim_due_scheduled_jobs_def claim_args_def)

theorem redis_claim_scheduled_exact_witness:
  "\<exists>w. redis_jobs steady (ref_ks (store w)) = [''a'' \<mapsto> late_job]
     \<and> wp (redis_claim_due_scheduled_jobs steady 3000000000 10)
     (\<lambda>x w'. \<exists>js. x = Inr (map (promoted_job 3000000000) js) \<and> selected steady (ref_ks (store w)) KScheduled 3000000000 10 js
        \<and> claims_done ref_doc steady 3000000000 js (ref_ks (store w)) (ref_ks (store w')))
       (w :: (unit blob ref_server, unit) world)"
proof -
  obtain w :: "(unit blob ref_server, unit) world" where w: "consistent ref_doc steady (ref_ks (store w))"
    "queued steady (ref_ks (store w))" "redis_jobs steady (ref_ks (store w)) = [''a'' \<mapsto> late_job]"
    by (rule steady_enqueued [of sample_redis_config late_job]) simp
  have "redis_inv ref_doc (\<lambda>j. True) steady (ref_ks (store w))" using w by (simp add: redis_inv_def)
  from redis_claim_scheduled_exact [OF steady_backend.redis_live_axioms this, of 3000000000 10] show ?thesis
    using w by (intro exI [of _ w]) simp
qed

text \<open>
  How late a promotion is. The script compares the texts of the deadline and of the present. With
  \<^verbatim>\<open>chrono\<close>'s texts a job it finds due has its deadline at most a microsecond ahead, and a job is found due
  at the latest one second after its deadline; when the deadline is a whole second it is not found due before
  that second is over.
\<close>

theorem redis_due_bounds:
  assumes "iso_codec (rs_codec R) date" and "deadline st = Some t" and "time_ok t" and "time_ok now"
  shows "(text_due R now st \<longrightarrow> t < micros now + 1000)
     \<and> (t + 1000000000 \<le> now \<longrightarrow> text_due R now st)
     \<and> (t mod 1000000000 = 0 \<and> t div 1000000000 = now div 1000000000 \<longrightarrow> \<not> text_due R now st)"
  using iso_codec.due_text_sound [OF assms(1, 3, 4)] iso_codec.due_text_complete [OF assms(1, 3, 4)]
    iso_codec.due_text_whole_second [OF assms(1), of t now]
  by (simp add: text_due_def assms(2))

theorem redis_due_bounds_witness:
  "text_due steady 3000000000 (job_state late_job) \<and> \<not> text_due steady 1000000000 (job_state late_job)"
  using redis_due_bounds [of steady ref_date "job_state late_job" 1000000000 3000000000, unfolded reference_simps,
      OF ref_iso.iso_codec_axioms]
    redis_due_bounds [of steady ref_date "job_state late_job" 1000000000 1000000000, unfolded reference_simps,
      OF ref_iso.iso_codec_axioms]
  by simp

text \<open>
  The stale sweep on Redis requeues exactly the jobs that have been \<open>Processing\<close> since before the given
  time, each on its own queue, changes no other job and returns their number.
\<close>

theorem redis_stale_sweep_exact:
  assumes "redis_live R ks doc clean" and "redis_inv doc clean R (ks (store w))" and "K = ks (store w)"
  shows "wp (redis_requeue_stranded_jobs R t) (\<lambda>x w'. x = Inr (card (chosen R K (stranded t)))
     \<and> requeued (chosen R K (stranded t)) (redis_jobs R K) (redis_jobs R (ks (store w')))) w"
  unfolding redis_requeue_stranded_jobs_def assms(3)
  by (rule redis_live.sweep_exact_keys [OF assms(1, 2)]) (rule redis_live.stranded_processing [OF assms(1)])

theorem redis_stale_sweep_exact_witness:
  "\<exists>w. redis_jobs steady (ref_ks (store w)) = [''a'' \<mapsto> running_job]
     \<and> wp (redis_requeue_stranded_jobs steady 7) (\<lambda>x w'. x = Inr (card (chosen steady (ref_ks (store w)) (stranded 7)))
     \<and> requeued (chosen steady (ref_ks (store w)) (stranded 7)) (redis_jobs steady (ref_ks (store w)))
          (redis_jobs steady (ref_ks (store w')))) (w :: (unit blob ref_server, unit) world)"
proof -
  obtain w :: "(unit blob ref_server, unit) world" where w: "consistent ref_doc steady (ref_ks (store w))"
    "queued steady (ref_ks (store w))" "redis_jobs steady (ref_ks (store w)) = [''a'' \<mapsto> running_job]"
    by (rule steady_enqueued [of sample_redis_config running_job]) simp
  have "redis_inv ref_doc (\<lambda>j. True) steady (ref_ks (store w))" using w by (simp add: redis_inv_def)
  from redis_stale_sweep_exact [OF steady_backend.redis_live_axioms this refl, of 7] show ?thesis
    using w by (intro exI [of _ w]) simp
qed

section \<open>Faults of the connection\<close>

text \<open>
  C14. The compare-and-swap of a job state is atomic on any connection. \<open>True\<close> says that the stored job was in the
  expected state and has been replaced, with all its indices; \<open>False\<close> that it was not and nothing has changed.
  Whatever else is returned, a time-out or a lost connection, either the swap has been made as a whole or
  nothing has changed.
\<close>

theorem redis_swap_atomic:
  assumes "redis_backend R ks doc clean" and "consistent doc R (ks (store w))"
  shows "wp (redis_update_if_state R j k) (\<lambda>x w'.
     let K = ks (store w); K' = ks (store w');
         in_k = (\<exists>j0. redis_jobs R K (job_id j) = Some j0 \<and> kind (job_state j0) = k);
         new = (in_k \<and> replaced doc R j K K') in
     (x = Inr True \<longrightarrow> new) \<and> (x = Inr False \<longrightarrow> \<not> in_k \<and> core R K' = core R K) \<and> (core R K' = core R K \<or> new)) w"
  by (rule redis_backend.update_if_state_any_link [OF assms])

text \<open>
  The fetch is all or nothing on any connection. A job it returns has been claimed; when it fails, either nothing has
  changed or one whole fetch has been made, so that a job may be \<open>Processing\<close> by a worker that never learns of
  it, which the sweeps recover, and no job is ever lost from the indices.
\<close>

theorem redis_fetch_all_or_nothing:
  assumes "redis_backend R ks doc clean" and "redis_inv doc clean R (ks (store w))" and "time_ok (clock w (ticks w))"
  shows "wp (redis_fetch_and_lock_job R wid qs) (\<lambda>x w'.
     let K = ks (store w); K' = ks (store w'); t = clock w (ticks w) in
     (\<forall>y. x = Inr y \<longrightarrow> fetched doc R wid qs t K y K')
     \<and> (core R K' = core R K \<or> (\<exists>y. fetched doc R wid qs t K y K'))) w"
  by (rule redis_backend.fetch_any_link [OF assms(1)]) (use assms(2, 3) in \<open>auto simp: redis_inv_def\<close>)

text \<open>The server of the witnesses loses the connection after the first request has run.\<close>

abbreviation faulty :: "(unit, unit blob, unit job, unit blob ref_server) redis_storage" where
  "faulty \<equiv> ref_storage sample_redis_config"

abbreviation faulty_world :: "(unit blob ref_server, unit) world" where
  "faulty_world \<equiv> redis_world (sample_server [Broken True ''connection reset''])"

theorem redis_swap_atomic_witness:
  "wp (redis_update_if_state faulty running_job KEnqueued) (\<lambda>x w'. x \<noteq> Inr True
     \<and> redis_jobs faulty (ref_ks (store w')) = (\<lambda>_. None)) faulty_world"
  by (rule wp_mono [OF redis_swap_atomic [OF ref_backend.redis_backend_axioms]])
     (auto simp: Let_def dest: ref_backend.core_eqD(2))

theorem redis_fetch_all_or_nothing_witness:
  "wp (redis_fetch_and_lock_job faulty ''w'' None) (\<lambda>x w'. redis_jobs faulty (ref_ks (store w')) = (\<lambda>_. None)) faulty_world"
  by (rule wp_mono [OF redis_fetch_all_or_nothing [OF ref_backend.redis_backend_axioms]])
     (auto simp: Let_def redis_inv_def fetched_def split: option.splits dest: ref_backend.core_eqD(2))

section \<open>What modelling brought to light\<close>

text \<open>Runs of the methods on the reference server, unfolded.\<close>

lemmas redis_run = wp_def Let_def redis_world_def sample_server_def utc_now_def on_server_def send_request_def
  with_timeout_def invoke_script_def command_def redis_call_def steady_redis_def ref_link_def with_entry_def rf_put_def
  ref_ks_def ref_codec_def as_unit_def as_value_def as_is_some_def as_members_def by_score_def

lemmas redis_job_run = redis_enqueue_def job_blob_def update_job_indices_def is_job_available_def
  redis_fetch_and_lock_job_def fetch_script_def candidate_keys_def lua_take_job_def lua_start_job_def lua_move_state_def
  lua_with_state_def lua_processing_def lua_enqueued_def ref_table_def ref_encode_def state_fields_def
  redis_jobs_def state_set_def state_to_string_def

lemmas redis_claim_run = redis_claim_due_scheduled_jobs_def claim_due_jobs_lua_def claim_script_def lua_due_def
  lua_entry_of_def lua_or_def lua_claim_entry_def lua_sort_due_def as_i64_def

text \<open>
  Enqueueing is not atomic. When the connection is lost after the first of the seven requests of
  \<^verbatim>\<open>enqueue\<close>, the client gets an error but the document of the job is stored; it is in no
  state set and no queue set, so no fetch finds it and no listing by state shows it.
\<close>

theorem redis_enqueue_not_atomic:
  "wp (do {
       r \<leftarrow> redis_enqueue faulty waiting_job;
       f \<leftarrow> redis_fetch_and_lock_job faulty ''w'' None;
       ret (r, f) })
     (\<lambda>(r, f) w'. (\<exists>e. r = Inl e) \<and> f = Inr None
        \<and> redis_jobs faulty (ref_ks (store w')) ''a'' = Some waiting_job
        \<and> state_set faulty (ref_ks (store w')) KEnqueued = {})
     (redis_world (sample_server [Delivered, Broken False ''connection reset'']) :: (unit blob ref_server, unit) world)"
  by (simp add: redis_run redis_job_run)

definition urgent_job :: "unit job" where
  "urgent_job = sample_job ''a'' 1 0 (Enqueued 0 ''default'')"

definition later_job :: "unit job" where
  "later_job = sample_job ''b'' 0 2000000000000 (Enqueued 2000000000000 ''default'')"

definition urgent_timer :: "unit job" where
  "urgent_timer = sample_job ''a'' 1 0 (Scheduled 0 1000000000 ''timer'')"

lemma ordered_jobs [simp]:
  "job_id urgent_job = ''a''" "job_id later_job = ''b''" "job_id urgent_timer = ''a''"
  "job_queue urgent_job = ''default''" "job_queue later_job = ''default''" "job_queue urgent_timer = ''default''"
  "job_state urgent_job = Enqueued 0 ''default''" "job_state later_job = Enqueued 2000000000000 ''default''"
  "job_state urgent_timer = Scheduled 0 1000000000 ''timer''"
  "job_priority urgent_timer = 1"
  by (simp_all add: urgent_job_def later_job_def urgent_timer_def)

lemma ordered_scores [simp]: "job_score urgent_job = Fin 1" "job_score later_job = Fin 2"
  using f64_of_int_exact [of 2] f64_of_int_exact [of 0] f64_of_int_exact [of 2000000] f64_of_int_exact [of 1]
  by (simp_all add: urgent_job_def later_job_def job_score_def timestamp_millis_def f64_of_int_def)

text \<open>
  Age outranks priority, the wrong way. The score of a job grows with its creation time and the highest score is
  fetched first: a job of priority 0 that was created 2000 seconds later is fetched before a waiting job of priority 1,
  and before a scheduled job of priority 1 that a claim has promoted, whose score is its priority alone.
\<close>

theorem redis_latest_first:
  "wp (do {
       _ \<leftarrow> redis_enqueue steady urgent_job;
       _ \<leftarrow> redis_enqueue steady later_job;
       redis_fetch_and_lock_job steady ''w'' None })
     (\<lambda>f _. f = Inr (Some (claimed_by ''w'' 2000000000 later_job))) empty_world
   \<and> wp (do {
       _ \<leftarrow> redis_enqueue steady urgent_timer;
       c \<leftarrow> redis_claim_due_scheduled_jobs steady 3000000000 10;
       _ \<leftarrow> redis_enqueue steady later_job;
       f \<leftarrow> redis_fetch_and_lock_job steady ''w'' None;
       ret (c, f) })
     (\<lambda>(c, f) _. c = Inr [promoted_job 3000000000 urgent_timer]
        \<and> f = Inr (Some (claimed_by ''w'' 2000000000 later_job))) empty_world"
proof (rule conjI)
  have now: "time_ok 2000000000" by (simp add: time_ok_def dur_seconds_def)
  have due: "form_auto ref_date 1000000000 \<le> form_micros ref_date 3000000000"
    using ref_iso.due_text_complete [of 1000000000 3000000000] by (simp add: ref_codec_def)
  show "wp (do {
       _ \<leftarrow> redis_enqueue steady urgent_job;
       _ \<leftarrow> redis_enqueue steady later_job;
       redis_fetch_and_lock_job steady ''w'' None })
     (\<lambda>f _. f = Inr (Some (claimed_by ''w'' 2000000000 later_job))) empty_world"
    by (simp add: redis_run redis_job_run claimed_by_def less_f64_def now)
  show "wp (do {
       _ \<leftarrow> redis_enqueue steady urgent_timer;
       c \<leftarrow> redis_claim_due_scheduled_jobs steady 3000000000 10;
       _ \<leftarrow> redis_enqueue steady later_job;
       f \<leftarrow> redis_fetch_and_lock_job steady ''w'' None;
       ret (c, f) })
     (\<lambda>(c, f) _. c = Inr [promoted_job 3000000000 urgent_timer]
        \<and> f = Inr (Some (claimed_by ''w'' 2000000000 later_job))) empty_world"
    using f64_of_int_exact [of 1]
    by (simp add: redis_run redis_job_run redis_claim_run claimed_by_def promoted_job_def less_f64_def hm_remove_def now due)
qed

definition every_second :: "time \<Rightarrow> unit recurring_job" where
  "every_second t = \<lparr>rj_id = ''a'', rj_cron = ''* * * * * *'', rj_method = ''m'', rj_payload = (),
     rj_queue = ''default'', rj_next_run_at = t, rj_last_run_at = None, rj_created_at = 0, rj_updated_at = 0,
     rj_enabled = True\<rparr>"

text \<open>
  A template fires at most once while its claim key lives, for a minute. The key is not deleted when the template has
  been advanced, so a template whose next time is ten seconds later, put back by the poller as the in-memory backend
  expects it, is not handed out when that time has come.
\<close>

theorem redis_recurring_capped:
  "wp (do {
       _ \<leftarrow> redis_upsert_recurring_job steady (every_second 0);
       xs \<leftarrow> redis_fetch_due_recurring_jobs steady 0 10;
       _ \<leftarrow> redis_upsert_recurring_job steady (every_second 10000000000);
       ys \<leftarrow> redis_fetch_due_recurring_jobs steady 10000000000 10;
       ret (xs, ys) })
     (\<lambda>(xs, ys) _. xs = Inr [every_second 0] \<and> ys = Inr []) empty_world"
  using f64_of_int_exact [of 0] f64_of_int_exact [of 10000] f64_of_int_exact [of 315360000000]
  by (simp add: redis_run less_f64_def less_eq_f64_def present_def dur_defs recurring_key_def recurring_index_key_def
      recurring_claim_key_def limit_of_def redis_upsert_recurring_job_def redis_fetch_due_recurring_jobs_def
      timestamp_millis_def every_second_def parse_recurring_def as_i64_def)

text \<open>
  Job locks and named locks share their keys. With the default prefix the key of the named lock on a resource is that of
  the lock of the job with the same id: a server that holds the first keeps every worker from the second.
\<close>

theorem redis_locks_collide:
  "named_lock_key steady i = job_lock_key i
   \<and> wp (do {
       _ \<leftarrow> redis_try_acquire_lock steady ''a'' ''s'' 1000000000;
       redis_try_acquire_job_lock steady ''a'' ''w'' 1800 }) (\<lambda>y _. y = Inr False) empty_world"
  by (simp add: redis_run redis_try_acquire_lock_def redis_try_acquire_job_lock_def try_lock_script_def
      named_lock_key_def job_lock_key_def sample_redis_config_def redis_config_default_def present_def)

end
