(* ===== verification/Pg_Database.thy ===== *)
theory Pg_Database
  imports F64 Storage_Api
begin

text \<open>
  The database that \<^verbatim>\<open>src/storage/postgres.rs\<close> works on: the rows of the tables of \<^verbatim>\<open>install.sql\<close>, and how a
  statement is executed. A statement is one step of the server: it reads and writes the tables as a whole, or
  fails and leaves them as they were. What PostgreSQL does not specify is given by the database of the model and is
  arbitrary in the theorems: the order of the rows within a table and which rows other transactions hold locked
  at a statement, the time of the server, and what becomes of a request on its connection. The crates
  \<^verbatim>\<open>uuid\<close>, \<^verbatim>\<open>serde_json\<close> and \<^verbatim>\<open>sqlx\<close> and the conversions of the server are the record \<open>pg_driver\<close>.
  The column \<^verbatim>\<open>updated_at\<close> and the indexes, which no statement reads, are not represented, nor is the folding of the
  case of names: names of schemas and tables are taken as written.
\<close>

section \<open>Rows\<close>

text \<open>A \<^verbatim>\<open>TIMESTAMPTZ\<close> counts microseconds.\<close>

type_synonym pg_time = int
type_synonym uuid = "128 word"

record 'p job_row =
  rw_id :: uuid
  rw_method_name :: string
  rw_arguments :: 'p
  rw_created_at :: pg_time
  rw_state_name :: string
  rw_state_data :: 'p
  rw_queue_name :: string
  rw_priority :: i32
  rw_max_retries :: i32
  rw_current_retries :: i32
  rw_metadata :: "'p option"
  rw_job_type :: "string option"
  rw_timeout_seconds :: "i32 option"
  rw_expires_at :: "pg_time option"
  rw_locked_by :: "string option"
  rw_locked_at :: "pg_time option"
  rw_lock_expires_at :: "pg_time option"

record 'p recurring_row =
  rr_id :: string
  rr_cron :: string
  rr_method :: string
  rr_payload :: 'p
  rr_queue :: string
  rr_next_run_at :: pg_time
  rr_last_run_at :: "pg_time option"
  rr_created_at :: pg_time
  rr_updated_at :: pg_time
  rr_enabled :: bool

record server_row =
  sr_server_id :: string
  sr_server_name :: string
  sr_started_at :: pg_time
  sr_last_heartbeat :: pg_time
  sr_worker_count :: i32
  sr_queues :: "string list"

record lock_row =
  lr_resource :: string
  lr_owner :: string
  lr_acquired_at :: pg_time
  lr_expires_at :: pg_time

type_synonym 'p job_table = "(uuid, 'p job_row) hmap"
type_synonym 'p recurring_table = "(string, 'p recurring_row) hmap"
type_synonym server_table = "(string, server_row) hmap"
type_synonym lock_table = "(string, lock_row) hmap"

section \<open>Errors\<close>

text \<open>A \<^verbatim>\<open>sqlx::Error\<close>: an error of the database with its SQLSTATE, or one of the client; with its text.\<close>

datatype sqlx_error =
    SqlxDatabase (sqlx_code: "string option") (sqlx_text: string)
  | SqlxClient (sqlx_text: string)
where
  "sqlx_code (SqlxClient _) = None"

text \<open>What becomes of a request: it is executed and answered; it fails and is not executed; the connection breaks after
  its execution.\<close>

datatype pg_link = Answered | Refused sqlx_error | Unanswered string

section \<open>The database\<close>

text \<open>Tables by their qualified names. The numbers of a statement select the time of the server, the order in which
  a scan meets the rows, and the rows that other transactions hold.\<close>

record 'p database =
  db_schemas :: "string list"
  db_functions :: bool
  db_jobs :: "(string, 'p job_table) hmap"
  db_recurring :: "(string, 'p recurring_table) hmap"
  db_servers :: "(string, server_table) hmap"
  db_locks :: "(string, lock_table) hmap"
  db_now :: "nat \<Rightarrow> pg_time"
  db_rank :: "nat \<Rightarrow> uuid \<Rightarrow> nat"
  db_text_rank :: "nat \<Rightarrow> string \<Rightarrow> nat"
  db_busy :: "nat \<Rightarrow> uuid \<Rightarrow> bool"
  db_text_busy :: "nat \<Rightarrow> string \<Rightarrow> bool"
  db_links :: "pg_link list"
  db_count :: nat

text \<open>The rows a scan of a table meets, in their physical order.\<close>

definition scan :: "('k \<Rightarrow> nat) \<Rightarrow> ('k, 'r) hmap \<Rightarrow> 'r list" where
  "scan rank t = map snd (sort_key (rank \<circ> fst) t)"

lemma set_scan [simp]: "set (scan rank t) = snd ` set t"
  by (simp add: scan_def)

text \<open>A statement is executed with its number.\<close>

type_synonym ('p, 'a) statement = "nat \<Rightarrow> 'p database \<Rightarrow> sqlx_error + 'a \<times> 'p database"

definition bumped :: "'p database \<Rightarrow> 'p database" where
  "bumped d = d\<lparr>db_count := Suc (db_count d), db_links := tl (db_links d)\<rparr>"

definition run_statement :: "('p, 'a) statement \<Rightarrow> ('p database, 'e, sqlx_error + 'a) act" where
  "run_statement st = State (\<lambda>w.
     let n = db_count (store w); d = bumped (store w) in
     case (case db_links (store w) of [] \<Rightarrow> Answered | l # _ \<Rightarrow> l) of
       Answered \<Rightarrow> (case st n d of Inl e \<Rightarrow> (Inl e, w\<lparr>store := d\<rparr>) | Inr (a, d') \<Rightarrow> (Inr a, w\<lparr>store := d'\<rparr>))
     | Refused e \<Rightarrow> (Inl e, w\<lparr>store := d\<rparr>)
     | Unanswered e \<Rightarrow>
         (Inl (SqlxClient e), w\<lparr>store := (case st n d of Inl _ \<Rightarrow> d | Inr (_, d') \<Rightarrow> d')\<rparr>))"

lemma wp_statement:
  assumes "\<And>a d'. st (db_count (store w)) (bumped (store w)) = Inr (a, d') \<Longrightarrow> Q (Inr a) (w\<lparr>store := d'\<rparr>)"
    and "\<And>a d' e ls. st (db_count (store w)) (bumped (store w)) = Inr (a, d') \<Longrightarrow>
      db_links (store w) = Unanswered e # ls \<Longrightarrow> Q (Inl (SqlxClient e)) (w\<lparr>store := d'\<rparr>)"
    and "\<And>e. Q (Inl e) (w\<lparr>store := bumped (store w)\<rparr>)"
  shows "wp (run_statement st) Q w"
  using assms
  by (auto simp: wp_def run_statement_def Let_def split: list.split pg_link.split sum.split)

section \<open>Driver\<close>

text \<open>
  \<^verbatim>\<open>Uuid::from_str\<close> and \<^verbatim>\<open>to_string\<close>; \<^verbatim>\<open>serde_json::to_value\<close> and \<^verbatim>\<open>from_value\<close> on states and on
  metadata; how \<^verbatim>\<open>sqlx\<close> sends a \<^verbatim>\<open>DateTime<Utc>\<close>. Of the server: what a text parameter arrives as, what a value becomes in a column of
  type \<^verbatim>\<open>VARCHAR(n)\<close> and of type \<^verbatim>\<open>JSONB\<close>; \<^verbatim>\<open>data->'v'->>'f'\<close>; the casts of a text to a timestamp without and
  with time zone; \<^verbatim>\<open>jsonb_build_object\<close> of an \<^verbatim>\<open>Enqueued\<close> state; \<^verbatim>\<open>make_interval\<close> of seconds; \<^verbatim>\<open>+ INTERVAL\<close> of days; and the texts of
  its messages.
\<close>

record 'p pg_driver =
  pd_parse_uuid :: "string \<Rightarrow> string + uuid"
  pd_show_uuid :: "uuid \<Rightarrow> string"
  pd_state_to :: "job_state \<Rightarrow> string + 'p"
  pd_state_of :: "'p \<Rightarrow> string + job_state"
  pd_metadata_to :: "(string, string) hmap \<Rightarrow> string + 'p"
  pd_metadata_of :: "'p \<Rightarrow> string + (string, string) hmap"
  pd_bind_time :: "time \<Rightarrow> pg_time"
  pd_text :: "string \<Rightarrow> sqlx_error + string"
  pd_varchar :: "nat \<Rightarrow> string \<Rightarrow> sqlx_error + string"
  pd_jsonb :: "'p \<Rightarrow> sqlx_error + 'p"
  pd_json_text :: "string \<Rightarrow> string \<Rightarrow> 'p \<Rightarrow> string option"
  pd_timestamp :: "string \<Rightarrow> sqlx_error + pg_time"
  pd_timestamptz :: "string \<Rightarrow> sqlx_error + pg_time"
  pd_enqueued :: "pg_time \<Rightarrow> string \<Rightarrow> 'p"
  pd_make_interval :: "f64 \<Rightarrow> sqlx_error + int"
  pd_plus_days :: "pg_time \<Rightarrow> int \<Rightarrow> pg_time"
  pd_message :: "string \<Rightarrow> string"

definition pg_error :: "'p pg_driver \<Rightarrow> string \<Rightarrow> sqlx_error" where
  "pg_error D code = SqlxDatabase (Some code) (pd_message D code)"

section \<open>Errors in rows\<close>

text \<open>A condition on rows that may fail, as a cast in it does, fails the statement.\<close>

fun filterE :: "('a \<Rightarrow> 'e + bool) \<Rightarrow> 'a list \<Rightarrow> 'e + 'a list" where
  "filterE P [] = Inr []"
| "filterE P (x # xs) = tryE (P x) (\<lambda>b. tryE (filterE P xs) (\<lambda>ys. Inr (if b then x # ys else ys)))"

fun mapE :: "('a \<Rightarrow> 'e + 'b) \<Rightarrow> 'a list \<Rightarrow> 'e + 'b list" where
  "mapE f [] = Inr []"
| "mapE f (x # xs) = tryE (f x) (\<lambda>y. tryE (mapE f xs) (\<lambda>ys. Inr (y # ys)))"

definition optE :: "('a \<Rightarrow> 'e + 'b) \<Rightarrow> 'a option \<Rightarrow> 'e + 'b option" where
  "optE f x = (case x of None \<Rightarrow> Inr None | Some y \<Rightarrow> tryE (f y) (\<lambda>z. Inr (Some z)))"

lemma tryE_Inr_iff [simp]: "tryE x f = Inr y \<longleftrightarrow> (\<exists>v. x = Inr v \<and> f v = Inr y)"
  by (cases x) simp_all

lemma filterE_Inr:
  assumes "\<And>x. x \<in> set xs \<Longrightarrow> P x = Inr (Q x)"
  shows "filterE P xs = Inr (filter Q xs)"
  using assms by (induction xs) simp_all

lemma filterE_InrD: "filterE P xs = Inr ys \<Longrightarrow> ys = filter (\<lambda>x. P x = Inr True) xs"
  by (induction xs arbitrary: ys) (auto split: if_splits)

lemma mapE_Inr_iff: "mapE f xs = Inr ys \<longleftrightarrow> list_all2 (\<lambda>x y. f x = Inr y) xs ys"
  by (induction xs arbitrary: ys) (auto simp: list_all2_Cons1)

lemma mapE_Inr:
  assumes "\<And>x. x \<in> set xs \<Longrightarrow> f x = Inr (g x)"
  shows "mapE f xs = Inr (map g xs)"
  using assms by (induction xs) simp_all

lemma optE_simps [simp]: "optE f None = Inr None" "optE f (Some y) = tryE (f y) (\<lambda>z. Inr (Some z))"
  by (simp_all add: optE_def)

section \<open>Access to the tables\<close>

text \<open>A table that is missing is SQLSTATE 42P01.\<close>

definition on_table ::
  "(('p database \<Rightarrow> (string, 't) hmap) \<times> (((string, 't) hmap \<Rightarrow> (string, 't) hmap) \<Rightarrow> 'p database \<Rightarrow> 'p database))
     \<Rightarrow> 'p pg_driver \<Rightarrow> string \<Rightarrow> ('t \<Rightarrow> sqlx_error + 'a \<times> 't) \<Rightarrow> 'p database \<Rightarrow> sqlx_error + 'a \<times> 'p database" where
  "on_table lens D name f d =
     (case hm_get (fst lens d) name of
        None \<Rightarrow> Inl (pg_error D ''42P01'')
      | Some t \<Rightarrow> tryE (f t) (\<lambda>(a, t'). Inr (a, snd lens (hm_insert name t') d)))"

abbreviation "jobs_lens \<equiv> (db_jobs, db_jobs_update)"
abbreviation "recurring_lens \<equiv> (db_recurring, db_recurring_update)"
abbreviation "servers_lens \<equiv> (db_servers, db_servers_update)"
abbreviation "locks_lens \<equiv> (db_locks, db_locks_update)"

text \<open>A condition on \<^verbatim>\<open>LIMIT $n\<close>, bound as \<^verbatim>\<open>i64\<close>: a negative limit fails.\<close>

definition limitE :: "'p pg_driver \<Rightarrow> nat \<Rightarrow> 'a list \<Rightarrow> sqlx_error + 'a list" where
  "limitE D n xs = (if n mod 2 ^ 64 < 2 ^ 63 then Inr (take (n mod 2 ^ 64) xs) else Inl (pg_error D ''2201W''))"

definition offsetE :: "'p pg_driver \<Rightarrow> nat \<Rightarrow> 'a list \<Rightarrow> sqlx_error + 'a list" where
  "offsetE D n xs = (if n mod 2 ^ 64 < 2 ^ 63 then Inr (drop (n mod 2 ^ 64) xs) else Inl (pg_error D ''2201X''))"

end
