(* ===== verification/Pg_Storage.thy ===== *)
theory Pg_Storage
  imports Pg_Database Storage_Config "HOL-Library.Char_ord" "HOL-Library.List_Lexorder"
begin

text \<open>
  The PostgreSQL backend, \<^verbatim>\<open>src/storage/postgres.rs\<close>: the statements it sends (\<open>sql_\<close>, one definition for
  each text of SQL, with the functions and tables of \<^verbatim>\<open>install.sql\<close>), the conversion between jobs and rows, and the
  methods of the storage traits. Reading a column of the type the table declares for it does not fail, so the error
  branches of \<^verbatim>\<open>try_get\<close> are left out.
\<close>

record 'p postgres_storage =
  ps_config :: postgres_config
  ps_driver :: "'p pg_driver"

abbreviation driver :: "'p postgres_storage \<Rightarrow> 'p pg_driver" where
  "driver \<equiv> ps_driver"

section \<open>Names\<close>

definition jobs_table_name :: string where
  "jobs_table_name = ''qml_jobs''"

definition current_schema_tables :: "string list" where
  "current_schema_tables = [jobs_table_name, ''qml_recurring_jobs'', ''qml_servers'', ''qml_locks'']"

definition table_name :: "'p postgres_storage \<Rightarrow> string" where
  "table_name P = full_table_name (ps_config P)"

definition recurring_table_name :: "'p postgres_storage \<Rightarrow> string" where
  "recurring_table_name P = pc_schema_name (ps_config P) @ ''.qml_recurring_jobs''"

definition servers_table_name :: "'p postgres_storage \<Rightarrow> string" where
  "servers_table_name P = pc_schema_name (ps_config P) @ ''.qml_servers''"

definition locks_table_name :: "'p postgres_storage \<Rightarrow> string" where
  "locks_table_name P = pc_schema_name (ps_config P) @ ''.qml_locks''"

section \<open>Requests and the schema\<close>

text \<open>A statement whose error is wrapped with a message.\<close>

definition query :: "string \<Rightarrow> ('p, 'a) statement \<Rightarrow> ('p database, 'e, storage_error + 'a) act" where
  "query msg st = do {
     r \<leftarrow> run_statement st;
     ret (case r of
            Inl e \<Rightarrow> Inl (SE_OperationFailed (msg @ '': '' @ sqlx_text e) (Some (sqlx_text e)))
          | Inr v \<Rightarrow> Inr v) }"

text \<open>The statements of \<^verbatim>\<open>install.sql\<close>, executed as one transaction. They name the schema \<^verbatim>\<open>qml\<close>.\<close>

definition create_table :: "string \<Rightarrow> (string, ('k, 'r) hmap) hmap \<Rightarrow> (string, ('k, 'r) hmap) hmap" where
  "create_table name ts = (if hm_contains ts name then ts else hm_insert name [] ts)"

definition install_sql :: "('p, unit) statement" where
  "install_sql n d = Inr ((), d\<lparr>
     db_schemas := (if ''qml'' \<in> set (db_schemas d) then db_schemas d else ''qml'' # db_schemas d),
     db_functions := True,
     db_jobs := create_table ''qml.qml_jobs'' (db_jobs d),
     db_recurring := create_table ''qml.qml_recurring_jobs'' (db_recurring d),
     db_servers := create_table ''qml.qml_servers'' (db_servers d),
     db_locks := create_table ''qml.qml_locks'' (db_locks d)\<rparr>)"

definition pg_migrate :: "'p postgres_storage \<Rightarrow> ('p database, 'e, storage_error + unit) act" where
  "pg_migrate P = do {
     r \<leftarrow> run_statement install_sql;
     ret (case r of
            Inl e \<Rightarrow> Inl (SE_MigrationError (''QML schema installation failed: '' @ sqlx_text e))
          | Inr _ \<Rightarrow> Inr ()) }"

definition sql_schema_present :: "string \<Rightarrow> ('p, bool) statement" where
  "sql_schema_present name n d = Inr (name \<in> set (db_schemas d), d)"

definition sql_table_present :: "string \<Rightarrow> string \<Rightarrow> ('p, bool) statement" where
  "sql_table_present schema name n d =
     (let full = schema @ ''.'' @ name in
      Inr (hm_contains (db_jobs d) full \<or> hm_contains (db_recurring d) full
           \<or> hm_contains (db_servers d) full \<or> hm_contains (db_locks d) full, d))"

definition check_schema_present :: "'p postgres_storage \<Rightarrow> ('p database, 'e, storage_error + bool) act" where
  "check_schema_present P =
     query ''Failed to check schema existence'' (sql_schema_present (pc_schema_name (ps_config P)))"

definition table_exists :: "'p postgres_storage \<Rightarrow> string \<Rightarrow> ('p database, 'e, storage_error + bool) act" where
  "table_exists P name =
     query (''Failed to check table existence for '' @ [CHR 0x27] @ name @ [CHR 0x27])
       (sql_table_present (pc_schema_name (ps_config P)) name)"

definition schema_exists :: "'p postgres_storage \<Rightarrow> ('p database, 'e, storage_error + bool) act" where
  "schema_exists P =
     bindE (check_schema_present P) (\<lambda>b.
     if \<not> b then ret (Inr False) else table_exists P (pc_table_name (ps_config P)))"

fun all_tables_exist :: "'p postgres_storage \<Rightarrow> string list \<Rightarrow> ('p database, 'e, storage_error + bool) act" where
  "all_tables_exist P [] = ret (Inr True)"
| "all_tables_exist P (name # names) =
     bindE (table_exists P name) (\<lambda>b. if \<not> b then ret (Inr False) else all_tables_exist P names)"

definition schema_is_current :: "'p postgres_storage \<Rightarrow> ('p database, 'e, storage_error + bool) act" where
  "schema_is_current P =
     bindE (check_schema_present P) (\<lambda>b.
     if \<not> b then ret (Inr False) else
     bindE (all_tables_exist P current_schema_tables) (\<lambda>b.
     if \<not> b then ret (Inr False)
     else if pc_table_name (ps_config P) \<noteq> jobs_table_name then
       bindE (table_exists P (pc_table_name (ps_config P))) (\<lambda>b. ret (Inr b))
     else ret (Inr True)))"

definition migrate_if_needed :: "'p postgres_storage \<Rightarrow> ('p database, 'e, storage_error + bool) act" where
  "migrate_if_needed P = do {
     r \<leftarrow> schema_is_current P;
     (case r of
        Inr True \<Rightarrow> ret (Inr False)
      | Inr False \<Rightarrow> bindE (pg_migrate P) (\<lambda>_. ret (Inr True))
      | Inl e \<Rightarrow> bindE (pg_migrate P) (\<lambda>_. ret (Inr True))) }"

text \<open>\<open>connect\<close> builds the pool from the URL and the limits of the configuration.\<close>

definition pg_new ::
  "(postgres_config \<Rightarrow> string option) \<Rightarrow> 'p pg_driver \<Rightarrow> postgres_config
     \<Rightarrow> ('p database, 'e, storage_error + 'p postgres_storage) act" where
  "pg_new connect D cfg =
     (case connect cfg of
        Some e \<Rightarrow> ret (Inl (SE_Connection (''Failed to connect to PostgreSQL: '' @ e) (Some e)))
      | None \<Rightarrow>
          let P = \<lparr>ps_config = cfg, ps_driver = D\<rparr> in
          if pc_auto_migrate cfg then bindE (migrate_if_needed P) (\<lambda>_. ret (Inr P)) else ret (Inr P))"

fun is_schema_error :: "sqlx_error \<Rightarrow> bool" where
  "is_schema_error (SqlxDatabase code _) =
     (let c = (case code of None \<Rightarrow> [] | Some c \<Rightarrow> c) in c = ''42P01'' \<or> c = ''3F000'')"
| "is_schema_error (SqlxClient _) = False"

definition handle_schema_error ::
  "'p postgres_storage \<Rightarrow> ('p, 'a) statement \<Rightarrow> string \<Rightarrow> ('p database, 'e, storage_error + 'a) act" where
  "handle_schema_error P operation name = do {
     r \<leftarrow> run_statement operation;
     (case r of
        Inr v \<Rightarrow> ret (Inr v)
      | Inl e \<Rightarrow>
          if is_schema_error e then
            if pc_auto_migrate (ps_config P) then
              bindE (pg_migrate P) (\<lambda>_.
              query (name @ '': operation failed even after migration'') operation)
            else ret (Inl (SE_OperationFailed
              (name @ '': schema error detected but auto_migrate is disabled '' @ [CHR 0xE2, CHR 0x80, CHR 0x94]
                @ '' run migrations manually: '' @ sqlx_text e) (Some (sqlx_text e))))
          else ret (Inl (SE_OperationFailed
            (name @ '': database operation failed: '' @ sqlx_text e) (Some (sqlx_text e))))) }"

section \<open>Jobs and rows\<close>

fun job_state_kind_to_name :: "job_state_kind \<Rightarrow> string" where
  "job_state_kind_to_name KEnqueued = ''enqueued''"
| "job_state_kind_to_name KProcessing = ''processing''"
| "job_state_kind_to_name KSucceeded = ''succeeded''"
| "job_state_kind_to_name KFailed = ''failed''"
| "job_state_kind_to_name KDeleted = ''deleted''"
| "job_state_kind_to_name KScheduled = ''scheduled''"
| "job_state_kind_to_name KAwaitingRetry = ''awaiting_retry''"

definition job_state_to_name :: "job_state \<Rightarrow> string" where
  "job_state_to_name st = job_state_kind_to_name (kind st)"

definition job_state_to_data :: "'p postgres_storage \<Rightarrow> job_state \<Rightarrow> storage_error + 'p" where
  "job_state_to_data P st =
     (case pd_state_to (driver P) st of
        Inl e \<Rightarrow> Inl (SE_Serialization (''Failed to serialize job state: '' @ e) (Some e))
      | Inr v \<Rightarrow> Inr v)"

definition data_to_job_state :: "'p postgres_storage \<Rightarrow> string \<Rightarrow> 'p \<Rightarrow> storage_error + job_state" where
  "data_to_job_state P name data =
     (case pd_state_of (driver P) data of
        Inl e \<Rightarrow> Inl (SE_Deserialization (''Failed to deserialize job state '' @ name @ '': '' @ e) (Some e))
      | Inr st \<Rightarrow> Inr st)"

definition job_to_row_values :: "'p postgres_storage \<Rightarrow> 'p job \<Rightarrow> storage_error + string \<times> 'p \<times> 'p" where
  "job_to_row_values P j =
     tryE (job_state_to_data P (job_state j)) (\<lambda>data.
     Inr (job_state_to_name (job_state j), data, job_payload j))"

definition metadata_value :: "'p postgres_storage \<Rightarrow> 'p job \<Rightarrow> storage_error + 'p option" where
  "metadata_value P j =
     (if job_metadata j = [] then Inr None
      else case pd_metadata_to (driver P) (job_metadata j) of
             Inl e \<Rightarrow> Inl (SE_Serialization (''Failed to serialize metadata: '' @ e) (Some e))
           | Inr v \<Rightarrow> Inr (Some v))"

definition parse_job_id :: "'p postgres_storage \<Rightarrow> string \<Rightarrow> storage_error + uuid" where
  "parse_job_id P i =
     (case pd_parse_uuid (driver P) i of
        Inl e \<Rightarrow> Inl (SE_InvalidJobData (''Invalid job ID format: '' @ e))
      | Inr u \<Rightarrow> Inr u)"

text \<open>The values that are bound for a job; \<^verbatim>\<open>as i32\<close> keeps the low 32 bits. The lock columns are not bound.\<close>

definition bound_row ::
  "'p postgres_storage \<Rightarrow> uuid \<Rightarrow> string \<times> 'p \<times> 'p \<Rightarrow> 'p option \<Rightarrow> 'p job \<Rightarrow> 'p job_row" where
  "bound_row P u vals md j =
     (case vals of (name, data, args) \<Rightarrow>
        \<lparr>rw_id = u, rw_method_name = job_method j, rw_arguments = args,
         rw_created_at = pd_bind_time (driver P) (job_created_at j), rw_state_name = name, rw_state_data = data,
         rw_queue_name = job_queue j, rw_priority = job_priority j, rw_max_retries = job_max_retries j,
         rw_current_retries = job_attempt j, rw_metadata = md, rw_job_type = job_type j,
         rw_timeout_seconds = map_option ucast (job_timeout_seconds j),
         rw_expires_at = map_option (pd_bind_time (driver P)) (job_expires_at j),
         rw_locked_by = None, rw_locked_at = None, rw_lock_expires_at = None\<rparr>)"

definition of_pg :: "pg_time \<Rightarrow> time" where
  "of_pg t = 1000 * t"

definition row_to_job :: "'p postgres_storage \<Rightarrow> 'p job_row \<Rightarrow> storage_error + 'p job" where
  "row_to_job P r =
     tryE (case rw_metadata r of
             None \<Rightarrow> Inr []
           | Some v \<Rightarrow>
               (case pd_metadata_of (driver P) v of
                  Inl e \<Rightarrow> Inl (SE_Deserialization (''Failed to deserialize metadata: '' @ e) (Some e))
                | Inr m \<Rightarrow> Inr m)) (\<lambda>metadata.
     tryE (data_to_job_state P (rw_state_name r) (rw_state_data r)) (\<lambda>st.
     Inr \<lparr>job_id = pd_show_uuid (driver P) (rw_id r), job_method = rw_method_name r, job_payload = rw_arguments r,
          job_created_at = of_pg (rw_created_at r), job_state = st, job_queue = rw_queue_name r,
          job_priority = rw_priority r, job_max_retries = rw_max_retries r,
          job_attempt = (if sint (rw_current_retries r) < 0 then 0 else rw_current_retries r),
          job_metadata = metadata, job_type = rw_job_type r,
          job_timeout_seconds = map_option scast (rw_timeout_seconds r),
          job_expires_at = map_option of_pg (rw_expires_at r)\<rparr>))"

text \<open>The loop over the rows of an answer.\<close>

definition rows_to_jobs :: "'p postgres_storage \<Rightarrow> 'p job_row list \<Rightarrow> storage_error + 'p job list" where
  "rows_to_jobs P rows = mapE (row_to_job P) rows"

definition pg_is_job_available :: "job_state \<Rightarrow> ('p database, 'e, bool) act" where
  "pg_is_job_available st = do {
     now \<leftarrow> utc_now;
     ret (case st of
            Enqueued _ _ \<Rightarrow> True
          | Scheduled _ enqueue_at _ \<Rightarrow> enqueue_at \<le> now
          | AwaitingRetry _ retry_at _ \<Rightarrow> retry_at \<le> now
          | _ \<Rightarrow> False) }"

definition row_to_recurring :: "'p recurring_row \<Rightarrow> 'p recurring_job" where
  "row_to_recurring r =
     \<lparr>rj_id = rr_id r, rj_cron = rr_cron r, rj_method = rr_method r, rj_payload = rr_payload r, rj_queue = rr_queue r,
      rj_next_run_at = of_pg (rr_next_run_at r), rj_last_run_at = map_option of_pg (rr_last_run_at r),
      rj_created_at = of_pg (rr_created_at r), rj_updated_at = of_pg (rr_updated_at r), rj_enabled = rr_enabled r\<rparr>"

definition row_to_server_info :: "server_row \<Rightarrow> server_info" where
  "row_to_server_info r =
     \<lparr>si_server_id = sr_server_id r, si_server_name = sr_server_name r, si_started_at = of_pg (sr_started_at r),
      si_last_heartbeat = of_pg (sr_last_heartbeat r),
      si_worker_count = (if sint (sr_worker_count r) < 0 then 0 else sr_worker_count r), si_queues = sr_queues r\<rparr>"

section \<open>Statements on jobs\<close>

text \<open>The parameters of a statement arrive, whatever the rows; then a value is fitted to the type of its column.\<close>

definition received_columns :: "'p pg_driver \<Rightarrow> 'p job_row \<Rightarrow> sqlx_error + 'p job_row" where
  "received_columns D c =
     tryE (pd_text D (rw_method_name c)) (\<lambda>meth.
     tryE (pd_jsonb D (rw_arguments c)) (\<lambda>args.
     tryE (pd_jsonb D (rw_state_data c)) (\<lambda>data.
     tryE (pd_text D (rw_queue_name c)) (\<lambda>queue.
     tryE (optE (pd_jsonb D) (rw_metadata c)) (\<lambda>md.
     tryE (optE (pd_text D) (rw_job_type c)) (\<lambda>ty.
     Inr (c\<lparr>rw_method_name := meth, rw_arguments := args, rw_state_data := data, rw_queue_name := queue,
            rw_metadata := md, rw_job_type := ty\<rparr>)))))))"

definition fitted_columns :: "'p pg_driver \<Rightarrow> 'p job_row \<Rightarrow> sqlx_error + 'p job_row" where
  "fitted_columns D c =
     tryE (pd_varchar D 255 (rw_method_name c)) (\<lambda>meth.
     tryE (pd_varchar D 255 (rw_queue_name c)) (\<lambda>queue.
     tryE (optE (pd_varchar D 255) (rw_job_type c)) (\<lambda>ty.
     Inr (c\<lparr>rw_method_name := meth, rw_queue_name := queue, rw_job_type := ty\<rparr>))))"

text \<open>The assignments of an \<^verbatim>\<open>UPDATE\<close>: all columns but the id, the time of creation and the lock.\<close>

definition set_columns :: "'p job_row \<Rightarrow> 'p job_row \<Rightarrow> 'p job_row" where
  "set_columns c r =
     c\<lparr>rw_id := rw_id r, rw_created_at := rw_created_at r, rw_locked_by := rw_locked_by r,
       rw_locked_at := rw_locked_at r, rw_lock_expires_at := rw_lock_expires_at r\<rparr>"

definition update_rows :: "('r \<Rightarrow> bool) \<Rightarrow> ('r \<Rightarrow> 'r) \<Rightarrow> ('k, 'r) hmap \<Rightarrow> ('k, 'r) hmap" where
  "update_rows sel f t = map (\<lambda>(k, r). (k, if sel r then f r else r)) t"

definition sql_select_job :: "'p pg_driver \<Rightarrow> string \<Rightarrow> uuid \<Rightarrow> ('p, 'p job_row option) statement" where
  "sql_select_job D tab u n d = on_table jobs_lens D tab (\<lambda>t. Inr (hm_get t u, t)) d"

definition sql_job_present :: "'p pg_driver \<Rightarrow> string \<Rightarrow> uuid \<Rightarrow> ('p, bool) statement" where
  "sql_job_present D tab u n d = on_table jobs_lens D tab (\<lambda>t. Inr (hm_contains t u, t)) d"

definition sql_update_job ::
  "'p pg_driver \<Rightarrow> string \<Rightarrow> uuid \<Rightarrow> string option \<Rightarrow> 'p job_row \<Rightarrow> ('p, nat) statement" where
  "sql_update_job D tab u expected c n d =
     on_table jobs_lens D tab (\<lambda>t.
       tryE (received_columns D c) (\<lambda>c.
       case hm_get t u of
         None \<Rightarrow> Inr (0, t)
       | Some r \<Rightarrow>
           if expected \<noteq> None \<and> expected \<noteq> Some (rw_state_name r) then Inr (0, t)
           else tryE (fitted_columns D c) (\<lambda>c. Inr (1, hm_insert u (set_columns c r) t)))) d"

definition sql_insert_job :: "'p pg_driver \<Rightarrow> string \<Rightarrow> 'p job_row \<Rightarrow> ('p, unit) statement" where
  "sql_insert_job D tab c n d =
     on_table jobs_lens D tab (\<lambda>t.
       tryE (received_columns D c) (\<lambda>c.
       tryE (fitted_columns D c) (\<lambda>c.
       if hm_contains t (rw_id c) then Inl (pg_error D ''23505'') else Inr ((), hm_insert (rw_id c) c t)))) d"

definition sql_delete_job :: "'p pg_driver \<Rightarrow> string \<Rightarrow> uuid \<Rightarrow> ('p, nat) statement" where
  "sql_delete_job D tab u n d =
     on_table jobs_lens D tab (\<lambda>t. Inr (if hm_contains t u then 1 else 0, hm_remove u t)) d"

definition sql_list_jobs ::
  "'p pg_driver \<Rightarrow> string \<Rightarrow> string option \<Rightarrow> nat option \<Rightarrow> nat option \<Rightarrow> ('p, 'p job_row list) statement" where
  "sql_list_jobs D tab state limit offset n d =
     on_table jobs_lens D tab (\<lambda>t.
       let rows = sort_key (\<lambda>r. - rw_created_at r)
             (filter (\<lambda>r. state = None \<or> state = Some (rw_state_name r)) (scan (db_rank d n) t)) in
       tryE (case offset of None \<Rightarrow> Inr rows | Some k \<Rightarrow> offsetE D k rows) (\<lambda>rows.
       tryE (case limit of None \<Rightarrow> Inr rows | Some k \<Rightarrow> limitE D k rows) (\<lambda>rows. Inr (rows, t)))) d"

definition sql_count_jobs :: "'p pg_driver \<Rightarrow> string \<Rightarrow> ('p, (string \<times> nat) list) statement" where
  "sql_count_jobs D tab n d =
     on_table jobs_lens D tab (\<lambda>t.
       let names = map rw_state_name (scan (db_rank d n) t) in
       Inr (map (\<lambda>s. (s, length (filter ((=) s) names))) (remdups names), t)) d"

text \<open>\<^verbatim>\<open>qml.parse_iso_utc\<close> of a field of \<^verbatim>\<open>state_data\<close>; a missing field is NULL, which satisfies no comparison.\<close>

definition parse_iso_utc :: "'p pg_driver \<Rightarrow> string \<Rightarrow> sqlx_error + pg_time" where
  "parse_iso_utc D t = pd_timestamp D t"

definition due_row :: "'p pg_driver \<Rightarrow> string \<Rightarrow> string \<Rightarrow> pg_time \<Rightarrow> 'p job_row \<Rightarrow> sqlx_error + bool" where
  "due_row D variant field now r =
     (case pd_json_text D variant field (rw_state_data r) of
        None \<Rightarrow> Inr False
      | Some txt \<Rightarrow> tryE (parse_iso_utc D txt) (\<lambda>t. Inr (t \<le> now)))"

text \<open>Calling a function of a missing schema is SQLSTATE 3F000, a missing function 42883.\<close>

definition with_functions :: "'p pg_driver \<Rightarrow> 'p database \<Rightarrow> sqlx_error + 'a \<Rightarrow> sqlx_error + 'a" where
  "with_functions D d x =
     (if \<not> db_functions d then Inl (pg_error D (if ''qml'' \<in> set (db_schemas d) then ''42883'' else ''3F000''))
      else x)"

text \<open>\<^verbatim>\<open>ORDER BY priority DESC, created_at ASC\<close>.\<close>

definition claim_order :: "'p job_row list \<Rightarrow> 'p job_row list" where
  "claim_order rows = sort_key (\<lambda>r. (- sint (rw_priority r), rw_created_at r)) rows"

text \<open>Here the limit is part of the text; a literal that is no \<^verbatim>\<open>bigint\<close> is SQLSTATE 22003.\<close>

definition sql_available_jobs :: "'p pg_driver \<Rightarrow> string \<Rightarrow> nat option \<Rightarrow> ('p, 'p job_row list) statement" where
  "sql_available_jobs D tab limit n d =
     on_table jobs_lens D tab (\<lambda>t.
       with_functions D d (
       tryE (filterE (\<lambda>r.
           if rw_state_name r = ''enqueued'' then Inr True
           else if rw_state_name r = ''scheduled'' then due_row D ''Scheduled'' ''enqueue_at'' (db_now d n) r
           else if rw_state_name r = ''awaiting_retry'' then due_row D ''AwaitingRetry'' ''retry_at'' (db_now d n) r
           else Inr False) (scan (db_rank d n) t)) (\<lambda>rows.
       tryE (case limit of
               None \<Rightarrow> Inr (claim_order rows)
             | Some k \<Rightarrow>
                 if k < 2 ^ 63 then Inr (take k (claim_order rows)) else Inl (pg_error D ''22003'')) (\<lambda>rows.
       Inr (rows, t))))) d"

definition sql_due_jobs ::
  "'p pg_driver \<Rightarrow> string \<Rightarrow> string \<Rightarrow> string \<Rightarrow> string \<Rightarrow> pg_time \<Rightarrow> nat \<Rightarrow> ('p, 'p job_row list) statement" where
  "sql_due_jobs D tab state variant field now limit n d =
     on_table jobs_lens D tab (\<lambda>t.
       with_functions D d (
       tryE (filterE (\<lambda>r. if rw_state_name r = state then due_row D variant field now r else Inr False)
               (scan (db_rank d n) t)) (\<lambda>rows.
       tryE (limitE D limit (claim_order rows)) (\<lambda>rows. Inr (rows, t))))) d"

definition enqueue_row :: "'p pg_driver \<Rightarrow> pg_time \<Rightarrow> 'p job_row \<Rightarrow> 'p job_row" where
  "enqueue_row D now r =
     r\<lparr>rw_state_name := ''enqueued'', rw_state_data := pd_enqueued D now (rw_queue_name r)\<rparr>"

text \<open>The common table expression picks the rows, skipping the locked ones; the update returns its rows in the order of the
  scan.\<close>

definition sql_claim_due_jobs ::
  "'p pg_driver \<Rightarrow> string \<Rightarrow> string \<Rightarrow> string \<Rightarrow> string \<Rightarrow> pg_time \<Rightarrow> nat \<Rightarrow> ('p, 'p job_row list) statement" where
  "sql_claim_due_jobs D tab state variant field now limit n d =
     on_table jobs_lens D tab (\<lambda>t.
       with_functions D d (
       tryE (filterE (\<lambda>r. if rw_state_name r = state then due_row D variant field now r else Inr False)
               (scan (db_rank d n) t)) (\<lambda>rows.
       tryE (limitE D limit (filter (\<lambda>r. \<not> db_busy d n (rw_id r)) (claim_order rows))) (\<lambda>due.
       let sel = (\<lambda>r. rw_id r \<in> rw_id ` set due);
           t' = update_rows sel (enqueue_row D (db_now d n)) t in
       Inr (filter sel (scan (db_rank d n) t'), t'))))) d"

definition sql_delete_expired :: "'p pg_driver \<Rightarrow> string \<Rightarrow> pg_time \<Rightarrow> ('p, nat) statement" where
  "sql_delete_expired D tab now n d =
     on_table jobs_lens D tab (\<lambda>t.
       let gone = (\<lambda>r. case rw_expires_at r of None \<Rightarrow> False | Some x \<Rightarrow> x < now) in
       Inr (length (filter gone (hm_values t)), hm_retain (\<lambda>r. \<not> gone r) t)) d"

text \<open>\<open>where_filter\<close> is the condition with its parameter, if that arrives.\<close>

definition sql_processing_to_enqueued ::
  "'p pg_driver \<Rightarrow> string \<Rightarrow> sqlx_error + ('p job_row \<Rightarrow> sqlx_error + bool) \<Rightarrow> ('p, nat) statement" where
  "sql_processing_to_enqueued D tab where_filter n d =
     on_table jobs_lens D tab (\<lambda>t.
       tryE where_filter (\<lambda>where_filter.
       tryE (filterE (\<lambda>r. if rw_state_name r = ''processing'' then where_filter r else Inr False)
               (scan (db_rank d n) t)) (\<lambda>rows.
       let sel = (\<lambda>r. rw_id r \<in> rw_id ` set rows);
           free = (\<lambda>r. (enqueue_row D (db_now d n) r)\<lparr>rw_locked_by := None, rw_locked_at := None,
                         rw_lock_expires_at := None\<rparr>) in
       Inr (length rows, update_rows sel free t)))) d"

definition sql_fetch_and_lock ::
  "'p pg_driver \<Rightarrow> string \<Rightarrow> string \<Rightarrow> 'p \<Rightarrow> string list option \<Rightarrow> ('p, 'p job_row option) statement" where
  "sql_fetch_and_lock D tab new_name new_data queues n d =
     on_table jobs_lens D tab (\<lambda>t.
       tryE (pd_jsonb D new_data) (\<lambda>new_data.
       tryE (case queues of None \<Rightarrow> Inr [] | Some qs \<Rightarrow> mapE (pd_text D) qs) (\<lambda>qs.
       let rows = filter (\<lambda>r. rw_state_name r \<in> {''enqueued'', ''awaiting_retry''} \<and> (qs = [] \<or> rw_queue_name r \<in> set qs))
             (scan (db_rank d n) t) in
       case filter (\<lambda>r. \<not> db_busy d n (rw_id r)) (claim_order rows) of
         [] \<Rightarrow> Inr (None, t)
       | r # _ \<Rightarrow>
           let r' = r\<lparr>rw_state_name := new_name, rw_state_data := new_data\<rparr> in
           Inr (Some r', hm_insert (rw_id r) r' t)))) d"

text \<open>\<^verbatim>\<open>qml.acquire_job_lock\<close> and \<^verbatim>\<open>qml.release_job_lock\<close>, which work on the table \<^verbatim>\<open>qml.qml_jobs\<close>.\<close>

definition sql_acquire_job_lock :: "'p pg_driver \<Rightarrow> uuid \<Rightarrow> string \<Rightarrow> i32 \<Rightarrow> ('p, bool) statement" where
  "sql_acquire_job_lock D u wid secs n d =
     with_functions D d (
     tryE (pd_text D wid) (\<lambda>wid.
     on_table jobs_lens D ''qml.qml_jobs'' (\<lambda>t.
       let now = db_now d n in
       case hm_get t u of
         None \<Rightarrow> Inr (False, t)
       | Some r \<Rightarrow>
           if rw_locked_by r = None \<or> (case rw_lock_expires_at r of None \<Rightarrow> False | Some x \<Rightarrow> x < now) then
             tryE (pd_varchar D 255 wid) (\<lambda>wid.
             Inr (True, hm_insert u (r\<lparr>rw_locked_by := Some wid, rw_locked_at := Some now,
                    rw_lock_expires_at := Some (now + 1000000 * sint secs)\<rparr>) t))
           else Inr (False, t)) d))"

definition sql_release_job_lock :: "'p pg_driver \<Rightarrow> uuid \<Rightarrow> string \<Rightarrow> ('p, bool) statement" where
  "sql_release_job_lock D u wid n d =
     with_functions D d (
     tryE (pd_text D wid) (\<lambda>wid.
     on_table jobs_lens D ''qml.qml_jobs'' (\<lambda>t.
       case hm_get t u of
         None \<Rightarrow> Inr (False, t)
       | Some r \<Rightarrow>
           if rw_locked_by r = Some wid then
             Inr (True, hm_insert u (r\<lparr>rw_locked_by := None, rw_locked_at := None, rw_lock_expires_at := None\<rparr>) t)
           else Inr (False, t)) d))"

section \<open>Statements on the other tables\<close>

definition sql_upsert_recurring :: "'p pg_driver \<Rightarrow> string \<Rightarrow> 'p recurring_row \<Rightarrow> ('p, unit) statement" where
  "sql_upsert_recurring D tab c n d =
     on_table recurring_lens D tab (\<lambda>t.
       tryE (pd_text D (rr_id c)) (\<lambda>i.
       tryE (pd_text D (rr_cron c)) (\<lambda>cron.
       tryE (pd_text D (rr_method c)) (\<lambda>meth.
       tryE (pd_jsonb D (rr_payload c)) (\<lambda>payload.
       tryE (pd_text D (rr_queue c)) (\<lambda>queue.
       let c = c\<lparr>rr_id := i, rr_cron := cron, rr_method := meth, rr_payload := payload, rr_queue := queue\<rparr> in
       Inr ((), hm_insert i (case hm_get t i of None \<Rightarrow> c | Some r \<Rightarrow> c\<lparr>rr_created_at := rr_created_at r\<rparr>) t))))))) d"

definition sql_remove_recurring :: "'p pg_driver \<Rightarrow> string \<Rightarrow> string \<Rightarrow> ('p, nat) statement" where
  "sql_remove_recurring D tab i n d =
     on_table recurring_lens D tab (\<lambda>t.
       tryE (pd_text D i) (\<lambda>i. Inr (if hm_contains t i then 1 else 0, hm_remove i t))) d"

text \<open>\<^verbatim>\<open>ORDER BY id\<close>, in the collation of bytes.\<close>

definition sql_list_recurring :: "'p pg_driver \<Rightarrow> string \<Rightarrow> ('p, 'p recurring_row list) statement" where
  "sql_list_recurring D tab n d =
     on_table recurring_lens D tab (\<lambda>t. Inr (sort_key rr_id (scan (db_text_rank d n) t), t)) d"

definition sql_fetch_due_recurring :: "'p pg_driver \<Rightarrow> string \<Rightarrow> pg_time \<Rightarrow> nat \<Rightarrow> ('p, 'p recurring_row list) statement" where
  "sql_fetch_due_recurring D tab now limit n d =
     on_table recurring_lens D tab (\<lambda>t.
       tryE (limitE D limit (filter (\<lambda>r. \<not> db_text_busy d n (rr_id r))
               (sort_key rr_next_run_at
                 (filter (\<lambda>r. rr_enabled r \<and> rr_next_run_at r \<le> now) (scan (db_text_rank d n) t))))) (\<lambda>due.
       let sel = (\<lambda>r. rr_id r \<in> rr_id ` set due);
           t' = update_rows sel (\<lambda>r. r\<lparr>rr_next_run_at := pd_plus_days D now 3650\<rparr>) t in
       Inr (filter sel (scan (db_text_rank d n) t'), t'))) d"

definition sql_register_server :: "'p pg_driver \<Rightarrow> string \<Rightarrow> server_row \<Rightarrow> ('p, unit) statement" where
  "sql_register_server D tab c n d =
     on_table servers_lens D tab (\<lambda>t.
       tryE (pd_text D (sr_server_id c)) (\<lambda>i.
       tryE (pd_text D (sr_server_name c)) (\<lambda>name.
       tryE (mapE (pd_text D) (sr_queues c)) (\<lambda>queues.
       Inr ((), hm_insert i (c\<lparr>sr_server_id := i, sr_server_name := name, sr_queues := queues\<rparr>) t))))) d"

definition sql_heartbeat_server :: "'p pg_driver \<Rightarrow> string \<Rightarrow> string \<Rightarrow> pg_time \<Rightarrow> ('p, nat) statement" where
  "sql_heartbeat_server D tab i now n d =
     on_table servers_lens D tab (\<lambda>t.
       tryE (pd_text D i) (\<lambda>i.
       case hm_get t i of
         None \<Rightarrow> Inr (0, t)
       | Some r \<Rightarrow> Inr (1, hm_insert i (r\<lparr>sr_last_heartbeat := now\<rparr>) t))) d"

definition sql_deregister_server :: "'p pg_driver \<Rightarrow> string \<Rightarrow> string \<Rightarrow> ('p, nat) statement" where
  "sql_deregister_server D tab i n d =
     on_table servers_lens D tab (\<lambda>t.
       tryE (pd_text D i) (\<lambda>i. Inr (if hm_contains t i then 1 else 0, hm_remove i t))) d"

definition sql_dead_servers :: "'p pg_driver \<Rightarrow> string \<Rightarrow> pg_time \<Rightarrow> ('p, server_row list) statement" where
  "sql_dead_servers D tab stale_before n d =
     on_table servers_lens D tab (\<lambda>t.
       Inr (filter (\<lambda>r. sr_last_heartbeat r < stale_before) (scan (db_text_rank d n) t), t)) d"

text \<open>Insert or refresh; no row is returned when the lock is alive and another's.\<close>

definition sql_acquire_lock :: "'p pg_driver \<Rightarrow> string \<Rightarrow> string \<Rightarrow> string \<Rightarrow> f64 \<Rightarrow> ('p, string option) statement" where
  "sql_acquire_lock D tab resource owner secs n d =
     on_table locks_lens D tab (\<lambda>t.
       tryE (pd_text D resource) (\<lambda>resource.
       tryE (pd_text D owner) (\<lambda>owner.
       tryE (pd_make_interval D secs) (\<lambda>ttl.
       let now = db_now d n;
           c = \<lparr>lr_resource = resource, lr_owner = owner, lr_acquired_at = now, lr_expires_at = now + ttl\<rparr> in
       case hm_get t resource of
         None \<Rightarrow> Inr (Some resource, hm_insert resource c t)
       | Some r \<Rightarrow>
           if lr_expires_at r < now \<or> lr_owner r = owner then Inr (Some resource, hm_insert resource c t)
           else Inr (None, t))))) d"

definition sql_release_lock :: "'p pg_driver \<Rightarrow> string \<Rightarrow> string \<Rightarrow> string \<Rightarrow> ('p, nat) statement" where
  "sql_release_lock D tab resource owner n d =
     on_table locks_lens D tab (\<lambda>t.
       tryE (pd_text D resource) (\<lambda>resource.
       tryE (pd_text D owner) (\<lambda>owner.
       case hm_get t resource of
         None \<Rightarrow> Inr (0, t)
       | Some r \<Rightarrow> if lr_owner r = owner then Inr (1, hm_remove resource t) else Inr (0, t)))) d"

definition sql_cleanup_locks :: "'p pg_driver \<Rightarrow> string \<Rightarrow> pg_time \<Rightarrow> ('p, nat) statement" where
  "sql_cleanup_locks D tab now n d =
     on_table locks_lens D tab (\<lambda>t.
       Inr (length (filter (\<lambda>r. lr_expires_at r < now) (hm_values t)),
            hm_retain (\<lambda>r. \<not> lr_expires_at r < now) t)) d"

section \<open>Single jobs\<close>

definition pg_get :: "'p postgres_storage \<Rightarrow> string \<Rightarrow> ('p database, 'e, storage_error + 'p job option) act" where
  "pg_get P i =
     bindE (ret (parse_job_id P i)) (\<lambda>u.
     bindE (handle_schema_error P (sql_select_job (driver P) (table_name P) u) ''get'') (\<lambda>row.
     ret (optE (row_to_job P) row)))"

definition pg_update :: "'p postgres_storage \<Rightarrow> 'p job \<Rightarrow> ('p database, 'e, storage_error + unit) act" where
  "pg_update P j =
     bindE (ret (job_to_row_values P j)) (\<lambda>vals.
     bindE (ret (metadata_value P j)) (\<lambda>md.
     bindE (ret (parse_job_id P (job_id j))) (\<lambda>u.
     bindE (query ''Failed to update job''
       (sql_update_job (driver P) (table_name P) u None (bound_row P u vals md j))) (\<lambda>affected.
     ret (if affected = 0 then Inl (SE_JobNotFound (job_id j)) else Inr ())))))"

definition pg_update_if_state ::
  "'p postgres_storage \<Rightarrow> 'p job \<Rightarrow> job_state_kind \<Rightarrow> ('p database, 'e, storage_error + bool) act" where
  "pg_update_if_state P j expected =
     bindE (ret (parse_job_id P (job_id j))) (\<lambda>u.
     bindE (ret (job_to_row_values P j)) (\<lambda>vals.
     bindE (ret (metadata_value P j)) (\<lambda>md.
     bindE (query ''Failed to update_if_state job''
       (sql_update_job (driver P) (table_name P) u (Some (job_state_kind_to_name expected)) (bound_row P u vals md j)))
       (\<lambda>affected.
     if affected > 0 then ret (Inr True)
     else
       bindE (query ''Failed to verify job existence'' (sql_job_present (driver P) (table_name P) u)) (\<lambda>present.
       ret (if present then Inr False else Inl (job_not_found (job_id j))))))))"

definition pg_delete :: "'p postgres_storage \<Rightarrow> string \<Rightarrow> ('p database, 'e, storage_error + bool) act" where
  "pg_delete P i =
     bindE (ret (parse_job_id P i)) (\<lambda>u.
     bindE (query ''Failed to delete job'' (sql_delete_job (driver P) (table_name P) u)) (\<lambda>affected.
     ret (Inr (affected > 0))))"

definition pg_enqueue :: "'p postgres_storage \<Rightarrow> 'p job \<Rightarrow> ('p database, 'e, storage_error + unit) act" where
  "pg_enqueue P j =
     bindE (ret (job_to_row_values P j)) (\<lambda>vals.
     bindE (ret (metadata_value P j)) (\<lambda>md.
     bindE (ret (parse_job_id P (job_id j))) (\<lambda>u.
     bindE (handle_schema_error P (sql_insert_job (driver P) (table_name P) (bound_row P u vals md j)) ''enqueue'')
       (\<lambda>_. ret (Inr ())))))"

section \<open>Many jobs\<close>

definition query_jobs ::
  "'p postgres_storage \<Rightarrow> string \<Rightarrow> ('p, 'p job_row list) statement \<Rightarrow> ('p database, 'e, storage_error + 'p job list) act" where
  "query_jobs P msg st = bindE (query msg st) (\<lambda>rows. ret (rows_to_jobs P rows))"

definition pg_list ::
  "'p postgres_storage \<Rightarrow> job_state_kind option \<Rightarrow> nat option \<Rightarrow> nat option
     \<Rightarrow> ('p database, 'e, (storage_error + 'p job list) option) act" where
  "pg_list P state limit offset = do {
     r \<leftarrow> query_jobs P ''Failed to list jobs''
       (sql_list_jobs (driver P) (table_name P) (map_option job_state_kind_to_name state) limit offset);
     ret (Some r) }"

definition pg_kind_of_name :: "string \<Rightarrow> job_state_kind option" where
  "pg_kind_of_name s =
     (if s = ''enqueued'' then Some KEnqueued
      else if s = ''processing'' then Some KProcessing
      else if s = ''succeeded'' then Some KSucceeded
      else if s = ''failed'' then Some KFailed
      else if s = ''deleted'' then Some KDeleted
      else if s = ''scheduled'' then Some KScheduled
      else if s = ''awaiting_retry'' then Some KAwaitingRetry
      else None)"

fun pg_counts_of :: "(string \<times> nat) list \<Rightarrow> (job_state_kind, nat) hmap \<Rightarrow> (job_state_kind, nat) hmap" where
  "pg_counts_of [] counts = counts"
| "pg_counts_of ((s, n) # rows) counts =
     pg_counts_of rows (case pg_kind_of_name s of None \<Rightarrow> counts | Some k \<Rightarrow> hm_insert k n counts)"

definition pg_get_job_counts ::
  "'p postgres_storage \<Rightarrow> ('p database, 'e, storage_error + (job_state_kind, nat) hmap) act" where
  "pg_get_job_counts P =
     bindE (query ''Failed to get job counts'' (sql_count_jobs (driver P) (table_name P))) (\<lambda>rows.
     ret (Inr (pg_counts_of rows [])))"

text \<open>The rows are read again in the crate, by its own clock.\<close>

fun pg_available_each :: "'p postgres_storage \<Rightarrow> 'p job_row list \<Rightarrow> ('p database, 'e, storage_error + 'p job list) act" where
  "pg_available_each P [] = ret (Inr [])"
| "pg_available_each P (row # rows) =
     bindE (ret (row_to_job P row)) (\<lambda>j. do {
       b \<leftarrow> pg_is_job_available (job_state j);
       bindE (pg_available_each P rows) (\<lambda>js. ret (Inr (if b then j # js else js))) })"

definition pg_get_available_jobs ::
  "'p postgres_storage \<Rightarrow> nat option \<Rightarrow> ('p database, 'e, storage_error + 'p job list) act" where
  "pg_get_available_jobs P limit =
     bindE (query ''Failed to get available jobs'' (sql_available_jobs (driver P) (table_name P) limit))
       (pg_available_each P)"

definition pg_fetch_due_scheduled_jobs ::
  "'p postgres_storage \<Rightarrow> time \<Rightarrow> nat \<Rightarrow> ('p database, 'e, storage_error + 'p job list) act" where
  "pg_fetch_due_scheduled_jobs P now limit =
     query_jobs P ''Failed to fetch due scheduled jobs''
       (sql_due_jobs (driver P) (table_name P) ''scheduled'' ''Scheduled'' ''enqueue_at''
         (pd_bind_time (driver P) now) limit)"

definition pg_fetch_due_retry_jobs ::
  "'p postgres_storage \<Rightarrow> time \<Rightarrow> nat \<Rightarrow> ('p database, 'e, storage_error + 'p job list) act" where
  "pg_fetch_due_retry_jobs P now limit =
     query_jobs P ''Failed to fetch due retry jobs''
       (sql_due_jobs (driver P) (table_name P) ''awaiting_retry'' ''AwaitingRetry'' ''retry_at''
         (pd_bind_time (driver P) now) limit)"

definition pg_claim_due_scheduled_jobs ::
  "'p postgres_storage \<Rightarrow> time \<Rightarrow> nat \<Rightarrow> ('p database, 'e, storage_error + 'p job list) act" where
  "pg_claim_due_scheduled_jobs P now limit =
     query_jobs P ''Failed to claim due scheduled jobs''
       (sql_claim_due_jobs (driver P) (table_name P) ''scheduled'' ''Scheduled'' ''enqueue_at''
         (pd_bind_time (driver P) now) limit)"

definition pg_claim_due_retry_jobs ::
  "'p postgres_storage \<Rightarrow> time \<Rightarrow> nat \<Rightarrow> ('p database, 'e, storage_error + 'p job list) act" where
  "pg_claim_due_retry_jobs P now limit =
     query_jobs P ''Failed to claim due retry jobs''
       (sql_claim_due_jobs (driver P) (table_name P) ''awaiting_retry'' ''AwaitingRetry'' ''retry_at''
         (pd_bind_time (driver P) now) limit)"

definition pg_delete_expired_jobs :: "'p postgres_storage \<Rightarrow> time \<Rightarrow> ('p database, 'e, storage_error + nat) act" where
  "pg_delete_expired_jobs P now =
     query ''Failed to delete expired jobs''
       (sql_delete_expired (driver P) (table_name P) (pd_bind_time (driver P) now))"

section \<open>Workers\<close>

definition update_processing_to_enqueued ::
  "'p postgres_storage \<Rightarrow> sqlx_error + ('p job_row \<Rightarrow> sqlx_error + bool) \<Rightarrow> string
     \<Rightarrow> ('p database, 'e, storage_error + nat) act" where
  "update_processing_to_enqueued P where_filter op_message =
     query op_message (sql_processing_to_enqueued (driver P) (table_name P) where_filter)"

definition pg_requeue_stranded_jobs :: "'p postgres_storage \<Rightarrow> time \<Rightarrow> ('p database, 'e, storage_error + nat) act" where
  "pg_requeue_stranded_jobs P stale_before =
     update_processing_to_enqueued P (Inr (\<lambda>r.
       case pd_json_text (driver P) ''Processing'' ''started_at'' (rw_state_data r) of
         None \<Rightarrow> Inr False
       | Some txt \<Rightarrow>
           tryE (pd_timestamptz (driver P) txt) (\<lambda>t. Inr (t < pd_bind_time (driver P) stale_before))))
     ''Failed to requeue stranded jobs''"

definition pg_fetch_and_lock_job ::
  "'p postgres_storage \<Rightarrow> string \<Rightarrow> string list option \<Rightarrow> ('p database, 'e, storage_error + 'p job option) act" where
  "pg_fetch_and_lock_job P wid queues = do {
     now \<leftarrow> utc_now;
     let processing_state = Processing now wid ''postgres-storage'';
     bindE (ret (job_state_to_data P processing_state)) (\<lambda>data.
     bindE (query ''Failed to fetch and lock job''
       (sql_fetch_and_lock (driver P) (table_name P) (job_state_to_name processing_state) data queues)) (\<lambda>row.
     ret (optE (row_to_job P) row))) }"

definition pg_try_acquire_job_lock ::
  "'p postgres_storage \<Rightarrow> string \<Rightarrow> string \<Rightarrow> u64 \<Rightarrow> ('p database, 'e, storage_error + bool) act" where
  "pg_try_acquire_job_lock P i wid secs =
     bindE (ret (parse_job_id P i)) (\<lambda>u.
     query ''Failed to acquire job lock'' (sql_acquire_job_lock (driver P) u wid (ucast secs)))"

definition pg_release_job_lock ::
  "'p postgres_storage \<Rightarrow> string \<Rightarrow> string \<Rightarrow> ('p database, 'e, storage_error + bool) act" where
  "pg_release_job_lock P i wid =
     bindE (ret (parse_job_id P i)) (\<lambda>u.
     query ''Failed to release job lock'' (sql_release_job_lock (driver P) u wid))"

fun pg_fetch_up_to ::
  "'p postgres_storage \<Rightarrow> string \<Rightarrow> string list option \<Rightarrow> nat
     \<Rightarrow> ('p database, 'e, storage_error + 'p job list) act" where
  "pg_fetch_up_to P wid queues 0 = ret (Inr [])"
| "pg_fetch_up_to P wid queues (Suc n) =
     bindE (pg_fetch_and_lock_job P wid queues) (\<lambda>x.
     case x of
       None \<Rightarrow> ret (Inr [])
     | Some j \<Rightarrow> bindE (pg_fetch_up_to P wid queues n) (\<lambda>js. ret (Inr (j # js))))"

definition pg_fetch_available_jobs_atomic ::
  "'p postgres_storage \<Rightarrow> string \<Rightarrow> nat option \<Rightarrow> string list option
     \<Rightarrow> ('p database, 'e, storage_error + 'p job list) act" where
  "pg_fetch_available_jobs_atomic P wid limit queues =
     pg_fetch_up_to P wid queues (min (case limit of None \<Rightarrow> 10 | Some n \<Rightarrow> n) 100)"

section \<open>Recurring templates\<close>

definition bound_recurring :: "'p postgres_storage \<Rightarrow> 'p recurring_job \<Rightarrow> 'p recurring_row" where
  "bound_recurring P r =
     \<lparr>rr_id = rj_id r, rr_cron = rj_cron r, rr_method = rj_method r, rr_payload = rj_payload r, rr_queue = rj_queue r,
      rr_next_run_at = pd_bind_time (driver P) (rj_next_run_at r),
      rr_last_run_at = map_option (pd_bind_time (driver P)) (rj_last_run_at r),
      rr_created_at = pd_bind_time (driver P) (rj_created_at r),
      rr_updated_at = pd_bind_time (driver P) (rj_updated_at r), rr_enabled = rj_enabled r\<rparr>"

definition pg_upsert_recurring_job ::
  "'p postgres_storage \<Rightarrow> 'p recurring_job \<Rightarrow> ('p database, 'e, storage_error + unit) act" where
  "pg_upsert_recurring_job P r =
     query ''Failed to upsert recurring job''
       (sql_upsert_recurring (driver P) (recurring_table_name P) (bound_recurring P r))"

definition pg_remove_recurring_job :: "'p postgres_storage \<Rightarrow> string \<Rightarrow> ('p database, 'e, storage_error + bool) act" where
  "pg_remove_recurring_job P i =
     bindE (query ''Failed to delete recurring job'' (sql_remove_recurring (driver P) (recurring_table_name P) i))
       (\<lambda>affected. ret (Inr (affected > 0)))"

definition pg_list_recurring_jobs :: "'p postgres_storage \<Rightarrow> ('p database, 'e, storage_error + 'p recurring_job list) act" where
  "pg_list_recurring_jobs P =
     bindE (query ''Failed to list recurring jobs'' (sql_list_recurring (driver P) (recurring_table_name P)))
       (\<lambda>rows. ret (Inr (map row_to_recurring rows)))"

definition pg_fetch_due_recurring_jobs ::
  "'p postgres_storage \<Rightarrow> time \<Rightarrow> nat \<Rightarrow> ('p database, 'e, storage_error + 'p recurring_job list) act" where
  "pg_fetch_due_recurring_jobs P now limit =
     bindE (query ''Failed to fetch due recurring jobs''
       (sql_fetch_due_recurring (driver P) (recurring_table_name P) (pd_bind_time (driver P) now) limit)) (\<lambda>rows.
     ret (Inr (map (\<lambda>row. (row_to_recurring row)\<lparr>rj_next_run_at := now\<rparr>) rows)))"

section \<open>Servers\<close>

definition bound_server :: "'p postgres_storage \<Rightarrow> server_info \<Rightarrow> server_row" where
  "bound_server P v =
     \<lparr>sr_server_id = si_server_id v, sr_server_name = si_server_name v,
      sr_started_at = pd_bind_time (driver P) (si_started_at v),
      sr_last_heartbeat = pd_bind_time (driver P) (si_last_heartbeat v),
      sr_worker_count = si_worker_count v, sr_queues = si_queues v\<rparr>"

definition pg_register_server :: "'p postgres_storage \<Rightarrow> server_info \<Rightarrow> ('p database, 'e, storage_error + unit) act" where
  "pg_register_server P v =
     query ''Failed to register server'' (sql_register_server (driver P) (servers_table_name P) (bound_server P v))"

definition pg_heartbeat_server ::
  "'p postgres_storage \<Rightarrow> string \<Rightarrow> time \<Rightarrow> ('p database, 'e, storage_error + bool) act" where
  "pg_heartbeat_server P i now =
     bindE (query ''Failed to heartbeat server''
       (sql_heartbeat_server (driver P) (servers_table_name P) i (pd_bind_time (driver P) now))) (\<lambda>affected.
     ret (Inr (affected > 0)))"

definition pg_deregister_server :: "'p postgres_storage \<Rightarrow> string \<Rightarrow> ('p database, 'e, storage_error + bool) act" where
  "pg_deregister_server P i =
     bindE (query ''Failed to deregister server'' (sql_deregister_server (driver P) (servers_table_name P) i))
       (\<lambda>affected. ret (Inr (affected > 0)))"

definition pg_list_dead_servers ::
  "'p postgres_storage \<Rightarrow> time \<Rightarrow> ('p database, 'e, storage_error + server_info list) act" where
  "pg_list_dead_servers P stale_before =
     bindE (query ''Failed to list dead servers''
       (sql_dead_servers (driver P) (servers_table_name P) (pd_bind_time (driver P) stale_before))) (\<lambda>rows.
     ret (Inr (map row_to_server_info rows)))"

definition pg_reclaim_jobs_from_server ::
  "'p postgres_storage \<Rightarrow> string \<Rightarrow> ('p database, 'e, storage_error + nat) act" where
  "pg_reclaim_jobs_from_server P sid =
     update_processing_to_enqueued P
       (tryE (pd_text (driver P) sid) (\<lambda>sid.
        Inr (\<lambda>r. Inr (pd_json_text (driver P) ''Processing'' ''server_name'' (rw_state_data r) = Some sid))))
     ''Failed to reclaim jobs from server''"

section \<open>Named locks\<close>

text \<open>\<^verbatim>\<open>Duration::as_secs_f64\<close>.\<close>

definition as_secs_f64 :: "nat \<Rightarrow> f64" where
  "as_secs_f64 ns =
     f64_add (f64_of_int (int (ns div 1000000000))) (f64_div (f64_of_int (int (ns mod 1000000000))) (Fin 1000000000))"

definition pg_try_acquire_lock ::
  "'p postgres_storage \<Rightarrow> string \<Rightarrow> string \<Rightarrow> nat \<Rightarrow> ('p database, 'e, storage_error + bool) act" where
  "pg_try_acquire_lock P resource owner ttl =
     bindE (query ''Failed to acquire lock''
       (sql_acquire_lock (driver P) (locks_table_name P) resource owner (as_secs_f64 ttl))) (\<lambda>row.
     ret (Inr (row \<noteq> None)))"

definition pg_release_lock :: "'p postgres_storage \<Rightarrow> string \<Rightarrow> string \<Rightarrow> ('p database, 'e, storage_error + bool) act" where
  "pg_release_lock P resource owner =
     bindE (query ''Failed to release lock'' (sql_release_lock (driver P) (locks_table_name P) resource owner))
       (\<lambda>affected. ret (Inr (affected > 0)))"

definition pg_cleanup_expired_named_locks :: "'p postgres_storage \<Rightarrow> time \<Rightarrow> ('p database, 'e, storage_error + nat) act" where
  "pg_cleanup_expired_named_locks P now =
     query ''Failed to clean up expired named locks''
       (sql_cleanup_locks (driver P) (locks_table_name P) (pd_bind_time (driver P) now))"

section \<open>The trait object\<close>

definition postgres_storage_api :: "'p postgres_storage \<Rightarrow> ('p, 'p database, 'e) storage" where
  "postgres_storage_api P =
     \<lparr>st_get = pg_get P, st_update = pg_update P, st_update_if_state = pg_update_if_state P, st_delete = pg_delete P,
      st_list = pg_list P, st_get_job_counts = pg_get_job_counts P,
      st_enqueue = pg_enqueue P, st_get_available_jobs = pg_get_available_jobs P,
      st_fetch_due_scheduled_jobs = pg_fetch_due_scheduled_jobs P, st_fetch_due_retry_jobs = pg_fetch_due_retry_jobs P,
      st_claim_due_scheduled_jobs = pg_claim_due_scheduled_jobs P, st_claim_due_retry_jobs = pg_claim_due_retry_jobs P,
      st_delete_expired_jobs = pg_delete_expired_jobs P,
      st_fetch_and_lock_job = pg_fetch_and_lock_job P, st_fetch_available_jobs_atomic = pg_fetch_available_jobs_atomic P,
      st_try_acquire_job_lock = pg_try_acquire_job_lock P, st_release_job_lock = pg_release_job_lock P,
      st_requeue_stranded_jobs = pg_requeue_stranded_jobs P,
      st_upsert_recurring_job = pg_upsert_recurring_job P, st_remove_recurring_job = pg_remove_recurring_job P,
      st_list_recurring_jobs = pg_list_recurring_jobs P, st_fetch_due_recurring_jobs = pg_fetch_due_recurring_jobs P,
      st_register_server = pg_register_server P, st_heartbeat_server = pg_heartbeat_server P,
      st_deregister_server = pg_deregister_server P, st_list_dead_servers = pg_list_dead_servers P,
      st_reclaim_jobs_from_server = pg_reclaim_jobs_from_server P,
      st_try_acquire_lock = pg_try_acquire_lock P, st_release_lock = pg_release_lock P,
      st_cleanup_expired_named_locks = pg_cleanup_expired_named_locks P\<rparr>"

lemma postgres_storage_api_simps [simp]:
  "st_get (postgres_storage_api P) = pg_get P" "st_update (postgres_storage_api P) = pg_update P"
  "st_update_if_state (postgres_storage_api P) = pg_update_if_state P"
  "st_enqueue (postgres_storage_api P) = pg_enqueue P"
  "st_fetch_and_lock_job (postgres_storage_api P) = pg_fetch_and_lock_job P"
  by (simp_all add: postgres_storage_api_def)

end
