(* ===== verification/Pg_Contract.thy ===== *)
theory Pg_Contract
  imports Pg_Storage Processor_Contract
begin

text \<open>
  What the methods of the PostgreSQL backend do to the table of jobs. The locale \<open>pg_laws\<close> is the documented
  behaviour of the crates and conversions in \<open>pg_driver\<close>; under it every statement on a table whose rows all denote jobs
  leaves such a table, on any connection. The backend satisfies \<open>job_updates\<close> when no answer is lost.
\<close>

section \<open>Rows that denote jobs\<close>

text \<open>A state as it is stored: sent by the crate, or built by the server.\<close>

definition stored_state :: "'p postgres_storage \<Rightarrow> job_state \<Rightarrow> 'p \<Rightarrow> bool" where
  "stored_state P st v \<longleftrightarrow>
     (\<exists>v0. pd_state_to (driver P) st = Inr v0 \<and> pd_jsonb (driver P) v0 = Inr v)
     \<or> (\<exists>t q. st = Enqueued (of_pg t) q \<and> v = pd_enqueued (driver P) t q)"

definition row_ok :: "'p postgres_storage \<Rightarrow> 'p job_row \<Rightarrow> bool" where
  "row_ok P r \<longleftrightarrow>
     (\<exists>st. rw_state_name r = job_state_to_name st \<and> stored_state P st (rw_state_data r))
     \<and> (\<forall>v. rw_metadata r = Some v \<longrightarrow> (\<exists>m. pd_metadata_of (driver P) v = Inr m))"

definition table_ok :: "'p postgres_storage \<Rightarrow> 'p job_table \<Rightarrow> bool" where
  "table_ok P t \<longleftrightarrow> hm_wf t \<and> (\<forall>u r. hm_get t u = Some r \<longrightarrow> rw_id r = u \<and> row_ok P r)"

definition pg_inv :: "'p postgres_storage \<Rightarrow> 'p database \<Rightarrow> bool" where
  "pg_inv P d \<longleftrightarrow> (\<exists>t. hm_get (db_jobs d) (table_name P) = Some t \<and> table_ok P t)"

definition pg_rows :: "'p postgres_storage \<Rightarrow> 'p database \<Rightarrow> 'p job_table" where
  "pg_rows P d = (case hm_get (db_jobs d) (table_name P) of None \<Rightarrow> [] | Some t \<Rightarrow> t)"

definition job_of :: "'p postgres_storage \<Rightarrow> 'p job_row \<Rightarrow> 'p job option" where
  "job_of P r = (case row_to_job P r of Inl _ \<Rightarrow> None | Inr j \<Rightarrow> Some j)"

lemma job_of_Some [simp]: "job_of P r = Some j \<longleftrightarrow> row_to_job P r = Inr j"
  by (auto simp: job_of_def split: sum.splits)

text \<open>The jobs of a table, under the texts of their ids.\<close>

definition jobs_in :: "'p postgres_storage \<Rightarrow> 'p job_table \<Rightarrow> 'p jobs" where
  "jobs_in P t i =
     (case pd_parse_uuid (driver P) i of
        Inl _ \<Rightarrow> None
      | Inr u \<Rightarrow> if pd_show_uuid (driver P) u = i then Option.bind (hm_get t u) (job_of P) else None)"

abbreviation pg_jobs :: "'p postgres_storage \<Rightarrow> 'p database \<Rightarrow> 'p jobs" where
  "pg_jobs P d \<equiv> jobs_in P (pg_rows P d)"

definition canonical :: "'p postgres_storage \<Rightarrow> string \<Rightarrow> bool" where
  "canonical P i \<longleftrightarrow> (\<exists>u. pd_show_uuid (driver P) u = i)"

text \<open>No answer is lost after its statement was executed.\<close>

definition reliable :: "'p database \<Rightarrow> bool" where
  "reliable d \<longleftrightarrow> (\<forall>l \<in> set (db_links d). \<forall>e. l \<noteq> Unanswered e)"

text \<open>What the table keeps of a job: the values that fit, read back.\<close>

definition stored_row :: "'p postgres_storage \<Rightarrow> 'p job \<Rightarrow> 'p job_row option" where
  "stored_row P j =
     (case tryE (job_to_row_values P j) (\<lambda>vals. tryE (metadata_value P j) (\<lambda>md. tryE (parse_job_id P (job_id j)) (\<lambda>u.
        Inr (bound_row P u vals md j)))) of
        Inl _ \<Rightarrow> None
      | Inr c \<Rightarrow>
          (case tryE (received_columns (driver P) c) (fitted_columns (driver P)) of Inl _ \<Rightarrow> None | Inr c \<Rightarrow> Some c))"

definition as_stored :: "'p postgres_storage \<Rightarrow> 'p job \<Rightarrow> 'p job" where
  "as_stored P j = (case Option.bind (stored_row P j) (job_of P) of None \<Rightarrow> j | Some j' \<Rightarrow> j')"

definition pg_kept :: "'p postgres_storage \<Rightarrow> 'p job \<Rightarrow> 'p job \<Rightarrow> 'p job" where
  "pg_kept P j0 j = (as_stored P j)\<lparr>job_created_at := job_created_at j0\<rparr>"

section \<open>The laws of the driver\<close>

text \<open>\<open>read_time\<close> is the microsecond at which the server reads a time that the crate has written with nanoseconds.\<close>

locale pg_laws =
  fixes P :: "'p postgres_storage" and read_time :: "time \<Rightarrow> pg_time"
  assumes parse_show: "pd_parse_uuid (driver P) (pd_show_uuid (driver P) u) = Inr u"
    and state_back: "pd_state_to (driver P) st = Inr v \<Longrightarrow> pd_jsonb (driver P) v = Inr v' \<Longrightarrow>
      pd_state_of (driver P) v' = Inr st"
    and enqueued_back: "pd_state_of (driver P) (pd_enqueued (driver P) t q) = Inr (Enqueued (of_pg t) q)"
    and metadata_back: "pd_metadata_to (driver P) m = Inr v \<Longrightarrow> pd_jsonb (driver P) v = Inr v' \<Longrightarrow>
      \<exists>m'. pd_metadata_of (driver P) v' = Inr m' \<and> hm_get m' = hm_get m"
    and bind_whole: "pd_bind_time (driver P) (of_pg t) = t"
    and bind_near: "\<bar>of_pg (pd_bind_time (driver P) x) - x\<bar> < 1000"
    and read_near: "\<bar>of_pg (read_time x) - x\<bar> < 1000"
    and text_same: "pd_text (driver P) s = Inr s' \<Longrightarrow> s' = s"
    and text_arrives: "CHR 0x00 \<notin> set s \<Longrightarrow> pd_text (driver P) s = Inr s"
    and varchar_fits: "length s \<le> n \<Longrightarrow> pd_varchar (driver P) n s = Inr s"
    and scheduled_text: "pd_state_to (driver P) (Scheduled t0 t why) = Inr v \<Longrightarrow> pd_jsonb (driver P) v = Inr v' \<Longrightarrow>
      \<exists>x. pd_json_text (driver P) ''Scheduled'' ''enqueue_at'' v' = Some x \<and> pd_timestamp (driver P) x = Inr (read_time t)"
    and retry_text: "pd_state_to (driver P) (AwaitingRetry t0 t err) = Inr v \<Longrightarrow> pd_jsonb (driver P) v = Inr v' \<Longrightarrow>
      \<exists>x. pd_json_text (driver P) ''AwaitingRetry'' ''retry_at'' v' = Some x \<and> pd_timestamp (driver P) x = Inr (read_time t)"
    and started_text: "pd_state_to (driver P) (Processing t wid srv) = Inr v \<Longrightarrow> pd_jsonb (driver P) v = Inr v' \<Longrightarrow>
      \<exists>x. pd_json_text (driver P) ''Processing'' ''started_at'' v' = Some x \<and> pd_timestamptz (driver P) x = Inr (read_time t)"
    and server_text: "pd_state_to (driver P) (Processing t wid srv) = Inr v \<Longrightarrow> pd_jsonb (driver P) v = Inr v' \<Longrightarrow>
      pd_json_text (driver P) ''Processing'' ''server_name'' v' = Some srv"
begin

lemma show_inj: "pd_show_uuid (driver P) u = pd_show_uuid (driver P) v \<longleftrightarrow> u = v"
  using parse_show by (metis Inr_inject)

lemma jobs_in_show [simp]: "jobs_in P t (pd_show_uuid (driver P) u) = Option.bind (hm_get t u) (job_of P)"
  by (simp add: jobs_in_def parse_show)

lemma canonicalE:
  assumes "canonical P i"
  obtains u where "i = pd_show_uuid (driver P) u" "pd_parse_uuid (driver P) i = Inr u"
  using assms parse_show by (auto simp: canonical_def)

lemma jobs_in_SomeE:
  assumes "jobs_in P t i = Some j"
  obtains u r where "i = pd_show_uuid (driver P) u" "hm_get t u = Some r" "row_to_job P r = Inr j"
  using assms
  by (auto simp: jobs_in_def bind_eq_Some_conv split: sum.splits if_splits)

lemma stored_state_back: "stored_state P st v \<Longrightarrow> pd_state_of (driver P) v = Inr st"
  by (auto simp: stored_state_def intro: state_back enqueued_back)

lemma row_to_job_ok:
  assumes "row_ok P r"
  obtains j where "row_to_job P r = Inr j" "job_id j = pd_show_uuid (driver P) (rw_id r)"
    "rw_state_name r = job_state_to_name (job_state j)" "stored_state P (job_state j) (rw_state_data r)"
proof -
  from assms obtain st where st: "rw_state_name r = job_state_to_name st" "stored_state P st (rw_state_data r)"
    and md: "\<forall>v. rw_metadata r = Some v \<longrightarrow> (\<exists>m. pd_metadata_of (driver P) v = Inr m)"
    by (auto simp: row_ok_def)
  from stored_state_back [OF st(2)] md
  have "\<exists>j. row_to_job P r = Inr j \<and> job_id j = pd_show_uuid (driver P) (rw_id r) \<and> job_state j = st"
    by (cases "rw_metadata r") (auto simp: row_to_job_def data_to_job_state_def)
  with st that show ?thesis by blast
qed

lemma keyed_jobs_in: "table_ok P t \<Longrightarrow> keyed (jobs_in P t)"
  unfolding keyed_def
proof (intro allI impI, elim jobs_in_SomeE)
  fix i j u r
  assume t: "table_ok P t" and i: "i = pd_show_uuid (driver P) u" and r: "hm_get t u = Some r" "row_to_job P r = Inr j"
  then have "row_ok P r" "rw_id r = u" by (auto simp: table_ok_def)
  with r(2) i show "job_id j = i" by (metis row_to_job_ok Inr_inject)
qed

lemma table_ok_insert:
  assumes "table_ok P t" and "row_ok P r" and "rw_id r = u"
  shows "table_ok P (hm_insert u r t)"
  using assms by (simp add: table_ok_def)

lemma jobs_in_insert:
  assumes "row_ok P r"
  shows "jobs_in P (hm_insert u r t) = (jobs_in P t)(pd_show_uuid (driver P) u := job_of P r)"
proof
  fix i
  show "jobs_in P (hm_insert u r t) i = ((jobs_in P t)(pd_show_uuid (driver P) u := job_of P r)) i"
    by (cases "i = pd_show_uuid (driver P) u")
       (auto simp: jobs_in_def parse_show split: sum.split)
qed

lemma table_ok_remove: "table_ok P t \<Longrightarrow> table_ok P (hm_remove u t)"
  by (simp add: table_ok_def)

lemma jobs_in_remove: "jobs_in P (hm_remove u t) = (jobs_in P t)(pd_show_uuid (driver P) u := None)"
proof
  fix i
  show "jobs_in P (hm_remove u t) i = ((jobs_in P t)(pd_show_uuid (driver P) u := None)) i"
    by (cases "i = pd_show_uuid (driver P) u") (auto simp: jobs_in_def parse_show split: sum.split)
qed

end

section \<open>Statements on the table of jobs\<close>

text \<open>What a method does to the table of jobs, when its answer \<open>r\<close> comes with the new table in the relation \<open>R\<close>: on
  a reliable connection a method that fails has changed nothing.\<close>

definition effect ::
  "'p postgres_storage \<Rightarrow> ('a \<Rightarrow> 'p job_table \<Rightarrow> bool) \<Rightarrow> ('p database, 'e) world
     \<Rightarrow> storage_error + 'a \<Rightarrow> ('p database, 'e) world \<Rightarrow> bool" where
  "effect P R w r w' \<longleftrightarrow>
     env_kept w w' \<and> pg_inv P (store w')
     \<and> (\<forall>a. r = Inr a \<longrightarrow> R a (pg_rows P (store w')))
     \<and> (pg_rows P (store w') = pg_rows P (store w) \<or> (\<exists>a. R a (pg_rows P (store w'))))
     \<and> (reliable (store w) \<longrightarrow> reliable (store w')
          \<and> (\<forall>e. r = Inl e \<longrightarrow> pg_rows P (store w') = pg_rows P (store w)))"

definition on_jobs ::
  "'p postgres_storage \<Rightarrow> (nat \<Rightarrow> 'p database \<Rightarrow> 'p job_table \<Rightarrow> sqlx_error + 'a \<times> 'p job_table) \<Rightarrow> ('p, 'a) statement" where
  "on_jobs P f n d = on_table jobs_lens (driver P) (table_name P) (f n d) d"

lemma bumped_simps [simp]:
  "db_jobs (bumped d) = db_jobs d" "db_functions (bumped d) = db_functions d" "db_schemas (bumped d) = db_schemas d"
  "db_rank (bumped d) = db_rank d" "db_now (bumped d) = db_now d" "db_busy (bumped d) = db_busy d"
  "db_recurring (bumped d) = db_recurring d" "db_servers (bumped d) = db_servers d" "db_locks (bumped d) = db_locks d"
  "db_text_rank (bumped d) = db_text_rank d" "db_text_busy (bumped d) = db_text_busy d"
  "db_links (bumped d) = tl (db_links d)" "db_count (bumped d) = Suc (db_count d)"
  "pg_rows P (bumped d) = pg_rows P d" "pg_inv P (bumped d) = pg_inv P d"
  by (simp_all add: bumped_def pg_rows_def pg_inv_def)

lemma reliable_bumped [simp]: "reliable d \<Longrightarrow> reliable (bumped d)"
  by (cases "db_links d") (auto simp: reliable_def)

lemma table_views [simp]:
  "pg_rows P (db_jobs_update (hm_insert (table_name P) t) d) = t"
  "pg_inv P (db_jobs_update (hm_insert (table_name P) t) d) = table_ok P t"
  "reliable (db_jobs_update f d) = reliable d"
  by (simp_all add: pg_rows_def pg_inv_def reliable_def)

lemma on_jobs_Inr:
  "pg_inv P d \<Longrightarrow> on_jobs P f n (bumped d) = Inr (a, d') \<longleftrightarrow>
     (\<exists>t'. f n (bumped d) (pg_rows P d) = Inr (a, t') \<and> d' = db_jobs_update (hm_insert (table_name P) t') (bumped d))"
  by (auto simp: on_jobs_def on_table_def pg_inv_def pg_rows_def split: option.splits prod.splits)

lemma table_of_inv: "pg_inv P d \<Longrightarrow> table_ok P (pg_rows P d)"
  by (auto simp: pg_inv_def pg_rows_def)

lemma reliable_head: "reliable d \<Longrightarrow> db_links d \<noteq> Unanswered e # ls"
  by (auto simp: reliable_def)

text \<open>One statement.\<close>

lemma wp_on_jobs:
  fixes w :: "('p database, 'e) world"
  assumes inv: "pg_inv P (store w)"
    and step: "\<And>a t'. f (db_count (store w)) (bumped (store w)) (pg_rows P (store w)) = Inr (a, t') \<Longrightarrow>
      table_ok P t' \<and> R a t'"
  shows "wp (run_statement (on_jobs P f)) (\<lambda>r w'. effect P R w (map_sum g id r) w'
    \<and> (\<forall>e. r = Inl e \<and> is_schema_error e \<longrightarrow> pg_rows P (store w') = pg_rows P (store w))) w"
proof (rule wp_statement)
  fix a d'
  assume "on_jobs P f (db_count (store w)) (bumped (store w)) = Inr (a, d')"
  then obtain t' where t': "f (db_count (store w)) (bumped (store w)) (pg_rows P (store w)) = Inr (a, t')"
    and d': "d' = db_jobs_update (hm_insert (table_name P) t') (bumped (store w))"
    using inv by (auto simp: on_jobs_Inr)
  from step [OF t'] show "effect P R w (map_sum g id (Inr a)) (w\<lparr>store := d'\<rparr>) \<and>
      (\<forall>e. Inr a = Inl e \<and> is_schema_error e \<longrightarrow> pg_rows P (store (w\<lparr>store := d'\<rparr>)) = pg_rows P (store w))"
    by (auto simp: effect_def d')
  show "effect P R w (map_sum g id (Inl (SqlxClient e))) (w\<lparr>store := d'\<rparr>) \<and>
      (\<forall>x. Inl (SqlxClient e) = Inl x \<and> is_schema_error x \<longrightarrow> pg_rows P (store (w\<lparr>store := d'\<rparr>)) = pg_rows P (store w))"
    if "db_links (store w) = Unanswered e # ls" for e ls
    using step [OF t'] that reliable_head by (auto simp: effect_def d')
qed (simp add: effect_def inv)

lemma effect_query:
  fixes w :: "('p database, 'e) world"
  assumes "pg_inv P (store w)"
    and "\<And>a t'. f (db_count (store w)) (bumped (store w)) (pg_rows P (store w)) = Inr (a, t') \<Longrightarrow>
      table_ok P t' \<and> R a t'"
  shows "wp (query msg (on_jobs P f)) (effect P R w) w"
proof -
  let ?g = "\<lambda>e. SE_OperationFailed (msg @ '': '' @ sqlx_text e) (Some (sqlx_text e))"
  have "wp (run_statement (on_jobs P f)) (\<lambda>r w'. effect P R w (map_sum ?g id r) w'
      \<and> (\<forall>e. r = Inl e \<and> is_schema_error e \<longrightarrow> pg_rows P (store w') = pg_rows P (store w))) w"
    by (rule wp_on_jobs) (fact assms)+
  then have "wp (run_statement (on_jobs P f))
      (\<lambda>r w'. effect P R w (case r of Inl e \<Rightarrow> Inl (?g e) | Inr v \<Rightarrow> Inr v) w') w"
    by (rule wp_mono) (auto split: sum.split)
  then show ?thesis by (simp add: query_def wp_simps)
qed

lemma effect_error: "pg_inv P (store w) \<Longrightarrow> effect P R w (Inl e) w"
  by (simp add: effect_def)

lemma effect_lift:
  assumes "pg_inv P (store w)" and "\<And>v. x = Inr v \<Longrightarrow> wp (f v) (effect P R w) w"
  shows "wp (bindE (ret x) f) (effect P R w) w"
  using assms by (cases x) (simp_all add: wp_simps effect_error)

text \<open>What a method makes of the answer; an answer that becomes an error has left the table as it was.\<close>

lemma effect_then:
  assumes "wp m (effect P R w) w"
    and "\<And>a t'. R a t' \<Longrightarrow> table_ok P t' \<Longrightarrow> case g a of Inl e \<Rightarrow> t' = pg_rows P (store w) | Inr b \<Rightarrow> R' b t'"
  shows "wp (bindE m (\<lambda>a. ret (g a))) (effect P R' w) w"
  unfolding wp_bindE
proof (rule wp_mono [OF assms(1)])
  fix r w'
  assume e: "effect P R w r w'"
  have ok: "table_ok P (pg_rows P (store w'))" using e by (simp add: effect_def table_of_inv)
  have R': "pg_rows P (store w') = pg_rows P (store w) \<or> (\<exists>b. R' b (pg_rows P (store w')))"
  proof (cases "pg_rows P (store w') = pg_rows P (store w)")
    case False
    with e obtain a where "R a (pg_rows P (store w'))" by (auto simp: effect_def)
    from assms(2) [OF this ok] show ?thesis by (auto split: sum.splits)
  qed simp
  show "(case r of Inl x \<Rightarrow> effect P R' w (Inl x) | Inr v \<Rightarrow> wp (ret (g v)) (effect P R' w)) w'"
  proof (cases r)
    case (Inl x)
    with e R' show ?thesis by (simp add: effect_def)
  next
    case (Inr v)
    with e have "R v (pg_rows P (store w'))" by (simp add: effect_def)
    from assms(2) [OF this ok] Inr e R' show ?thesis
      by (auto simp: effect_def wp_simps split: sum.splits)
  qed
qed

lemma effect_after:
  assumes "effect P R w1 r w'" and "env_kept w w1" and "pg_rows P (store w1) = pg_rows P (store w)"
    and "reliable (store w) \<longrightarrow> reliable (store w1)"
  shows "effect P R w r w'"
  using assms env_kept_trans by (auto simp: effect_def)

section \<open>Migration\<close>

lemma create_table_get [simp]:
  "hm_get (create_table name ts) k =
     (if k = name \<and> hm_get ts name = None then Some [] else hm_get ts k)"
  by (auto simp: create_table_def)

lemma in_tl: "x \<in> set (tl xs) \<Longrightarrow> x \<in> set xs"
  by (cases xs) auto

lemma migrate_keeps:
  assumes "pg_inv P (store w)"
  shows "wp (pg_migrate P) (\<lambda>r w'. env_kept w w' \<and> pg_inv P (store w') \<and> pg_rows P (store w') = pg_rows P (store w)
    \<and> (reliable (store w) \<longrightarrow> reliable (store w'))) w"
proof -
  have "wp (run_statement install_sql) (\<lambda>r w'. env_kept w w' \<and> pg_inv P (store w') \<and> pg_rows P (store w') = pg_rows P (store w)
    \<and> (reliable (store w) \<longrightarrow> reliable (store w'))) w"
    using assms by (intro wp_statement) (auto simp: install_sql_def pg_inv_def pg_rows_def reliable_def dest!: in_tl)
  then show ?thesis
    unfolding pg_migrate_def wp_simps by (rule wp_mono) simp
qed

lemma effect_handle:
  fixes w :: "('p database, 'e) world"
  assumes inv: "pg_inv P (store w)"
    and step: "\<And>n d a t'. f n d (pg_rows P (store w)) = Inr (a, t') \<Longrightarrow> table_ok P t' \<and> R a t'"
  shows "wp (handle_schema_error P (on_jobs P f) name) (effect P R w) w"
proof -
  have first: "wp (run_statement (on_jobs P f)) (\<lambda>r w'. effect P R w (map_sum (\<lambda>_. undefined) id r) w'
      \<and> (\<forall>e. r = Inl e \<and> is_schema_error e \<longrightarrow> pg_rows P (store w') = pg_rows P (store w))) w"
    by (rule wp_on_jobs [OF inv step])
  have again: "wp (bindE (pg_migrate P) (\<lambda>_. query msg (on_jobs P f))) (effect P R w) w1"
    if "env_kept w w1" "pg_inv P (store w1)" "pg_rows P (store w1) = pg_rows P (store w)"
      "reliable (store w) \<longrightarrow> reliable (store w1)" for msg and w1 :: "('p database, 'e) world"
    unfolding wp_bindE
  proof (rule wp_mono [OF migrate_keeps [OF that(2)]], goal_cases)
    case (1 r w2)
    then have w2: "env_kept w w2" "pg_inv P (store w2)" "pg_rows P (store w2) = pg_rows P (store w)"
      "reliable (store w) \<longrightarrow> reliable (store w2)"
      using that env_kept_trans by auto
    have "wp (query msg (on_jobs P f)) (effect P R w2) w2"
      by (rule effect_query [OF w2(2)], rule step) (use w2(3) in simp)
    then have "wp (query msg (on_jobs P f)) (effect P R w) w2"
      by (rule wp_mono) (rule effect_after [OF _ w2(1, 3, 4)])
    with w2 show ?case by (simp add: effect_def split: sum.split)
  qed
  show ?thesis
    unfolding handle_schema_error_def wp_bind
  proof (rule wp_mono [OF first], goal_cases)
    case (1 r w1)
    then show ?case
      using again [of w1] by (cases r) (simp_all add: wp_return effect_def)
  qed
qed

section \<open>Single jobs\<close>

text \<open>The statements as functions of the table.\<close>

lemma single_statements:
  "sql_select_job (driver P) (table_name P) u = on_jobs P (\<lambda>n d t. Inr (hm_get t u, t))"
  "sql_job_present (driver P) (table_name P) u = on_jobs P (\<lambda>n d t. Inr (hm_contains t u, t))"
  "sql_update_job (driver P) (table_name P) u expected c = on_jobs P (\<lambda>n d t.
     tryE (received_columns (driver P) c) (\<lambda>c.
       case hm_get t u of
         None \<Rightarrow> Inr (0, t)
       | Some r \<Rightarrow>
           if expected \<noteq> None \<and> expected \<noteq> Some (rw_state_name r) then Inr (0, t)
           else tryE (fitted_columns (driver P) c) (\<lambda>c. Inr (1, hm_insert u (set_columns c r) t))))"
  "sql_insert_job (driver P) (table_name P) c = on_jobs P (\<lambda>n d t.
     tryE (received_columns (driver P) c) (\<lambda>c.
     tryE (fitted_columns (driver P) c) (\<lambda>c.
       if hm_contains t (rw_id c) then Inl (pg_error (driver P) ''23505'') else Inr ((), hm_insert (rw_id c) c t))))"
  "sql_delete_job (driver P) (table_name P) u =
     on_jobs P (\<lambda>n d t. Inr (if hm_contains t u then 1 else 0, hm_remove u t))"
  by (simp_all add: on_jobs_def fun_eq_iff sql_select_job_def sql_job_present_def sql_update_job_def sql_insert_job_def
      sql_delete_job_def)

lemma stored_rowI:
  assumes "job_to_row_values P j = Inr vals" and "metadata_value P j = Inr md" and "parse_job_id P (job_id j) = Inr u"
    and "received_columns (driver P) (bound_row P u vals md j) = Inr c1" and "fitted_columns (driver P) c1 = Inr c"
  shows "stored_row P j = Some c"
  using assms by (simp add: stored_row_def)

lemma parse_job_id_Inr [simp]: "parse_job_id P i = Inr u \<longleftrightarrow> pd_parse_uuid (driver P) i = Inr u"
  by (simp add: parse_job_id_def split: sum.split)

lemma row_to_job_set:
  "row_to_job P c = Inr j \<Longrightarrow> row_to_job P (set_columns c r) =
     Inr (j\<lparr>job_id := pd_show_uuid (driver P) (rw_id r), job_created_at := of_pg (rw_created_at r)\<rparr>)"
  by (auto simp: row_to_job_def set_columns_def)

lemma row_to_job_fields:
  assumes "row_to_job P r = Inr j"
  shows "job_id j = pd_show_uuid (driver P) (rw_id r)" "job_created_at j = of_pg (rw_created_at r)"
    "job_queue j = rw_queue_name r" "job_priority j = rw_priority r"
    "job_expires_at j = map_option of_pg (rw_expires_at r)"
  using assms by (auto simp: row_to_job_def)

context pg_laws
begin

lemma stored_rowD:
  assumes "stored_row P j = Some c"
  shows "row_ok P c" "pd_parse_uuid (driver P) (job_id j) = Inr (rw_id c)" "job_of P c = Some (as_stored P j)"
    "rw_state_name c = job_state_to_name (job_state j)"
proof -
  obtain vals md u c1 where v: "job_to_row_values P j = Inr vals" "metadata_value P j = Inr md"
    "parse_job_id P (job_id j) = Inr u" "received_columns (driver P) (bound_row P u vals md j) = Inr c1"
    "fitted_columns (driver P) c1 = Inr c"
    using assms by (auto simp: stored_row_def split: sum.splits)
  obtain data where data: "pd_state_to (driver P) (job_state j) = Inr data"
    "vals = (job_state_to_name (job_state j), data, job_payload j)"
    using v(1) by (auto simp: job_to_row_values_def job_state_to_data_def split: sum.splits)
  from v(4, 5) data(2) obtain data' where c: "rw_id c = u" "rw_state_name c = job_state_to_name (job_state j)"
    "pd_jsonb (driver P) data = Inr data'" "rw_state_data c = data'" "optE (pd_jsonb (driver P)) md = Inr (rw_metadata c)"
    by (auto simp: received_columns_def fitted_columns_def bound_row_def)
  have "\<exists>m. pd_metadata_of (driver P) x = Inr m" if "rw_metadata c = Some x" for x
    using that c(5) v(2) by (cases md) (auto simp: metadata_value_def split: sum.splits if_splits dest: metadata_back)
  with c data(1) show row: "row_ok P c" by (auto simp: row_ok_def stored_state_def)
  show "pd_parse_uuid (driver P) (job_id j) = Inr (rw_id c)" using v(3) c(1) by simp
  from row obtain j' where "row_to_job P c = Inr j'" by (rule row_to_job_ok)
  then show "job_of P c = Some (as_stored P j)" by (simp add: as_stored_def assms job_of_def)
  show "rw_state_name c = job_state_to_name (job_state j)" by (fact c(2))
qed

lemma row_ok_set [simp]: "row_ok P (set_columns c r) = row_ok P c"
  by (simp add: row_ok_def set_columns_def)

lemma kept_row:
  assumes "stored_row P j = Some c" and "rw_id r = rw_id c" and "row_to_job P r = Inr j0"
  shows "job_of P (set_columns c r) = Some (pg_kept P j0 j)"
proof -
  from stored_rowD [OF assms(1)] have c: "row_to_job P c = Inr (as_stored P j)" by simp
  then have "job_id (as_stored P j) = pd_show_uuid (driver P) (rw_id r)"
    using assms(2) by (simp add: row_to_job_fields)
  then show ?thesis
    using row_to_job_set [OF c, of r] row_to_job_fields(2) [OF assms(3)] by (simp add: pg_kept_def)
qed

text \<open>An update of one row: whether the row is there and in the expected state.\<close>

definition put_job :: "'p job \<Rightarrow> string option \<Rightarrow> 'p job_table \<Rightarrow> nat \<Rightarrow> 'p job_table \<Rightarrow> bool" where
  "put_job j expected t a t' \<longleftrightarrow>
     (case jobs_in P t (job_id j) of
        None \<Rightarrow> a = 0 \<and> t' = t
      | Some j0 \<Rightarrow>
          if expected \<noteq> None \<and> expected \<noteq> Some (job_state_to_name (job_state j0)) then a = 0 \<and> t' = t
          else a = 1 \<and> jobs_in P t' = (jobs_in P t)(job_id j \<mapsto> pg_kept P j0 j))"

lemma update_one:
  assumes t: "table_ok P t" and j: "canonical P (job_id j)"
    and bound: "job_to_row_values P j = Inr vals" "metadata_value P j = Inr md" "parse_job_id P (job_id j) = Inr u"
    and run: "tryE (received_columns (driver P) (bound_row P u vals md j)) (\<lambda>c.
       case hm_get t u of
         None \<Rightarrow> Inr (0, t)
       | Some r \<Rightarrow>
           if expected \<noteq> None \<and> expected \<noteq> Some (rw_state_name r) then Inr (0, t)
           else tryE (fitted_columns (driver P) c) (\<lambda>c. Inr (1, hm_insert u (set_columns c r) t))) = Inr (a, t')"
  shows "table_ok P t' \<and> put_job j expected t a t'"
proof -
  have i: "job_id j = pd_show_uuid (driver P) u"
    using j bound(3) by (metis canonicalE parse_job_id_Inr Inr_inject)
  show ?thesis
  proof (cases "hm_get t u")
    case None
    then show ?thesis using run t i by (auto simp: put_job_def)
  next
    case (Some r)
    then have r: "row_ok P r" "rw_id r = u" using t by (auto simp: table_ok_def)
    from r(1) obtain j0 where j0: "row_to_job P r = Inr j0" "rw_state_name r = job_state_to_name (job_state j0)"
      by (rule row_to_job_ok)
    then have at: "jobs_in P t (job_id j) = Some j0" using Some i by simp
    show ?thesis
    proof (cases "expected \<noteq> None \<and> expected \<noteq> Some (rw_state_name r)")
      case True
      then show ?thesis using run t at j0(2) Some by (auto simp: put_job_def)
    next
      case False
      with run Some obtain c1 c where c: "received_columns (driver P) (bound_row P u vals md j) = Inr c1"
        "fitted_columns (driver P) c1 = Inr c" "a = 1" "t' = hm_insert u (set_columns c r) t" by auto
      have st: "stored_row P j = Some c" by (rule stored_rowI [OF bound c(1, 2)])
      have "rw_id c = u" using stored_rowD(2) [OF st] bound(3) by simp
      then have "job_of P (set_columns c r) = Some (pg_kept P j0 j)" using kept_row [OF st _ j0(1)] r(2) by simp
      moreover have "row_ok P (set_columns c r)" using stored_rowD(1) [OF st] by simp
      moreover have "rw_id (set_columns c r) = u" by (simp add: set_columns_def r(2))
      ultimately show ?thesis
        using False at j0(2) i c(3) unfolding c(4) put_job_def
        by (simp add: jobs_in_insert table_ok_insert [OF t] job_of_def)
    qed
  qed
qed

lemma update_effect:
  assumes "pg_inv P (store w)" and "canonical P (job_id j)"
  shows "wp (pg_update P j) (effect P (\<lambda>_ t'. \<exists>j0. pg_jobs P (store w) (job_id j) = Some j0
     \<and> jobs_in P t' = (pg_jobs P (store w))(job_id j \<mapsto> pg_kept P j0 j)) w) w"
  unfolding pg_update_def single_statements
  by (intro effect_lift effect_then [OF effect_query, where R = "put_job j None (pg_rows P (store w))"] assms(1),
      rule update_one [OF table_of_inv [OF assms(1)] assms(2)], assumption+)
     (auto simp: put_job_def split: option.splits)

end

sublocale pg_laws \<subseteq> updates: job_updates "postgres_storage_api P" "pg_jobs P" "\<lambda>d. pg_inv P d \<and> reliable d"
  "pg_kept P" "canonical P"
proof
  show "canonical P i" if "pg_inv P s \<and> reliable s" "pg_jobs P s i = Some j" for s i j
    using that(2) by (auto simp: canonical_def elim: jobs_in_SomeE)
  fix w :: "('p database, 'e) world" and j :: "'p job"
  assume w: "pg_inv P (store w) \<and> reliable (store w)" and j: "canonical P (job_id j)"
  show "wp (st_update (postgres_storage_api P) j) (\<lambda>r w'. env_kept w w' \<and> (pg_inv P (store w') \<and> reliable (store w')) \<and>
     (case r of
        Inl e \<Rightarrow> pg_jobs P (store w') = pg_jobs P (store w)
      | Inr _ \<Rightarrow> \<exists>j0. pg_jobs P (store w) (job_id j) = Some j0
                   \<and> pg_jobs P (store w') = (pg_jobs P (store w))(job_id j \<mapsto> pg_kept P j0 j))) w"
    unfolding postgres_storage_api_simps
    by (rule wp_mono [OF update_effect [OF conjunct1 [OF w] j]]) (use w in \<open>auto simp: effect_def split: sum.split\<close>)
qed

end
