(* ===== verification/Pg_Ops.thy ===== *)
theory Pg_Ops
  imports Pg_Contract
begin

text \<open>
  The other methods on the table of jobs: each is an \<open>effect\<close>, so it holds on any connection, with what the method does
  stated on the jobs of the table.
\<close>

section \<open>Single jobs\<close>

context pg_laws
begin

lemma get_effect:
  assumes "pg_inv P (store w)" and "canonical P i"
  shows "wp (pg_get P i) (effect P (\<lambda>x t'. t' = pg_rows P (store w) \<and> x = pg_jobs P (store w) i) w) w"
proof -
  have row: "case optE (row_to_job P) (hm_get (pg_rows P (store w)) u) of Inl e \<Rightarrow> False | Inr x \<Rightarrow> x = pg_jobs P (store w) i"
    if "i = pd_show_uuid (driver P) u" for u
  proof (cases "hm_get (pg_rows P (store w)) u")
    case (Some r)
    then have "row_ok P r" using table_of_inv [OF assms(1)] by (auto simp: table_ok_def)
    then obtain j where "row_to_job P r = Inr j" by (rule row_to_job_ok)
    with Some that show ?thesis by (simp add: job_of_def)
  qed (simp add: that)
  show ?thesis
    unfolding pg_get_def single_statements
  proof (rule effect_lift [OF assms(1)])
    fix u
    assume "parse_job_id P i = Inr u"
    then have i: "i = pd_show_uuid (driver P) u" using assms(2) by (metis canonicalE parse_job_id_Inr Inr_inject)
    show "wp (bindE (handle_schema_error P (on_jobs P (\<lambda>n d t. Inr (hm_get t u, t))) ''get'') (\<lambda>row. ret (optE (row_to_job P) row)))
        (effect P (\<lambda>x t'. t' = pg_rows P (store w) \<and> x = pg_jobs P (store w) i) w) w"
      by (rule effect_then [OF effect_handle [OF assms(1)],
            where R = "\<lambda>x t'. t' = pg_rows P (store w) \<and> x = hm_get (pg_rows P (store w)) u"])
         (use row [OF i] table_of_inv [OF assms(1)] in \<open>auto split: sum.splits\<close>)
  qed
qed

lemma insert_one:
  assumes t: "table_ok P t" and j: "canonical P (job_id j)"
    and bound: "job_to_row_values P j = Inr vals" "metadata_value P j = Inr md" "parse_job_id P (job_id j) = Inr u"
    and run: "tryE (received_columns (driver P) (bound_row P u vals md j)) (\<lambda>c.
       tryE (fitted_columns (driver P) c) (\<lambda>c.
         if hm_contains t (rw_id c) then Inl e else Inr ((), hm_insert (rw_id c) c t))) = Inr (a, t')"
  shows "table_ok P t' \<and> jobs_in P t (job_id j) = None \<and> jobs_in P t' = (jobs_in P t)(job_id j \<mapsto> as_stored P j)"
proof -
  have i: "job_id j = pd_show_uuid (driver P) u"
    using j bound(3) by (metis canonicalE parse_job_id_Inr Inr_inject)
  from run obtain c1 c where c: "received_columns (driver P) (bound_row P u vals md j) = Inr c1"
    "fitted_columns (driver P) c1 = Inr c" "hm_get t (rw_id c) = None" "t' = hm_insert (rw_id c) c t"
    by (auto split: if_splits)
  from stored_rowD [OF stored_rowI [OF bound c(1, 2)]] bound(3)
  have "row_ok P c" "rw_id c = u" "job_of P c = Some (as_stored P j)" by simp_all
  then show ?thesis using c(3) i unfolding c(4) by (simp add: table_ok_insert [OF t] jobs_in_insert job_of_def)
qed

lemma enqueue_effect:
  assumes "pg_inv P (store w)" and "canonical P (job_id j)"
  shows "wp (pg_enqueue P j) (effect P (\<lambda>_ t'. pg_jobs P (store w) (job_id j) = None
     \<and> jobs_in P t' = (pg_jobs P (store w))(job_id j \<mapsto> as_stored P j)) w) w"
  unfolding pg_enqueue_def single_statements
  by (intro effect_lift effect_then [OF effect_handle, where R = "\<lambda>_ t'. pg_jobs P (store w) (job_id j) = None
     \<and> jobs_in P t' = (pg_jobs P (store w))(job_id j \<mapsto> as_stored P j)"] assms(1),
      rule insert_one [OF table_of_inv [OF assms(1)] assms(2)], assumption+)
     simp

lemma delete_effect:
  assumes "pg_inv P (store w)" and "canonical P i"
  shows "wp (pg_delete P i) (effect P (\<lambda>b t'. b = (pg_jobs P (store w) i \<noteq> None)
     \<and> jobs_in P t' = (pg_jobs P (store w))(i := None)) w) w"
proof -
  have row: "jobs_in P t (pd_show_uuid (driver P) u) \<noteq> None \<longleftrightarrow> hm_get t u \<noteq> None" if "table_ok P t" for t u
  proof (cases "hm_get t u")
    case (Some r)
    with that have "row_ok P r" by (auto simp: table_ok_def)
    then obtain j where "row_to_job P r = Inr j" by (rule row_to_job_ok)
    with Some show ?thesis by (simp add: job_of_def)
  qed simp
  show ?thesis
    unfolding pg_delete_def single_statements
  proof (rule effect_lift [OF assms(1)])
    fix u
    assume "parse_job_id P i = Inr u"
    then have i: "i = pd_show_uuid (driver P) u" using assms(2) by (metis canonicalE parse_job_id_Inr Inr_inject)
    show "wp (bindE (query ''Failed to delete job'' (on_jobs P (\<lambda>n d t. Inr (if hm_contains t u then 1 else 0 :: nat, hm_remove u t))))
        (\<lambda>affected. ret (Inr (affected > 0))))
        (effect P (\<lambda>b t'. b = (pg_jobs P (store w) i \<noteq> None) \<and> jobs_in P t' = (pg_jobs P (store w))(i := None)) w) w"
      by (rule effect_then [OF effect_query [OF assms(1)],
            where R = "\<lambda>a t'. (0 < a) = hm_contains (pg_rows P (store w)) u \<and> t' = hm_remove u (pg_rows P (store w))"])
         (use table_of_inv [OF assms(1)] row [OF table_of_inv [OF assms(1)], of u] in
           \<open>auto simp: i jobs_in_remove table_ok_remove split: if_splits\<close>)
  qed
qed

text \<open>The swap may need a second request, which reads only.\<close>

lemma update_if_state_effect:
  fixes w :: "('p database, 'e) world"
  assumes inv: "pg_inv P (store w)" and j: "canonical P (job_id j)"
  shows "wp (pg_update_if_state P j k) (effect P (\<lambda>b t'. \<exists>j0. pg_jobs P (store w) (job_id j) = Some j0
     \<and> b = (kind (job_state j0) = k)
     \<and> jobs_in P t' = (if b then (pg_jobs P (store w))(job_id j \<mapsto> pg_kept P j0 j) else pg_jobs P (store w))) w) w"
    (is "wp _ (effect P ?R w) w")
proof -
  have names: "job_state_kind_to_name k = job_state_to_name st \<longleftrightarrow> kind st = k" for k st
    by (cases k; cases "kind st") (simp_all add: job_state_to_name_def)
  let ?T = "pg_rows P (store w)" and ?put = "put_job j (Some (job_state_kind_to_name k))"
  have second: "wp (bindE (query msg (on_jobs P (\<lambda>n d t. Inr (hm_contains t u, t))))
      (\<lambda>present. ret (if present then Inr False else Inl (job_not_found (job_id j))))) (effect P ?R w) w1"
    if e: "effect P (?put ?T) w (Inr a) w1" and a: "\<not> 0 < a" and i: "job_id j = pd_show_uuid (driver P) u"
    for msg u a and w1 :: "('p database, 'e) world"
  proof -
    have same: "pg_rows P (store w1) = ?T" and inv1: "pg_inv P (store w1)" and kept: "env_kept w w1"
      and rel: "reliable (store w) \<longrightarrow> reliable (store w1)"
      using e a by (auto simp: effect_def put_job_def split: option.splits if_splits)
    have at: "case jobs_in P ?T (job_id j) of None \<Rightarrow> True | Some j0 \<Rightarrow> kind (job_state j0) \<noteq> k"
      using e a names by (auto simp: effect_def put_job_def split: option.splits if_splits)
    have row: "hm_get ?T u \<noteq> None \<Longrightarrow> \<exists>j0. jobs_in P ?T (job_id j) = Some j0"
    proof -
      assume "hm_get ?T u \<noteq> None"
      then obtain r where r: "hm_get ?T u = Some r" by blast
      then have "row_ok P r" using table_of_inv [OF inv] by (auto simp: table_ok_def)
      then obtain j0 where "row_to_job P r = Inr j0" by (rule row_to_job_ok)
      with r i show ?thesis by simp
    qed
    have "wp (bindE (query msg (on_jobs P (\<lambda>n d t. Inr (hm_contains t u, t))))
        (\<lambda>present. ret (if present then Inr False else Inl (job_not_found (job_id j))))) (effect P ?R w1) w1"
      by (rule effect_then [OF effect_query [OF inv1],
            where R = "\<lambda>x t'. t' = ?T \<and> x = hm_contains ?T u"])
         (use table_of_inv [OF inv] row at in \<open>auto simp: same split: if_splits\<close>)
    then show ?thesis by (rule wp_mono) (rule effect_after [OF _ kept same rel])
  qed
  show ?thesis
    unfolding pg_update_if_state_def
  proof (intro effect_lift inv, goal_cases)
    case (1 u vals md)
    then have i: "job_id j = pd_show_uuid (driver P) u" using j by (metis canonicalE parse_job_id_Inr Inr_inject)
    have first: "wp (query ''Failed to update_if_state job''
        (sql_update_job (driver P) (table_name P) u (Some (job_state_kind_to_name k)) (bound_row P u vals md j)))
        (effect P (?put ?T) w) w"
      unfolding single_statements
      by (rule effect_query [OF inv], rule update_one [OF table_of_inv [OF inv] j 1(2, 3, 1)])
    show ?case
      unfolding wp_bindE
    proof (rule wp_mono [OF first], goal_cases)
      case (1 r w1)
      show ?case
      proof (cases r)
        case (Inl e)
        with 1 show ?thesis by (auto simp: effect_def put_job_def names split: option.splits if_splits)
      next
        case (Inr a)
        show ?thesis
        proof (cases "0 < a")
          case True
          with 1 Inr show ?thesis
            by (auto simp: effect_def put_job_def names wp_return split: option.splits if_splits)
        next
          case False
          with second [OF _ False i] 1 Inr show ?thesis by (simp add: single_statements)
        qed
      qed
    qed
  qed
qed

end

section \<open>The rows a statement selects\<close>

lemma distinct_keys_sort: "distinct (map fst t) \<Longrightarrow> distinct (map fst (sort_key f t))"
  by (simp add: distinct_map)

lemma scan_ids:
  assumes "table_ok P t"
  shows "map rw_id (scan rank t) = map fst (sort_key (rank \<circ> fst) t)"
  using assms unfolding scan_def map_map
  by (intro map_cong) (auto simp: table_ok_def hm_get_in_set)

lemma distinct_scan: "table_ok P t \<Longrightarrow> distinct (map rw_id (scan rank t))"
  unfolding scan_ids by (rule distinct_keys_sort) (simp add: table_ok_def hm_wf_def)

lemma in_scan:
  assumes "table_ok P t"
  shows "r \<in> set (scan rank t) \<longleftrightarrow> hm_get t (rw_id r) = Some r"
proof -
  have "hm_wf t" and id: "\<And>u. hm_get t u = Some r \<Longrightarrow> rw_id r = u" using assms by (simp_all add: table_ok_def)
  then have "r \<in> set (scan rank t) \<longleftrightarrow> (\<exists>u. hm_get t u = Some r)" by (force simp: hm_get_in_set)
  then show ?thesis using id by blast
qed

definition row_key :: "'p job_row \<Rightarrow> int \<times> pg_time" where
  "row_key r = (- sint (rw_priority r), rw_created_at r)"

lemma claim_order_key: "claim_order rows = sort_key row_key rows"
  by (simp add: claim_order_def row_key_def [abs_def])

lemma row_key_le:
  assumes "row_to_job P r = Inr j" and "row_to_job P r' = Inr j'"
  shows "row_key r \<le> row_key r' \<longleftrightarrow> prio_key j \<le> prio_key j'"
  by (simp add: row_key_def prio_key_def row_to_job_fields [OF assms(1)] row_to_job_fields [OF assms(2)] of_pg_def
      less_eq_prod_def)

lemma sorted_filter_order: "sorted (map row_key (filter p (claim_order rows)))"
  unfolding claim_order_key by (rule sorted_filter) simp

lemma state_names:
  "job_state_to_name st = ''enqueued'' \<longleftrightarrow> kind st = KEnqueued"
  "job_state_to_name st = ''awaiting_retry'' \<longleftrightarrow> kind st = KAwaitingRetry"
  "job_state_to_name st = ''scheduled'' \<longleftrightarrow> kind st = KScheduled"
  "job_state_to_name st = ''processing'' \<longleftrightarrow> kind st = KProcessing"
  by (cases st; simp add: job_state_to_name_def)+

lemma update_rows_get:
  "hm_get (update_rows sel f t) u = map_option (\<lambda>r. if sel r then f r else r) (hm_get t u)"
  by (induction t) (auto simp: update_rows_def)

lemma update_rows_wf [simp]: "hm_wf (update_rows sel f t) = hm_wf t"
  by (simp add: update_rows_def hm_wf_def case_prod_beta comp_def)

definition row_job :: "'p postgres_storage \<Rightarrow> 'p job_row \<Rightarrow> 'p job" where
  "row_job P r = the (job_of P r)"

text \<open>The ids of rows another transaction holds at the next statement.\<close>

definition pg_busy :: "'p postgres_storage \<Rightarrow> ('p database, 'e) world \<Rightarrow> string \<Rightarrow> bool" where
  "pg_busy P w i \<longleftrightarrow> (\<exists>u. i = pd_show_uuid (driver P) u \<and> db_busy (store w) (db_count (store w)) u)"

text \<open>What a fetch may take, and what it does.\<close>

definition pg_fetchable :: "string list option \<Rightarrow> 'p job \<Rightarrow> bool" where
  "pg_fetchable qs j \<longleftrightarrow> kind (job_state j) \<in> {KEnqueued, KAwaitingRetry} \<and> queue_ok qs (job_queue j)"

definition pg_fetched ::
  "(string \<Rightarrow> bool) \<Rightarrow> string \<Rightarrow> string list option \<Rightarrow> time \<Rightarrow> 'p jobs \<Rightarrow> 'p job option \<Rightarrow> 'p jobs \<Rightarrow> bool" where
  "pg_fetched busy wid qs now T x T' \<longleftrightarrow>
     (case x of
        None \<Rightarrow> T' = T \<and> (\<forall>i j. T i = Some j \<and> pg_fetchable qs j \<longrightarrow> busy i)
      | Some j \<Rightarrow>
          \<exists>j0. T (job_id j) = Some j0 \<and> pg_fetchable qs j0 \<and> \<not> busy (job_id j)
            \<and> (\<forall>i k. T i = Some k \<and> pg_fetchable qs k \<and> \<not> busy i \<longrightarrow> prio_key j0 \<le> prio_key k)
            \<and> j = j0\<lparr>job_state := Processing now wid ''postgres-storage''\<rparr>
            \<and> T' = T(job_id j \<mapsto> j))"

text \<open>When the server finds a job due: it reads the text of the deadline to the microsecond.\<close>

fun pg_due :: "(time \<Rightarrow> pg_time) \<Rightarrow> pg_time \<Rightarrow> job_state_kind \<Rightarrow> job_state \<Rightarrow> bool" where
  "pg_due read now KScheduled (Scheduled _ t _) = (read t \<le> now)"
| "pg_due read now KAwaitingRetry (AwaitingRetry _ t _) = (read t \<le> now)"
| "pg_due read now _ _ = False"

definition pg_claimed ::
  "(job_state \<Rightarrow> bool) \<Rightarrow> (string \<Rightarrow> bool) \<Rightarrow> nat \<Rightarrow> time \<Rightarrow> 'p jobs \<Rightarrow> 'p job list \<Rightarrow> 'p jobs \<Rightarrow> bool" where
  "pg_claimed due busy limit now T js T' \<longleftrightarrow>
     (let D = {i. (\<exists>j. T i = Some j \<and> due (job_state j)) \<and> \<not> busy i}; I = job_id ` set js in
      distinct (map job_id js) \<and> I \<subseteq> D \<and> length js = min limit (card D)
      \<and> (\<forall>i \<in> I. \<forall>k \<in> D - I. prio_key (the (T i)) \<le> prio_key (the (T k)))
      \<and> (\<forall>j \<in> set js. T' (job_id j) = Some j)
      \<and> (\<forall>i. T' i = (if i \<in> I then map_option (\<lambda>j. j\<lparr>job_state := Enqueued now (job_queue j)\<rparr>) (T i) else T i)))"

context pg_laws
begin

lemma row_view:
  assumes "table_ok P t" and "hm_get t u = Some r"
  obtains j where "row_to_job P r = Inr j" "jobs_in P t (pd_show_uuid (driver P) u) = Some j"
    "job_id j = pd_show_uuid (driver P) u" "rw_id r = u" "rw_state_name r = job_state_to_name (job_state j)"
    "stored_state P (job_state j) (rw_state_data r)" "row_ok P r"
proof -
  from assms have r: "row_ok P r" "rw_id r = u" by (auto simp: table_ok_def)
  from r(1) show thesis
    by (rule row_to_job_ok) (use that assms(2) r in auto)
qed

lemma row_job_view:
  assumes "table_ok P t" and "hm_get t (rw_id r) = Some r"
  shows "row_to_job P r = Inr (row_job P r)" "job_id (row_job P r) = pd_show_uuid (driver P) (rw_id r)"
    "jobs_in P t (pd_show_uuid (driver P) (rw_id r)) = Some (row_job P r)"
    "rw_state_name r = job_state_to_name (job_state (row_job P r))"
    "stored_state P (job_state (row_job P r)) (rw_state_data r)"
proof -
  from row_view [OF assms] obtain j where j: "row_to_job P r = Inr j" "job_id j = pd_show_uuid (driver P) (rw_id r)"
    "jobs_in P t (pd_show_uuid (driver P) (rw_id r)) = Some j" "rw_state_name r = job_state_to_name (job_state j)"
    "stored_state P (job_state j) (rw_state_data r)" .
  moreover from j(1) have "row_job P r = j" by (simp add: row_job_def job_of_def)
  ultimately show "row_to_job P r = Inr (row_job P r)" "job_id (row_job P r) = pd_show_uuid (driver P) (rw_id r)"
    "jobs_in P t (pd_show_uuid (driver P) (rw_id r)) = Some (row_job P r)"
    "rw_state_name r = job_state_to_name (job_state (row_job P r))"
    "stored_state P (job_state (row_job P r)) (rw_state_data r)" by simp_all
qed

text \<open>A condition on jobs is one on rows.\<close>

lemma ids_of_rows:
  assumes t: "table_ok P t" and rows: "\<And>r. r \<in> R \<longleftrightarrow> hm_get t (rw_id r) = Some r \<and> Q (pd_show_uuid (driver P) (rw_id r)) (row_job P r)"
  shows "{i. \<exists>j. jobs_in P t i = Some j \<and> Q i j} = pd_show_uuid (driver P) ` rw_id ` R"
proof
  show "pd_show_uuid (driver P) ` rw_id ` R \<subseteq> {i. \<exists>j. jobs_in P t i = Some j \<and> Q i j}"
    using rows row_job_view(3) [OF t] by auto
  show "{i. \<exists>j. jobs_in P t i = Some j \<and> Q i j} \<subseteq> pd_show_uuid (driver P) ` rw_id ` R"
  proof
    fix i
    assume "i \<in> {i. \<exists>j. jobs_in P t i = Some j \<and> Q i j}"
    then obtain j where j: "jobs_in P t i = Some j" "Q i j" by blast
    from j(1) show "i \<in> pd_show_uuid (driver P) ` rw_id ` R"
    proof (rule jobs_in_SomeE)
      fix u r
      assume r: "i = pd_show_uuid (driver P) u" "hm_get t u = Some r" "row_to_job P r = Inr j"
      then have "rw_id r = u" using t by (auto simp: table_ok_def)
      with r j have "r \<in> R" by (simp add: rows row_job_def job_of_def)
      with r(1) \<open>rw_id r = u\<close> show ?thesis by force
    qed
  qed
qed

lemma card_ids: "distinct (map rw_id rows) \<Longrightarrow> card (pd_show_uuid (driver P) ` rw_id ` set rows) = length rows"
  using distinct_card [of "map rw_id rows"] card_image [of "pd_show_uuid (driver P)" "rw_id ` set rows"]
  by (simp add: inj_on_def show_inj)

text \<open>The rows an update returns, as jobs.\<close>

lemma returned_rows:
  assumes t: "table_ok P t" and U: "U \<subseteq> dom (hm_get t)" and x: "x = filter (\<lambda>r. rw_id r \<in> U) (scan rank t)"
  shows "rows_to_jobs P x = Inr (map (row_job P) x)" "length x = card U"
    "distinct (map job_id (map (row_job P) x))" "job_id ` set (map (row_job P) x) = pd_show_uuid (driver P) ` U"
    "j \<in> set (map (row_job P) x) \<Longrightarrow> jobs_in P t (job_id j) = Some j"
proof -
  have in_x: "r \<in> set x \<longleftrightarrow> hm_get t (rw_id r) = Some r \<and> rw_id r \<in> U" for r
    by (simp add: x in_scan [OF t] del: set_scan)
  note view = row_job_view [OF t conjunct1 [OF in_x [THEN iffD1]]]
  show "rows_to_jobs P x = Inr (map (row_job P) x)"
    unfolding rows_to_jobs_def by (rule mapE_Inr) (rule view(1))
  show "jobs_in P t (job_id j) = Some j" if "j \<in> set (map (row_job P) x)"
    using that view(2, 3) by auto
  have ids: "rw_id ` set x = U"
  proof
    show "U \<subseteq> rw_id ` set x"
    proof
      fix u
      assume u: "u \<in> U"
      then obtain r where r: "hm_get t u = Some r" using U by blast
      then have "rw_id r = u" using t by (simp add: table_ok_def)
      with r u have "r \<in> set x" by (simp add: in_x)
      with \<open>rw_id r = u\<close> show "u \<in> rw_id ` set x" by force
    qed
  qed (auto simp: in_x)
  have dist: "distinct (map rw_id x)"
    using distinct_scan [OF t, of rank] by (auto simp: x distinct_map inj_on_def simp del: set_scan)
  show "length x = card U" using distinct_card [OF dist] ids by simp
  have "map job_id (map (row_job P) x) = map (pd_show_uuid (driver P)) (map rw_id x)" using view(2) by simp
  with dist ids show "distinct (map job_id (map (row_job P) x))"
    "job_id ` set (map (row_job P) x) = pd_show_uuid (driver P) ` U"
    by (simp_all only: distinct_map inj_on_def show_inj flip: set_map) auto
qed

lemma busy_show: "pg_busy P w (pd_show_uuid (driver P) u) \<longleftrightarrow> db_busy (store w) (db_count (store w)) u"
  by (auto simp: pg_busy_def show_inj)

lemma texts_same: "mapE (pd_text (driver P)) qs = Inr qs' \<Longrightarrow> qs' = qs"
  by (induction qs arbitrary: qs') (auto dest: text_same)

section \<open>The fetch\<close>

lemma fetch_one:
  assumes t: "table_ok P t" and data: "pd_state_to (driver P) (Processing now wid ''postgres-storage'') = Inr data"
    and busy: "\<And>u. busy u = held (pd_show_uuid (driver P) u)"
    and run: "tryE (pd_jsonb (driver P) data) (\<lambda>new_data.
       tryE (case queues of None \<Rightarrow> Inr [] | Some qs \<Rightarrow> mapE (pd_text (driver P)) qs) (\<lambda>qs.
       case filter (\<lambda>r. \<not> busy (rw_id r)) (claim_order
           (filter (\<lambda>r. rw_state_name r \<in> {''enqueued'', ''awaiting_retry''} \<and> (qs = [] \<or> rw_queue_name r \<in> set qs))
             (scan rank t))) of
         [] \<Rightarrow> Inr (None, t)
       | r # _ \<Rightarrow>
           let r' = r\<lparr>rw_state_name := ''processing'', rw_state_data := new_data\<rparr> in
           Inr (Some r', hm_insert (rw_id r) r' t))) = Inr (x, t')"
  shows "table_ok P t' \<and> (case optE (row_to_job P) x of
      Inl e \<Rightarrow> False | Inr y \<Rightarrow> pg_fetched held wid queues now (jobs_in P t) y (jobs_in P t'))"
proof -
  from run obtain data' qs where v: "pd_jsonb (driver P) data = Inr data'"
    "(case queues of None \<Rightarrow> Inr [] | Some qs \<Rightarrow> mapE (pd_text (driver P)) qs) = Inr qs" by auto
  define sel where "sel r \<longleftrightarrow> rw_state_name r \<in> {''enqueued'', ''awaiting_retry''} \<and> (qs = [] \<or> rw_queue_name r \<in> set qs)" for r :: "'p job_row"
  let ?rows = "filter (\<lambda>r. \<not> busy (rw_id r)) (claim_order (filter sel (scan rank t)))"
  have taken: "(case ?rows of [] \<Rightarrow> Inr (None, t)
     | r # _ \<Rightarrow> let r' = r\<lparr>rw_state_name := ''processing'', rw_state_data := data'\<rparr> in
         Inr (Some r', hm_insert (rw_id r) r' t)) = (Inr (x, t') :: sqlx_error + _)"
    using run unfolding v tryE_simps sel_def .
  have qs: "(qs = [] \<or> q \<in> set qs) = queue_ok queues q" for q
    using v(2) by (cases queues) (auto simp: queue_ok_def dest: texts_same)
  have sel: "sel r \<longleftrightarrow> pg_fetchable queues j" if "row_to_job P r = Inr j" "rw_state_name r = job_state_to_name (job_state j)" for r j
    using row_to_job_fields(3) [OF that(1)] by (simp add: sel_def pg_fetchable_def qs that(2) state_names)
  have rows: "r \<in> set ?rows \<longleftrightarrow> hm_get t (rw_id r) = Some r \<and> sel r \<and> \<not> held (pd_show_uuid (driver P) (rw_id r))" for r
    by (simp add: claim_order_key in_scan [OF t] busy del: set_scan)
  have free: "\<exists>r \<in> set ?rows. row_to_job P r = Inr k"
    if "jobs_in P t i = Some k" "pg_fetchable queues k" "\<not> held i" for i k
    using that(1)
  proof (rule jobs_in_SomeE)
    fix u r
    assume r: "i = pd_show_uuid (driver P) u" "hm_get t u = Some r" "row_to_job P r = Inr k"
    with t obtain k' where "rw_id r = u" "row_to_job P r = Inr k'" "rw_state_name r = job_state_to_name (job_state k')"
      by (blast elim: row_view)
    with r that sel [of r k] show ?thesis unfolding Bex_def rows by auto
  qed
  show ?thesis
  proof (cases ?rows)
    case Nil
    then have "x = None" "t' = t" using taken by simp_all
    moreover have "\<forall>i j. jobs_in P t i = Some j \<and> pg_fetchable queues j \<longrightarrow> held i" using free Nil by fastforce
    ultimately show ?thesis using t by (simp add: pg_fetched_def)
  next
    case (Cons r rs)
    let ?r = "r\<lparr>rw_state_name := ''processing'', rw_state_data := data'\<rparr>"
    have x: "x = Some ?r" "t' = hm_insert (rw_id r) ?r t" using taken Cons by (simp_all add: Let_def)
    have "r \<in> set ?rows" by (simp add: Cons)
    then have r: "hm_get t (rw_id r) = Some r" "sel r" "\<not> held (pd_show_uuid (driver P) (rw_id r))"
      unfolding rows by simp_all
    from t r(1) obtain j0 where j0: "row_to_job P r = Inr j0" "jobs_in P t (job_id j0) = Some j0"
      "job_id j0 = pd_show_uuid (driver P) (rw_id r)" "rw_state_name r = job_state_to_name (job_state j0)" "row_ok P r"
      by (metis row_view)
    let ?j = "j0\<lparr>job_state := Processing now wid ''postgres-storage''\<rparr>"
    have st: "pd_state_of (driver P) data' = Inr (Processing now wid ''postgres-storage'')" by (rule state_back [OF data v(1)])
    have j: "row_to_job P ?r = Inr ?j"
      using j0(1) st by (auto simp: row_to_job_def data_to_job_state_def split: sum.splits)
    have "stored_state P (Processing now wid ''postgres-storage'') data'" using data v(1) by (auto simp: stored_state_def)
    then have ok: "row_ok P ?r" using j0(5) by (auto simp: row_ok_def job_state_to_name_def intro!: exI [of _ "Processing now wid ''postgres-storage''"])
    have least: "prio_key j0 \<le> prio_key k" if k: "jobs_in P t i = Some k" "pg_fetchable queues k" "\<not> held i" for i k
    proof -
      from free [OF k] obtain r' where r': "r' \<in> set ?rows" "row_to_job P r' = Inr k" by blast
      have "row_key r \<le> row_key r'"
        using r'(1) sorted_filter_order [of "\<lambda>r. \<not> busy (rw_id r)" "filter sel (scan rank t)"] unfolding Cons by auto
      then show ?thesis using row_key_le [OF j0(1) r'(2)] by simp
    qed
    have "pg_fetched held wid queues now (jobs_in P t) (Some ?j) (jobs_in P t')"
      using j0 least r sel [OF j0(1, 4)] j
      by (auto simp: pg_fetched_def x(2) jobs_in_insert [OF ok] job_of_def)
    moreover have "table_ok P t'" using table_ok_insert [OF t ok, of "rw_id r"] by (simp add: x(2))
    ultimately show ?thesis using j by (simp add: x(1))
  qed
qed

lemma fetch_on_jobs:
  "sql_fetch_and_lock (driver P) (table_name P) ''processing'' data qs = on_jobs P (\<lambda>n d t.
      tryE (pd_jsonb (driver P) data) (\<lambda>new_data.
       tryE (case qs of None \<Rightarrow> Inr [] | Some qs \<Rightarrow> mapE (pd_text (driver P)) qs) (\<lambda>qs.
       case filter (\<lambda>r. \<not> db_busy d n (rw_id r)) (claim_order
           (filter (\<lambda>r. rw_state_name r \<in> {''enqueued'', ''awaiting_retry''} \<and> (qs = [] \<or> rw_queue_name r \<in> set qs))
             (scan (db_rank d n) t))) of
         [] \<Rightarrow> Inr (None, t)
       | r # _ \<Rightarrow>
           let r' = r\<lparr>rw_state_name := ''processing'', rw_state_data := new_data\<rparr> in
           Inr (Some r', hm_insert (rw_id r) r' t))))"
  by (simp add: on_jobs_def sql_fetch_and_lock_def fun_eq_iff Let_def)

lemma fetch_effect:
  fixes w :: "('p database, 'e) world"
  assumes inv: "pg_inv P (store w)"
  shows "wp (pg_fetch_and_lock_job P wid qs) (effect P (\<lambda>x t'.
     pg_fetched (pg_busy P w) wid qs (clock w (ticks w)) (pg_jobs P (store w)) x (jobs_in P t')) w) w"
    (is "wp _ (effect P ?R w) w")
proof -
  let ?w = "w\<lparr>ticks := Suc (ticks w)\<rparr>" and ?st = "Processing (clock w (ticks w)) wid ''postgres-storage''"
  have "wp (bindE (ret (job_state_to_data P ?st)) (\<lambda>data.
      bindE (query ''Failed to fetch and lock job'' (sql_fetch_and_lock (driver P) (table_name P) ''processing'' data qs)) (\<lambda>row.
      ret (optE (row_to_job P) row)))) (effect P ?R ?w) ?w"
  proof (rule effect_lift)
    fix data
    assume "job_state_to_data P ?st = Inr data"
    then have data: "pd_state_to (driver P) ?st = Inr data" by (simp add: job_state_to_data_def split: sum.splits)
    show "wp (bindE (query ''Failed to fetch and lock job'' (sql_fetch_and_lock (driver P) (table_name P) ''processing'' data qs)) (\<lambda>row.
        ret (optE (row_to_job P) row))) (effect P ?R ?w) ?w"
      unfolding fetch_on_jobs
    proof (rule effect_then [OF effect_query, where R = "\<lambda>x t'. case optE (row_to_job P) x of Inl e \<Rightarrow> False | Inr y \<Rightarrow> ?R y t'"], goal_cases)
      case (2 x t')
      have "pg_inv P (store ?w)" using inv by simp
      from fetch_one [OF table_of_inv [OF this] data busy_show [of ?w, symmetric] 2 [unfolded bumped_simps]]
      show ?case by (auto simp: pg_busy_def [abs_def] split: sum.splits)
    qed (use inv in \<open>auto split: sum.splits\<close>)
  qed (simp add: inv)
  then have "wp (bindE (ret (job_state_to_data P ?st)) (\<lambda>data.
      bindE (query ''Failed to fetch and lock job'' (sql_fetch_and_lock (driver P) (table_name P) ''processing'' data qs)) (\<lambda>row.
      ret (optE (row_to_job P) row)))) (effect P ?R w) ?w"
    by (rule wp_mono) (rule effect_after, assumption, simp_all add: env_kept_def)
  then show ?thesis
    by (simp add: pg_fetch_and_lock_job_def wp_simps Let_def job_state_to_name_def)
qed

section \<open>Claims and sweeps\<close>

text \<open>A move of rows back to \<^verbatim>\<open>enqueued\<close> by the server.\<close>

lemma row_to_job_enqueue:
  assumes "row_to_job P r = Inr j"
  shows "row_to_job P (enqueue_row (driver P) now r) = Inr (j\<lparr>job_state := Enqueued (of_pg now) (job_queue j)\<rparr>)"
proof -
  have "pd_state_of (driver P) (pd_enqueued (driver P) now (rw_queue_name r)) = Inr (Enqueued (of_pg now) (rw_queue_name r))"
    by (rule enqueued_back)
  with assms row_to_job_fields(3) [OF assms] show ?thesis
    by (auto simp: row_to_job_def enqueue_row_def data_to_job_state_def split: sum.splits)
qed

lemma row_ok_enqueue:
  assumes "row_ok P r"
  shows "row_ok P (enqueue_row (driver P) now r)"
proof -
  have "stored_state P (Enqueued (of_pg now) (rw_queue_name r)) (pd_enqueued (driver P) now (rw_queue_name r))"
    by (auto simp: stored_state_def)
  moreover have "''enqueued'' = job_state_to_name (Enqueued (of_pg now) (rw_queue_name r))"
    by (simp add: job_state_to_name_def)
  ultimately show ?thesis using assms by (auto simp: row_ok_def enqueue_row_def)
qed

text \<open>\<open>f\<close> is the move, with or without the lock columns.\<close>

lemma moved_rows:
  assumes t: "table_ok P t" and f: "\<And>r. row_to_job P (f r) = row_to_job P (enqueue_row (driver P) now r)"
      "\<And>r. row_ok P (f r) = row_ok P (enqueue_row (driver P) now r)" "\<And>r. rw_id (f r) = rw_id r"
    and I: "\<And>u r. hm_get t u = Some r \<Longrightarrow> sel r \<longleftrightarrow> pd_show_uuid (driver P) u \<in> I"
  shows "table_ok P (update_rows sel f t)"
    and "jobs_in P (update_rows sel f t) i =
      (if i \<in> I then map_option (\<lambda>j. j\<lparr>job_state := Enqueued (of_pg now) (job_queue j)\<rparr>) (jobs_in P t i) else jobs_in P t i)"
proof -
  show "table_ok P (update_rows sel f t)"
    using t row_ok_enqueue f(2, 3) by (auto simp: table_ok_def update_rows_get)
  show "jobs_in P (update_rows sel f t) i =
      (if i \<in> I then map_option (\<lambda>j. j\<lparr>job_state := Enqueued (of_pg now) (job_queue j)\<rparr>) (jobs_in P t i) else jobs_in P t i)"
  proof (cases "canonical P i")
    case False
    then have "jobs_in P t' i = None" for t'
      by (auto simp: jobs_in_def canonical_def split: sum.split)
    then show ?thesis by simp
  next
    case True
    then obtain u where i: "i = pd_show_uuid (driver P) u" by (rule canonicalE)
    show ?thesis
    proof (cases "hm_get t u")
      case None
      then show ?thesis by (simp add: i update_rows_get)
    next
      case (Some r)
      with t obtain j where j: "row_to_job P r = Inr j" by (rule row_view)
      show ?thesis
        using I [OF Some] row_to_job_enqueue [OF j] Some j by (simp add: i update_rows_get f(1) job_of_def)
    qed
  qed
qed

lemma due_row_state:
  assumes "stored_state P st (rw_state_data r)" and "rw_state_name r = job_state_to_name st"
  shows "(if rw_state_name r = ''scheduled'' then due_row (driver P) ''Scheduled'' ''enqueue_at'' now r else Inr False)
      = Inr (pg_due read_time now KScheduled st)"
    "(if rw_state_name r = ''awaiting_retry'' then due_row (driver P) ''AwaitingRetry'' ''retry_at'' now r else Inr False)
      = Inr (pg_due read_time now KAwaitingRetry st)"
  using assms scheduled_text retry_text
  by (cases st; fastforce simp: stored_state_def due_row_def parse_iso_utc_def job_state_to_name_def)+

lemma limitE_Inr: "n < 2 ^ 64 \<Longrightarrow> limitE D n xs = Inr ys \<Longrightarrow> ys = take n xs"
  by (simp add: limitE_def split: if_splits)

lemma claim_one:
  assumes t: "table_ok P t" and limit: "limit < 2 ^ 64" and held: "\<And>u. busy u = held (pd_show_uuid (driver P) u)"
    and due: "\<And>r st. stored_state P st (rw_state_data r) \<Longrightarrow> rw_state_name r = job_state_to_name st \<Longrightarrow> check r = Inr (due st)"
    and run: "tryE (filterE check (scan rank t)) (\<lambda>rows.
       tryE (limitE D limit (filter (\<lambda>r. \<not> busy (rw_id r)) (claim_order rows))) (\<lambda>picked.
       let sel = (\<lambda>r. rw_id r \<in> rw_id ` set picked);
           t' = update_rows sel (enqueue_row (driver P) now) t in
       Inr (filter sel (scan rank t'), t'))) = Inr (x, t')"
  shows "table_ok P t' \<and> (case rows_to_jobs P x of
      Inl e \<Rightarrow> False | Inr js \<Rightarrow> pg_claimed due held limit (of_pg now) (jobs_in P t) js (jobs_in P t'))"
proof -
  let ?show = "pd_show_uuid (driver P)"
  define free where "free = filter (\<lambda>r. \<not> busy (rw_id r)) (claim_order (filter (\<lambda>r. due (job_state (row_job P r))) (scan rank t)))"
  define picked where "picked = take limit free"
  let ?sel = "\<lambda>r. rw_id r \<in> rw_id ` set picked" and ?I = "?show ` rw_id ` set picked"
  let ?t = "update_rows ?sel (enqueue_row (driver P) now) t"
  have "filterE check (scan rank t) = Inr (filter (\<lambda>r. due (job_state (row_job P r))) (scan rank t))"
    by (rule filterE_Inr) (simp add: row_job_view(4, 5) [OF t] due in_scan [OF t] del: set_scan)
  with run obtain v where v: "limitE D limit free = Inr v" and x0: "x = filter (\<lambda>r. rw_id r \<in> rw_id ` set v)
      (scan rank (update_rows (\<lambda>r. rw_id r \<in> rw_id ` set v) (enqueue_row (driver P) now) t))"
      "t' = update_rows (\<lambda>r. rw_id r \<in> rw_id ` set v) (enqueue_row (driver P) now) t"
    by (auto simp: Let_def free_def)
  have "v = picked" using limitE_Inr [OF limit v] by (simp add: picked_def)
  with x0 have x: "x = filter ?sel (scan rank ?t)" "t' = ?t" by simp_all
  have free: "r \<in> set free \<longleftrightarrow> hm_get t (rw_id r) = Some r \<and> due (job_state (row_job P r)) \<and> \<not> held (?show (rw_id r))" for r
    by (simp add: free_def claim_order_key in_scan [OF t] held conj_ac del: set_scan)
  have dist: "distinct (map rw_id free)"
    using distinct_scan [OF t, of rank]
    by (auto simp: free_def claim_order_key distinct_map inj_on_def simp del: set_scan)
  have sub: "set picked \<subseteq> set free" by (simp add: picked_def set_take_subset)
  have sel: "?sel r \<longleftrightarrow> ?show u \<in> ?I" if "hm_get t u = Some r" for u r
    using that t by (auto simp: table_ok_def show_inj)
  have ok': "table_ok P ?t" by (rule moved_rows(1) [OF t refl refl _ sel]) (simp_all add: enqueue_row_def)
  have T': "jobs_in P ?t i = (if i \<in> ?I then map_option (\<lambda>j. j\<lparr>job_state := Enqueued (of_pg now) (job_queue j)\<rparr>) (jobs_in P t i)
      else jobs_in P t i)" for i
    by (rule moved_rows(2) [OF t refl refl _ sel]) (simp_all add: enqueue_row_def)
  have "rw_id ` set picked \<subseteq> dom (hm_get ?t)" using sub free by (auto simp: update_rows_get)
  note returned = returned_rows [OF ok' this x(1)]
  have "distinct (map rw_id picked)" using dist by (simp add: picked_def distinct_take flip: take_map)
  from distinct_card [OF this] have len: "length x = length picked" using returned(2) by simp
  have D: "{i. (\<exists>j. jobs_in P t i = Some j \<and> due (job_state j)) \<and> \<not> held i} = ?show ` rw_id ` set free"
    using ids_of_rows [OF t, of "set free" "\<lambda>i j. due (job_state j) \<and> \<not> held i"] free by auto
  have prio: "prio_key (the (jobs_in P t i)) \<le> prio_key (the (jobs_in P t k))"
    if "i \<in> ?I" "k \<in> ?show ` rw_id ` set free - ?I" for i k
  proof -
    from that obtain r r' where r: "r \<in> set picked" "i = ?show (rw_id r)" and r': "r' \<in> set free" "k = ?show (rw_id r')"
      "r' \<notin> set picked" by blast
    then have "r' \<in> set (drop limit free)"
      using append_take_drop_id [of limit free] unfolding picked_def by (metis Un_iff set_append)
    moreover have "sorted (map row_key free)" unfolding free_def by (rule sorted_filter_order)
    ultimately have le: "row_key r \<le> row_key r'"
      using r(1) sorted_take_le_drop [of row_key free r limit r'] unfolding picked_def by blast
    have g: "hm_get t (rw_id r) = Some r" "hm_get t (rw_id r') = Some r'" using r(1) r'(1) sub free by blast+
    note view = row_job_view [OF t g(1)] row_job_view [OF t g(2)]
    from le show ?thesis unfolding r(2) r'(2) view(3, 8) option.sel row_key_le [OF view(1, 6)] .
  qed
  have "pg_claimed due held limit (of_pg now) (jobs_in P t) (map (row_job P) x) (jobs_in P ?t)"
    unfolding pg_claimed_def Let_def returned(4) D card_ids [OF dist]
    by (intro conjI returned(3, 5) image_mono sub ballI allI prio T') (use len in \<open>auto simp: picked_def\<close>)
  then show ?thesis using ok' by (simp add: returned(1) x(2))
qed

text \<open>A claim, for either kind of waiting job.\<close>

lemma claim_on_jobs:
  "sql_claim_due_jobs (driver P) (table_name P) state variant field now limit = on_jobs P (\<lambda>n d t.
     with_functions (driver P) d (
     tryE (filterE (\<lambda>r. if rw_state_name r = state then due_row (driver P) variant field now r else Inr False)
             (scan (db_rank d n) t)) (\<lambda>rows.
     tryE (limitE (driver P) limit (filter (\<lambda>r. \<not> db_busy d n (rw_id r)) (claim_order rows))) (\<lambda>due.
     let sel = (\<lambda>r. rw_id r \<in> rw_id ` set due);
         t' = update_rows sel (enqueue_row (driver P) (db_now d n)) t in
     Inr (filter sel (scan (db_rank d n) t'), t')))))"
  by (simp add: on_jobs_def sql_claim_due_jobs_def fun_eq_iff)

lemma claim_effect:
  fixes w :: "('p database, 'e) world"
  assumes inv: "pg_inv P (store w)" and limit: "limit < 2 ^ 64"
    and due: "\<And>r st. stored_state P st (rw_state_data r) \<Longrightarrow> rw_state_name r = job_state_to_name st \<Longrightarrow>
      (if rw_state_name r = state then due_row (driver P) variant field now r else Inr False) = Inr (due st)"
  shows "wp (query_jobs P msg (sql_claim_due_jobs (driver P) (table_name P) state variant field now limit))
    (effect P (\<lambda>js t'. pg_claimed due (pg_busy P w) limit (of_pg (db_now (store w) (db_count (store w))))
       (pg_jobs P (store w)) js (jobs_in P t')) w) w"
    (is "wp _ (effect P ?R w) w")
  unfolding query_jobs_def claim_on_jobs
proof (rule effect_then [OF effect_query [OF inv],
      where R = "\<lambda>x t'. case rows_to_jobs P x of Inl e \<Rightarrow> False | Inr js \<Rightarrow> ?R js t'"], goal_cases)
  case (1 x t')
  then have "tryE (filterE (\<lambda>r. if rw_state_name r = state then due_row (driver P) variant field now r else Inr False)
         (scan (db_rank (store w) (db_count (store w))) (pg_rows P (store w)))) (\<lambda>rows.
       tryE (limitE (driver P) limit (filter (\<lambda>r. \<not> db_busy (store w) (db_count (store w)) (rw_id r)) (claim_order rows))) (\<lambda>due.
       let sel = (\<lambda>r. rw_id r \<in> rw_id ` set due);
           t' = update_rows sel (enqueue_row (driver P) (db_now (store w) (db_count (store w)))) (pg_rows P (store w)) in
       Inr (filter sel (scan (db_rank (store w) (db_count (store w))) t'), t'))) = Inr (x, t')"
    unfolding with_functions_def bumped_simps by (simp split: if_splits del: tryE_Inr_iff)
  from claim_one [OF table_of_inv [OF inv] limit busy_show [symmetric] due this] show ?case .
qed (auto split: sum.splits)

section \<open>Sweeps\<close>

lemma requeued_rows:
  assumes t: "table_ok P t"
    and late: "\<And>r st. stored_state P st (rw_state_data r) \<Longrightarrow> rw_state_name r = job_state_to_name st \<Longrightarrow>
      (if rw_state_name r = ''processing'' then check r else Inr False) = Inr (late st)"
    and run: "tryE (filterE (\<lambda>r. if rw_state_name r = ''processing'' then check r else Inr False) (scan rank t)) (\<lambda>rows.
       let sel = (\<lambda>r. rw_id r \<in> rw_id ` set rows);
           free = (\<lambda>r. (enqueue_row (driver P) now r)\<lparr>rw_locked_by := None, rw_locked_at := None, rw_lock_expires_at := None\<rparr>) in
       Inr (length rows, update_rows sel free t)) = Inr (a, t')"
  shows "table_ok P t' \<and> a = card {i. \<exists>j. jobs_in P t i = Some j \<and> late (job_state j)}
    \<and> requeued {i. \<exists>j. jobs_in P t i = Some j \<and> late (job_state j)} (jobs_in P t) (jobs_in P t')"
proof -
  let ?show = "pd_show_uuid (driver P)" and ?I = "{i. \<exists>j. jobs_in P t i = Some j \<and> late (job_state j)}"
  define rows where "rows = filter (\<lambda>r. late (job_state (row_job P r))) (scan rank t)"
  let ?sel = "\<lambda>r. rw_id r \<in> rw_id ` set rows"
  let ?free = "\<lambda>r. (enqueue_row (driver P) now r)\<lparr>rw_locked_by := None, rw_locked_at := None, rw_lock_expires_at := None\<rparr>"
  have "filterE (\<lambda>r. if rw_state_name r = ''processing'' then check r else Inr False) (scan rank t) = Inr rows"
    unfolding rows_def by (rule filterE_Inr, rule late) (simp_all add: row_job_view(4, 5) [OF t] in_scan [OF t] del: set_scan)
  then have a: "a = length rows" "t' = update_rows ?sel ?free t" using run by (auto simp: Let_def)
  have rows: "r \<in> set rows \<longleftrightarrow> hm_get t (rw_id r) = Some r \<and> late (job_state (row_job P r))" for r
    by (simp add: rows_def in_scan [OF t] del: set_scan)
  have I: "?I = ?show ` rw_id ` set rows" by (rule ids_of_rows [OF t rows])
  have "distinct (map rw_id rows)"
    using distinct_scan [OF t, of rank] by (auto simp: rows_def distinct_map inj_on_def simp del: set_scan)
  then have card: "card ?I = length rows" unfolding I by (rule card_ids)
  have sel: "?sel r \<longleftrightarrow> ?show u \<in> ?I" if "hm_get t u = Some r" for u r
    using that t unfolding I by (auto simp: table_ok_def show_inj)
  have free: "row_to_job P (?free r) = row_to_job P (enqueue_row (driver P) now r)"
    "row_ok P (?free r) = row_ok P (enqueue_row (driver P) now r)" "rw_id (?free r) = rw_id r" for r
    by (simp_all add: row_to_job_def row_ok_def enqueue_row_def)
  have "requeued ?I (jobs_in P t) (jobs_in P t')"
    unfolding requeued_def a(2)
    by (auto simp: moved_rows(2) [OF t free sel])
  moreover have "table_ok P t'" unfolding a(2) by (rule moved_rows(1) [OF t free sel])
  ultimately show ?thesis using card a(1) by simp
qed

end

end
