(* ===== verification/Pg_Reference.thy ===== *)
theory Pg_Reference
  imports Pg_Ops
begin

text \<open>
  A driver that has the laws of \<open>pg_laws\<close>, and databases on which the properties of the PostgreSQL backend are
  instantiated. JSON documents are kept as data, texts of times and of ids are decimal numbers, and a time is read by
  cutting it to the microsecond.
\<close>

datatype ref_json =
    J_null
  | J_state job_state
  | J_enqueued pg_time string
  | J_metadata "(string, string) hmap"

definition read_nat :: "string \<Rightarrow> nat" where
  "read_nat s = foldl (\<lambda>a c. 10 * a + (of_char c - 48)) 0 s"

lemma read_nat_show [simp]: "read_nat (show_nat n) = n"
  by (simp add: read_nat_def read_show_nat)

definition show_time :: "time \<Rightarrow> string" where
  "show_time t = (if t < 0 then CHR ''-'' else CHR ''+'') # show_nat (nat \<bar>t\<bar>)"

definition read_micros :: "string \<Rightarrow> sqlx_error + pg_time" where
  "read_micros s =
     (case s of
        [] \<Rightarrow> Inl (SqlxDatabase (Some ''22007'') ''invalid input syntax'')
      | c # ds \<Rightarrow> Inr ((if c = CHR ''-'' then - int (read_nat ds) else int (read_nat ds)) div 1000))"

lemma read_micros_show [simp]: "read_micros (show_time t) = Inr (t div 1000)"
  by (simp add: read_micros_def show_time_def)

fun ref_state_of :: "ref_json \<Rightarrow> string + job_state" where
  "ref_state_of (J_state st) = Inr st"
| "ref_state_of (J_enqueued t q) = Inr (Enqueued (of_pg t) q)"
| "ref_state_of _ = Inl ''expected a state''"

fun ref_metadata_of :: "ref_json \<Rightarrow> string + (string, string) hmap" where
  "ref_metadata_of (J_metadata m) = Inr m"
| "ref_metadata_of _ = Inl ''expected a map''"

fun ref_json_text :: "string \<Rightarrow> string \<Rightarrow> ref_json \<Rightarrow> string option" where
  "ref_json_text v f (J_state (Scheduled t0 t why)) =
     (if v = ''Scheduled'' \<and> f = ''enqueue_at'' then Some (show_time t) else None)"
| "ref_json_text v f (J_state (AwaitingRetry t0 t err)) =
     (if v = ''AwaitingRetry'' \<and> f = ''retry_at'' then Some (show_time t) else None)"
| "ref_json_text v f (J_state (Processing t wid srv)) =
     (if v = ''Processing'' \<and> f = ''started_at'' then Some (show_time t)
      else if v = ''Processing'' \<and> f = ''server_name'' then Some srv else None)"
| "ref_json_text v f _ = None"

definition ref_driver :: "ref_json pg_driver" where
  "ref_driver =
     \<lparr>pd_parse_uuid = (\<lambda>s. if s = [] then Inl ''invalid length'' else Inr (of_nat (read_nat s))),
      pd_show_uuid = (\<lambda>u. show_nat (unat u)),
      pd_state_to = (\<lambda>st. Inr (J_state st)), pd_state_of = ref_state_of,
      pd_metadata_to = (\<lambda>m. Inr (J_metadata m)), pd_metadata_of = ref_metadata_of,
      pd_bind_time = (\<lambda>t. t div 1000),
      pd_text = (\<lambda>s. if CHR 0x00 \<in> set s then Inl (SqlxDatabase (Some ''22021'') ''invalid byte sequence'') else Inr s),
      pd_varchar = (\<lambda>n s. if length s \<le> n then Inr s else Inl (SqlxDatabase (Some ''22001'') ''value too long'')),
      pd_jsonb = Inr, pd_json_text = ref_json_text, pd_timestamp = read_micros, pd_timestamptz = read_micros,
      pd_enqueued = J_enqueued, pd_make_interval = (\<lambda>x. Inr (f64_as_i64 (f64_mul x (Fin 1000000)))),
      pd_plus_days = (\<lambda>t n. t + 86400000000 * n), pd_message = (\<lambda>code. code)\<rparr>"

lemma ref_driver_simps [simp]:
  "pd_parse_uuid ref_driver s = (if s = [] then Inl ''invalid length'' else Inr (of_nat (read_nat s)))"
  "pd_show_uuid ref_driver u = show_nat (unat u)"
  "pd_state_to ref_driver st = Inr (J_state st)" "pd_state_of ref_driver = ref_state_of"
  "pd_metadata_to ref_driver m = Inr (J_metadata m)" "pd_metadata_of ref_driver = ref_metadata_of"
  "pd_bind_time ref_driver t = t div 1000" "pd_jsonb ref_driver v = Inr v"
  "pd_text ref_driver s = (if CHR 0x00 \<in> set s then Inl (SqlxDatabase (Some ''22021'') ''invalid byte sequence'') else Inr s)"
  "pd_varchar ref_driver n s = (if length s \<le> n then Inr s else Inl (SqlxDatabase (Some ''22001'') ''value too long''))"
  "pd_json_text ref_driver = ref_json_text" "pd_timestamp ref_driver = read_micros" "pd_timestamptz ref_driver = read_micros"
  "pd_enqueued ref_driver = J_enqueued" "pd_plus_days ref_driver t n = t + 86400000000 * n"
  "pd_message ref_driver code = code"
  by (simp_all add: ref_driver_def)

definition ref_pg :: "postgres_config \<Rightarrow> ref_json postgres_storage" where
  "ref_pg cfg = \<lparr>ps_config = cfg, ps_driver = ref_driver\<rparr>"

lemma ref_pg_simps [simp]: "driver (ref_pg cfg) = ref_driver" "ps_config (ref_pg cfg) = cfg"
  by (simp_all add: ref_pg_def)

lemma show_nat_not_Nil [simp]: "show_nat n \<noteq> []"
  by (subst show_nat.simps) simp

lemma cut_near: "\<bar>of_pg (t div 1000) - t\<bar> < 1000"
  by (simp add: of_pg_def)

interpretation refpg: pg_laws "ref_pg cfg" "\<lambda>t. t div 1000" for cfg
  by unfold_locales (auto simp: cut_near of_pg_def split: if_splits)

section \<open>Databases\<close>

definition default_pg :: "ref_json postgres_storage" where
  "default_pg = ref_pg postgres_config_with_defaults"

lemma default_pg_simps [simp]:
  "driver default_pg = ref_driver" "table_name default_pg = ''qml.qml_jobs''" "ps_config default_pg = postgres_config_with_defaults"
  by (simp_all add: default_pg_def table_name_def full_table_name_def postgres_config_with_defaults_def)

text \<open>A database whose statements are answered but for the given ones, with a clock that advances by a second per
  statement.\<close>

definition fresh_database :: "pg_link list \<Rightarrow> 'p database" where
  "fresh_database links =
     \<lparr>db_schemas = [''public''], db_functions = False, db_jobs = [], db_recurring = [], db_servers = [], db_locks = [],
      db_now = (\<lambda>n. 1000000 * (100 + int n)), db_rank = (\<lambda>n u. 0), db_text_rank = (\<lambda>n s. 0),
      db_busy = (\<lambda>n u. False), db_text_busy = (\<lambda>n s. False), db_links = links, db_count = 0\<rparr>"

text \<open>The database that \<^verbatim>\<open>install.sql\<close> makes of it, with rows.\<close>

definition installed_database :: "pg_link list \<Rightarrow> 'p job_row list \<Rightarrow> 'p database" where
  "installed_database links rows =
     (fresh_database links)\<lparr>db_schemas := [''qml'', ''public''], db_functions := True,
        db_jobs := [(''qml.qml_jobs'', map (\<lambda>r. (rw_id r, r)) rows)], db_recurring := [(''qml.qml_recurring_jobs'', [])],
        db_servers := [(''qml.qml_servers'', [])], db_locks := [(''qml.qml_locks'', [])]\<rparr>"

lemma fresh_simps [simp]:
  "db_schemas (fresh_database ls) = [''public'']" "db_functions (fresh_database ls) = False"
  "db_jobs (fresh_database ls) = []" "db_recurring (fresh_database ls) = []" "db_servers (fresh_database ls) = []"
  "db_locks (fresh_database ls) = []" "db_now (fresh_database ls) n = 1000000 * (100 + int n)"
  "db_busy (fresh_database ls) n u = False" "db_links (fresh_database ls) = ls" "db_count (fresh_database ls) = 0"
  "db_rank (fresh_database ls) = (\<lambda>n u. 0)"
  by (simp_all add: fresh_database_def)

lemma installed_simps [simp]:
  "db_jobs (installed_database ls rows) = [(''qml.qml_jobs'', map (\<lambda>r. (rw_id r, r)) rows)]"
  "db_functions (installed_database ls rows)" "db_schemas (installed_database ls rows) = [''qml'', ''public'']"
  "db_now (installed_database ls rows) n = 1000000 * (100 + int n)" "db_busy (installed_database ls rows) n u = False"
  "db_links (installed_database ls rows) = ls" "db_count (installed_database ls rows) = 0"
  "db_rank (installed_database ls rows) = (\<lambda>n u. 0)"
  by (simp_all add: installed_database_def)

lemma installed_rows [simp]: "pg_rows default_pg (installed_database ls rows) = map (\<lambda>r. (rw_id r, r)) rows"
  by (simp add: pg_rows_def)

lemma installed_reliable [simp]: "reliable (installed_database [] rows)"
  by (simp add: reliable_def)

text \<open>A row of a job in a state, and the job it denotes.\<close>

definition sample_row :: "nat \<Rightarrow> i32 \<Rightarrow> job_state \<Rightarrow> ref_json job_row" where
  "sample_row i prio st =
     \<lparr>rw_id = of_nat i, rw_method_name = ''m'', rw_arguments = J_null, rw_created_at = 5, rw_state_name = job_state_to_name st,
      rw_state_data = J_state st, rw_queue_name = ''default'', rw_priority = prio, rw_max_retries = 3, rw_current_retries = 0,
      rw_metadata = None, rw_job_type = None, rw_timeout_seconds = None, rw_expires_at = None,
      rw_locked_by = None, rw_locked_at = None, rw_lock_expires_at = None\<rparr>"

definition row_sample :: "nat \<Rightarrow> i32 \<Rightarrow> job_state \<Rightarrow> ref_json job" where
  "row_sample i prio st =
     \<lparr>job_id = show_nat i, job_method = ''m'', job_payload = J_null, job_created_at = 5000, job_state = st,
      job_queue = ''default'', job_priority = prio, job_max_retries = 3, job_attempt = 0, job_metadata = [], job_type = None,
      job_timeout_seconds = None, job_expires_at = None\<rparr>"

lemma sample_row_simps [simp]:
  "rw_id (sample_row i p st) = of_nat i" "rw_state_name (sample_row i p st) = job_state_to_name st"
  "rw_state_data (sample_row i p st) = J_state st" "rw_queue_name (sample_row i p st) = ''default''"
  "rw_metadata (sample_row i p st) = None" "rw_locked_by (sample_row i p st) = None" "rw_priority (sample_row i p st) = p"
  by (simp_all add: sample_row_def)

lemma row_sample_simps [simp]:
  "job_id (row_sample i p st) = show_nat i" "job_method (row_sample i p st) = ''m''" "job_state (row_sample i p st) = st"
  "job_queue (row_sample i p st) = ''default''" "job_attempt (row_sample i p st) = 0" "job_priority (row_sample i p st) = p"
  "job_created_at (row_sample i p st) = 5000"
  by (simp_all add: row_sample_def)

lemma sample_row_ok [simp]: "row_ok default_pg (sample_row i p st)"
  by (auto simp: row_ok_def stored_state_def)

lemma sample_row_job: "i < 2 ^ 128 \<Longrightarrow> row_to_job default_pg (sample_row i p st) = Inr (row_sample i p st)"
  by (simp add: row_to_job_def data_to_job_state_def sample_row_def row_sample_def of_pg_def unat_of_nat)

lemma sample_inv:
  assumes "distinct (map rw_id rows)" and "\<forall>r \<in> set rows. row_ok default_pg r"
  shows "pg_inv default_pg (installed_database ls rows)"
  using assms by (auto simp: pg_inv_def table_ok_def hm_wf_def comp_def dest!: map_of_SomeD)

abbreviation pg_world :: "'p database \<Rightarrow> ('p database, 'e) world" where
  "pg_world \<equiv> sample_world"

lemmas default_laws = refpg.pg_laws_axioms [of postgres_config_with_defaults, folded default_pg_def]

lemma show_small [simp]: "show_nat 1 = ''1''" "show_nat (Suc 0) = ''1''" "show_nat 2 = ''2''"
  by code_simp+

lemma sample_canonical [simp]: "canonical default_pg ''1''" "canonical default_pg ''2''"
  unfolding canonical_def by (rule exI [of _ 1], simp) (rule exI [of _ 2], simp)

lemma one_row_inv [simp]: "pg_inv default_pg (installed_database ls [sample_row i p st])"
  by (simp add: sample_inv)

lemma sample_at [simp]: "jobs_in default_pg [(1, sample_row (Suc 0) p st)] ''1'' = Some (row_sample (Suc 0) p st)"
  using refpg.jobs_in_show [of postgres_config_with_defaults, folded default_pg_def,
      of "[(1, sample_row 1 p st)]" 1] sample_row_job [of 1 p st]
  by (simp add: job_of_def)

lemma sample_only:
  assumes "jobs_in default_pg [(1, sample_row (Suc 0) p st)] i = Some j"
  shows "j = row_sample (Suc 0) p st"
  using assms sample_row_job [of 1 p st]
  by (auto simp: jobs_in_def bind_eq_Some_conv split: sum.splits if_splits)

text \<open>What a sweep of running jobs leaves of them.\<close>

lemma requeued_kinds:
  assumes "T' = T \<or> requeued I T T'" and "\<forall>i j. T i = Some j \<longrightarrow> kind (job_state j) = KProcessing" and "T' i = Some j"
  shows "kind (job_state j) \<in> {KProcessing, KEnqueued}"
proof (cases "T' = T")
  case False
  with assms(1) have r: "requeued I T T'" by blast
  show ?thesis
  proof (cases "T i")
    case None
    with requeued_None [OF r] assms(3) show ?thesis by simp
  next
    case (Some j0)
    with requeued_at [OF r] assms(2, 3) show ?thesis by (fastforce split: if_splits)
  qed
qed (use assms in auto)

end
