(* ===== verification/Pg_Props.thy ===== *)
theory Pg_Props
  imports Pg_Reference Processor_Props
begin

text \<open>
  The properties of the PostgreSQL backend. The driver is a parameter with the laws \<open>pg_laws\<close>; the database, its order of
  rows, the locks of other transactions and the connection are arbitrary unless a hypothesis says otherwise. The witnesses
  are on the reference driver.
\<close>

section \<open>Answered statements\<close>

lemma query_answers:
  assumes "pg_inv P (store w)" and "db_links (store w) = []"
    and "f (db_count (store w)) (bumped (store w)) (pg_rows P (store w)) = Inr (a, t')"
  shows "wp (query msg (on_jobs P f)) (\<lambda>r w'. r = Inr a \<and> db_links (store w') = []) w"
    and "wp (handle_schema_error P (on_jobs P f) name) (\<lambda>r w'. r = Inr a \<and> db_links (store w') = []) w"
proof -
  have run: "on_jobs P f (db_count (store w)) (bumped (store w))
      = Inr (a, db_jobs_update (hm_insert (table_name P) t') (bumped (store w)))"
    using assms by (simp add: on_jobs_Inr)
  show "wp (query msg (on_jobs P f)) (\<lambda>r w'. r = Inr a \<and> db_links (store w') = []) w"
    by (simp add: query_def wp_simps wp_def run_statement_def Let_def assms(2) run)
  show "wp (handle_schema_error P (on_jobs P f) name) (\<lambda>r w'. r = Inr a \<and> db_links (store w') = []) w"
    by (simp add: handle_schema_error_def wp_simps wp_def run_statement_def Let_def assms(2) run)
qed

section \<open>Every state\<close>

text \<open>The methods that write the table of jobs, of any number of clients; ids are texts of UUIDs.\<close>

inductive pg_step :: "'p postgres_storage \<Rightarrow> ('p database, 'e) world \<Rightarrow> ('p database, 'e) world \<Rightarrow> bool"
  for P :: "'p postgres_storage" where
  enqueues: "run_state (pg_enqueue P j) w = (r, w') \<Longrightarrow> canonical P (job_id j) \<Longrightarrow> pg_step P w w'"
| updates: "run_state (pg_update P j) w = (r, w') \<Longrightarrow> canonical P (job_id j) \<Longrightarrow> pg_step P w w'"
| swaps: "run_state (pg_update_if_state P j k) w = (b, w') \<Longrightarrow> canonical P (job_id j) \<Longrightarrow> pg_step P w w'"
| deletes: "run_state (pg_delete P i) w = (b, w') \<Longrightarrow> canonical P i \<Longrightarrow> pg_step P w w'"
| fetches: "run_state (pg_fetch_and_lock_job P wid qs) w = (x, w') \<Longrightarrow> pg_step P w w'"
| claims_scheduled: "run_state (pg_claim_due_scheduled_jobs P now n) w = (js, w') \<Longrightarrow> n < 2 ^ 64 \<Longrightarrow> pg_step P w w'"
| claims_retries: "run_state (pg_claim_due_retry_jobs P now n) w = (js, w') \<Longrightarrow> n < 2 ^ 64 \<Longrightarrow> pg_step P w w'"
| requeues: "run_state (pg_requeue_stranded_jobs P before) w = (m, w') \<Longrightarrow> pg_step P w w'"
| reclaims: "run_state (pg_reclaim_jobs_from_server P sid) w = (m, w') \<Longrightarrow> pg_step P w w'"
| expires: "run_state (pg_delete_expired_jobs P now) w = (m, w') \<Longrightarrow> pg_step P w w'"
| locks: "run_state (pg_try_acquire_job_lock P i wid secs) w = (b, w') \<Longrightarrow> pg_step P w w'"
| unlocks: "run_state (pg_release_job_lock P i wid) w = (b, w') \<Longrightarrow> pg_step P w w'"
| migrates: "run_state (pg_migrate P) w = (u, w') \<Longrightarrow> pg_step P w w'"

text \<open>When a job counts as stranded, read by the server to the microsecond.\<close>

fun pg_stranded :: "(time \<Rightarrow> pg_time) \<Rightarrow> pg_time \<Rightarrow> job_state \<Rightarrow> bool" where
  "pg_stranded read before (Processing t _ _) = (read t < before)"
| "pg_stranded read before _ = False"

text \<open>The lock columns are no part of a job.\<close>

definition relocked :: "'p job_table \<Rightarrow> 'p job_table \<Rightarrow> bool" where
  "relocked t t' \<longleftrightarrow> t' = t \<or>
     (\<exists>u r x y z. hm_get t u = Some r \<and> t' = hm_insert u (r\<lparr>rw_locked_by := x, rw_locked_at := y, rw_lock_expires_at := z\<rparr>) t)"

lemma relocked_intros [simp]:
  "relocked t t"
  "hm_get t u = Some r \<Longrightarrow> relocked t (hm_insert u (r\<lparr>rw_locked_by := x, rw_locked_at := y, rw_lock_expires_at := z\<rparr>) t)"
  unfolding relocked_def by blast+

context pg_laws
begin

lemma started_row:
  assumes "stored_state P st (rw_state_data r)" and "rw_state_name r = job_state_to_name st"
  shows "(if rw_state_name r = ''processing'' then
       (case pd_json_text (driver P) ''Processing'' ''started_at'' (rw_state_data r) of
          None \<Rightarrow> Inr False
        | Some txt \<Rightarrow> tryE (pd_timestamptz (driver P) txt) (\<lambda>t. Inr (t < before)))
     else Inr False) = Inr (pg_stranded read_time before st)"
proof (cases st)
  case (Processing t wid srv)
  with assms(1) obtain v0 where v0: "pd_state_to (driver P) (Processing t wid srv) = Inr v0"
    "pd_jsonb (driver P) v0 = Inr (rw_state_data r)"
    by (auto simp: stored_state_def)
  from started_text [OF v0] obtain x where "pd_json_text (driver P) ''Processing'' ''started_at'' (rw_state_data r) = Some x"
    "pd_timestamptz (driver P) x = Inr (read_time t)" by blast
  then show ?thesis using assms(2) Processing by (simp add: job_state_to_name_def)
qed (use assms(2) in \<open>simp_all add: job_state_to_name_def\<close>)

lemma owner_row:
  assumes "stored_state P st (rw_state_data r)" and "rw_state_name r = job_state_to_name st"
  shows "(if rw_state_name r = ''processing''
     then Inr (pd_json_text (driver P) ''Processing'' ''server_name'' (rw_state_data r) = Some sid)
     else Inr False) = Inr (owned_by sid st)"
proof (cases st)
  case (Processing t wid srv)
  with assms(1) obtain v0 where v0: "pd_state_to (driver P) (Processing t wid srv) = Inr v0"
    "pd_jsonb (driver P) v0 = Inr (rw_state_data r)"
    by (auto simp: stored_state_def)
  from server_text [OF v0] show ?thesis using assms(2) Processing by (simp add: job_state_to_name_def)
qed (use assms(2) in \<open>simp_all add: job_state_to_name_def\<close>)

lemma requeue_on_jobs:
  "sql_processing_to_enqueued (driver P) (table_name P) (Inr check) = on_jobs P (\<lambda>n d t.
     tryE (filterE (\<lambda>r. if rw_state_name r = ''processing'' then check r else Inr False) (scan (db_rank d n) t)) (\<lambda>rows.
     let sel = (\<lambda>r. rw_id r \<in> rw_id ` set rows);
         free = (\<lambda>r. (enqueue_row (driver P) (db_now d n) r)\<lparr>rw_locked_by := None, rw_locked_at := None, rw_lock_expires_at := None\<rparr>) in
     Inr (length rows, update_rows sel free t)))"
  by (simp add: on_jobs_def sql_processing_to_enqueued_def fun_eq_iff)

text \<open>Both sweeps of running jobs, by their condition.\<close>

lemma sweep_effect:
  fixes w :: "('p database, 'e) world"
  assumes inv: "pg_inv P (store w)" and T: "T = pg_jobs P (store w)"
    and late: "\<And>r st. stored_state P st (rw_state_data r) \<Longrightarrow> rw_state_name r = job_state_to_name st \<Longrightarrow>
      (if rw_state_name r = ''processing'' then check r else Inr False) = Inr (late st)"
  shows "wp (query msg (sql_processing_to_enqueued (driver P) (table_name P) (Inr check))) (effect P (\<lambda>m t'.
     m = card {i. \<exists>j. T i = Some j \<and> late (job_state j)}
     \<and> requeued {i. \<exists>j. T i = Some j \<and> late (job_state j)} T (jobs_in P t')) w) w"
  unfolding requeue_on_jobs T
  by (rule effect_query [OF inv], rule requeued_rows [OF table_of_inv [OF inv] late])

lemma stranded_effect:
  assumes "pg_inv P (store w)" and "T = pg_jobs P (store w)"
    and "I = {i. \<exists>j. T i = Some j \<and> pg_stranded read_time (pd_bind_time (driver P) before) (job_state j)}"
  shows "wp (pg_requeue_stranded_jobs P before) (effect P (\<lambda>m t'. m = card I \<and> requeued I T (jobs_in P t')) w) w"
  unfolding pg_requeue_stranded_jobs_def update_processing_to_enqueued_def assms(3)
  by (rule sweep_effect [OF assms(1, 2) started_row])

lemma reclaim_effect:
  assumes "pg_inv P (store w)" and "T = pg_jobs P (store w)" and "I = {i. \<exists>j. T i = Some j \<and> owned_by sid (job_state j)}"
  shows "wp (pg_reclaim_jobs_from_server P sid) (effect P (\<lambda>m t'. m = card I \<and> requeued I T (jobs_in P t')) w) w"
proof (cases "pd_text (driver P) sid")
  case (Inl e)
  have fails: "sql_processing_to_enqueued (driver P) (table_name P) (Inl e) = on_jobs P (\<lambda>n d t. Inl e)" for e
    by (simp add: on_jobs_def sql_processing_to_enqueued_def fun_eq_iff)
  show ?thesis
    unfolding pg_reclaim_jobs_from_server_def update_processing_to_enqueued_def Inl tryE_simps fails
    by (rule effect_query [OF assms(1)]) simp
next
  case (Inr s)
  then have s: "s = sid" by (rule text_same)
  show ?thesis
    unfolding pg_reclaim_jobs_from_server_def update_processing_to_enqueued_def Inr tryE_simps s assms(3)
    by (rule sweep_effect [OF assms(1, 2) owner_row])
qed

lemma expire_effect:
  assumes inv: "pg_inv P (store w)"
  shows "wp (pg_delete_expired_jobs P now) (effect P (\<lambda>m t'. \<forall>i. jobs_in P t' i =
     (case pg_jobs P (store w) i of
        None \<Rightarrow> None
      | Some j \<Rightarrow>
          if \<exists>x. job_expires_at j = Some x \<and> x < of_pg (pd_bind_time (driver P) now) then None else Some j)) w) w"
proof -
  let ?gone = "\<lambda>r. case rw_expires_at r of None \<Rightarrow> False | Some x \<Rightarrow> x < pd_bind_time (driver P) now"
  have on: "sql_delete_expired (driver P) (table_name P) now' = on_jobs P (\<lambda>n d t.
      let gone = (\<lambda>r. case rw_expires_at r of None \<Rightarrow> False | Some x \<Rightarrow> x < now') in
      Inr (length (filter gone (hm_values t)), hm_retain (\<lambda>r. \<not> gone r) t))" for now'
    by (simp add: on_jobs_def sql_delete_expired_def fun_eq_iff)
  have at: "jobs_in P (hm_retain (\<lambda>r. \<not> ?gone r) t) i = (case jobs_in P t i of None \<Rightarrow> None | Some j \<Rightarrow>
      if \<exists>x. job_expires_at j = Some x \<and> x < of_pg (pd_bind_time (driver P) now) then None else Some j)"
    if t: "table_ok P t" for t i
  proof (cases "canonical P i")
    case False
    then have "jobs_in P t' i = None" for t'
      by (auto simp: jobs_in_def canonical_def split: sum.split)
    then show ?thesis by simp
  next
    case True
    then obtain u where i: "i = pd_show_uuid (driver P) u" by (rule canonicalE)
    have wf: "hm_wf t" using t by (simp add: table_ok_def)
    show ?thesis
    proof (cases "hm_get t u")
      case None
      then show ?thesis by (simp add: i hm_get_retain [OF wf])
    next
      case (Some r)
      with t obtain j where j: "row_to_job P r = Inr j" by (rule row_view)
      have "?gone r \<longleftrightarrow> (\<exists>x. job_expires_at j = Some x \<and> x < of_pg (pd_bind_time (driver P) now))"
        using row_to_job_fields(5) [OF j] by (cases "rw_expires_at r") (auto simp: of_pg_def)
      then show ?thesis using Some j by (simp add: i hm_get_retain [OF wf] job_of_def)
    qed
  qed
  show ?thesis
    unfolding pg_delete_expired_jobs_def on
    by (rule effect_query [OF inv])
       (use at [OF table_of_inv [OF inv]] table_of_inv [OF inv] in
         \<open>auto simp: Let_def table_ok_def hm_get_retain split: option.splits if_splits\<close>)
qed

lemma lock_columns:
  assumes inv: "pg_inv P d"
    and f: "\<And>t a t'. f t = Inr (a, t') \<Longrightarrow> relocked t t'"
    and run: "on_table jobs_lens (driver P) name f d = Inr (a, d')"
  shows "pg_inv P d' \<and> pg_jobs P d' = pg_jobs P d \<and> db_links d' = db_links d \<and> db_busy d' = db_busy d"
proof -
  from run obtain t t' where t: "hm_get (db_jobs d) name = Some t" "f t = Inr (a, t')"
    and d': "d' = db_jobs_update (hm_insert name t') d"
    by (auto simp: on_table_def split: option.splits prod.splits)
  show ?thesis
  proof (cases "name = table_name P")
    case False
    then show ?thesis using inv by (simp add: d' pg_inv_def pg_rows_def)
  next
    case True
    then have rows: "pg_rows P d = t" "table_ok P t" using t(1) inv by (simp_all add: pg_rows_def pg_inv_def)
    have "table_ok P t' \<and> jobs_in P t' = jobs_in P t"
    proof (cases "t' = t")
      case False
      with f [OF t(2), unfolded relocked_def] obtain u r x y z where r: "hm_get t u = Some r"
        and t': "t' = hm_insert u (r\<lparr>rw_locked_by := x, rw_locked_at := y, rw_lock_expires_at := z\<rparr>) t" by blast
      let ?r = "r\<lparr>rw_locked_by := x, rw_locked_at := y, rw_lock_expires_at := z\<rparr>"
      from rows(2) r have ok: "row_ok P ?r" "rw_id ?r = u" by (auto simp: table_ok_def row_ok_def)
      have "job_of P ?r = jobs_in P t (pd_show_uuid (driver P) u)"
        by (simp add: r) (simp add: job_of_def row_to_job_def)
      then have "jobs_in P t' = jobs_in P t" unfolding t' jobs_in_insert [OF ok(1)] by (simp only: fun_upd_triv)
      then show ?thesis using table_ok_insert [OF rows(2) ok] by (simp add: t')
    qed (use rows in simp)
    then show ?thesis using True rows(1) by (simp add: d')
  qed
qed

lemma job_locks_keep:
  fixes w :: "('p database, 'e) world"
  assumes "pg_inv P (store w)"
  defines "kept \<equiv> \<lambda>w'. env_kept w w' \<and> pg_inv P (store w') \<and> pg_jobs P (store w') = pg_jobs P (store w)
    \<and> (db_links (store w) = [] \<longrightarrow> db_links (store w') = []) \<and> db_busy (store w') = db_busy (store w)"
  shows "wp (pg_try_acquire_job_lock P i wid secs) (\<lambda>r w'. kept w') w"
    and "wp (pg_release_job_lock P i wid) (\<lambda>r w'. kept w') w"
proof -
  have one: "wp (bindE (ret x) (\<lambda>u. query msg (st u))) (\<lambda>r w'. kept w') w"
    if "\<And>u a d'. st u (db_count (store w)) (bumped (store w)) = Inr (a, d') \<Longrightarrow> pg_inv P d' \<and> pg_jobs P d' = pg_jobs P (store w)
      \<and> db_links d' = tl (db_links (store w)) \<and> db_busy d' = db_busy (store w)" for x msg st
  proof (cases x)
    case (Inl e)
    then show ?thesis using assms(1) by (simp add: wp_simps kept_def)
  next
    case (Inr u)
    then show ?thesis unfolding Inr query_def
      by (simp add: wp_simps)
         (rule wp_statement, use that [of u] assms(1) in \<open>simp_all add: kept_def\<close>)
  qed
  have inv: "pg_inv P (bumped (store w))" using assms(1) by simp
  have "on_table jobs_lens (driver P) name f (bumped (store w)) = Inr (a, d') \<Longrightarrow> pg_inv P d' \<and> pg_jobs P d' = pg_jobs P (store w)
      \<and> db_links d' = tl (db_links (store w)) \<and> db_busy d' = db_busy (store w)"
    if "\<And>t a t'. f t = Inr (a, t') \<Longrightarrow> relocked t t'"
    for f :: "'p job_table \<Rightarrow> sqlx_error + bool \<times> 'p job_table" and name a d'
    using lock_columns [OF inv that] by simp
  note keeps = this
  show "wp (pg_try_acquire_job_lock P i wid secs) (\<lambda>r w'. kept w') w"
    unfolding pg_try_acquire_job_lock_def
    by (rule one)
       (auto simp: sql_acquire_job_lock_def with_functions_def Let_def split: if_splits elim!: keeps [rotated] split: option.splits)
  show "wp (pg_release_job_lock P i wid) (\<lambda>r w'. kept w') w"
    unfolding pg_release_job_lock_def
    by (rule one)
       (auto simp: sql_release_job_lock_def with_functions_def split: if_splits elim!: keeps [rotated] split: option.splits)
qed

lemma step_inv: "pg_step P w w' \<Longrightarrow> pg_inv P (store w) \<Longrightarrow> pg_inv P (store w')"
proof (induction rule: pg_step.induct)
  case (enqueues j w r w')
  with wp_runD [OF enqueue_effect enqueues(1)] show ?case by (simp add: effect_def)
next
  case (updates j w r w')
  with wp_runD [OF update_effect updates(1)] show ?case by (simp add: effect_def)
next
  case (swaps j k w b w')
  with wp_runD [OF update_if_state_effect swaps(1)] show ?case by (simp add: effect_def)
next
  case (deletes i w b w')
  with wp_runD [OF delete_effect deletes(1)] show ?case by (simp add: effect_def)
next
  case (fetches wid qs w x w')
  with wp_runD [OF fetch_effect fetches(1)] show ?case by (simp add: effect_def)
next
  case (claims_scheduled now n w js w')
  with wp_runD [OF claim_effect [OF _ _ due_row_state(1)] claims_scheduled(1) [unfolded pg_claim_due_scheduled_jobs_def]]
  show ?case by (simp add: effect_def)
next
  case (claims_retries now n w js w')
  with wp_runD [OF claim_effect [OF _ _ due_row_state(2)] claims_retries(1) [unfolded pg_claim_due_retry_jobs_def]]
  show ?case by (simp add: effect_def)
next
  case (requeues before w m w')
  with wp_runD [OF stranded_effect [OF _ refl refl] requeues(1)] show ?case by (simp add: effect_def)
next
  case (reclaims sid w m w')
  with wp_runD [OF reclaim_effect [OF _ refl refl] reclaims(1)] show ?case by (simp add: effect_def)
next
  case (expires now w m w')
  with wp_runD [OF expire_effect expires(1)] show ?case by (simp add: effect_def)
next
  case (locks i wid secs w b w')
  with wp_runD [OF job_locks_keep(1) locks(1)] show ?case by simp
next
  case (unlocks i wid w b w')
  with wp_runD [OF job_locks_keep(2) unlocks(1)] show ?case by simp
next
  case (migrates w u w')
  with wp_runD [OF migrate_keeps migrates(1)] show ?case by simp
qed

lemmas process_job = updates.process_job_law

lemma reachable_inv: "(pg_step P)\<^sup>*\<^sup>* w w' \<Longrightarrow> pg_inv P (store w) \<Longrightarrow> pg_inv P (store w')"
  by (induction rule: rtranclp_induct) (auto intro: step_inv)

end

lemma effect_jobs:
  assumes "effect P (\<lambda>x t'. Q x (jobs_in P t')) w r w'"
  shows "let T = pg_jobs P (store w); T' = pg_jobs P (store w') in
    (\<forall>x. r = Inr x \<longrightarrow> Q x T') \<and> (T' = T \<or> (\<exists>x. Q x T')) \<and> (reliable (store w) \<and> isl r \<longrightarrow> T' = T)"
  using assms by (auto simp: effect_def Let_def isl_def)

text \<open>
  C6. The invariant of the PostgreSQL backend. Whatever the clients do in whatever order, on whatever connection and with
  whatever answers lost, from a table each of whose rows denotes a job under its own id the database only reaches such
  tables: every row can be read back, and the column with the name of the state agrees with the document of the state.
\<close>

theorem pg_reachable_inv:
  assumes "pg_laws P read_time" and "(pg_step P)\<^sup>*\<^sup>* w w'" and "pg_inv P (store w)"
  shows "pg_inv P (store w')"
  by (rule pg_laws.reachable_inv [OF assms])

theorem pg_reachable_inv_witness:
  "pg_inv default_pg (store (snd (run_state (pg_delete default_pg ''1'')
     (pg_world (installed_database [] [sample_row 1 0 (Enqueued 5 ''default'')]) :: (_, unit) world))))"
proof (rule pg_reachable_inv [OF default_laws])
  let ?w = "pg_world (installed_database [] [sample_row 1 0 (Enqueued 5 ''default'')]) :: (_, unit) world"
  show "(pg_step default_pg)\<^sup>*\<^sup>* ?w (snd (run_state (pg_delete default_pg ''1'') ?w))"
    by (rule r_into_rtranclp,
        rule deletes [where b = "fst (run_state (pg_delete default_pg ''1'') ?w)", OF _ sample_canonical(1)]) simp
qed simp

text \<open>
  C10. The fetch of a worker on PostgreSQL, on any connection. A job it returns was \<open>Enqueued\<close> or \<open>AwaitingRetry\<close>, on one of
  the worker's queues and not held by another transaction, and none of a higher priority, or of the same priority and
  older, was free; it is now \<open>Processing\<close> and nothing else has changed. It returns no job only when every such job is held.
  If it fails, nothing has changed or one whole fetch has been made, and the latter only if an answer was lost.
\<close>

theorem pg_fetch_exact:
  fixes w :: "('p database, 'e) world"
  assumes "pg_laws P read_time" and "pg_inv P (store w)"
  shows "wp (pg_fetch_and_lock_job P wid qs) (\<lambda>r w'.
     let T = pg_jobs P (store w); T' = pg_jobs P (store w'); now = clock w (ticks w); busy = pg_busy P w in
     (\<forall>x. r = Inr x \<longrightarrow> pg_fetched busy wid qs now T x T')
     \<and> (T' = T \<or> (\<exists>x. pg_fetched busy wid qs now T x T'))
     \<and> (reliable (store w) \<and> isl r \<longrightarrow> T' = T)) w"
  by (rule wp_mono [OF pg_laws.fetch_effect [OF assms]]) (drule effect_jobs, simp add: Let_def)

theorem pg_fetch_exact_witness:
  "wp (pg_fetch_and_lock_job default_pg ''w'' None) (\<lambda>r w'.
     \<forall>j. r = Inr (Some j) \<longrightarrow> kind (job_state j) = KProcessing)
     (pg_world (installed_database [] [sample_row 1 0 (Enqueued 5 ''default''), sample_row 2 7 (Enqueued 5 ''default'')]) :: (_, unit) world)"
  by (rule wp_mono [OF pg_fetch_exact [OF default_laws, where wid = "''w''" and qs = None]])
     (auto simp: sample_inv Let_def pg_fetched_def)

text \<open>
  C21. The promotion of due scheduled jobs on PostgreSQL, on any connection. It returns, as they are now stored, exactly
  as many as the limit allows of the \<open>Scheduled\<close> jobs that are due when their deadline is read to the microsecond and that are not
  held by another transaction, and leaves none of a higher priority than one that it takes. Each becomes \<open>Enqueued\<close>
  at the time of the server and nothing else changes; if it fails, it has done all of this or nothing, and
  nothing if no answer was lost.
\<close>

theorem pg_claim_scheduled_exact:
  fixes w :: "('p database, 'e) world"
  assumes "pg_laws P read_time" and "pg_inv P (store w)" and "limit < 2 ^ 64"
  shows "wp (pg_claim_due_scheduled_jobs P now limit) (\<lambda>r w'.
     let T = pg_jobs P (store w); T' = pg_jobs P (store w'); due = pg_due read_time (pd_bind_time (driver P) now) KScheduled;
         claimed = pg_claimed due (pg_busy P w) limit (of_pg (db_now (store w) (db_count (store w)))) T in
     (\<forall>js. r = Inr js \<longrightarrow> claimed js T') \<and> (T' = T \<or> (\<exists>js. claimed js T')) \<and> (reliable (store w) \<and> isl r \<longrightarrow> T' = T)) w"
  unfolding pg_claim_due_scheduled_jobs_def Let_def
  by (rule wp_mono [OF pg_laws.claim_effect [OF assms pg_laws.due_row_state(1) [OF assms(1)]]])
     (assumption+, drule effect_jobs, simp add: Let_def)

lemma claimed_kinds:
  assumes "pg_claimed due busy limit now T js T'" and "j \<in> set js"
  shows "kind (job_state j) = KEnqueued"
proof -
  from assms have "T' (job_id j) = Some j"
    "T' (job_id j) = map_option (\<lambda>j. j\<lparr>job_state := Enqueued now (job_queue j)\<rparr>) (T (job_id j))"
    by (auto simp: pg_claimed_def Let_def)
  then have "\<exists>j0. j0\<lparr>job_state := Enqueued now (job_queue j0)\<rparr> = j" by auto
  then show ?thesis by auto
qed

theorem pg_claim_scheduled_exact_witness:
  "wp (pg_claim_due_scheduled_jobs default_pg 3000000000 10) (\<lambda>r w'.
     \<forall>js. r = Inr js \<longrightarrow> (\<forall>j \<in> set js. kind (job_state j) = KEnqueued))
     (pg_world (installed_database [] [sample_row 1 0 (Scheduled 5 1000000000 ''timer'')]) :: (_, unit) world)"
  by (rule wp_mono [OF pg_claim_scheduled_exact [OF default_laws]])
     (auto simp: Let_def dest: claimed_kinds)

text \<open>
  The stale sweep on PostgreSQL, on any connection. It requeues exactly the jobs that have been \<open>Processing\<close> since
  before the given time, each on its own queue, changes no other job and returns their number; if it fails, it has done
  all of this or nothing, and nothing if no answer was lost.
\<close>

theorem pg_stale_sweep_exact:
  fixes w :: "('p database, 'e) world"
  assumes "pg_laws P read_time" and "pg_inv P (store w)" and "T = pg_jobs P (store w)"
    and "I = {i. \<exists>j. T i = Some j \<and> pg_stranded read_time (pd_bind_time (driver P) before) (job_state j)}"
  shows "wp (pg_requeue_stranded_jobs P before) (\<lambda>r w'. let T' = pg_jobs P (store w') in
     (\<forall>n. r = Inr n \<longrightarrow> n = card I \<and> requeued I T T') \<and> (T' = T \<or> requeued I T T') \<and> (reliable (store w) \<and> isl r \<longrightarrow> T' = T)) w"
  by (rule wp_mono [OF pg_laws.stranded_effect [OF assms]]) (drule effect_jobs, auto simp: Let_def assms(3))

lemma sample_running:
  "\<forall>i j. jobs_in default_pg [(1, sample_row (Suc 0) p (Processing t x y))] i = Some j \<longrightarrow>
     kind (job_state j) = KProcessing"
  by (auto dest: sample_only)

theorem pg_stale_sweep_exact_witness:
  "wp (pg_requeue_stranded_jobs default_pg 7000) (\<lambda>r w'. \<forall>i j. pg_jobs default_pg (store w') i = Some j \<longrightarrow>
       kind (job_state j) \<in> {KProcessing, KEnqueued})
     (pg_world (installed_database [Unanswered ''lost''] [sample_row 1 0 (Processing 5000 ''w'' ''me'')]) :: (_, unit) world)"
  by (rule wp_mono [OF pg_stale_sweep_exact [OF default_laws _ refl refl]])
     (use requeued_kinds [OF _ sample_running] in \<open>simp_all add: Let_def, blast\<close>)

text \<open>
  C19. The compare-and-swap of a job state on PostgreSQL is atomic on any connection, though it may take two
  requests. \<open>True\<close> says that the job was in the expected state and has been replaced, up to what the columns keep of
  it; \<open>False\<close> that it is stored in another state and nothing has changed. Whatever else is returned, either the swap has been
  made as a whole or nothing has changed, and the latter if no answer was lost.
\<close>

theorem pg_swap_atomic:
  fixes w :: "('p database, 'e) world"
  assumes "pg_laws P read_time" and "pg_inv P (store w)" and "canonical P (job_id j)"
  shows "wp (pg_update_if_state P j k) (\<lambda>r w'.
     let T = pg_jobs P (store w); T' = pg_jobs P (store w');
         swap = (\<exists>j0. T (job_id j) = Some j0 \<and> kind (job_state j0) = k \<and> T' = T(job_id j \<mapsto> pg_kept P j0 j)) in
     (r = Inr True \<longrightarrow> swap)
     \<and> (r = Inr False \<longrightarrow> (\<exists>j0. T (job_id j) = Some j0 \<and> kind (job_state j0) \<noteq> k) \<and> T' = T)
     \<and> (T' = T \<or> swap) \<and> (reliable (store w) \<and> isl r \<longrightarrow> T' = T)) w"
  by (rule wp_mono [OF pg_laws.update_if_state_effect [OF assms]])
     (drule effect_jobs, auto simp: Let_def split: if_splits)

theorem pg_swap_atomic_witness:
  "wp (pg_update_if_state default_pg (row_sample 1 0 (Succeeded 9 1 None)) KProcessing) (\<lambda>r w'.
     r = Inr False \<longrightarrow> pg_jobs default_pg (store w') = pg_jobs default_pg (installed_database [] [sample_row 1 0 (Enqueued 5 ''default'')]))
     (pg_world (installed_database [] [sample_row 1 0 (Enqueued 5 ''default'')]) :: (_, unit) world)"
  by (rule wp_mono [OF pg_swap_atomic [OF default_laws]]) (simp_all add: Let_def)

section \<open>Processing\<close>


definition pg_running :: "ref_json job" where
  "pg_running = row_sample 1 0 (Processing 6 ''w'' ''postgres-storage'')"

abbreviation pg_processor :: "exec_result \<Rightarrow> (ref_json, ref_json database, unit) job_processor" where
  "pg_processor answer \<equiv> answering_processor (postgres_storage_api default_pg) answer"


section \<open>Round trip\<close>

text \<open>A job whose values the server takes.\<close>

definition storable :: "'p postgres_storage \<Rightarrow> 'p job \<Rightarrow> bool" where
  "storable P j \<longleftrightarrow>
     canonical P (job_id j)
     \<and> (\<exists>v v'. pd_state_to (driver P) (job_state j) = Inr v \<and> pd_jsonb (driver P) v = Inr v')
     \<and> (\<exists>v. pd_jsonb (driver P) (job_payload j) = Inr v)
     \<and> (job_metadata j \<noteq> [] \<longrightarrow>
          (\<exists>v v'. pd_metadata_to (driver P) (job_metadata j) = Inr v \<and> pd_jsonb (driver P) v = Inr v'))
     \<and> (\<forall>s \<in> {job_method j, job_queue j} \<union> set_option (job_type j). length s \<le> 255 \<and> CHR 0x00 \<notin> set s)"

text \<open>What comes back: times to the microsecond, the attempt and the time-out as they pass through 32 bits, the arguments as
  the server stores them.\<close>

definition read_back :: "'p postgres_storage \<Rightarrow> 'p job \<Rightarrow> 'p job \<Rightarrow> bool" where
  "read_back P j j' \<longleftrightarrow>
     job_id j' = job_id j \<and> job_method j' = job_method j \<and> job_state j' = job_state j \<and> job_queue j' = job_queue j
     \<and> job_priority j' = job_priority j \<and> job_max_retries j' = job_max_retries j \<and> job_type j' = job_type j
     \<and> pd_jsonb (driver P) (job_payload j) = Inr (job_payload j')
     \<and> hm_get (job_metadata j') = hm_get (job_metadata j)
     \<and> job_attempt j' = (if sint (job_attempt j :: i32) < 0 then 0 else job_attempt j)
     \<and> job_timeout_seconds j' = map_option (\<lambda>t. scast (ucast t :: i32)) (job_timeout_seconds j)
     \<and> \<bar>job_created_at j' - job_created_at j\<bar> < 1000
     \<and> rel_option (\<lambda>x' x. \<bar>x' - x\<bar> < 1000) (job_expires_at j') (job_expires_at j)"

context pg_laws
begin

lemma storable_row:
  assumes j: "storable P j"
  obtains vals md u c1 c where "job_to_row_values P j = Inr vals" "metadata_value P j = Inr md"
    "parse_job_id P (job_id j) = Inr u" "received_columns (driver P) (bound_row P u vals md j) = Inr c1"
    "fitted_columns (driver P) c1 = Inr c" "rw_id c = u" "job_id j = pd_show_uuid (driver P) u" "read_back P j (as_stored P j)"
proof -
  from j have "canonical P (job_id j)" by (simp add: storable_def)
  then obtain u where u: "job_id j = pd_show_uuid (driver P) u" "parse_job_id P (job_id j) = Inr u"
    by (metis canonicalE parse_job_id_Inr)
  from j obtain v v' a where v: "pd_state_to (driver P) (job_state j) = Inr v" "pd_jsonb (driver P) v = Inr v'"
    "pd_jsonb (driver P) (job_payload j) = Inr a" by (auto simp: storable_def)
  have md: "\<exists>md md' m. metadata_value P j = Inr md \<and> optE (pd_jsonb (driver P)) md = Inr md' \<and> hm_get m = hm_get (job_metadata j)
      \<and> (case md' of None \<Rightarrow> Inr [] | Some x \<Rightarrow> pd_metadata_of (driver P) x) = Inr m"
  proof (cases "job_metadata j = []")
    case True
    then show ?thesis by (simp add: metadata_value_def)
  next
    case False
    with j obtain x x' where x: "pd_metadata_to (driver P) (job_metadata j) = Inr x" "pd_jsonb (driver P) x = Inr x'"
      by (auto simp: storable_def)
    from metadata_back [OF x] x show ?thesis using False by (auto simp: metadata_value_def)
  qed
  then obtain md md' m where md: "metadata_value P j = Inr md" "optE (pd_jsonb (driver P)) md = Inr md'"
    "hm_get m = hm_get (job_metadata j)" "(case md' of None \<Rightarrow> Inr [] | Some x \<Rightarrow> pd_metadata_of (driver P) x) = Inr m" by blast
  let ?vals = "(job_state_to_name (job_state j), v, job_payload j)"
  let ?c = "(bound_row P u ?vals md j)\<lparr>rw_arguments := a, rw_state_data := v', rw_metadata := md'\<rparr>"
  have vals: "job_to_row_values P j = Inr ?vals" by (simp add: job_to_row_values_def job_state_to_data_def v(1))
  have texts: "pd_text (driver P) s = Inr s" "pd_varchar (driver P) 255 s = Inr s"
    if "s = job_method j \<or> s = job_queue j \<or> job_type j = Some s" for s
    using that j text_arrives varchar_fits by (auto simp: storable_def)
  have ty: "optE (pd_text (driver P)) (job_type j) = Inr (job_type j)" "optE (pd_varchar (driver P) 255) (job_type j) = Inr (job_type j)"
    using texts by (cases "job_type j"; simp)+
  have c1: "received_columns (driver P) (bound_row P u ?vals md j) = Inr ?c"
    by (simp add: received_columns_def bound_row_def texts v ty md(2))
  have c: "fitted_columns (driver P) ?c = Inr ?c"
    by (simp add: fitted_columns_def bound_row_def texts ty)
  have st: "stored_row P j = Some ?c" by (rule stored_rowI [OF vals md(1) u(2) c1 c])
  have id: "rw_id ?c = u" by (simp add: bound_row_def)
  have "read_back P j j'" if "row_to_job P ?c = Inr j'" for j'
    using that md(3, 4) state_back [OF v(1, 2)] v(3) bind_near u(1)
    by (auto simp: row_to_job_def data_to_job_state_def bound_row_def read_back_def option.map_comp comp_def option.rel_map
        intro!: option.rel_refl_strong split: option.splits sum.splits)
  then have "read_back P j (as_stored P j)" using stored_rowD(3) [OF st] by simp
  with that [OF vals md(1) u(2) c1 c id u(1)] show ?thesis .
qed

end

context pg_laws
begin

lemma enqueue_answers:
  fixes w :: "('p database, 'e) world"
  assumes inv: "pg_inv P (store w)" and links: "db_links (store w) = []" and j: "storable P j"
    and new: "pg_jobs P (store w) (job_id j) = None"
  shows "wp (pg_enqueue P j) (\<lambda>r w'. r = Inr () \<and> db_links (store w') = []) w"
proof -
  from storable_row [OF j] obtain vals md u c1 c where v: "job_to_row_values P j = Inr vals" "metadata_value P j = Inr md"
    "parse_job_id P (job_id j) = Inr u" "received_columns (driver P) (bound_row P u vals md j) = Inr c1"
    "fitted_columns (driver P) c1 = Inr c" "rw_id c = u" "job_id j = pd_show_uuid (driver P) u" .
  have "hm_get (pg_rows P (store w)) u = None"
  proof (cases "hm_get (pg_rows P (store w)) u")
    case (Some r)
    with table_of_inv [OF inv] new v(7) show ?thesis by (auto elim!: row_view)
  qed
  then have run: "(tryE (received_columns (driver P) (bound_row P u vals md j)) (\<lambda>c.
     tryE (fitted_columns (driver P) c) (\<lambda>c.
       if \<exists>y. hm_get (pg_rows P (store w)) (rw_id c) = Some y then Inl (pg_error (driver P) ''23505'')
       else Inr ((), hm_insert (rw_id c) c (pg_rows P (store w)))))) = Inr ((), hm_insert u c (pg_rows P (store w)))"
    by (simp add: v(4-6))
  show ?thesis
    unfolding pg_enqueue_def v(1-3) single_statements
    by (simp add: wp_simps)
       (rule wp_mono [OF query_answers(2) [OF inv links]], rule run, simp add: wp_simps)
qed

lemma get_answers:
  fixes w :: "('p database, 'e) world"
  assumes inv: "pg_inv P (store w)" and links: "db_links (store w) = []" and i: "canonical P i"
  shows "wp (pg_get P i) (\<lambda>r w'. \<exists>x. r = Inr x) w"
proof -
  from i obtain u where u: "i = pd_show_uuid (driver P) u" "parse_job_id P i = Inr u"
    by (metis canonicalE parse_job_id_Inr)
  have "\<exists>x. optE (row_to_job P) (hm_get (pg_rows P (store w)) u) = Inr x"
  proof (cases "hm_get (pg_rows P (store w)) u")
    case (Some r)
    with table_of_inv [OF inv] obtain j where "row_to_job P r = Inr j" by (rule row_view)
    with Some show ?thesis by simp
  qed simp
  then show ?thesis
    unfolding pg_get_def u(2) single_statements
    by (simp add: wp_simps) (rule wp_mono [OF query_answers(2) [OF inv links]], rule refl, simp add: wp_simps)
qed

lemma enqueue_get:
  fixes w :: "('p database, 'e) world"
  assumes inv: "pg_inv P (store w)" and links: "db_links (store w) = []" and j: "storable P j"
    and new: "pg_jobs P (store w) (job_id j) = None"
  shows "wp (bindE (pg_enqueue P j) (\<lambda>_. pg_get P (job_id j))) (\<lambda>r w'. r = Inr (Some (as_stored P j))) w"
proof -
  have i: "canonical P (job_id j)" using j by (simp add: storable_def)
  show ?thesis
    unfolding wp_bindE
  proof (rule wp_mono [OF wp_conjI [OF enqueue_answers [OF assms] enqueue_effect [OF inv i]]], elim conjE)
    fix r and w1 :: "('p database, 'e) world"
    assume r: "r = Inr ()" and links1: "db_links (store w1) = []"
      and e: "effect P (\<lambda>_ t'. pg_jobs P (store w) (job_id j) = None
         \<and> jobs_in P t' = (pg_jobs P (store w))(job_id j \<mapsto> as_stored P j)) w r w1"
    from e r have inv1: "pg_inv P (store w1)" and at: "pg_jobs P (store w1) (job_id j) = Some (as_stored P j)"
      by (simp_all add: effect_def)
    show "(case r of Inl e \<Rightarrow> (\<lambda>w'. Inl e = Inr (Some (as_stored P j)))
       | Inr v \<Rightarrow> wp (pg_get P (job_id j)) (\<lambda>r w'. r = Inr (Some (as_stored P j)))) w1"
      unfolding r sum.case
      by (rule wp_mono [OF wp_conjI [OF get_answers [OF inv1 links1 i] get_effect [OF inv1 i]]])
         (auto simp: effect_def at)
  qed
qed

end

text \<open>
  C20. The round trip through a table of PostgreSQL. On a database that answers, a job whose texts fit its
  columns and whose id is new is enqueued, and a read by its id returns it: the same id, method, queue, state,
  priority, retries, kind and metadata, the arguments as the server stores them, the times to the microsecond, an attempt
  above 2147483647 as 0 and the time-out as it passes through 32 bits.
\<close>

theorem pg_roundtrip:
  fixes w :: "('p database, 'e) world"
  assumes "pg_laws P read_time" and "pg_inv P (store w)" and "db_links (store w) = []" and "storable P j"
    and "pg_jobs P (store w) (job_id j) = None"
  shows "wp (bindE (pg_enqueue P j) (\<lambda>_. pg_get P (job_id j))) (\<lambda>r w'. \<exists>j'. r = Inr (Some j') \<and> read_back P j j') w"
  by (rule wp_mono [OF pg_laws.enqueue_get [OF assms]], rule pg_laws.storable_row [OF assms(1, 4)]) auto

theorem pg_roundtrip_witness:
  "wp (bindE (pg_enqueue default_pg (row_sample 1 7 (Enqueued 5 ''default'')))
       (\<lambda>_. pg_get default_pg ''1'')) (\<lambda>r w'. \<exists>j'. r = Inr (Some j') \<and> job_priority j' = 7)
     (pg_world (installed_database [] []) :: (_, unit) world)"
proof -
  let ?w = "pg_world (installed_database [] []) :: (_, unit) world" and ?j = "row_sample 1 7 (Enqueued 5 ''default'')"
  have "pg_inv default_pg (store ?w)" "storable default_pg ?j" "pg_jobs default_pg (store ?w) (job_id ?j) = None"
    by (auto simp: sample_inv storable_def row_sample_def jobs_in_def split: sum.split)
  note trip = pg_roundtrip [OF default_laws this(1) _ this(2, 3)]
  have "wp (bindE (pg_enqueue default_pg ?j) (\<lambda>_. pg_get default_pg (job_id ?j)))
      (\<lambda>r w'. \<exists>j'. r = Inr (Some j') \<and> job_priority j' = 7) ?w"
    by (rule wp_mono [OF trip]) (auto simp: read_back_def)
  then show ?thesis by simp
qed

text \<open>A number of seconds through a column of 32 bits.\<close>

lemma narrow_seconds:
  fixes t :: "64 word"
  shows "(scast (ucast t :: 32 word) :: 64 word) = t \<longleftrightarrow> unat t < 2 ^ 31 \<or> 2 ^ 64 - 2 ^ 31 \<le> unat t"
proof -
  define n where "n = uint t"
  have n: "0 \<le> n" "n < 2 ^ 64" using uint_lt2p [of t] by (simp_all add: n_def)
  have s: "sint (ucast t :: 32 word) = (n + 2 ^ 31) mod 2 ^ 32 - 2 ^ 31"
    by (simp add: sint_uint signed_take_bit_eq_take_bit_shift take_bit_eq_mod n_def unsigned_ucast_eq mod_add_left_eq)
  have "uint (scast (ucast t :: 32 word) :: 64 word) = ((n + 2 ^ 31) mod 2 ^ 32 - 2 ^ 31) mod 2 ^ 64"
    by (simp only: scast_eq uint_word_of_int s) simp
  then have "(scast (ucast t :: 32 word) :: 64 word) = t \<longleftrightarrow> ((n + 2 ^ 31) mod 2 ^ 32 - 2 ^ 31) mod 2 ^ 64 = n"
    by (simp add: word_uint_eq_iff n_def)
  also have "\<dots> \<longleftrightarrow> n < 2 ^ 31 \<or> 2 ^ 64 - 2 ^ 31 \<le> n"
  proof -
    define m k where "m = (n + 2 ^ 31) mod 2 ^ 32 - 2 ^ 31" and "k = (n + 2 ^ 31) div 2 ^ 32"
    have m: "n = m + 2 ^ 32 * k" "- (2 ^ 31) \<le> m" "m < 2 ^ 31"
      by (simp_all add: m_def k_def minus_mult_div_eq_mod [symmetric])
    have "m mod 2 ^ 64 = (if 0 \<le> m then m else m + 2 ^ 64)"
      using m(2, 3) mod_add_self2 [of m "2 ^ 64"] mod_pos_pos_trivial [of "m + 2 ^ 64" "2 ^ 64"] by auto
    moreover have "0 \<le> k" "k < 2 ^ 32 + (if m < 0 then 1 else 0)" using m n by auto
    ultimately show ?thesis
      using m n unfolding m_def [symmetric] by (cases "k = 0"; cases "k = 2 ^ 32"; cases "0 \<le> m") auto
  qed
  also have "\<dots> \<longleftrightarrow> unat t < 2 ^ 31 \<or> 2 ^ 64 - 2 ^ 31 \<le> unat t"
  proof -
    have "int (unat t) = n" by (simp add: n_def)
    then have "unat t < 2147483648 \<longleftrightarrow> n < 2147483648" "18446744071562067968 \<le> unat t \<longleftrightarrow> 18446744071562067968 \<le> n"
      by linarith+
    then show ?thesis by simp
  qed
  finally show ?thesis .
qed

text \<open>
  What \<^verbatim>\<open>as i32\<close> keeps. A time-out in seconds, a 64-bit number, comes back from its column as itself exactly
  when its upper 33 bits agree; any other comes back as a different number, 2147483648 seconds as 18446744071562067968 and
  4294967296 seconds as 0.
\<close>

theorem pg_timeout_narrowed:
  assumes "row_to_job P (bound_row P u vals md j) = Inr j'" and "job_timeout_seconds j = Some t"
  shows "job_timeout_seconds j' = Some t \<longleftrightarrow> unat t < 2 ^ 31 \<or> 2 ^ 64 - 2 ^ 31 \<le> unat t"
proof -
  have "job_timeout_seconds j' = Some (scast (ucast t :: i32))"
    using assms by (auto simp: row_to_job_def bound_row_def split: prod.splits)
  then show ?thesis by (simp add: narrow_seconds)
qed

theorem pg_timeout_narrowed_witness:
  "\<exists>j'. row_to_job default_pg (bound_row default_pg 1 (''enqueued'', J_state (Enqueued 5 ''default''), J_null) None
       ((row_sample 1 0 (Enqueued 5 ''default''))\<lparr>job_timeout_seconds := Some 2147483648\<rparr>)) = Inr j'
     \<and> job_timeout_seconds j' \<noteq> Some 2147483648"
proof -
  let ?j = "(row_sample 1 0 (Enqueued 5 ''default''))\<lparr>job_timeout_seconds := Some 2147483648\<rparr>"
  obtain j' where "row_to_job default_pg (bound_row default_pg 1 (''enqueued'', J_state (Enqueued 5 ''default''), J_null) None ?j) = Inr j'"
    by (simp add: row_to_job_def bound_row_def data_to_job_state_def)
  from this pg_timeout_narrowed [OF this, of 2147483648] show ?thesis by auto
qed

section \<open>Fetches that are answered\<close>

text \<open>The values of a fetch are taken by the server.\<close>

definition fetch_values :: "'p postgres_storage \<Rightarrow> time \<Rightarrow> string \<Rightarrow> string list option \<Rightarrow> bool" where
  "fetch_values P now wid qs \<longleftrightarrow>
     (\<exists>v v'. pd_state_to (driver P) (Processing now wid ''postgres-storage'') = Inr v \<and> pd_jsonb (driver P) v = Inr v')
     \<and> (\<forall>q \<in> set (case qs of None \<Rightarrow> [] | Some qs \<Rightarrow> qs). CHR 0x00 \<notin> set q)"

context pg_laws
begin

lemma fetch_answers:
  fixes w :: "('p database, 'e) world"
  assumes inv: "pg_inv P (store w)" and links: "db_links (store w) = []"
    and vals: "fetch_values P (clock w (ticks w)) wid qs"
  shows "wp (pg_fetch_and_lock_job P wid qs) (\<lambda>r w'. \<exists>x. r = Inr x) w"
proof -
  let ?st = "Processing (clock w (ticks w)) wid ''postgres-storage''" and ?w = "w\<lparr>ticks := Suc (ticks w)\<rparr>"
  from vals obtain v v' where v: "pd_state_to (driver P) ?st = Inr v" "pd_jsonb (driver P) v = Inr v'"
    by (auto simp: fetch_values_def)
  define qs' where "qs' = (case qs of None \<Rightarrow> [] | Some qs \<Rightarrow> qs)"
  have texts: "(case qs of None \<Rightarrow> Inr [] | Some qs \<Rightarrow> mapE (pd_text (driver P)) qs) = Inr qs'"
    using vals by (cases qs) (auto simp: qs'_def fetch_values_def text_arrives intro!: mapE_Inr [where g = "\<lambda>s. s", simplified])
  let ?f = "\<lambda>n d t. tryE (pd_jsonb (driver P) v) (\<lambda>new_data.
      tryE (case qs of None \<Rightarrow> Inr [] | Some qs \<Rightarrow> mapE (pd_text (driver P)) qs) (\<lambda>qs.
      case filter (\<lambda>r. \<not> db_busy d n (rw_id r)) (claim_order
          (filter (\<lambda>r. rw_state_name r \<in> {''enqueued'', ''awaiting_retry''} \<and> (qs = [] \<or> rw_queue_name r \<in> set qs))
            (scan (db_rank d n) t))) of
        [] \<Rightarrow> Inr (None, t)
      | r # _ \<Rightarrow>
          let r' = r\<lparr>rw_state_name := ''processing'', rw_state_data := new_data\<rparr> in
          Inr (Some r', hm_insert (rw_id r) r' t)))"
  obtain x t' where run: "?f (db_count (store w)) (bumped (store w)) (pg_rows P (store w)) = Inr (x, t')"
    unfolding v texts tryE_simps Let_def by (cases "filter (\<lambda>r. \<not> db_busy (bumped (store w)) (db_count (store w)) (rw_id r)) (claim_order
          (filter (\<lambda>r. rw_state_name r \<in> {''enqueued'', ''awaiting_retry''} \<and> (qs' = [] \<or> rw_queue_name r \<in> set qs'))
            (scan (db_rank (bumped (store w)) (db_count (store w))) (pg_rows P (store w)))))") auto
  from fetch_one [OF table_of_inv [OF inv] v(1) busy_show [of w, symmetric] run [unfolded bumped_simps]]
  obtain y where y: "optE (row_to_job P) x = Inr y" by (auto split: sum.splits)
  have w: "store ?w = store w" by simp
  have "wp (query ''Failed to fetch and lock job'' (on_jobs P ?f)) (\<lambda>r w'. r = Inr x \<and> db_links (store w') = []) ?w"
    by (rule query_answers(1), unfold w) (rule inv links run)+
  then show ?thesis
    unfolding pg_fetch_and_lock_job_def
    by (simp add: wp_simps Let_def fetch_on_jobs job_state_to_data_def v(1) job_state_to_name_def)
       (erule wp_mono, simp add: wp_simps y)
qed

end

lemma fetched_some:
  assumes "pg_fetched busy wid qs now T x T'" and "T i = Some j" and "pg_fetchable qs j" and "\<not> busy i"
  shows "\<exists>j'. x = Some j'"
  using assms by (cases x) (auto simp: pg_fetched_def)

text \<open>
  C34. A fetch that can, does. On a database that answers, when some job on the worker's queues is \<open>Enqueued\<close> or
  \<open>AwaitingRetry\<close> and no transaction holds it, the fetch returns a job, whatever the time the retry was set for.
\<close>

theorem pg_fetch_takes:
  fixes w :: "('p database, 'e) world"
  assumes "pg_laws P read_time" and "pg_inv P (store w)" and "db_links (store w) = []"
    and "fetch_values P (clock w (ticks w)) wid qs"
    and "pg_jobs P (store w) i = Some j" and "kind (job_state j) \<in> {KEnqueued, KAwaitingRetry}"
    and "queue_ok qs (job_queue j)" and "\<not> pg_busy P w i"
  shows "wp (pg_fetch_and_lock_job P wid qs) (\<lambda>r w'. \<exists>j'. r = Inr (Some j')) w"
  by (rule wp_mono [OF wp_conjI [OF pg_laws.fetch_answers [OF assms(1-4)] pg_laws.fetch_effect [OF assms(1, 2)]]])
     (use assms(5-8) in \<open>auto simp: effect_def pg_fetchable_def intro!: fetched_some [where T = "pg_jobs P (store w)"]\<close>)

theorem pg_fetch_takes_witness:
  "wp (pg_fetch_and_lock_job default_pg ''w'' None) (\<lambda>r w'. \<exists>j'. r = Inr (Some j'))
     (pg_world (installed_database [] [sample_row 1 0 (AwaitingRetry 5 (dur_seconds 1000000) ''boom'')]) :: (_, unit) world)"
  by (rule pg_fetch_takes [OF default_laws, where i = "''1''" and j = "row_sample 1 0 (AwaitingRetry 5 (dur_seconds 1000000) ''boom'')"])
     (simp_all add: fetch_values_def queue_ok_def pg_busy_def)

lemma fetched_only:
  assumes "pg_fetched busy wid qs now T x T'" and "pg_fetchable qs j" and "\<not> busy i" and "T = [i \<mapsto> j]"
  shows "\<exists>j'. x = Some j' \<and> job_id j' = i"
  using assms by (cases x) (auto simp: pg_fetched_def split: if_splits)

text \<open>
  The job locks do not keep a worker from a job. On a database that answers and whose rows nobody holds, after
  \<^verbatim>\<open>try_acquire_job_lock\<close> by one worker, whether it got the lock or not, another worker's fetch returns a job all the
  same when there is only that one.
\<close>

theorem pg_job_locks_ignored:
  fixes w :: "('p database, 'e) world"
  assumes "pg_laws P read_time" and "pg_inv P (store w)" and "db_links (store w) = []"
    and "\<And>t. fetch_values P t wid qs" and "\<And>n u. \<not> db_busy (store w) n u"
    and "pg_jobs P (store w) = [i \<mapsto> j]" and "kind (job_state j) = KEnqueued" and "queue_ok qs (job_queue j)"
  shows "wp (do { _ \<leftarrow> pg_try_acquire_job_lock P i other secs; pg_fetch_and_lock_job P wid qs })
     (\<lambda>r w'. \<exists>j'. r = Inr (Some j') \<and> job_id j' = i) w"
  unfolding wp_bind
proof (rule wp_mono [OF pg_laws.job_locks_keep(1) [OF assms(1, 2)]], elim conjE)
  fix r and w1 :: "('p database, 'e) world"
  assume w1: "env_kept w w1" "pg_inv P (store w1)" "pg_jobs P (store w1) = pg_jobs P (store w)"
    "db_links (store w) = [] \<longrightarrow> db_links (store w1) = []" "db_busy (store w1) = db_busy (store w)"
  then have free: "db_links (store w1) = []" "\<not> pg_busy P w1 k" for k using assms(3, 5) by (auto simp: pg_busy_def)
  have one: "pg_fetchable qs j" using assms(7, 8) by (simp add: pg_fetchable_def)
  show "wp (pg_fetch_and_lock_job P wid qs) (\<lambda>r w'. \<exists>j'. r = Inr (Some j') \<and> job_id j' = i) w1"
    by (rule wp_mono [OF wp_conjI [OF pg_laws.fetch_answers [OF assms(1) w1(2) free(1) assms(4)]
            pg_laws.fetch_effect [OF assms(1) w1(2)]]])
       (use w1(3) assms(6) in \<open>auto simp: effect_def intro!: fetched_only [where busy = "pg_busy P w1", OF _ one free(2)]\<close>)
qed

theorem pg_job_locks_ignored_witness:
  "wp (do { _ \<leftarrow> pg_try_acquire_job_lock default_pg ''1'' ''v'' 60; pg_fetch_and_lock_job default_pg ''w'' None })
     (\<lambda>r w'. \<exists>j'. r = Inr (Some j') \<and> job_id j' = ''1'')
     (pg_world (installed_database [] [sample_row 1 0 (Enqueued 5 ''default'')]) :: (_, unit) world)"
proof (rule pg_job_locks_ignored [OF default_laws])
  show "pg_jobs default_pg (store (pg_world (installed_database [] [sample_row 1 0 (Enqueued 5 ''default'')]) :: (_, unit) world))
      = [''1'' \<mapsto> row_sample 1 0 (Enqueued 5 ''default'')]"
  proof
    fix i
    show "pg_jobs default_pg (store (pg_world (installed_database [] [sample_row 1 0 (Enqueued 5 ''default'')]) :: (_, unit) world)) i
        = [''1'' \<mapsto> row_sample 1 0 (Enqueued 5 ''default'')] i"
      by (cases "i = ''1''") (simp, auto simp: jobs_in_def split: sum.split)
  qed
qed (simp_all add: fetch_values_def queue_ok_def)

section \<open>Schemas\<close>

text \<open>A table of jobs is missing, and the connection is as good as before.\<close>

definition lacks :: "string \<Rightarrow> ('p database, 'e) world \<Rightarrow> ('p database, 'e) world \<Rightarrow> bool" where
  "lacks name w w' \<longleftrightarrow>
     hm_get (db_jobs (store w')) name = None \<and> (db_links (store w) = [] \<longrightarrow> db_links (store w') = [])"

lemma lacks_statement:
  assumes "lacks name w0 w" and "\<And>n d a d'. st n d = Inr (a, d') \<Longrightarrow> hm_get (db_jobs d) name = None \<Longrightarrow>
      hm_get (db_jobs d') name = None \<and> db_links d' = db_links d"
  shows "wp (run_statement st) (\<lambda>r w'. lacks name w0 w') w"
  by (rule wp_statement) (use assms in \<open>fastforce simp: lacks_def\<close>)+

lemma lacks_query:
  assumes "lacks name w0 w" and "\<And>n d a d'. st n d = Inr (a, d') \<Longrightarrow> hm_get (db_jobs d) name = None \<Longrightarrow>
      hm_get (db_jobs d') name = None \<and> db_links d' = db_links d"
  shows "wp (query msg st) (\<lambda>r w'. lacks name w0 w') w"
  unfolding query_def wp_simps by (rule wp_mono [OF lacks_statement [OF assms]]) (simp_all add: wp_simps)

lemma lacks_migrate:
  assumes "lacks name w0 w" and "name \<noteq> ''qml.qml_jobs''"
  shows "wp (pg_migrate P) (\<lambda>r w'. lacks name w0 w' \<and> (db_links (store w0) = [] \<longrightarrow> r = Inr ())) w"
proof -
  have "wp (run_statement install_sql) (\<lambda>r w'. lacks name w0 w') w"
    by (rule lacks_statement [OF assms(1)]) (use assms(2) in \<open>auto simp: install_sql_def\<close>)
  moreover have "wp (run_statement install_sql) (\<lambda>r w'. db_links (store w0) = [] \<longrightarrow> r = Inr ()) w"
    using assms(1)
    by (cases "db_links (store w0) = []") (simp_all add: wp_def run_statement_def Let_def install_sql_def lacks_def split: prod.split)
  ultimately show ?thesis
    unfolding pg_migrate_def wp_simps
    by (rule wp_mono [OF wp_conjI]) (auto simp: wp_simps)
qed

lemma lacks_bindE:
  assumes "wp m (\<lambda>r w'. lacks name w0 w') w" and "\<And>v w'. lacks name w0 w' \<Longrightarrow> wp (f v) (\<lambda>r w'. lacks name w0 w') w'"
  shows "wp (bindE m f) (\<lambda>r w'. lacks name w0 w') w"
  unfolding wp_bindE by (rule wp_mono [OF assms(1)]) (auto simp: assms(2) split: sum.split)

lemma lacks_tables:
  "lacks name w0 w \<Longrightarrow> wp (table_exists P tab) (\<lambda>r w'. lacks name w0 w') w"
  "lacks name w0 w \<Longrightarrow> wp (all_tables_exist P tabs) (\<lambda>r w'. lacks name w0 w') w"
proof -
  show one: "lacks name w0 w \<Longrightarrow> wp (table_exists P tab) (\<lambda>r w'. lacks name w0 w') w" for tab w
    unfolding table_exists_def by (rule lacks_query) (auto simp: sql_table_present_def Let_def)
  show "lacks name w0 w \<Longrightarrow> wp (all_tables_exist P tabs) (\<lambda>r w'. lacks name w0 w') w"
    by (induction tabs arbitrary: w) (auto simp: wp_return intro!: lacks_bindE one)
qed

lemma lacks_current:
  assumes "lacks name w0 w"
  shows "wp (schema_is_current P) (\<lambda>r w'. lacks name w0 w') w"
proof -
  have "wp (check_schema_present P) (\<lambda>r w'. lacks name w0 w') w"
    unfolding check_schema_present_def by (rule lacks_query [OF assms]) (auto simp: sql_schema_present_def)
  then show ?thesis
    unfolding schema_is_current_def by (auto simp: wp_return intro!: lacks_bindE lacks_tables)
qed

lemma enqueue_lacks:
  assumes "hm_get (db_jobs (store w)) (table_name P) = None" and "table_name P \<noteq> ''qml.qml_jobs''"
  shows "wp (pg_enqueue P j) (\<lambda>r w'. isl r \<and> hm_get (db_jobs (store w')) (table_name P) = None) w"
proof -
  let ?no = "\<lambda>w'. hm_get (db_jobs (store w')) (table_name P) = None"
  have run: "wp (run_statement (sql_insert_job (driver P) (table_name P) c)) (\<lambda>r w'. isl r \<and> ?no w') w" if "?no w" for c w
    by (rule wp_statement) (use that in \<open>auto simp: sql_insert_job_def on_table_def\<close>)
  have again: "wp (query msg (sql_insert_job (driver P) (table_name P) c)) (\<lambda>r w'. isl r \<and> ?no w') w" if "?no w" for c msg w
    unfolding query_def wp_simps by (rule wp_mono [OF run [OF that]]) (auto simp: wp_return split: sum.splits)
  have migrate: "wp (pg_migrate P) (\<lambda>r w'. ?no w') w" if "?no w" for w
    by (rule wp_mono [OF lacks_migrate [OF _ assms(2), of w w]]) (use that in \<open>simp_all add: lacks_def\<close>)
  have after: "wp (bindE (pg_migrate P) (\<lambda>_. query msg (sql_insert_job (driver P) (table_name P) c))) (\<lambda>r w'. isl r \<and> ?no w') w"
    if "?no w" for c msg w
    unfolding wp_bindE by (rule wp_mono [OF migrate [OF that]]) (auto simp: again split: sum.split)
  have op: "wp (handle_schema_error P (sql_insert_job (driver P) (table_name P) c) name) (\<lambda>r w'. isl r \<and> ?no w') w" for c name
    unfolding handle_schema_error_def wp_bind
    by (rule wp_mono [OF run [OF assms(1)]]) (auto simp: wp_return after split: sum.splits)
  have lift: "wp (bindE (ret x) f) (\<lambda>r w'. isl r \<and> ?no w') w" if "\<And>v. wp (f v) (\<lambda>r w'. isl r \<and> ?no w') w" for x :: "storage_error + 'v" and f
    using that assms(1) by (cases x) (simp_all add: wp_simps)
  have fin: "wp (bindE m (\<lambda>_. ret (Inr ()))) (\<lambda>r w'. isl r \<and> ?no w') w" if "wp m (\<lambda>r w'. isl r \<and> ?no w') w" for m
    unfolding wp_bindE by (rule wp_mono [OF that]) (auto split: sum.splits)
  show ?thesis
    unfolding pg_enqueue_def by (intro lift fin op)
qed

text \<open>
  C35. A schema of one's own. When the configured table of jobs is not \<^verbatim>\<open>qml.qml_jobs\<close> and does not exist, the
  automatic migration does not make it: \<open>new\<close> succeeds on a database that answers, but every enqueue fails, on any
  connection, and the table stays missing.
\<close>

theorem pg_foreign_schema:
  assumes "full_table_name cfg \<noteq> ''qml.qml_jobs''" and "hm_get (db_jobs (store w)) (full_table_name cfg) = None"
    and "pc_auto_migrate cfg"
  shows "wp (pg_new connect D cfg) (\<lambda>r w'.
     (connect cfg = None \<and> db_links (store w) = [] \<longrightarrow> (\<exists>P. r = Inr P))
     \<and> (\<forall>P j. r = Inr P \<longrightarrow> wp (pg_enqueue P j)
          (\<lambda>x w''. isl x \<and> hm_get (db_jobs (store w'')) (full_table_name cfg) = None) w')) w"
proof (cases "connect cfg")
  case (Some e)
  then show ?thesis by (simp add: pg_new_def wp_simps)
next
  case None
  let ?P = "\<lparr>ps_config = cfg, ps_driver = D\<rparr>" and ?name = "full_table_name cfg"
  have name: "table_name ?P = ?name" by (simp add: table_name_def)
  have "lacks ?name w w" using assms(2) by (simp add: lacks_def)
  note current = lacks_current [OF this, of ?P]
  have "wp (migrate_if_needed ?P) (\<lambda>r w'. lacks ?name w w' \<and> (db_links (store w) = [] \<longrightarrow> \<not> isl r)) w"
    unfolding migrate_if_needed_def wp_bind
    by (rule wp_mono [OF current])
       (auto simp: wp_simps split: sum.split bool.split intro!: wp_mono [OF lacks_migrate [OF _ assms(1)]])
  then show ?thesis
    unfolding pg_new_def None option.case Let_def if_P [OF assms(3)] wp_bindE
    by (rule wp_mono)
       (use enqueue_lacks [where P = ?P, unfolded name] assms(1) in \<open>auto simp: wp_simps lacks_def split: sum.splits\<close>)
qed

theorem pg_foreign_schema_witness:
  "wp (pg_new (\<lambda>cfg. None) ref_driver (postgres_config_with_defaults\<lparr>pc_schema_name := ''public''\<rparr>)) (\<lambda>r w'.
     (\<exists>P. r = Inr P)
     \<and> (\<forall>P j. r = Inr P \<longrightarrow> wp (pg_enqueue P j) (\<lambda>x w''. isl x \<and> hm_get (db_jobs (store w'')) ''public.qml_jobs'' = None) w'))
     (pg_world (fresh_database []) :: (_, unit) world)"
proof -
  let ?cfg = "postgres_config_with_defaults\<lparr>pc_schema_name := ''public''\<rparr>"
  have "full_table_name ?cfg = ''public.qml_jobs''" "pc_auto_migrate ?cfg"
    by (simp_all add: full_table_name_def postgres_config_with_defaults_def)
  with pg_foreign_schema [of ?cfg "pg_world (fresh_database []) :: (_, unit) world" "\<lambda>cfg. None" ref_driver] show ?thesis by simp
qed

end
