(* ===== verification/Dashboard.thy ===== *)
theory Dashboard
  imports Background_Props
begin

text \<open>
  The dashboard: its service (\<^verbatim>\<open>src/dashboard/service.rs\<close>) over the monitoring part of a storage, and the
  handlers of its HTTP interface (\<^verbatim>\<open>src/dashboard/routes.rs\<close>). Extraction of path and query, JSON and
  the routing itself are \<^verbatim>\<open>axum\<close>'s. The counters are \<^verbatim>\<open>u64\<close>; a result \<open>None\<close> is a panic inside \<^verbatim>\<open>list\<close>.
\<close>

section \<open>Service\<close>

record job_statistics =
  js_total_jobs :: u64
  js_succeeded_count :: u64
  js_failed_count :: u64
  js_processing_count :: u64
  js_enqueued_count :: u64
  js_scheduled_count :: u64
  js_awaiting_retry_count :: u64
  js_deleted_count :: u64

record queue_statistics =
  qs_queue_name :: string
  qs_enqueued_count :: u64
  qs_processing_count :: u64
  qs_scheduled_count :: u64

record job_details =
  jd_id :: string
  jd_method_name :: string
  jd_queue :: string
  jd_state :: job_state
  jd_created_at :: time
  jd_updated_at :: time
  jd_attempts :: u32
  jd_max_attempts :: u32
  jd_error_message :: "string option"
  jd_scheduled_at :: "time option"
  jd_duration_ms :: "u64 option"

record server_statistics =
  ss_server_count :: u32
  ss_worker_count :: u32
  ss_queues :: "queue_statistics list"
  ss_jobs :: job_statistics
  ss_recent_jobs :: "job_details list"

fun extract_state_info :: "job_state \<Rightarrow> string option \<times> time option \<times> u64 option" where
  "extract_state_info (Failed _ ex _) = (Some ex, None, None)"
| "extract_state_info (Succeeded _ total_duration _) = (None, None, Some total_duration)"
| "extract_state_info (Scheduled _ enqueue_at _) = (None, Some enqueue_at, None)"
| "extract_state_info (AwaitingRetry _ retry_at last_exception) = (Some last_exception, Some retry_at, None)"
| "extract_state_info _ = (None, None, None)"

definition job_details_of :: "'p job \<Rightarrow> job_details" where
  "job_details_of j =
     (case extract_state_info (job_state j) of
        (error_message, scheduled_at, duration_ms) \<Rightarrow>
          \<lparr>jd_id = job_id j, jd_method_name = job_method j, jd_queue = job_queue j,
           jd_state = job_state j, jd_created_at = job_created_at j, jd_updated_at = job_created_at j,
           jd_attempts = job_attempt j, jd_max_attempts = job_max_retries j,
           jd_error_message = error_message, jd_scheduled_at = scheduled_at,
           jd_duration_ms = duration_ms\<rparr>)"

definition empty_statistics :: "u64 \<Rightarrow> job_statistics" where
  "empty_statistics n =
     \<lparr>js_total_jobs = n, js_succeeded_count = 0, js_failed_count = 0, js_processing_count = 0,
      js_enqueued_count = 0, js_scheduled_count = 0, js_awaiting_retry_count = 0, js_deleted_count = 0\<rparr>"

fun bump :: "job_state_kind \<Rightarrow> u64 \<Rightarrow> job_statistics \<Rightarrow> job_statistics" where
  "bump KEnqueued n s = s\<lparr>js_enqueued_count := js_enqueued_count s + n\<rparr>"
| "bump KProcessing n s = s\<lparr>js_processing_count := js_processing_count s + n\<rparr>"
| "bump KSucceeded n s = s\<lparr>js_succeeded_count := js_succeeded_count s + n\<rparr>"
| "bump KFailed n s = s\<lparr>js_failed_count := js_failed_count s + n\<rparr>"
| "bump KScheduled n s = s\<lparr>js_scheduled_count := js_scheduled_count s + n\<rparr>"
| "bump KAwaitingRetry n s = s\<lparr>js_awaiting_retry_count := js_awaiting_retry_count s + n\<rparr>"
| "bump KDeleted n s = s\<lparr>js_deleted_count := js_deleted_count s + n\<rparr>"

fun sum_counts :: "(job_state_kind \<times> nat) list \<Rightarrow> job_statistics \<Rightarrow> job_statistics" where
  "sum_counts [] s = s"
| "sum_counts ((k, n) # cs) s =
     sum_counts cs (bump k (word_of_nat n) (s\<lparr>js_total_jobs := js_total_jobs s + word_of_nat n\<rparr>))"

fun sum_sample :: "'p job list \<Rightarrow> job_statistics \<Rightarrow> job_statistics" where
  "sum_sample [] s = s"
| "sum_sample (j # js) s = sum_sample js (bump (kind (job_state j)) 1 s)"

definition se_text :: "storage_error \<Rightarrow> qml_error" where
  "se_text e = StorageError (storage_error_display e)"

definition get_job_statistics ::
  "('p, 's, 'e, 'z) monitoring_api_scheme \<Rightarrow> ('s, 'e, (qml_error + job_statistics) option) act" where
  "get_job_statistics M = do {
     r \<leftarrow> st_get_job_counts M;
     (case r of
        Inr counts \<Rightarrow> ret (Some (Inr (sum_counts counts (empty_statistics 0))))
      | Inl _ \<Rightarrow> do {
          l \<leftarrow> st_list M None (Some 100) None;
          ret (map_option (\<lambda>x. case x of
                 Inl e \<Rightarrow> Inl (se_text e)
               | Inr js \<Rightarrow> Inr (sum_sample js (empty_statistics (word_of_nat (length js))))) l) }) }"

definition new_queue :: "string \<Rightarrow> queue_statistics" where
  "new_queue q = \<lparr>qs_queue_name = q, qs_enqueued_count = 0, qs_processing_count = 0, qs_scheduled_count = 0\<rparr>"

fun bump_queue :: "job_state_kind \<Rightarrow> queue_statistics \<Rightarrow> queue_statistics" where
  "bump_queue KEnqueued s = s\<lparr>qs_enqueued_count := qs_enqueued_count s + 1\<rparr>"
| "bump_queue KProcessing s = s\<lparr>qs_processing_count := qs_processing_count s + 1\<rparr>"
| "bump_queue KScheduled s = s\<lparr>qs_scheduled_count := qs_scheduled_count s + 1\<rparr>"
| "bump_queue _ s = s"

fun count_queues :: "'p job list \<Rightarrow> (string, queue_statistics) hmap \<Rightarrow> (string, queue_statistics) hmap" where
  "count_queues [] m = m"
| "count_queues (j # js) m =
     count_queues js
       (hm_insert (job_queue j)
          (bump_queue (kind (job_state j))
             (case hm_get m (job_queue j) of None \<Rightarrow> new_queue (job_queue j) | Some s \<Rightarrow> s)) m)"

definition get_queue_statistics ::
  "('p, 's, 'e, 'z) monitoring_api_scheme \<Rightarrow> ('s, 'e, (qml_error + queue_statistics list) option) act" where
  "get_queue_statistics M = do {
     l \<leftarrow> st_list M None (Some 200) None;
     ret (map_option (\<lambda>x. case x of
            Inl e \<Rightarrow> Inl (se_text e)
          | Inr js \<Rightarrow> Inr (hm_values (count_queues js []))) l) }"

definition list_details ::
  "('p, 's, 'e, 'z) monitoring_api_scheme \<Rightarrow> job_state_kind option \<Rightarrow> nat
     \<Rightarrow> ('s, 'e, (qml_error + job_details list) option) act" where
  "list_details M f limit = do {
     l \<leftarrow> st_list M f (Some limit) None;
     ret (map_option (\<lambda>x. case x of
            Inl e \<Rightarrow> Inl (se_text e)
          | Inr js \<Rightarrow> Inr (map job_details_of js)) l) }"

definition get_recent_jobs ::
  "('p, 's, 'e, 'z) monitoring_api_scheme \<Rightarrow> nat option \<Rightarrow> ('s, 'e, (qml_error + job_details list) option) act" where
  "get_recent_jobs M limit = list_details M None (case limit of None \<Rightarrow> 50 | Some n \<Rightarrow> n)"

definition get_jobs_by_state ::
  "('p, 's, 'e, 'z) monitoring_api_scheme \<Rightarrow> job_state_kind \<Rightarrow> ('s, 'e, (qml_error + job_details list) option) act" where
  "get_jobs_by_state M k = list_details M (Some k) 100"

definition get_job_details ::
  "('p, 's, 'e, 'z) monitoring_api_scheme \<Rightarrow> string \<Rightarrow> ('s, 'e, qml_error + job_details option) act" where
  "get_job_details M i = do {
     r \<leftarrow> st_get M i;
     ret (case r of
            Inl e \<Rightarrow> Inl (se_text e)
          | Inr j \<Rightarrow> Inr (map_option job_details_of j)) }"

definition ds_retry_job :: "('p, 's, 'e, 'z) monitoring_api_scheme \<Rightarrow> string \<Rightarrow> ('s, 'e, qml_error + bool) act" where
  "ds_retry_job M i = do {
     r \<leftarrow> st_get M i;
     (case r of
        Inl e \<Rightarrow> ret (Inl (se_text e))
      | Inr None \<Rightarrow> ret (Inr False)
      | Inr (Some j) \<Rightarrow>
          if kind (job_state j) \<noteq> KFailed then ret (Inr False)
          else do {
            st \<leftarrow> js_enqueued (job_queue j);
            u \<leftarrow> st_update_if_state M (j\<lparr>job_state := st\<rparr>) KFailed;
            ret (case u of Inl e \<Rightarrow> Inl (se_text e) | Inr b \<Rightarrow> Inr b) }) }"

definition ds_delete_job :: "('p, 's, 'e, 'z) monitoring_api_scheme \<Rightarrow> string \<Rightarrow> ('s, 'e, qml_error + bool) act" where
  "ds_delete_job M i = do {
     r \<leftarrow> st_delete M i;
     ret (case r of Inr b \<Rightarrow> Inr b | Inl e \<Rightarrow> Inl (se_text e)) }"

text \<open>The three queries in sequence, each with its early return.\<close>

definition get_server_statistics ::
  "('p, 's, 'e, 'z) monitoring_api_scheme \<Rightarrow> ('s, 'e, (qml_error + server_statistics) option) act" where
  "get_server_statistics M = do {
     a \<leftarrow> get_job_statistics M;
     (case a of
        None \<Rightarrow> ret None
      | Some (Inl e) \<Rightarrow> ret (Some (Inl e))
      | Some (Inr jobs) \<Rightarrow> do {
          b \<leftarrow> get_queue_statistics M;
          (case b of
             None \<Rightarrow> ret None
           | Some (Inl e) \<Rightarrow> ret (Some (Inl e))
           | Some (Inr qs) \<Rightarrow> do {
               c \<leftarrow> get_recent_jobs M (Some 20);
               ret (map_option (\<lambda>x. case x of
                      Inl e \<Rightarrow> Inl e
                    | Inr recent \<Rightarrow> Inr \<lparr>ss_server_count = 1, ss_worker_count = 1, ss_queues = qs,
                                        ss_jobs = jobs, ss_recent_jobs = recent\<rparr>) c) }) }) }"

section \<open>Handlers\<close>

record jobs_query =
  jq_state :: "string option"
  jq_limit :: "nat option"
  jq_queue :: "string option"

record 'a api_response =
  ar_success :: bool
  ar_data :: "'a option"
  ar_error :: "string option"

definition api_success :: "'a \<Rightarrow> 'a api_response" where
  "api_success x = \<lparr>ar_success = True, ar_data = Some x, ar_error = None\<rparr>"

definition api_error :: "string \<Rightarrow> 'a api_response" where
  "api_error m = \<lparr>ar_success = False, ar_data = None, ar_error = Some m\<rparr>"

datatype status_code = INTERNAL_SERVER_ERROR | NOT_FOUND | UNAUTHORIZED | FORBIDDEN

definition parse_job_state :: "string \<Rightarrow> job_state_kind option" where
  "parse_job_state s =
     (let l = map to_lower s in
      if l = ''enqueued'' then Some KEnqueued
      else if l = ''processing'' then Some KProcessing
      else if l = ''succeeded'' then Some KSucceeded
      else if l = ''failed'' then Some KFailed
      else if l = ''scheduled'' then Some KScheduled
      else if l = ''awaiting_retry'' \<or> l = ''awaitingretry'' then Some KAwaitingRetry
      else if l = ''deleted'' then Some KDeleted
      else None)"

definition answer :: "(qml_error + 'a) option \<Rightarrow> (status_code + 'a api_response) option" where
  "answer = map_option (\<lambda>x. case x of Inl e \<Rightarrow> Inl INTERNAL_SERVER_ERROR | Inr v \<Rightarrow> Inr (api_success v))"

definition h_get_server_statistics where
  "h_get_server_statistics M = do { r \<leftarrow> get_server_statistics M; ret (answer r) }"

definition h_get_job_statistics where
  "h_get_job_statistics M = do { r \<leftarrow> get_job_statistics M; ret (answer r) }"

definition h_get_queue_statistics where
  "h_get_queue_statistics M = do { r \<leftarrow> get_queue_statistics M; ret (answer r) }"

text \<open>The selection that \<^verbatim>\<open>get_jobs\<close> and \<^verbatim>\<open>get_queue_jobs\<close> share: \<open>None\<close> for a state that does not parse.\<close>

definition select_jobs ::
  "('p, 's, 'e, 'z) monitoring_api_scheme \<Rightarrow> jobs_query
     \<Rightarrow> ('s, 'e, (qml_error + job_details list) option option) act" where
  "select_jobs M q =
     (case jq_state q of
        Some state_str \<Rightarrow>
          (case parse_job_state state_str of
             None \<Rightarrow> ret None
           | Some k \<Rightarrow> do { r \<leftarrow> get_jobs_by_state M k; ret (Some r) })
      | None \<Rightarrow> do { r \<leftarrow> get_recent_jobs M (jq_limit q); ret (Some r) })"

definition filtered_answer ::
  "(job_details \<Rightarrow> bool) \<Rightarrow> (qml_error + job_details list) option option
     \<Rightarrow> (status_code + job_details list api_response) option" where
  "filtered_answer P r =
     (case r of
        None \<Rightarrow> Some (Inr (api_error ''Invalid job state''))
      | Some x \<Rightarrow> answer (map_option (map_sum id (filter P)) x))"

definition h_get_jobs where
  "h_get_jobs M q = do {
     r \<leftarrow> select_jobs M q;
     ret (filtered_answer (\<lambda>d. case jq_queue q of Some n \<Rightarrow> jd_queue d = n | None \<Rightarrow> True) r) }"

definition h_get_queue_jobs where
  "h_get_queue_jobs M queue_name q = do {
     r \<leftarrow> select_jobs M q;
     ret (filtered_answer (\<lambda>d. jd_queue d = queue_name) r) }"

definition h_get_job_details where
  "h_get_job_details M i = do {
     r \<leftarrow> get_job_details M i;
     ret (case r of
            Inr (Some d) \<Rightarrow> Inr (api_success d)
          | Inr None \<Rightarrow> Inl NOT_FOUND
          | Inl e \<Rightarrow> Inl INTERNAL_SERVER_ERROR) }"

definition h_retry_job where
  "h_retry_job M i = do {
     r \<leftarrow> ds_retry_job M i;
     ret (case r of
            Inr b \<Rightarrow> Inr (if b then api_success True else api_error ''Job not found or not in failed state'')
          | Inl e \<Rightarrow> Inl INTERNAL_SERVER_ERROR) }"

definition h_delete_job where
  "h_delete_job M i = do {
     r \<leftarrow> ds_delete_job M i;
     ret (case r of
            Inr b \<Rightarrow> Inr (if b then api_success True else api_error ''Job not found'')
          | Inl e \<Rightarrow> Inl INTERNAL_SERVER_ERROR) }"

definition health_check :: "string api_response" where
  "health_check = api_success ''Dashboard service is running''"

lemma parse_job_state_name: "parse_job_state (kind_name k) = Some k"
  by (cases k; simp only:; code_simp)

text \<open>The counter of a state in the statistics, and what the loop over the counts makes of it.\<close>

fun stat_of :: "job_state_kind \<Rightarrow> job_statistics \<Rightarrow> u64" where
  "stat_of KEnqueued s = js_enqueued_count s"
| "stat_of KProcessing s = js_processing_count s"
| "stat_of KSucceeded s = js_succeeded_count s"
| "stat_of KFailed s = js_failed_count s"
| "stat_of KScheduled s = js_scheduled_count s"
| "stat_of KAwaitingRetry s = js_awaiting_retry_count s"
| "stat_of KDeleted s = js_deleted_count s"

lemma stat_of_bump [simp]:
  "stat_of k (bump k' n s) = (if k = k' then stat_of k s + n else stat_of k s)"
  by (cases k; cases k'; simp)

lemma bump_total [simp]: "js_total_jobs (bump k n s) = js_total_jobs s"
  by (cases k; simp)

lemma stat_of_total [simp]: "stat_of k (s\<lparr>js_total_jobs := t\<rparr>) = stat_of k s"
  by (cases k; simp)

lemma sum_counts_total:
  "js_total_jobs (sum_counts cs s) = js_total_jobs s + word_of_nat (sum_list (map snd cs))"
  by (induction cs s rule: sum_counts.induct) (simp_all add: algebra_simps)

lemma sum_counts_stat:
  "hm_wf cs \<Longrightarrow> stat_of k (sum_counts cs s) =
     stat_of k s + word_of_nat (case hm_get cs k of None \<Rightarrow> 0 | Some n \<Rightarrow> n)"
proof (induction cs s rule: sum_counts.induct)
  case (2 k' n cs s)
  then have "hm_get cs k' = None" by (simp add: map_of_eq_None_iff)
  with 2 show ?case by (auto simp: algebra_simps)
qed simp

lemma sum_list_hm_insert:
  "sum_list (map snd (hm_insert k (Suc (case hm_get m k of None \<Rightarrow> 0 | Some n \<Rightarrow> n)) m))
     = Suc (sum_list (map snd m))"
  by (induction m) auto

lemma count_kinds_sum: "sum_list (map snd (count_kinds js m)) = sum_list (map snd m) + length js"
  by (induction js arbitrary: m) (simp_all add: Let_def sum_list_hm_insert)

lemma count_kinds_wf: "hm_wf m \<Longrightarrow> hm_wf (count_kinds js m)"
  by (induction js arbitrary: m) (simp_all add: Let_def)

section \<open>Properties\<close>

text \<open>
  A retry from the dashboard: \<^verbatim>\<open>retry_job\<close> answers \<open>True\<close> exactly when the job exists and is \<open>Failed\<close>; then
  its state, and nothing else of it, becomes \<open>Enqueued\<close> on its own queue and no other job changes.
  Otherwise it answers \<open>False\<close> and changes nothing.
\<close>

theorem dashboard_retry_exact:
  fixes w :: "('p memory_storage, 'e) world"
  assumes "mem_inv (store w)"
  shows "wp (ds_retry_job memory_storage_api i) (\<lambda>r w'. mem_inv (store w') \<and>
     (case mem_jobs (store w) i of
        Some j \<Rightarrow>
          if kind (job_state j) = KFailed
          then r = Inr True \<and> mem_jobs (store w') =
                 (mem_jobs (store w))(i \<mapsto> j\<lparr>job_state := Enqueued (clock w (ticks w)) (job_queue j)\<rparr>)
          else r = Inr False \<and> store w' = store w
      | None \<Rightarrow> r = Inr False \<and> store w' = store w)) w"
proof (cases "mem_jobs (store w) i")
  case None
  with assms show ?thesis by (simp add: ds_retry_job_def mem_get_def wp_simps mem_jobs_def)
next
  case (Some j)
  have id_j: "job_id j = i" using mem_inv_keyed [OF assms] Some by (rule keyedD)
  with Some assms show ?thesis
    by (auto simp: ds_retry_job_def mem_get_def mem_update_if_state_def wp_simps mem_jobs_def mem_inv_put_job)
qed

theorem dashboard_retry_exact_witness:
  "wp (ds_retry_job memory_storage_api ''a'') (\<lambda>r w'. r = Inr True)
     (sample_world (sample_memory [sample_job ''a'' 0 5 (Failed 6 ''boom'' None)]) :: (_, unit) world)"
  by (rule wp_mono [OF dashboard_retry_exact]) auto

text \<open>
  A retried job may be swept away: the retry keeps the expiry that the permanent failure stamped on
  the job, and the sweep looks at nothing else. So once that time has come, a cleanup sweep removes
  the job although it is \<open>Enqueued\<close> and waiting to run.
\<close>

theorem retried_job_is_swept:
  fixes w :: "('p memory_storage, 'e) world"
  assumes "mem_inv (store w)" and "mem_jobs (store w) i = Some j" and "kind (job_state j) = KFailed"
    and "job_expires_at j = Some ts" and "ts \<le> clock w (Suc (ticks w))"
  shows "wp (do { a \<leftarrow> ds_retry_job memory_storage_api i; s \<leftarrow> get_store;
                  b \<leftarrow> sweep_once \<lparr>cw_storage = memory_storage_api, cw_interval = d\<rparr>; ret (a, s, b) })
     (\<lambda>(a, s, b) w'. a = Inr True
        \<and> mem_jobs s i = Some (j\<lparr>job_state := Enqueued (clock w (ticks w)) (job_queue j)\<rparr>)
        \<and> mem_jobs (store w') i = None) w"
proof -
  have id_j: "job_id j = i" using mem_inv_keyed [OF assms(1)] assms(2) by (rule keyedD)
  let ?j = "j\<lparr>job_state := Enqueued (clock w (ticks w)) (job_queue j)\<rparr>"
  let ?w = "w\<lparr>ticks := Suc (ticks w), store := (store w)\<lparr>ms_jobs := hm_insert i ?j (ms_jobs (store w))\<rparr>\<rparr>"
  have inv: "mem_inv (store ?w)" using mem_inv_put_job [OF assms(1), of ?j i] id_j by simp
  have "expired (clock w (Suc (ticks w))) ?j" using assms(4,5) by (simp add: expired_def)
  then have "wp (mem_delete_expired_jobs (clock w (Suc (ticks w)))) (\<lambda>_ w'. mem_jobs (store w') i = None)
      (?w\<lparr>ticks := Suc (Suc (ticks w))\<rparr>)"
    using mem_delete_expired_wp [of "?w\<lparr>ticks := Suc (Suc (ticks w))\<rparr>" "clock w (Suc (ticks w))"] inv
    by (auto elim: wp_mono)
  then show ?thesis
    using assms(2,3) id_j
    by (simp add: ds_retry_job_def mem_get_def mem_update_if_state_def sweep_once_def
        mem_cleanup_expired_named_locks_def mem_delete_expired_jobs_def wp_simps Let_def mem_jobs_def
        cong: option.case_cong)
qed

theorem retried_job_is_swept_witness:
  "wp (do { a \<leftarrow> ds_retry_job memory_storage_api ''a''; s \<leftarrow> get_store;
            b \<leftarrow> sweep_once \<lparr>cw_storage = memory_storage_api, cw_interval = default_cleanup_interval\<rparr>;
            ret (a, s, b) })
     (\<lambda>(a, s, b) w'. a = Inr True \<and> mem_jobs (store w') ''a'' = None)
     (sample_world (sample_memory [(sample_job ''a'' 0 5 (Failed 6 ''boom'' None))\<lparr>job_expires_at := Some 9\<rparr>])
        :: (_, unit) world)"
  by (rule wp_mono [OF retried_job_is_swept [where ts = 9 and
        j = "(sample_job ''a'' 0 5 (Failed 6 ''boom'' None))\<lparr>job_expires_at := Some 9\<rparr>"]])
     (auto simp: dur_defs)

text \<open>
  The state filter of the HTTP interface accepts every state's own name, in any mix of cases that
  lower-cases to it, and answers with that state.
\<close>

theorem parse_job_state_roundtrip:
  assumes "map to_lower s = map to_lower (kind_name k)"
  shows "parse_job_state s = Some k"
  using parse_job_state_name [of k] assms by (simp add: parse_job_state_def)

theorem parse_job_state_roundtrip_witness: "parse_job_state ''fAILED'' = Some KFailed"
  by (rule parse_job_state_roundtrip) code_simp

text \<open>
  The job statistics are exact on this backend, up to the width of the counters: the total is the
  number of stored jobs and every state's counter the number of jobs in that state.
\<close>

theorem job_statistics_exact:
  fixes w :: "('p memory_storage, 'e) world"
  assumes "mem_inv (store w)"
  shows "\<exists>s. run_state (get_job_statistics memory_storage_api) w = (Some (Inr s), w)
      \<and> js_total_jobs s = word_of_nat (mem_len (store w))
      \<and> (\<forall>k. stat_of k s = word_of_nat (card {i. \<exists>j. mem_jobs (store w) i = Some j \<and> kind (job_state j) = k}))"
proof -
  let ?m = "count_kinds (hm_values (ms_jobs (store w))) []"
  let ?s = "sum_counts ?m (empty_statistics 0)"
  have wf: "hm_wf (ms_jobs (store w))" using assms by (simp add: mem_inv_def)
  have "run_state (get_job_statistics memory_storage_api) w = (Some (Inr ?s), w)"
    by (simp add: get_job_statistics_def mem_get_job_counts_def)
  moreover have "js_total_jobs ?s = word_of_nat (mem_len (store w))"
    using count_kinds_sum [of "hm_values (ms_jobs (store w))" "[]"]
    by (simp add: sum_counts_total empty_statistics_def mem_len_def)
  moreover have "stat_of k ?s = word_of_nat (card {i. \<exists>j. mem_jobs (store w) i = Some j \<and> kind (job_state j) = k})" for k
  proof -
    have "stat_of k (empty_statistics 0) = 0" by (cases k) (simp_all add: empty_statistics_def)
    then show ?thesis
      using length_filter_values [OF wf, of "\<lambda>j. kind (job_state j) = k"]
      unfolding sum_counts_stat [OF count_kinds_wf [OF hm_wf_Nil]] count_kinds_get mem_jobs_def by simp
  qed
  ultimately show ?thesis by blast
qed

theorem job_statistics_exact_witness:
  "\<exists>s. run_state (get_job_statistics memory_storage_api) (sample_world (sample_memory
       [sample_job ''a'' 0 5 (Failed 6 ''boom'' None)]) :: (_, unit) world)
     = (Some (Inr s), sample_world (sample_memory [sample_job ''a'' 0 5 (Failed 6 ''boom'' None)]))
     \<and> js_total_jobs s = 1"
  using job_statistics_exact [of "sample_world (sample_memory
       [sample_job ''a'' 0 5 (Failed 6 ''boom'' None)]) :: (_, unit) world"]
  by (auto simp: mem_len_def)

end
