(* ===== verification/Dashboard_Auth.thy ===== *)
theory Dashboard_Auth
  imports Dashboard
begin

text \<open>
  Authentication and the cross-site check of the dashboard, \<^verbatim>\<open>src/dashboard/auth.rs\<close>. A string is the
  sequence of its UTF-8 bytes. The Base64 decoder is the \<^verbatim>\<open>base64\<close> crate's and an argument; the
  constant-time comparison of the \<^verbatim>\<open>subtle\<close> crate is equality. The continuation \<^verbatim>\<open>next\<close> is an argument.
\<close>

section \<open>Strings\<close>

fun strip_prefix :: "string \<Rightarrow> string \<Rightarrow> string option" where
  "strip_prefix [] s = Some s"
| "strip_prefix (c # p) (d # s) = (if c = d then strip_prefix p s else None)"
| "strip_prefix (c # p) [] = None"

text \<open>\<^verbatim>\<open>split_once\<close> with a pattern: around its first occurrence.\<close>

fun split_once :: "string \<Rightarrow> string \<Rightarrow> (string \<times> string) option" where
  "split_once pat s =
     (case strip_prefix pat s of
        Some rest \<Rightarrow> Some ([], rest)
      | None \<Rightarrow> (case s of
                   [] \<Rightarrow> None
                 | c # cs \<Rightarrow> map_option (\<lambda>(a, b). (c # a, b)) (split_once pat cs)))"

declare split_once.simps [simp del]

text \<open>A header value read by \<^verbatim>\<open>to_str\<close> holds visible ASCII, spaces and tabs; \<^verbatim>\<open>trim\<close> strips the latter two.\<close>

definition is_blank :: "char \<Rightarrow> bool" where
  "is_blank c = (c = CHR '' '' \<or> c = CHR 0x09)"

definition trim :: "string \<Rightarrow> string" where
  "trim s = rev (dropWhile is_blank (rev (dropWhile is_blank s)))"

text \<open>\<^verbatim>\<open>std::str::from_utf8\<close>: well-formed sequences, no overlong forms, no surrogates.\<close>

definition cont :: "nat \<Rightarrow> bool" where
  "cont b = (128 \<le> b \<and> b \<le> 191)"

fun utf8 :: "nat list \<Rightarrow> bool" where
  "utf8 [] = True"
| "utf8 (a # bs) =
     (if a \<le> 127 then utf8 bs
      else (case bs of
        [] \<Rightarrow> False
      | b # cs \<Rightarrow>
          if 194 \<le> a \<and> a \<le> 223 then cont b \<and> utf8 cs
          else (case cs of
            [] \<Rightarrow> False
          | c # ds \<Rightarrow>
              if 224 \<le> a \<and> a \<le> 239
              then cont b \<and> (a = 224 \<longrightarrow> 160 \<le> b) \<and> (a = 237 \<longrightarrow> b \<le> 159) \<and> cont c \<and> utf8 ds
              else (case ds of
                [] \<Rightarrow> False
              | d # es \<Rightarrow>
                  240 \<le> a \<and> a \<le> 244 \<and> cont b \<and> (a = 240 \<longrightarrow> 144 \<le> b) \<and> (a = 244 \<longrightarrow> b \<le> 143)
                  \<and> cont c \<and> cont d \<and> utf8 es))))"

definition from_utf8 :: "string \<Rightarrow> string option" where
  "from_utf8 bs = (if utf8 (map of_char bs) then Some bs else None)"

definition eq_ignore_ascii_case :: "string \<Rightarrow> string \<Rightarrow> bool" where
  "eq_ignore_ascii_case a b = (map to_lower a = map to_lower b)"

section \<open>Requests and credentials\<close>

datatype dashboard_auth = Basic string string | Bearer string

datatype http_method = GET | HEAD | OPTIONS | POST | PUT | PATCH | DELETE | TRACE | CONNECT | Extension string

text \<open>A header value is text that \<^verbatim>\<open>to_str\<close> can read, or not.\<close>

datatype header_value = Visible string | Opaque

fun to_str :: "header_value \<Rightarrow> string option" where
  "to_str (Visible s) = Some s"
| "to_str Opaque = None"

record request =
  rq_method :: http_method
  rq_authorization :: "header_value option"
  rq_host :: "header_value option"
  rq_origin :: "header_value option"
  rq_referer :: "header_value option"

datatype 'r response = Pass 'r | Unauthorized "string option" | Forbidden string

definition constant_time_eq :: "string \<Rightarrow> string \<Rightarrow> bool" where
  "constant_time_eq a b = (if length a \<noteq> length b then False else a = b)"

definition check_basic :: "(string \<Rightarrow> string option) \<Rightarrow> string \<Rightarrow> string \<Rightarrow> string \<Rightarrow> bool" where
  "check_basic b64 header_value expected_user expected_pass =
     (case strip_prefix ''Basic '' header_value of
        None \<Rightarrow> False
      | Some encoded \<Rightarrow>
          (case b64 (trim encoded) of
             None \<Rightarrow> False
           | Some bytes \<Rightarrow>
               (case from_utf8 bytes of
                  None \<Rightarrow> False
                | Some decoded \<Rightarrow>
                    (case split_once '':'' decoded of
                       None \<Rightarrow> False
                     | Some (user, pass) \<Rightarrow>
                         constant_time_eq user expected_user \<and> constant_time_eq pass expected_pass))))"

definition check_bearer :: "string \<Rightarrow> string \<Rightarrow> bool" where
  "check_bearer header_value expected =
     (case strip_prefix ''Bearer '' header_value of
        None \<Rightarrow> False
      | Some token \<Rightarrow> constant_time_eq (trim token) expected)"

definition unauthorized :: "dashboard_auth \<Rightarrow> 'r response" where
  "unauthorized auth =
     Unauthorized (case auth of Basic _ _ \<Rightarrow> Some ''Basic realm=\"qml-dashboard\"'' | Bearer _ \<Rightarrow> None)"

definition require_auth ::
  "(string \<Rightarrow> string option) \<Rightarrow> dashboard_auth \<Rightarrow> 'z request_scheme \<Rightarrow> ('z request_scheme \<Rightarrow> 'r response) \<Rightarrow> 'r response" where
  "require_auth b64 auth req next =
     (let provided = Option.bind (rq_authorization req) to_str;
          ok = (case (auth, provided) of
                  (Basic username password, Some h) \<Rightarrow> check_basic b64 h username password
                | (Bearer token, Some h) \<Rightarrow> check_bearer h token
                | _ \<Rightarrow> False)
      in if ok then next req else unauthorized auth)"

text \<open>The authority of an absolute URL: after the first \<open>://\<close>, up to a slash, a question mark or a hash.\<close>

definition authority_of :: "string \<Rightarrow> string option" where
  "authority_of url =
     (case split_once ''://'' url of
        None \<Rightarrow> None
      | Some (_, rest) \<Rightarrow>
          (let authority = takeWhile (\<lambda>c. c \<notin> set ''/?#'') rest
           in if authority = [] then None else Some (map to_lower authority)))"

definition is_mutation :: "http_method \<Rightarrow> bool" where
  "is_mutation m = (m \<in> {POST, PUT, PATCH, DELETE})"

definition csrf_guard :: "'z request_scheme \<Rightarrow> ('z request_scheme \<Rightarrow> 'r response) \<Rightarrow> 'r response" where
  "csrf_guard req next =
     (if \<not> is_mutation (rq_method req) then next req
      else let host = Option.bind (rq_host req) to_str;
               source = Option.bind (Option.bind
                          (case rq_origin req of Some v \<Rightarrow> Some v | None \<Rightarrow> rq_referer req) to_str) authority_of
           in case (host, source) of
                (Some h, Some s) \<Rightarrow>
                  if eq_ignore_ascii_case h s then next req else Forbidden ''CSRF check failed''
              | _ \<Rightarrow> Forbidden ''CSRF check failed'')"

section \<open>Library facts\<close>

lemma strip_prefix_iff: "strip_prefix p s = Some r \<longleftrightarrow> s = p @ r"
  by (induction p s rule: strip_prefix.induct) auto

lemma split_once_colon: "split_once [c] s = (if c \<in> set s then Some (takeWhile (\<lambda>x. x \<noteq> c) s, tl (dropWhile (\<lambda>x. x \<noteq> c) s)) else None)"
  by (induction s) (auto simp: split_once.simps)

lemma constant_time_eq_iff [simp]: "constant_time_eq a b \<longleftrightarrow> a = b"
  by (auto simp: constant_time_eq_def)

lemma to_lower_idem [simp]: "to_lower (to_lower c) = to_lower c"
proof -
  have "(of_char (char_of (n + 32) :: char) :: nat) = n + 32" if "n \<le> 90" for n :: nat
    using that by simp
  then show ?thesis by (auto simp: to_lower_def)
qed

lemma split_once_colon_iff:
  "split_once [c] s = Some (u, p) \<longleftrightarrow> c \<notin> set u \<and> s = u @ c # p"
proof
  assume "split_once [c] s = Some (u, p)"
  then have c: "c \<in> set s" and u: "u = takeWhile (\<lambda>x. x \<noteq> c) s" and p: "p = tl (dropWhile (\<lambda>x. x \<noteq> c) s)"
    by (auto simp: split_once_colon split: if_splits)
  have "dropWhile (\<lambda>x. x \<noteq> c) s \<noteq> []" using c by (simp add: dropWhile_eq_Nil_conv)
  then have "dropWhile (\<lambda>x. x \<noteq> c) s = c # p"
    using hd_dropWhile [of "\<lambda>x. x \<noteq> c" s] p by (cases "dropWhile (\<lambda>x. x \<noteq> c) s") auto
  then have "s = u @ c # p" using takeWhile_dropWhile_id [of "\<lambda>x. x \<noteq> c" s] u by simp
  moreover have "c \<notin> set u" using u by (auto dest: set_takeWhileD)
  ultimately show "c \<notin> set u \<and> s = u @ c # p" by simp
next
  assume "c \<notin> set u \<and> s = u @ c # p"
  moreover have "takeWhile (\<lambda>x. x \<noteq> c) (u @ c # p) = u \<and> dropWhile (\<lambda>x. x \<noteq> c) (u @ c # p) = c # p"
    if "c \<notin> set u" using that by (induction u) auto
  ultimately show "split_once [c] s = Some (u, p)" by (simp add: split_once_colon)
qed

lemma check_basic_iff:
  "check_basic b64 h user pass \<longleftrightarrow>
     CHR '':'' \<notin> set user \<and> (\<exists>encoded. strip_prefix ''Basic '' h = Some encoded
       \<and> b64 (trim encoded) = Some (user @ CHR '':'' # pass) \<and> from_utf8 (user @ CHR '':'' # pass) \<noteq> None)"
proof (cases "strip_prefix ''Basic '' h")
  case (Some encoded)
  show ?thesis
  proof (cases "b64 (trim encoded)")
    case None
    with Some show ?thesis by (simp add: check_basic_def del: strip_prefix.simps)
  next
    case (Some bytes)
    have "check_basic b64 h user pass \<longleftrightarrow> from_utf8 bytes \<noteq> None \<and> split_once '':'' bytes = Some (user, pass)"
      using Some \<open>strip_prefix ''Basic '' h = Some encoded\<close>
      by (auto simp: check_basic_def from_utf8_def simp del: strip_prefix.simps split: option.splits)
    with Some \<open>strip_prefix ''Basic '' h = Some encoded\<close> show ?thesis
      by (auto simp: split_once_colon_iff simp del: strip_prefix.simps)
  qed
qed (simp add: check_basic_def del: strip_prefix.simps)

section \<open>Properties\<close>

text \<open>
  Who gets past Basic authentication: a request whose \<^verbatim>\<open>Authorization\<close> header is \<open>Basic\<close> followed by an
  encoding of the user name, a colon and the password, and nobody else; and that only when the
  configured user name has no colon. With a colon in it no credentials are accepted at all.
\<close>

theorem basic_auth_iff:
  assumes "\<And>r. next r = Pass x"
  shows "require_auth b64 (Basic user pass) req next = Pass x \<longleftrightarrow>
     CHR '':'' \<notin> set user \<and>
     (\<exists>encoded. rq_authorization req = Some (Visible (''Basic '' @ encoded))
        \<and> b64 (trim encoded) = Some (user @ '':'' @ pass) \<and> from_utf8 (user @ '':'' @ pass) \<noteq> None)"
proof (cases "Option.bind (rq_authorization req) to_str")
  case None
  then have "rq_authorization req = None \<or> rq_authorization req = Some Opaque"
    by (cases "rq_authorization req") (auto elim: to_str.elims)
  with None show ?thesis by (auto simp: require_auth_def unauthorized_def)
next
  case (Some h)
  then have "rq_authorization req = Some (Visible h)"
    by (cases "rq_authorization req") (auto elim: to_str.elims)
  then have "require_auth b64 (Basic user pass) req next = Pass x \<longleftrightarrow> check_basic b64 h user pass"
    using assms by (simp add: require_auth_def unauthorized_def)
  with \<open>rq_authorization req = Some (Visible h)\<close> show ?thesis
    unfolding check_basic_iff strip_prefix_iff by simp
qed

theorem basic_auth_iff_witness:
  "require_auth (\<lambda>s. if s = ''YTpi'' then Some ''a:b'' else None) (Basic ''a'' ''b'')
     \<lparr>rq_method = GET, rq_authorization = Some (Visible ''Basic  YTpi''), rq_host = None, rq_origin = None,
       rq_referer = None\<rparr> (\<lambda>r. Pass ()) = Pass ()"
proof -
  have "trim '' YTpi'' = ''YTpi''" "from_utf8 ''a:b'' = Some ''a:b''" by code_simp+
  then show ?thesis
    using basic_auth_iff [of "\<lambda>r. Pass ()" "()" "\<lambda>s. if s = ''YTpi'' then Some ''a:b'' else None" "''a''" "''b''"
        "\<lparr>rq_method = GET, rq_authorization = Some (Visible ''Basic  YTpi''), rq_host = None, rq_origin = None,
       rq_referer = None\<rparr>"]
    by simp
qed

text \<open>
  C31. The cross-site check: a request that changes state reaches the handler exactly when it carries a host
  and an origin (or, without one, a referer) whose authority is that host, whatever the case of the
  letters. A missing or unreadable header, an origin \<open>null\<close> and every other authority are refused.
\<close>

theorem csrf_same_origin_only:
  assumes "is_mutation (rq_method req)" and "\<And>r. next r = Pass x"
  shows "csrf_guard req next =
     (if \<exists>host url auth. rq_host req = Some (Visible host)
           \<and> (rq_origin req = Some (Visible url) \<or> rq_origin req = None \<and> rq_referer req = Some (Visible url))
           \<and> authority_of url = Some auth \<and> map to_lower host = auth
      then Pass x else Forbidden ''CSRF check failed'')"
proof -
  have vis: "Option.bind v to_str = Some t \<longleftrightarrow> v = Some (Visible t)" for v t
    by (cases v) (auto elim: to_str.elims)
  have low: "map to_lower a = a" if "authority_of url = Some a" for url a
    using that by (auto simp: authority_of_def Let_def split: option.splits if_splits)
  let ?v = "case rq_origin req of Some v \<Rightarrow> Some v | None \<Rightarrow> rq_referer req"
  have src: "?v = Some (Visible url) \<longleftrightarrow>
      rq_origin req = Some (Visible url) \<or> rq_origin req = None \<and> rq_referer req = Some (Visible url)" for url
    by (auto split: option.splits)
  have au: "Option.bind (Option.bind ?v to_str) authority_of = Some a \<longleftrightarrow>
      (\<exists>url. ?v = Some (Visible url) \<and> authority_of url = Some a)" for a
    unfolding bind_eq_Some_conv [of "Option.bind ?v to_str"] vis by blast
  have "csrf_guard req next =
      (if \<exists>h a. Option.bind (rq_host req) to_str = Some h
          \<and> Option.bind (Option.bind ?v to_str) authority_of = Some a \<and> eq_ignore_ascii_case h a
       then Pass x else Forbidden ''CSRF check failed'')"
    using assms unfolding csrf_guard_def Let_def
    by (cases "Option.bind (rq_host req) to_str"; cases "Option.bind (Option.bind ?v to_str) authority_of") simp_all
  also have "\<dots> = (if \<exists>h a url. rq_host req = Some (Visible h) \<and> ?v = Some (Visible url) \<and> authority_of url = Some a
       \<and> map to_lower h = a then Pass x else Forbidden ''CSRF check failed'')"
    unfolding vis au eq_ignore_ascii_case_def using low by (intro if_cong refl) metis
  finally show ?thesis unfolding src by (auto intro!: if_cong)
qed

theorem csrf_same_origin_only_witness:
  "csrf_guard \<lparr>rq_method = POST, rq_authorization = None, rq_host = Some (Visible ''Dash:8080''),
       rq_origin = Some (Visible ''http://dash:8080''), rq_referer = None\<rparr> (\<lambda>r. Pass ()) = Pass ()"
proof -
  have "authority_of ''http://dash:8080'' = Some ''dash:8080''" "map to_lower ''Dash:8080'' = ''dash:8080''"
    by code_simp+
  then show ?thesis
    using csrf_same_origin_only [of "\<lparr>rq_method = POST, rq_authorization = None,
        rq_host = Some (Visible ''Dash:8080''), rq_origin = Some (Visible ''http://dash:8080''), rq_referer = None\<rparr>"
        "\<lambda>r. Pass ()" "()"]
    by (simp add: is_mutation_def)
qed

end
