(* ===== verification/Addresses.thy ===== *)
theory Addresses
  imports Dashboard_Auth
begin

text \<open>
  Texts of internet addresses, as \<^verbatim>\<open>std::net\<close> reads them, and the test for a loopback interface of
  \<^verbatim>\<open>src/dashboard/auth.rs\<close>. A reader takes a value off the front of a text; a reader that stops at a character
  treats a text up to that character as it treats the text alone, which is how an address is found
  again in front of a port.
\<close>

type_synonym 'a reader = "string \<Rightarrow> ('a \<times> string) option"

section \<open>Readers\<close>

definition then_read :: "'a reader \<Rightarrow> ('a \<Rightarrow> 'b reader) \<Rightarrow> 'b reader" where
  "then_read p f s = (case p s of None \<Rightarrow> None | Some (a, r) \<Rightarrow> f a r)"

definition or_read :: "'a reader \<Rightarrow> 'a reader \<Rightarrow> 'a reader" where
  "or_read p q s = (case p s of None \<Rightarrow> q s | Some x \<Rightarrow> Some x)"

definition give :: "'a \<Rightarrow> 'a reader" where
  "give a s = Some (a, s)"

definition read_given_char :: "char \<Rightarrow> unit reader" where
  "read_given_char c s = (case s of [] \<Rightarrow> None | d # r \<Rightarrow> if d = c then Some ((), r) else None)"

text \<open>\<^verbatim>\<open>char::to_digit\<close>, and a number of digits in a radix, of at most so many digits and a greatest value.\<close>

definition to_digit :: "nat \<Rightarrow> char \<Rightarrow> nat option" where
  "to_digit radix c =
     (let n = of_char c :: nat;
          d = (if 48 \<le> n \<and> n \<le> 57 then Some (n - 48)
               else if 97 \<le> n \<and> n \<le> 122 then Some (n - 87)
               else if 65 \<le> n \<and> n \<le> 90 then Some (n - 55) else None) in
      case d of None \<Rightarrow> None | Some v \<Rightarrow> if v < radix then Some v else None)"

definition read_number :: "nat \<Rightarrow> nat option \<Rightarrow> bool \<Rightarrow> nat \<Rightarrow> nat reader" where
  "read_number radix max_digits allow_zero_prefix greatest s =
     (let ds = takeWhile (\<lambda>c. to_digit radix c \<noteq> None) s;
          v = foldl (\<lambda>a c. a * radix + the (to_digit radix c)) 0 ds in
      if ds = [] \<or> (case max_digits of None \<Rightarrow> False | Some m \<Rightarrow> m < length ds)
         \<or> \<not> allow_zero_prefix \<and> hd ds = CHR ''0'' \<and> 1 < length ds \<or> greatest < v
      then None else Some (v, drop (length ds) s))"

definition read_separator :: "char \<Rightarrow> nat \<Rightarrow> 'a reader \<Rightarrow> 'a reader" where
  "read_separator sep i p = (if 0 < i then then_read (read_given_char sep) (\<lambda>_. p) else p)"

section \<open>Addresses\<close>

fun read_octets :: "nat \<Rightarrow> nat \<Rightarrow> nat list reader" where
  "read_octets i 0 = give []"
| "read_octets i (Suc n) =
     then_read (read_separator CHR ''.'' i (read_number 10 (Some 3) False 255)) (\<lambda>v.
     then_read (read_octets (Suc i) n) (\<lambda>vs. give (v # vs)))"

definition read_ipv4_addr :: "nat list reader" where
  "read_ipv4_addr = read_octets 0 4"

text \<open>Two groups from an IPv4 address in the text.\<close>

definition embedded :: "nat list \<Rightarrow> nat list" where
  "embedded a = [256 * a ! 0 + a ! 1, 256 * a ! 2 + a ! 3]"

text \<open>Groups from the \<open>i\<close>th, as many as there are, up to \<open>n\<close>; and whether they end in an IPv4 address.\<close>

fun read_groups :: "nat \<Rightarrow> nat \<Rightarrow> (nat list \<times> bool) reader" where
  "read_groups i 0 = give ([], False)"
| "read_groups i (Suc n) =
     or_read (if 0 < n then then_read (read_separator CHR '':'' i read_ipv4_addr) (\<lambda>a. give (embedded a, True)) else (\<lambda>s. None))
    (or_read (then_read (read_separator CHR '':'' i (read_number 16 (Some 4) True 65535)) (\<lambda>g.
              then_read (read_groups (Suc i) n) (\<lambda>(gs, v4). give (g # gs, v4))))
             (give ([], False)))"

definition read_ipv6_addr :: "nat list reader" where
  "read_ipv6_addr =
     then_read (read_groups 0 8) (\<lambda>(front, v4).
     if length front = 8 then give front
     else if v4 then (\<lambda>s. None)
     else then_read (read_given_char CHR '':'') (\<lambda>_.
          then_read (read_given_char CHR '':'') (\<lambda>_.
          then_read (read_groups 0 (8 - (length front + 1))) (\<lambda>(tail, _).
          give (front @ replicate (8 - length front - length tail) 0 @ tail)))))"

datatype ip_addr = V4 "nat list" | V6 "nat list"

definition map_read :: "('a \<Rightarrow> 'b) \<Rightarrow> 'a reader \<Rightarrow> 'b reader" where
  "map_read f p = then_read p (\<lambda>a. give (f a))"

definition whole :: "'a reader \<Rightarrow> string \<Rightarrow> 'a option" where
  "whole p s = (case p s of Some (a, []) \<Rightarrow> Some a | _ \<Rightarrow> None)"

definition parse_ip :: "string \<Rightarrow> ip_addr option" where
  "parse_ip = whole (or_read (map_read V4 read_ipv4_addr) (map_read V6 read_ipv6_addr))"

fun is_loopback :: "ip_addr \<Rightarrow> bool" where
  "is_loopback (V4 a) = (hd a = 127)"
| "is_loopback (V6 gs) = (gs = [0, 0, 0, 0, 0, 0, 0, 1])"

text \<open>A socket address: the address and the port; an IPv6 address in brackets, perhaps with a scope.\<close>

definition read_port :: "nat reader" where
  "read_port = then_read (read_given_char CHR '':'') (\<lambda>_. read_number 10 None True 65535)"

definition read_socket_v4 :: "(ip_addr \<times> nat) reader" where
  "read_socket_v4 = then_read read_ipv4_addr (\<lambda>a. then_read read_port (\<lambda>p. give (V4 a, p)))"

definition read_scope_id :: "nat reader" where
  "read_scope_id = then_read (read_given_char CHR ''%'') (\<lambda>_. read_number 10 None True (2 ^ 32 - 1))"

definition read_socket_v6 :: "(ip_addr \<times> nat) reader" where
  "read_socket_v6 =
     then_read (read_given_char CHR ''['') (\<lambda>_.
     then_read read_ipv6_addr (\<lambda>a.
     then_read (or_read read_scope_id (give 0)) (\<lambda>_.
     then_read (read_given_char CHR '']'') (\<lambda>_.
     then_read read_port (\<lambda>p. give (V6 a, p))))))"

definition parse_socket_addr :: "string \<Rightarrow> (ip_addr \<times> nat) option" where
  "parse_socket_addr = whole (or_read read_socket_v4 read_socket_v6)"

section \<open>The loopback test\<close>

definition trim_end_matches :: "char \<Rightarrow> string \<Rightarrow> string" where
  "trim_end_matches c s = rev (dropWhile ((=) c) (rev s))"

definition is_loopback_host :: "string \<Rightarrow> bool" where
  "is_loopback_host host =
     (if eq_ignore_ascii_case host ''localhost'' then True
      else let trimmed = trim_end_matches CHR '']'' (dropWhile ((=) CHR ''['') host) in
           case parse_ip trimmed of None \<Rightarrow> False | Some ip \<Rightarrow> is_loopback ip)"

section \<open>Readers that stop at a character\<close>

definition stops :: "char \<Rightarrow> 'a reader \<Rightarrow> bool" where
  "stops c p \<longleftrightarrow> (\<forall>s r. p (s @ c # r) = map_option (\<lambda>(a, t). (a, t @ c # r)) (p s))"

lemma stopsD: "stops c p \<Longrightarrow> p (s @ c # r) = map_option (\<lambda>(a, t). (a, t @ c # r)) (p s)"
  by (simp add: stops_def)

lemma stops_give: "stops c (give a)"
  by (simp add: stops_def give_def)

lemma stops_none: "stops c (\<lambda>s. None)"
  by (simp add: stops_def)

lemma stops_then:
  assumes "stops c p" and "\<And>a. stops c (f a)"
  shows "stops c (then_read p f)"
  unfolding stops_def then_read_def
  using stopsD [OF assms(1)] stopsD [OF assms(2)] by (auto split: option.splits)

lemma stops_or:
  assumes "stops c p" and "stops c q"
  shows "stops c (or_read p q)"
  unfolding stops_def or_read_def
  using stopsD [OF assms(1)] stopsD [OF assms(2)] by (auto split: option.splits)

lemma stops_char: "c \<noteq> d \<Longrightarrow> stops c (read_given_char d)"
  by (auto simp: stops_def read_given_char_def split: list.split)

lemma stops_number:
  assumes "to_digit radix c = None"
  shows "stops c (read_number radix m z g)"
proof -
  have "takeWhile (\<lambda>c. to_digit radix c \<noteq> None) (s @ c # r) = takeWhile (\<lambda>c. to_digit radix c \<noteq> None) s" for s r
    using assms by (induction s) simp_all
  moreover have "length (takeWhile P s) \<le> length s" for P and s :: string by (rule length_takeWhile_le)
  ultimately show ?thesis by (auto simp: stops_def read_number_def Let_def)
qed

lemma stops_separator: "c \<noteq> sep \<Longrightarrow> stops c p \<Longrightarrow> stops c (read_separator sep i p)"
  by (simp add: read_separator_def stops_then stops_char)

lemma stops_prod: "(\<And>a b. stops c (f a b)) \<Longrightarrow> stops c (case x of (a, b) \<Rightarrow> f a b)"
  by (cases x) simp

lemma stops_if: "(b \<Longrightarrow> stops c p) \<Longrightarrow> (\<not> b \<Longrightarrow> stops c q) \<Longrightarrow> stops c (if b then p else q)"
  by simp

lemmas stops_intros = stops_give stops_none stops_then stops_or stops_char stops_number stops_separator stops_prod stops_if

lemma stops_octets: "to_digit 10 c = None \<Longrightarrow> c \<noteq> CHR ''.'' \<Longrightarrow> stops c (read_octets i n)"
  by (induction n arbitrary: i) (auto intro!: stops_intros)

lemma stops_ipv4: "to_digit 10 c = None \<Longrightarrow> c \<noteq> CHR ''.'' \<Longrightarrow> stops c read_ipv4_addr"
  unfolding read_ipv4_addr_def by (rule stops_octets)

text \<open>What may stand in an address.\<close>

definition address_char :: "char \<Rightarrow> bool" where
  "address_char c \<longleftrightarrow> to_digit 16 c \<noteq> None \<or> c = CHR ''.'' \<or> c = CHR '':''"

lemma digit_decimal: "to_digit 16 c = None \<Longrightarrow> to_digit 10 c = None"
  by (auto simp: to_digit_def Let_def split: option.splits if_splits)

lemma stops_groups: "\<not> address_char c \<Longrightarrow> stops c (read_groups i n)"
proof (induction n arbitrary: i)
  case (Suc n)
  then show ?case
    unfolding read_groups.simps
    by (intro stops_intros stops_ipv4) (auto simp: address_char_def digit_decimal)
qed (simp add: stops_give)

lemma stops_ipv6: "\<not> address_char c \<Longrightarrow> stops c read_ipv6_addr"
  unfolding read_ipv6_addr_def by (intro stops_intros stops_groups) (auto simp: address_char_def)

text \<open>A reader leaves an end of its text.\<close>

definition leaves_end :: "'a reader \<Rightarrow> bool" where
  "leaves_end p \<longleftrightarrow> (\<forall>s a t. p s = Some (a, t) \<longrightarrow> (\<exists>u. s = u @ t \<and> (\<forall>c \<in> set u. address_char c)))"

lemma leaves_endI: "(\<And>s a t. p s = Some (a, t) \<Longrightarrow> \<exists>u. s = u @ t \<and> (\<forall>c \<in> set u. address_char c)) \<Longrightarrow> leaves_end p"
  by (simp add: leaves_end_def)

lemma leaves_endE:
  assumes "leaves_end p" and "p s = Some (a, t)"
  obtains u where "s = u @ t" "\<forall>c \<in> set u. address_char c"
  using assms unfolding leaves_end_def by blast

lemma leaves_then:
  assumes "leaves_end p" and "\<And>a. leaves_end (f a)"
  shows "leaves_end (then_read p f)"
proof (rule leaves_endI)
  fix s b t
  assume "then_read p f s = Some (b, t)"
  then obtain a r where "p s = Some (a, r)" "f a r = Some (b, t)" by (auto simp: then_read_def split: option.splits)
  with assms obtain u v where "s = u @ r" "r = v @ t" "\<forall>c \<in> set u. address_char c" "\<forall>c \<in> set v. address_char c"
    by (meson leaves_endE)
  then show "\<exists>u. s = u @ t \<and> (\<forall>c \<in> set u. address_char c)" by (intro exI [of _ "u @ v"]) auto
qed

lemma leaves_or: "leaves_end p \<Longrightarrow> leaves_end q \<Longrightarrow> leaves_end (or_read p q)"
  unfolding leaves_end_def or_read_def by (metis option.case_eq_if option.collapse option.sel)

lemma leaves_give: "leaves_end (give a)"
  by (auto simp: leaves_end_def give_def)

lemma leaves_none: "leaves_end (\<lambda>s. None)"
  by (simp add: leaves_end_def)

lemma leaves_char: "address_char d \<Longrightarrow> leaves_end (read_given_char d)"
  by (auto simp: leaves_end_def read_given_char_def split: list.splits if_splits intro: exI [of _ "[d]"])

lemma leaves_number:
  assumes "\<And>c. to_digit radix c \<noteq> None \<Longrightarrow> address_char c"
  shows "leaves_end (read_number radix m z g)"
proof (rule leaves_endI)
  fix s a t
  assume "read_number radix m z g s = Some (a, t)"
  then have "t = drop (length (takeWhile (\<lambda>c. to_digit radix c \<noteq> None) s)) s"
    by (auto simp: read_number_def Let_def split: if_splits)
  then have "s = takeWhile (\<lambda>c. to_digit radix c \<noteq> None) s @ t"
    by (metis dropWhile_eq_drop takeWhile_dropWhile_id)
  then show "\<exists>u. s = u @ t \<and> (\<forall>c \<in> set u. address_char c)"
    using assms by (blast dest: set_takeWhileD)
qed

lemma leaves_separator: "address_char sep \<Longrightarrow> leaves_end p \<Longrightarrow> leaves_end (read_separator sep i p)"
  by (simp add: read_separator_def leaves_then leaves_char)

lemma leaves_prod: "(\<And>a b. leaves_end (f a b)) \<Longrightarrow> leaves_end (case x of (a, b) \<Rightarrow> f a b)"
  by (cases x) simp

lemma leaves_if: "(b \<Longrightarrow> leaves_end p) \<Longrightarrow> (\<not> b \<Longrightarrow> leaves_end q) \<Longrightarrow> leaves_end (if b then p else q)"
  by simp

lemmas leaves_intros = leaves_then leaves_or leaves_give leaves_none leaves_char leaves_number leaves_separator
  leaves_prod leaves_if

lemma address_chars [simp]: "address_char CHR ''.''" "address_char CHR '':''" "to_digit 16 c \<noteq> None \<Longrightarrow> address_char c"
  "to_digit 10 c \<noteq> None \<Longrightarrow> address_char c"
  using digit_decimal by (auto simp: address_char_def)

lemma leaves_octets: "leaves_end (read_octets i n)"
proof (induction n arbitrary: i)
  case (Suc n)
  then show ?case unfolding read_octets.simps by (intro leaves_intros) simp_all
qed (simp add: leaves_give)

lemma leaves_groups: "leaves_end (read_groups i n)"
proof (induction n arbitrary: i)
  case (Suc n)
  then show ?case unfolding read_groups.simps read_ipv4_addr_def by (intro leaves_intros leaves_octets) simp_all
qed (simp add: leaves_give)

lemma leaves_ipv6: "leaves_end read_ipv6_addr"
  unfolding read_ipv6_addr_def by (intro leaves_intros leaves_groups) simp_all

lemma leaves_ip: "leaves_end (or_read (map_read V4 read_ipv4_addr) (map_read V6 read_ipv6_addr))"
  unfolding map_read_def read_ipv4_addr_def by (intro leaves_intros leaves_octets leaves_ipv6)

section \<open>Addresses that are read\<close>

lemma parse_ip_chars: "parse_ip s = Some ip \<Longrightarrow> \<forall>c \<in> set s. address_char c"
proof -
  assume "parse_ip s = Some ip"
  then have "or_read (map_read V4 read_ipv4_addr) (map_read V6 read_ipv6_addr) s = Some (ip, [])"
    by (auto simp: parse_ip_def whole_def split: option.splits prod.splits list.splits)
  from leaves_endE [OF leaves_ip this] show ?thesis by force
qed

text \<open>A text with an IPv4 address in front is no IPv6 address.\<close>

lemma ipv4_not_ipv6: "read_ipv4_addr s = Some x \<Longrightarrow> read_ipv6_addr s = None"
proof -
  assume r: "read_ipv4_addr s = Some x"
  have "read_groups 0 (Suc 7) s = Some ((embedded (fst x), True), snd x)"
    unfolding read_groups.simps using r
    by (simp add: or_read_def then_read_def read_separator_def give_def split: prod.split del: read_groups.simps)
  then have "read_groups 0 8 s = Some ((embedded (fst x), True), snd x)" by (simp del: read_groups.simps)
  then show ?thesis by (simp add: read_ipv6_addr_def then_read_def embedded_def del: read_groups.simps)
qed

lemma parse_ip_cases:
  assumes "parse_ip s = Some ip"
  shows "(\<exists>a. ip = V4 a \<and> read_ipv4_addr s = Some (a, [])) \<or>
    (\<exists>a. ip = V6 a \<and> read_ipv4_addr s = None \<and> read_ipv6_addr s = Some (a, []))"
  using assms
  by (auto simp: parse_ip_def whole_def or_read_def map_read_def then_read_def give_def split: option.splits prod.splits list.splits)

lemma not_digit_bracket [simp]: "to_digit 10 CHR ''['' = None" "to_digit 16 CHR ''['' = None" "to_digit 10 CHR '']'' = None"
  "to_digit 16 CHR '']'' = None" "to_digit 10 CHR '':'' = None" "to_digit 16 CHR ''%'' = None" "to_digit 10 CHR ''l'' = None"
  "to_digit 10 CHR ''L'' = None"
  by (simp_all add: to_digit_def)

lemma read_octets_Suc: "read_octets i 4 = then_read (read_separator CHR ''.'' i (read_number 10 (Some 3) False 255)) (\<lambda>v.
     then_read (read_octets (Suc i) 3) (\<lambda>vs. give (v # vs)))"
  using read_octets.simps(2) [of i 3] by simp

lemma read_ipv4_no_digit: "to_digit 10 c = None \<Longrightarrow> read_ipv4_addr (c # s) = None"
  by (simp add: read_ipv4_addr_def read_octets_Suc then_read_def read_separator_def read_number_def)

lemma not_address_chars: "\<not> address_char CHR '']''" "\<not> address_char CHR ''%''" "\<not> address_char CHR ''[''"
  by (simp_all add: address_char_def)

lemma lower_l: "to_lower c = CHR ''l'' \<Longrightarrow> c = CHR ''l'' \<or> c = CHR ''L''"
proof -
  assume l: "to_lower c = CHR ''l''"
  show ?thesis
  proof (cases "65 \<le> (of_char c :: nat) \<and> (of_char c :: nat) \<le> 90")
    case True
    with l have "(of_char (char_of ((of_char c :: nat) + 32)) :: nat) = of_char CHR ''l''" by (simp add: to_lower_def)
    then have "(of_char c :: nat) = of_char CHR ''L''" using True by simp
    then have "c = CHR ''L''" by (simp only: of_char_eq_iff)
    then show ?thesis by blast
  qed (use l in \<open>auto simp: to_lower_def\<close>)
qed

lemma localhost_no_address:
  assumes "eq_ignore_ascii_case host ''localhost''"
  shows "parse_socket_addr (host @ s) = None"
proof -
  from assms obtain c r where c: "host = c # r" "to_lower c = CHR ''l''"
    by (cases host) (simp_all add: eq_ignore_ascii_case_def to_lower_def)
  then have "c = CHR ''l'' \<or> c = CHR ''L''" by (intro lower_l)
  then show ?thesis
    using c by (auto simp: parse_socket_addr_def whole_def or_read_def read_socket_v4_def read_socket_v6_def then_read_def
        read_ipv4_no_digit read_given_char_def)
qed

lemma read_ipv6_bracket: "read_ipv6_addr (CHR ''['' # s) = None"
proof -
  have "read_groups 0 (Suc 7) (CHR ''['' # s) = Some (([], False), CHR ''['' # s)"
    unfolding read_groups.simps
    by (simp add: or_read_def then_read_def read_separator_def give_def read_ipv4_no_digit read_number_def del: read_groups.simps)
  then show ?thesis by (simp add: read_ipv6_addr_def then_read_def read_given_char_def del: read_groups.simps)
qed

lemma read_ipv6_empty: "read_ipv6_addr [] = None"
proof -
  have "read_groups 0 (Suc 7) [] = Some (([], False), [])"
    unfolding read_groups.simps
    by (simp add: or_read_def then_read_def read_separator_def give_def read_ipv4_addr_def read_octets_Suc read_number_def
        del: read_groups.simps)
  then show ?thesis by (simp add: read_ipv6_addr_def then_read_def read_given_char_def del: read_groups.simps)
qed

lemma split_trim:
  obtains m n where "host = replicate m CHR ''['' @ trim_end_matches CHR '']'' (dropWhile ((=) CHR ''['') host) @ replicate n CHR '']''"
proof -
  have front: "\<exists>m. s = replicate m c @ dropWhile ((=) c) s" for c and s :: string
    by (induction s) (auto intro: exI [of _ 0] exI [of _ "Suc m" for m])
  obtain m where m: "host = replicate m CHR ''['' @ dropWhile ((=) CHR ''['') host" using front by blast
  let ?h = "dropWhile ((=) CHR ''['') host"
  obtain n where "rev ?h = replicate n CHR '']'' @ dropWhile ((=) CHR '']'') (rev ?h)" using front by blast
  then have "?h = trim_end_matches CHR '']'' ?h @ replicate n CHR '']''"
    unfolding trim_end_matches_def by (metis rev_append rev_replicate rev_rev_ident)
  with m that show ?thesis by metis
qed

text \<open>The reading of a socket address, by its kind.\<close>

lemma socket_addr_cases:
  assumes "parse_socket_addr s = Some (ip, p)"
  shows "(\<exists>a r. ip = V4 a \<and> read_ipv4_addr s = Some (a, CHR '':'' # r)) \<or>
    (\<exists>a t c r. ip = V6 a \<and> s = CHR ''['' # t \<and> read_ipv6_addr t = Some (a, c # r) \<and> (c = CHR '']'' \<or> c = CHR ''%''))"
  using assms
  by (auto simp: parse_socket_addr_def whole_def or_read_def read_socket_v4_def read_socket_v6_def then_read_def give_def
      read_port_def read_given_char_def read_scope_id_def split: option.splits prod.splits list.splits if_splits)

lemma loopback_bound:
  assumes loop: "is_loopback_host host" and parsed: "parse_socket_addr (host @ CHR '':'' # port) = Some (ip, p)"
    and port: "\<forall>c \<in> set port. address_char c"
  shows "is_loopback ip"
proof -
  define t where "t = trim_end_matches CHR '']'' (dropWhile ((=) CHR ''['') host)"
  obtain m n where host: "host = replicate m CHR ''['' @ t @ replicate n CHR '']''"
    unfolding t_def by (rule split_trim)
  have "\<not> eq_ignore_ascii_case host ''localhost''"
    using localhost_no_address parsed by (metis option.distinct(1))
  then obtain ip' where ip': "parse_ip t = Some ip'" "is_loopback ip'"
    using loop by (auto simp: is_loopback_host_def t_def Let_def split: option.splits if_splits)
  note chars = parse_ip_chars [OF ip'(1)]
  obtain c r where rest: "replicate n CHR '']'' @ CHR '':'' # port = c # r" "c = (if n = 0 then CHR '':'' else CHR '']'')"
    by (cases n) simp_all
  have "t \<noteq> []"
    using ip'(1) by (auto simp: parse_ip_def whole_def or_read_def map_read_def then_read_def read_ipv4_addr_def read_octets_Suc
        read_separator_def read_number_def read_ipv6_empty)
  from socket_addr_cases [OF parsed]
  consider a r' where "ip = V4 a" "read_ipv4_addr (host @ CHR '':'' # port) = Some (a, CHR '':'' # r')"
    | a t' d r' where "ip = V6 a" "host @ CHR '':'' # port = CHR ''['' # t'" "read_ipv6_addr t' = Some (a, d # r')"
        "d = CHR '']'' \<or> d = CHR ''%''"
    by blast
  then show ?thesis
  proof cases
    case (1 a r')
    note ip = 1(1) and read = 1(2)
    have "m = 0" using read read_ipv4_no_digit by (cases m) (simp_all add: host)
    then have "read_ipv4_addr (t @ c # r) = Some (a, CHR '':'' # r')" using read rest by (simp add: host)
    moreover have "stops c read_ipv4_addr" unfolding rest(2) by (auto intro!: stops_ipv4)
    ultimately obtain r0 where "read_ipv4_addr t = Some (a, r0)" by (auto simp: stopsD)
    with parse_ip_cases [OF ip'(1)] ip'(2) ip show ?thesis by auto
  next
    case (2 a t' d r')
    note ip = 2(1) and w = 2(2) and read = 2(3) and d = 2(4)
    have "m = 1"
    proof (cases m)
      case 0
      with w host \<open>t \<noteq> []\<close> chars not_address_chars(3) show ?thesis by (cases t) auto
    next
      case (Suc m')
      then have "t' = replicate m' CHR ''['' @ t @ c # r" using w rest by (simp add: host)
      then show ?thesis using Suc read by (cases m') (simp_all add: read_ipv6_bracket)
    qed
    then have t': "t' = t @ c # r" using w rest by (simp add: host)
    have "n \<noteq> 0"
    proof
      assume "n = 0"
      then have "\<forall>x \<in> set t'. address_char x" using t' chars port rest by auto
      moreover obtain u where "t' = u @ d # r'" using leaves_endE [OF leaves_ipv6 read] by blast
      ultimately have "address_char d" by simp
      then show False using d not_address_chars by auto
    qed
    then have "stops c read_ipv6_addr" using rest(2) by (simp add: stops_ipv6 not_address_chars)
    then have "read_ipv6_addr (t @ c # r) = map_option (\<lambda>(v, r0). (v, r0 @ c # r)) (read_ipv6_addr t)"
      by (rule stopsD)
    with read t' have "\<exists>r0. read_ipv6_addr t = Some (a, r0)" by (cases "read_ipv6_addr t") auto
    then obtain r0 where r0: "read_ipv6_addr t = Some (a, r0)" by blast
    from parse_ip_cases [OF ip'(1)] ip'(2) ip r0 show ?thesis using ipv4_not_ipv6 by fastforce
  qed
qed

section \<open>Evaluation\<close>

lemma read_ipv4_octets: "read_ipv4_addr s = read_octets 0 (Suc (Suc (Suc (Suc 0)))) s"
  by (simp add: read_ipv4_addr_def numeral_eq_Suc)

lemmas read_defs =
  then_read_def give_def read_separator_def read_given_char_def read_number_def to_digit_def or_read_def map_read_def whole_def

lemma groups_colon: "read_groups 0 (Suc n) (CHR '':'' # x) = Some (([], False), CHR '':'' # x)"
  by (subst read_groups.simps) (simp add: read_defs read_ipv4_octets del: read_groups.simps)

lemma groups_end: "read_groups (Suc i) (Suc n) [] = Some (([], False), [])"
  by (subst read_groups.simps) (simp add: read_defs read_ipv4_octets del: read_groups.simps)

lemma groups_one: "read_groups 0 (Suc (Suc n)) ''1'' = Some (([1], False), [])"
  by (subst read_groups.simps) (simp add: read_defs read_ipv4_octets groups_end del: read_groups.simps)

lemma read_loopback_v6: "read_ipv6_addr ''::1'' = Some ([0, 0, 0, 0, 0, 0, 0, 1], [])"
  by (simp add: read_ipv6_addr_def read_defs groups_one groups_colon numeral_eq_Suc del: read_groups.simps)

lemma loopback_v6: "is_loopback_host ''::1''"
  by (simp add: is_loopback_host_def eq_ignore_ascii_case_def trim_end_matches_def parse_ip_def read_defs read_ipv4_octets
      read_loopback_v6 del: read_groups.simps)

lemma loopback_v4: "is_loopback_host ''127.0.0.1''"
  by (simp add: is_loopback_host_def eq_ignore_ascii_case_def trim_end_matches_def parse_ip_def read_defs read_ipv4_octets)

lemma default_address: "parse_socket_addr ''127.0.0.1:8080'' = Some (V4 [127, 0, 0, 1], 8080)"
  by (simp add: parse_socket_addr_def read_socket_v4_def read_port_def read_ipv4_octets read_defs)

end
