(* ===== verification/Dashboard_Router.thy ===== *)
theory Dashboard_Router
  imports Dashboard_Auth
begin

text \<open>
  The router of the dashboard: \<^verbatim>\<open>create_router\<close> of \<^verbatim>\<open>src/dashboard/routes.rs\<close> and \<^verbatim>\<open>create_app\<close> of
  \<^verbatim>\<open>src/dashboard/server.rs\<close> build a term of the calls they make on \<^verbatim>\<open>axum::Router\<close>. What \<^verbatim>\<open>axum\<close> and the CORS layer of
  \<^verbatim>\<open>tower-http\<close> make of it is outside the crate: the locale \<open>axum\<close> states the documented behaviour that the
  code relies on, and the last part of the theory interprets it on a reference that looks a request up in the
  table of routes.
\<close>

section \<open>Requests, endpoints and the calls on a router\<close>

record web_request = request +
  rq_path :: string

datatype endpoint =
    ServerStatistics | JobStatistics | QueueStatistics | Jobs | JobDetails | RetryJob | DeleteJob | QueueJobs
  | HealthCheck | Websocket | DashboardUi | Metrics

datatype verb = Get | Post | Delete

datatype layer = CsrfGuard | RequireAuth dashboard_auth | CorsPermissive

datatype router =
    New
  | Route string verb endpoint router
  | Merge router router
  | Layered layer router

text \<open>An answer \<open>Pass (Some e)\<close> is the answer of the endpoint; \<open>Pass None\<close> is one that \<^verbatim>\<open>axum\<close> or the CORS layer
  gives by itself: not found, method not allowed, the answer to a preflight request.\<close>

type_synonym reply = "endpoint option response"

section \<open>The application\<close>

record 'm dashboard_config =
  dc_host :: string
  dc_port :: u16
  dc_statistics_update_interval :: u64
  dc_auth :: "dashboard_auth option"
  dc_metrics :: "'m option"
  dc_metrics_skip_auth :: bool

definition dashboard_config_default :: "'m dashboard_config" where
  "dashboard_config_default =
     \<lparr>dc_host = ''127.0.0.1'', dc_port = 8080, dc_statistics_update_interval = 5, dc_auth = None,
      dc_metrics = None, dc_metrics_skip_auth = False\<rparr>"

definition create_router :: router where
  "create_router =
     (let r = New;
          r = Route ''/api/statistics'' Get ServerStatistics r;
          r = Route ''/api/statistics/jobs'' Get JobStatistics r;
          r = Route ''/api/statistics/queues'' Get QueueStatistics r;
          r = Route ''/api/jobs'' Get Jobs r;
          r = Route ''/api/jobs/{id}'' Get JobDetails r;
          r = Route ''/api/jobs/{id}/retry'' Post RetryJob r;
          r = Route ''/api/jobs/{id}'' Delete DeleteJob r;
          r = Route ''/api/queues/{name}/jobs'' Get QueueJobs r
      in Route ''/api/health'' Get HealthCheck r)"

definition ws_router :: router where
  "ws_router = Route ''/ws'' Get Websocket New"

definition ui_router :: router where
  "ui_router =
     (let r = New;
          r = Route ''/'' Get DashboardUi r;
          r = Route ''/dashboard'' Get DashboardUi r;
          r = Route ''/jobs'' Get DashboardUi r;
          r = Route ''/queues'' Get DashboardUi r
      in Route ''/statistics'' Get DashboardUi r)"

definition create_app :: "'m dashboard_config \<Rightarrow> router" where
  "create_app c =
     (let guarded = Merge (Merge (Merge New create_router) ws_router) ui_router;
          metrics_router = map_option (\<lambda>m. Route ''/metrics'' Get Metrics New) (dc_metrics c);
          unguarded = (case metrics_router of
                         Some r \<Rightarrow> if dc_metrics_skip_auth c then Some r else None
                       | None \<Rightarrow> None);
          guarded = (case metrics_router of
                       Some r \<Rightarrow> if \<not> dc_metrics_skip_auth c then Merge guarded r else guarded
                     | None \<Rightarrow> guarded);
          guarded = Layered CsrfGuard guarded;
          guarded = (case dc_auth c of Some a \<Rightarrow> Layered (RequireAuth a) guarded | None \<Rightarrow> guarded);
          app = (case unguarded of Some r \<Rightarrow> Merge guarded r | None \<Rightarrow> guarded)
      in Layered CorsPermissive app)"

section \<open>The contract of axum\<close>

text \<open>The table of a router: each route with the layers around it, the outermost first. A layer wraps the routes
  that are in the router when it is added, and runs before the layers added earlier; a merge adds no layer.\<close>

type_synonym route = "string \<times> verb \<times> endpoint \<times> layer list"

fun routes :: "router \<Rightarrow> route list" where
  "routes New = []"
| "routes (Route p v e r) = routes r @ [(p, v, e, [])]"
| "routes (Merge a b) = routes a @ routes b"
| "routes (Layered l r) = map (\<lambda>(p, v, e, ls). (p, v, e, l # ls)) (routes r)"

text \<open>A pattern matches segment by segment, \<^verbatim>\<open>{x}\<close> any segment that is not empty.\<close>

fun segments :: "string \<Rightarrow> string list" where
  "segments [] = [[]]"
| "segments (c # s) =
     (if c = CHR ''/'' then [] # segments s
      else case segments s of [] \<Rightarrow> [[c]] | x # xs \<Rightarrow> (c # x) # xs)"

definition is_capture :: "string \<Rightarrow> bool" where
  "is_capture p \<longleftrightarrow> p \<noteq> [] \<and> hd p = CHR ''{'' \<and> last p = CHR ''}''"

definition path_matches :: "string \<Rightarrow> string \<Rightarrow> bool" where
  "path_matches p path \<longleftrightarrow>
     list_all2 (\<lambda>p s. if is_capture p then s \<noteq> [] else p = s) (segments p) (segments path)"

text \<open>\<^verbatim>\<open>get\<close> also answers \<^verbatim>\<open>HEAD\<close>.\<close>

fun accepts :: "verb \<Rightarrow> http_method \<Rightarrow> bool" where
  "accepts Get m = (m = GET \<or> m = HEAD)"
| "accepts Post m = (m = POST)"
| "accepts Delete m = (m = DELETE)"

definition answers :: "web_request \<Rightarrow> route \<Rightarrow> bool" where
  "answers req = (\<lambda>(p, v, e, ls). path_matches p (rq_path req) \<and> accepts v (rq_method req))"

type_synonym middleware_fn = "web_request \<Rightarrow> (web_request \<Rightarrow> reply) \<Rightarrow> reply"

fun run_layer :: "(string \<Rightarrow> string option) \<Rightarrow> middleware_fn \<Rightarrow> layer \<Rightarrow> middleware_fn" where
  "run_layer b64 cors CsrfGuard = csrf_guard"
| "run_layer b64 cors (RequireAuth a) = require_auth b64 a"
| "run_layer b64 cors CorsPermissive = cors"

fun run_layers :: "(string \<Rightarrow> string option) \<Rightarrow> middleware_fn \<Rightarrow> layer list \<Rightarrow> middleware_fn" where
  "run_layers b64 cors [] req next = next req"
| "run_layers b64 cors (l # ls) req next = run_layer b64 cors l req (\<lambda>r. run_layers b64 cors ls r next)"

text \<open>The paths of a router do not overlap when no request path matches two different patterns; the methods of one
  pattern are told apart.\<close>

definition route_keys :: "router \<Rightarrow> (string \<times> verb) list" where
  "route_keys r = map (\<lambda>(p, v, e, ls). (p, v)) (routes r)"

locale axum =
  fixes serve :: "router \<Rightarrow> web_request \<Rightarrow> reply"
    and b64 :: "string \<Rightarrow> string option"
    and cors :: middleware_fn
  assumes reached:
      "distinct (route_keys r) \<Longrightarrow> serve r req = Pass (Some e) \<Longrightarrow>
       \<exists>p v ls. (p, v, e, ls) \<in> set (routes r) \<and> answers req (p, v, e, ls)
         \<and> run_layers b64 cors ls req (\<lambda>_. Pass (Some e)) = Pass (Some e)"
    and dispatched:
      "distinct (route_keys r) \<Longrightarrow> (p, v, e, ls) \<in> set (routes r) \<Longrightarrow> answers req (p, v, e, ls) \<Longrightarrow>
       (\<forall>(q, k) \<in> set (route_keys r). path_matches q (rq_path req) \<longrightarrow> q = p) \<Longrightarrow>
       serve r req = run_layers b64 cors ls req (\<lambda>_. Pass (Some e))"
    and cors_simple: "rq_method q \<noteq> OPTIONS \<Longrightarrow> cors q next = next q"
    and cors_preflight: "cors q next = next q \<or> cors q next = Pass None"

section \<open>A reference for the contract\<close>

text \<open>The first route of the table that answers the request.\<close>

definition serve_reference :: "(string \<Rightarrow> string option) \<Rightarrow> middleware_fn \<Rightarrow> router \<Rightarrow> web_request \<Rightarrow> reply" where
  "serve_reference b64 cors r req =
     (case find (answers req) (routes r) of
        None \<Rightarrow> Pass None
      | Some (p, v, e, ls) \<Rightarrow> run_layers b64 cors ls req (\<lambda>_. Pass (Some e)))"

definition cors_reference :: middleware_fn where
  "cors_reference req next = (if rq_method req = OPTIONS then Pass None else next req)"

text \<open>The guards let a request through or answer themselves.\<close>

definition authorized :: "(string \<Rightarrow> string option) \<Rightarrow> dashboard_auth \<Rightarrow> 'z request_scheme \<Rightarrow> bool" where
  "authorized b64 a req \<longleftrightarrow> require_auth b64 a req (\<lambda>_. Pass ()) = Pass ()"

definition same_origin :: "'z request_scheme \<Rightarrow> bool" where
  "same_origin req \<longleftrightarrow> csrf_guard req (\<lambda>_. Pass ()) = Pass ()"

lemma require_auth_if: "require_auth b64 a req next = (if authorized b64 a req then next req else unauthorized a)"
  by (auto simp: authorized_def require_auth_def unauthorized_def Let_def)

lemma csrf_guard_if: "csrf_guard req next = (if same_origin req then next req else Forbidden ''CSRF check failed'')"
  unfolding same_origin_def csrf_guard_def Let_def by (auto split: option.splits)

lemma same_origin_safe [simp]: "\<not> is_mutation (rq_method req) \<Longrightarrow> same_origin req"
  by (simp add: same_origin_def csrf_guard_def)

lemma unauthorized_no_pass [simp]: "unauthorized a \<noteq> Pass x"
  by (simp add: unauthorized_def)

lemma run_layers_endpoint:
  assumes "\<And>q next. cors q next = next q \<or> cors q next = Pass None"
    and "run_layers b64 cors ls req (\<lambda>_. Pass (Some e)) = Pass (Some e')"
  shows "e' = e"
  using assms(2)
proof (induction ls)
  case (Cons l ls)
  show ?case
  proof (cases l)
    case CorsPermissive
    then show ?thesis
      using Cons assms(1) [of req "\<lambda>r. run_layers b64 cors ls r (\<lambda>_. Pass (Some e))"] by auto
  qed (use Cons in \<open>auto simp: csrf_guard_if require_auth_if split: if_splits\<close>)
qed simp

lemma route_of_key:
  assumes "distinct (route_keys r)" "(p, v, e, ls) \<in> set (routes r)" "(p, v, e', ls') \<in> set (routes r)"
  shows "e' = e \<and> ls' = ls"
proof -
  have "inj_on (\<lambda>(p, v, e, ls). (p, v)) (set (routes r))"
    using assms(1) by (simp add: route_keys_def distinct_map)
  from inj_onD [OF this _ assms(3, 2)] show ?thesis by auto
qed

lemma accepts_unique: "accepts v m \<Longrightarrow> accepts v' m \<Longrightarrow> v = v'"
  by (cases v; cases v') auto

interpretation ax: axum "serve_reference b64 cors_reference" b64 cors_reference
proof
  fix r and req :: web_request and e
  assume "serve_reference b64 cors_reference r req = Pass (Some e)"
  then obtain p v e' ls where f: "find (answers req) (routes r) = Some (p, v, e', ls)"
      and run: "run_layers b64 cors_reference ls req (\<lambda>_. Pass (Some e')) = Pass (Some e)"
    by (auto simp: serve_reference_def split: option.splits)
  from run have "e = e'" by (rule run_layers_endpoint [rotated]) (simp add: cors_reference_def)
  with f run show "\<exists>p v ls. (p, v, e, ls) \<in> set (routes r) \<and> answers req (p, v, e, ls)
      \<and> run_layers b64 cors_reference ls req (\<lambda>_. Pass (Some e)) = Pass (Some e)"
    unfolding find_Some_iff by (metis nth_mem)
next
  fix r p v e ls and req :: web_request
  assume d: "distinct (route_keys r)" and m: "(p, v, e, ls) \<in> set (routes r)" and a: "answers req (p, v, e, ls)"
    and only: "\<forall>(q, k) \<in> set (route_keys r). path_matches q (rq_path req) \<longrightarrow> q = p"
  then obtain q k e' ls' where f: "find (answers req) (routes r) = Some (q, k, e', ls')"
    by (cases "find (answers req) (routes r)") (auto simp: find_None_iff)
  then have q: "(q, k, e', ls') \<in> set (routes r)" "answers req (q, k, e', ls')"
    unfolding find_Some_iff by (metis nth_mem)+
  then have "(q, k) \<in> set (route_keys r)" by (force simp: route_keys_def)
  with q only a have "q = p" "k = v" by (auto simp: answers_def intro: accepts_unique)
  with route_of_key [OF d m] q(1) f show "serve_reference b64 cors_reference r req = run_layers b64 cors_reference ls req (\<lambda>_. Pass (Some e))"
    by (simp add: serve_reference_def)
qed (simp_all add: cors_reference_def)

section \<open>The table of the dashboard\<close>

text \<open>The documented endpoints, without the layers.\<close>

definition endpoint_table :: "'m dashboard_config \<Rightarrow> (string \<times> verb \<times> endpoint) list" where
  "endpoint_table c =
     [(''/api/statistics'', Get, ServerStatistics), (''/api/statistics/jobs'', Get, JobStatistics),
      (''/api/statistics/queues'', Get, QueueStatistics), (''/api/jobs'', Get, Jobs),
      (''/api/jobs/{id}'', Get, JobDetails), (''/api/jobs/{id}/retry'', Post, RetryJob),
      (''/api/jobs/{id}'', Delete, DeleteJob), (''/api/queues/{name}/jobs'', Get, QueueJobs),
      (''/api/health'', Get, HealthCheck), (''/ws'', Get, Websocket), (''/'', Get, DashboardUi),
      (''/dashboard'', Get, DashboardUi), (''/jobs'', Get, DashboardUi), (''/queues'', Get, DashboardUi),
      (''/statistics'', Get, DashboardUi)]
     @ (if dc_metrics c = None then [] else [(''/metrics'', Get, Metrics)])"

definition layers_of :: "'m dashboard_config \<Rightarrow> endpoint \<Rightarrow> layer list" where
  "layers_of c e =
     CorsPermissive #
     (if e = Metrics \<and> dc_metrics_skip_auth c then []
      else (case dc_auth c of Some a \<Rightarrow> [RequireAuth a] | None \<Rightarrow> []) @ [CsrfGuard])"

lemma routes_create_app: "routes (create_app c) = map (\<lambda>(p, v, e). (p, v, e, layers_of c e)) (endpoint_table c)"
  by (simp add: create_app_def create_router_def ws_router_def ui_router_def endpoint_table_def layers_of_def Let_def
      split: option.split)

definition overlap :: "string \<Rightarrow> string \<Rightarrow> bool" where
  "overlap p q \<longleftrightarrow> list_all2 (\<lambda>a b. is_capture a \<or> is_capture b \<or> a = b) (segments p) (segments q)"

lemma matches_overlap: "path_matches p s \<Longrightarrow> path_matches q s \<Longrightarrow> overlap p q"
  unfolding path_matches_def overlap_def by (auto simp: list_all2_conv_all_nth split: if_splits) metis+

definition all_patterns :: "string list" where
  "all_patterns =
     [''/api/statistics'', ''/api/statistics/jobs'', ''/api/statistics/queues'', ''/api/jobs'', ''/api/jobs/{id}'',
      ''/api/jobs/{id}/retry'', ''/api/queues/{name}/jobs'', ''/api/health'', ''/ws'', ''/'', ''/dashboard'', ''/jobs'',
      ''/queues'', ''/statistics'', ''/metrics'']"

lemma no_overlap: "list_all (\<lambda>p. list_all (\<lambda>q. overlap p q \<longrightarrow> p = q) all_patterns) all_patterns"
  by code_simp

lemma table_patterns: "(p, v, e) \<in> set (endpoint_table c) \<Longrightarrow> p \<in> set all_patterns"
  by (auto simp: endpoint_table_def all_patterns_def split: if_splits)

lemma table_unambiguous:
  "(p, v, e) \<in> set (endpoint_table c) \<Longrightarrow> (q, k, d) \<in> set (endpoint_table c) \<Longrightarrow> path_matches p s \<Longrightarrow> path_matches q s \<Longrightarrow> q = p"
  using no_overlap matches_overlap [of p s q] table_patterns [of p v e c] table_patterns [of q k d c]
  by (auto simp: list_all_iff)

lemma keys_create_app: "route_keys (create_app c) = map (\<lambda>(p, v, e). (p, v)) (endpoint_table c)"
  by (simp add: route_keys_def routes_create_app case_prod_unfold comp_def)

lemma distinct_create_app: "distinct (route_keys (create_app c))"
  by (simp add: keys_create_app endpoint_table_def)

lemma accepts_not_options: "accepts v m \<Longrightarrow> m \<noteq> OPTIONS"
  by (cases v) auto

lemma metrics_pattern: "path_matches ''/metrics'' s \<longleftrightarrow> s = ''/metrics''"
proof -
  have inv: "concat (map (\<lambda>x. CHR ''/'' # x) (segments s)) = CHR ''/'' # s" for s
    by (induction s) (auto split: list.splits)
  have "segments ''/metrics'' = [[], ''metrics'']" "\<not> is_capture []" "\<not> is_capture ''metrics''" by code_simp+
  then have "path_matches ''/metrics'' s \<longleftrightarrow> segments s = [[], ''metrics'']"
    unfolding path_matches_def by (auto simp: list_all2_Cons1)
  also have "\<dots> \<longleftrightarrow> s = ''/metrics''"
    using inv [of s] \<open>segments ''/metrics'' = _\<close> by auto
  finally show ?thesis .
qed

definition guard_reply :: "(string \<Rightarrow> string option) \<Rightarrow> 'm dashboard_config \<Rightarrow> web_request \<Rightarrow> reply \<Rightarrow> reply" where
  "guard_reply b64 c req inner =
     (case dc_auth c of
        Some a \<Rightarrow>
          if \<not> authorized b64 a req then unauthorized a
          else if \<not> same_origin req then Forbidden ''CSRF check failed'' else inner
      | None \<Rightarrow> if \<not> same_origin req then Forbidden ''CSRF check failed'' else inner)"

context axum
begin

lemma layers_reply:
  assumes "rq_method req \<noteq> OPTIONS"
  shows "run_layers b64 cors (layers_of c e) req (\<lambda>_. x) =
     (if e = Metrics \<and> dc_metrics_skip_auth c then x else guard_reply b64 c req x)"
  using cors_simple [OF assms]
  by (auto simp: layers_of_def guard_reply_def csrf_guard_if require_auth_if split: option.split)

lemma answer:
  assumes "(p, v, e) \<in> set (endpoint_table c)" and "path_matches p (rq_path req)" and "accepts v (rq_method req)"
  shows "serve (create_app c) req =
     (if e = Metrics \<and> dc_metrics_skip_auth c then Pass (Some e) else guard_reply b64 c req (Pass (Some e)))"
proof -
  have "(p, v, e, layers_of c e) \<in> set (routes (create_app c))"
    using assms(1) by (force simp: routes_create_app)
  moreover have "answers req (p, v, e, layers_of c e)" using assms by (simp add: answers_def)
  moreover have "\<forall>(q, k) \<in> set (route_keys (create_app c)). path_matches q (rq_path req) \<longrightarrow> q = p"
    using table_unambiguous [OF assms(1) _ assms(2)] by (auto simp: keys_create_app)
  ultimately have "serve (create_app c) req = run_layers b64 cors (layers_of c e) req (\<lambda>_. Pass (Some e))"
    by (rule dispatched [OF distinct_create_app])
  then show ?thesis by (simp add: layers_reply [OF accepts_not_options [OF assms(3)]])
qed

lemma guarded:
  assumes "serve (create_app c) req = Pass (Some e)"
  shows "\<exists>p v. (p, v, e) \<in> set (endpoint_table c) \<and> path_matches p (rq_path req) \<and> accepts v (rq_method req)
     \<and> (e = Metrics \<and> dc_metrics_skip_auth c \<or> guard_reply b64 c req (Pass (Some e)) = Pass (Some e))"
proof -
  from reached [OF distinct_create_app assms] obtain p v ls where r: "(p, v, e, ls) \<in> set (routes (create_app c))"
      "answers req (p, v, e, ls)" "run_layers b64 cors ls req (\<lambda>_. Pass (Some e)) = Pass (Some e)"
    by blast
  then have t: "(p, v, e) \<in> set (endpoint_table c)" "ls = layers_of c e" by (auto simp: routes_create_app)
  from r(2) have a: "path_matches p (rq_path req)" "accepts v (rq_method req)" by (simp_all add: answers_def)
  from r(3) have "e = Metrics \<and> dc_metrics_skip_auth c \<or> guard_reply b64 c req (Pass (Some e)) = Pass (Some e)"
    unfolding t(2) layers_reply [OF accepts_not_options [OF a(2)]] by (simp split: if_splits)
  with t(1) a show ?thesis by blast
qed

end

section \<open>Properties of the router\<close>

text \<open>
  C15. No request reaches an endpoint of the dashboard around its guards. With a guard configured, every endpoint
  needs its credentials, except the metrics when they have been taken out of it, and then only on
  their own path and without changing anything; and no request that changes state comes from
  another origin.
\<close>

theorem dashboard_guarded:
  assumes "axum serve b64 cors" and "serve (create_app c) req = Pass (Some e)"
  shows "(dc_auth c = Some a \<longrightarrow> authorized b64 a req
            \<or> e = Metrics \<and> dc_metrics c \<noteq> None \<and> dc_metrics_skip_auth c \<and> rq_path req = ''/metrics'')
     \<and> (is_mutation (rq_method req) \<longrightarrow> same_origin req)
     \<and> (e = RetryJob \<or> e = DeleteJob \<longleftrightarrow> is_mutation (rq_method req))"
proof -
  from axum.guarded [OF assms] obtain p v where t: "(p, v, e) \<in> set (endpoint_table c)" "path_matches p (rq_path req)"
      "accepts v (rq_method req)"
    and g: "e = Metrics \<and> dc_metrics_skip_auth c \<or> guard_reply b64 c req (Pass (Some e)) = Pass (Some e)"
    by blast
  have m: "p = ''/metrics'' \<and> v = Get \<and> dc_metrics c \<noteq> None" if "e = Metrics"
    using t(1) that by (auto simp: endpoint_table_def split: if_splits)
  have v: "e = RetryJob \<or> e = DeleteJob \<longleftrightarrow> v \<noteq> Get"
    using t(1) by (auto simp: endpoint_table_def split: if_splits)
  have "v \<noteq> Get \<longleftrightarrow> is_mutation (rq_method req)"
    using t(3) by (cases v) (auto simp: is_mutation_def)
  with g m v t(2) show ?thesis by (auto simp: guard_reply_def metrics_pattern split: option.splits if_splits)
qed

theorem dashboard_guarded_witness:
  "authorized (\<lambda>s. None) (Bearer ''t'')
     \<lparr>rq_method = GET, rq_authorization = Some (Visible ''Bearer t''), rq_host = None, rq_origin = None,
      rq_referer = None, rq_path = ''/api/jobs''\<rparr>"
proof -
  let ?req = "\<lparr>rq_method = GET, rq_authorization = Some (Visible ''Bearer t''), rq_host = None, rq_origin = None,
      rq_referer = None, rq_path = ''/api/jobs''\<rparr>"
  let ?c = "dashboard_config_default\<lparr>dc_auth := Some (Bearer ''t'')\<rparr> :: unit dashboard_config"
  have "serve_reference (\<lambda>s. None) cors_reference (create_app ?c) ?req = Pass (Some Jobs)" by code_simp
  from dashboard_guarded [OF ax.axum_axioms this, of "Bearer ''t''"] show ?thesis
    by (simp add: dashboard_config_default_def)
qed

text \<open>
  C17. The answer to every request on a documented endpoint, whatever the path parameters: the metrics
  outside the guard answer; else a request without the credentials is told so, one with them is checked for its
  origin, and the endpoint answers the rest. The credentials are asked for before the origin is
  looked at, although the source says the opposite.
\<close>

theorem dashboard_answer:
  assumes "axum serve b64 cors" and "(p, v, e) \<in> set (endpoint_table c)"
    and "path_matches p (rq_path req)" and "accepts v (rq_method req)"
  shows "serve (create_app c) req =
     (if e = Metrics \<and> dc_metrics_skip_auth c then Pass (Some e)
      else case dc_auth c of
        Some a \<Rightarrow>
          if \<not> authorized b64 a req then unauthorized a
          else if same_origin req then Pass (Some e) else Forbidden ''CSRF check failed''
      | None \<Rightarrow> if same_origin req then Pass (Some e) else Forbidden ''CSRF check failed'')"
  unfolding axum.answer [OF assms] guard_reply_def by (simp split: option.split)

theorem dashboard_answer_witness:
  "serve_reference (\<lambda>s. None) cors_reference
     (create_app (dashboard_config_default\<lparr>dc_auth := Some (Bearer ''t'')\<rparr> :: unit dashboard_config))
     \<lparr>rq_method = POST, rq_authorization = None, rq_host = Some (Visible ''d''),
      rq_origin = Some (Visible ''http://evil''), rq_referer = None, rq_path = ''/api/jobs/7/retry''\<rparr>
   = Unauthorized None"
proof -
  let ?req = "\<lparr>rq_method = POST, rq_authorization = None, rq_host = Some (Visible ''d''),
      rq_origin = Some (Visible ''http://evil''), rq_referer = None, rq_path = ''/api/jobs/7/retry''\<rparr>"
  let ?c = "dashboard_config_default\<lparr>dc_auth := Some (Bearer ''t'')\<rparr> :: unit dashboard_config"
  have "(''/api/jobs/{id}/retry'', Post, RetryJob) \<in> set (endpoint_table ?c)" by (simp add: endpoint_table_def)
  moreover have "path_matches ''/api/jobs/{id}/retry'' (rq_path ?req)" by code_simp
  moreover have "\<not> authorized (\<lambda>s. None) (Bearer ''t'') ?req" by (simp add: authorized_def require_auth_def)
  ultimately show ?thesis
    using dashboard_answer [OF ax.axum_axioms, of "''/api/jobs/{id}/retry''" Post RetryJob ?c ?req "\<lambda>s. None"]
    by (simp add: dashboard_config_default_def unauthorized_def)
qed

end
