(* ===== verification/Dashboard_Server.thy ===== *)
theory Dashboard_Server
  imports Addresses Dashboard_Router
begin

text \<open>
  The server of the dashboard, \<^verbatim>\<open>src/dashboard/server.rs\<close>, and its web sockets,
  \<^verbatim>\<open>src/dashboard/websocket.rs\<close>: what an endpoint does with a request, the start and the end of the server,
  the task of the periodic updates and a client of the web socket. The extraction of path and query, the
  upgrade to a web socket, JSON and the Prometheus encoder are arguments. What the network, the
  timer and the runtime do is a record of outcomes or a list of events.
\<close>

section \<open>Endpoints\<close>

datatype dashboard_body =
    ServerStatisticsBody "server_statistics api_response"
  | JobStatisticsBody "job_statistics api_response"
  | QueueStatisticsBody "queue_statistics list api_response"
  | JobsBody "job_details list api_response"
  | JobDetailsBody "job_details api_response"
  | FlagBody "bool api_response"
  | HealthBody "string api_response"
  | DashboardPage
  | MetricsText string
  | SwitchingProtocols

text \<open>What the extractors of \<^verbatim>\<open>axum\<close> read off a request, \<open>None\<close> when they reject it.\<close>

record extractors =
  ex_path :: "web_request \<Rightarrow> string option"
  ex_query :: "web_request \<Rightarrow> jobs_query option"
  ex_upgrade :: "web_request \<Rightarrow> bool"

datatype endpoint_answer = Answer "status_code + dashboard_body" | Rejected | HandlerPanicked

definition body_answer :: "('a \<Rightarrow> dashboard_body) \<Rightarrow> (status_code + 'a) option \<Rightarrow> endpoint_answer" where
  "body_answer f r = (case r of None \<Rightarrow> HandlerPanicked | Some x \<Rightarrow> Answer (map_sum id f x))"

definition extracted ::
  "'a option \<Rightarrow> ('a \<Rightarrow> ('s, 'e, endpoint_answer) act) \<Rightarrow> ('s, 'e, endpoint_answer) act" where
  "extracted x f = (case x of None \<Rightarrow> ret Rejected | Some v \<Rightarrow> f v)"

definition metrics_handler :: "('m \<Rightarrow> string + string) \<Rightarrow> 'm \<Rightarrow> status_code + dashboard_body" where
  "metrics_handler encode_text m =
     (case encode_text m of Inr body \<Rightarrow> Inr (MetricsText body) | Inl e \<Rightarrow> Inl INTERNAL_SERVER_ERROR)"

fun run_endpoint ::
  "('p, 's, 'e, 'z) monitoring_api_scheme \<Rightarrow> extractors \<Rightarrow> ('m \<Rightarrow> string + string) \<Rightarrow> 'm option
     \<Rightarrow> endpoint \<Rightarrow> web_request \<Rightarrow> ('s, 'e, endpoint_answer) act" where
  "run_endpoint M X enc m ServerStatistics req =
     do { r \<leftarrow> h_get_server_statistics M; ret (body_answer ServerStatisticsBody r) }"
| "run_endpoint M X enc m JobStatistics req =
     do { r \<leftarrow> h_get_job_statistics M; ret (body_answer JobStatisticsBody r) }"
| "run_endpoint M X enc m QueueStatistics req =
     do { r \<leftarrow> h_get_queue_statistics M; ret (body_answer QueueStatisticsBody r) }"
| "run_endpoint M X enc m Jobs req =
     extracted (ex_query X req) (\<lambda>q. do { r \<leftarrow> h_get_jobs M q; ret (body_answer JobsBody r) })"
| "run_endpoint M X enc m JobDetails req =
     extracted (ex_path X req) (\<lambda>i. do { r \<leftarrow> h_get_job_details M i; ret (Answer (map_sum id JobDetailsBody r)) })"
| "run_endpoint M X enc m RetryJob req =
     extracted (ex_path X req) (\<lambda>i. do { r \<leftarrow> h_retry_job M i; ret (Answer (map_sum id FlagBody r)) })"
| "run_endpoint M X enc m DeleteJob req =
     extracted (ex_path X req) (\<lambda>i. do { r \<leftarrow> h_delete_job M i; ret (Answer (map_sum id FlagBody r)) })"
| "run_endpoint M X enc m QueueJobs req =
     extracted (ex_path X req) (\<lambda>n. extracted (ex_query X req) (\<lambda>q.
       do { r \<leftarrow> h_get_queue_jobs M n q; ret (body_answer JobsBody r) }))"
| "run_endpoint M X enc m HealthCheck req = ret (Answer (Inr (HealthBody health_check)))"
| "run_endpoint M X enc m Websocket req =
     ret (if ex_upgrade X req then Answer (Inr SwitchingProtocols) else Rejected)"
| "run_endpoint M X enc m DashboardUi req = ret (Answer (Inr DashboardPage))"
| "run_endpoint M X enc m Metrics req =
     ret (case m of None \<Rightarrow> Rejected | Some h \<Rightarrow> Answer (metrics_handler enc h))"

text \<open>A request: the guards first, and the endpoint only if they let it through.\<close>

definition handle_request ::
  "(router \<Rightarrow> web_request \<Rightarrow> reply) \<Rightarrow> ('p, 's, 'e, 'z) monitoring_api_scheme \<Rightarrow> extractors
     \<Rightarrow> ('m \<Rightarrow> string + string) \<Rightarrow> 'm dashboard_config \<Rightarrow> web_request
     \<Rightarrow> ('s, 'e, endpoint_answer option response) act" where
  "handle_request serve M X enc c req =
     (case serve (create_app c) req of
        Pass (Some e) \<Rightarrow> do { a \<leftarrow> run_endpoint M X enc (dc_metrics c) e req; ret (Pass (Some a)) }
      | Pass None \<Rightarrow> ret (Pass None)
      | Unauthorized w \<Rightarrow> ret (Unauthorized w)
      | Forbidden t \<Rightarrow> ret (Forbidden t))"

section \<open>Start and end of the server\<close>

datatype 'x dashboard_error = RefusedNonLoopback string | AddrParseError | IoError 'x

text \<open>What the server does with its surroundings, in order.\<close>

datatype server_action =
    SpawnedPeriodic u64
  | Bound ip_addr nat
  | Served router
  | TokenCancelled
  | PeriodicJoined
  | PeriodicAborted

record 'x surroundings =
  su_bind :: "ip_addr \<times> nat \<Rightarrow> 'x option"
  su_serve :: "'x option"
  su_periodic_exits :: bool

definition run_until_cancelled ::
  "'m dashboard_config \<Rightarrow> 'x surroundings \<Rightarrow> ('x dashboard_error + unit) \<times> server_action list" where
  "run_until_cancelled c su =
     (if dc_auth c = None \<and> \<not> is_loopback_host (dc_host c)
      then (Inl (RefusedNonLoopback (dc_host c)), [])
      else case parse_socket_addr (dc_host c @ '':'' @ show_nat (unat (dc_port c))) of
        None \<Rightarrow> (Inl AddrParseError, [])
      | Some addr \<Rightarrow>
          (let spawned = [SpawnedPeriodic (dc_statistics_update_interval c)] in
           case su_bind su addr of
             Some e \<Rightarrow> (Inl (IoError e), spawned)
           | None \<Rightarrow>
               ((case su_serve su of Some e \<Rightarrow> Inl (IoError e) | None \<Rightarrow> Inr ()),
                spawned @ [Bound (fst addr) (snd addr), Served (create_app c), TokenCancelled,
                  if su_periodic_exits su then PeriodicJoined else PeriodicAborted])))"

text \<open>The server itself: its configuration and whether its own token has been cancelled. A run cancels the token it was
  given when it ends.\<close>

record 'm dashboard_server =
  dsv_config :: "'m dashboard_config"
  dsv_shutdown :: bool

definition dashboard_server_new :: "'m dashboard_config \<Rightarrow> 'm dashboard_server" where
  "dashboard_server_new c = \<lparr>dsv_config = c, dsv_shutdown = False\<rparr>"

definition dsv_cancel :: "'m dashboard_server \<Rightarrow> 'm dashboard_server" where
  "dsv_cancel ds = ds\<lparr>dsv_shutdown := True\<rparr>"

definition dsv_start ::
  "'m dashboard_server \<Rightarrow> 'x surroundings
     \<Rightarrow> ('x dashboard_error + unit) \<times> server_action list \<times> 'm dashboard_server" where
  "dsv_start ds su =
     (case run_until_cancelled (dsv_config ds) su of
        (r, acts) \<Rightarrow> (r, acts, if TokenCancelled \<in> set acts then dsv_cancel ds else ds))"

section \<open>Periodic updates\<close>

datatype dashboard_message =
    StatisticsUpdate server_statistics
  | JobUpdate string string string
  | ConnectionInfo string nat
  | ErrorMessage string

text \<open>The messages sent to the broadcast channel, and whether the task still runs. The timer panics on a period of
  zero; a panic in the service ends the task.\<close>

fun periodic_loop ::
  "('p, 's, 'e, 'z) monitoring_api_scheme \<Rightarrow> loop_event list
     \<Rightarrow> ('s, 'e, dashboard_message list \<times> loop_status) act" where
  "periodic_loop M [] = ret ([], Running)"
| "periodic_loop M (Cancelled # es) = ret ([], Stopped (Inr ()))"
| "periodic_loop M (Tick # es) = do {
     r \<leftarrow> get_server_statistics M;
     (case r of
        None \<Rightarrow> ret ([], Panicked)
      | Some x \<Rightarrow> do {
          (ms, status) \<leftarrow> periodic_loop M es;
          ret ((case x of Inr stats \<Rightarrow> StatisticsUpdate stats # ms | Inl e \<Rightarrow> ms), status) }) }"

definition start_periodic_updates ::
  "('p, 's, 'e, 'z) monitoring_api_scheme \<Rightarrow> u64 \<Rightarrow> loop_event list
     \<Rightarrow> ('s, 'e, dashboard_message list \<times> loop_status) act" where
  "start_periodic_updates M interval_seconds es =
     (if interval_seconds = 0 then ret ([], Panicked) else periodic_loop M es)"

definition broadcast_statistics_update ::
  "('p, 's, 'e, 'z) monitoring_api_scheme \<Rightarrow> ('s, 'e, (qml_error + dashboard_message) option) act" where
  "broadcast_statistics_update M = do {
     r \<leftarrow> get_server_statistics M;
     ret (map_option (map_sum id StatisticsUpdate) r) }"

definition broadcast_job_update :: "string \<Rightarrow> string \<Rightarrow> string \<Rightarrow> dashboard_message" where
  "broadcast_job_update i state updated_at = JobUpdate i state updated_at"

section \<open>Web sockets\<close>

record websocket_manager =
  wm_connections :: "(string, string) hmap"

definition connected_clients_count :: "websocket_manager \<Rightarrow> nat" where
  "connected_clients_count wm = length (wm_connections wm)"

text \<open>What the two halves of the \<^verbatim>\<open>select!\<close> see, in order: a message of the client, the end of its stream, a message of the
  broadcast channel and whether the client took it, or that the receiver lags behind or is closed.\<close>

datatype socket_event =
    ClientText string
  | ClientClose
  | ClientError
  | ClientOther
  | ClientEnd
  | Received dashboard_message bool
  | RecvError

text \<open>The texts offered to the client, and whether the connection is still open.\<close>

fun socket_loop :: "(dashboard_message \<Rightarrow> string option) \<Rightarrow> socket_event list \<Rightarrow> string list \<times> bool" where
  "socket_loop json [] = ([], True)"
| "socket_loop json (ClientText t # es) = socket_loop json es"
| "socket_loop json (ClientOther # es) = socket_loop json es"
| "socket_loop json (ClientClose # es) = ([], False)"
| "socket_loop json (ClientError # es) = ([], False)"
| "socket_loop json (ClientEnd # es) = ([], False)"
| "socket_loop json (RecvError # es) = ([], False)"
| "socket_loop json (Received m ok # es) =
     (case json m of
        None \<Rightarrow> socket_loop json es
      | Some s \<Rightarrow>
          if ok then (case socket_loop json es of (ts, alive) \<Rightarrow> (s # ts, alive)) else ([s], False))"

datatype socket_status = SocketOpen | SocketClosed | SocketPanicked

text \<open>\<open>others\<close> is what the other clients do to the manager while this one is connected.\<close>

definition handle_socket ::
  "(dashboard_message \<Rightarrow> string option) \<Rightarrow> ('p, 's, 'e, 'z) monitoring_api_scheme \<Rightarrow> (websocket_manager \<Rightarrow> websocket_manager)
     \<Rightarrow> websocket_manager \<Rightarrow> socket_event list \<Rightarrow> ('s, 'e, string list \<times> websocket_manager \<times> socket_status) act" where
  "handle_socket json M others wm es = do {
     client_id \<leftarrow> new_uuid;
     let wm1 = wm\<lparr>wm_connections := hm_insert client_id client_id (wm_connections wm)\<rparr>;
     let hello = (case json (ConnectionInfo client_id (connected_clients_count wm1)) of
                    Some s \<Rightarrow> [s] | None \<Rightarrow> []);
     r \<leftarrow> get_server_statistics M;
     let wm2 = others wm1;
     (case r of
        None \<Rightarrow> ret (hello, wm2, SocketPanicked)
      | Some x \<Rightarrow>
          (let first = (case x of
                          Inl e \<Rightarrow> []
                        | Inr stats \<Rightarrow> (case json (StatisticsUpdate stats) of Some s \<Rightarrow> [s] | None \<Rightarrow> []));
               (ts, alive) = socket_loop json es
           in ret (hello @ first @ ts,
                if alive then wm2
                else wm2\<lparr>wm_connections := hm_remove client_id (wm_connections wm2)\<rparr>,
                if alive then SocketOpen else SocketClosed))) }"

section \<open>Library facts\<close>

lemma show_nat_digits: "\<forall>c \<in> set (show_nat n). address_char c"
proof (induction n rule: show_nat.induct)
  case (1 n)
  have "address_char (char_of (48 + d) :: char)" if "d < 10" for d :: nat
    using that of_char_digit [OF that] by (simp add: address_char_def to_digit_def)
  with 1 show ?case by (auto simp: show_nat.simps [of n])
qed

text \<open>The run of the server, case by case.\<close>

definition listens :: "'m dashboard_config \<Rightarrow> (ip_addr \<times> nat) option" where
  "listens c =
     (if dc_auth c = None \<and> \<not> is_loopback_host (dc_host c) then None
      else parse_socket_addr (dc_host c @ '':'' @ show_nat (unat (dc_port c))))"

lemma run_silent: "listens c = None \<Longrightarrow> snd (run_until_cancelled c su) = [] \<and> (\<exists>e. fst (run_until_cancelled c su) = Inl e)"
  by (auto simp: listens_def run_until_cancelled_def split: if_splits)

lemma run_listens:
  "listens c = Some addr \<Longrightarrow> snd (run_until_cancelled c su) =
     SpawnedPeriodic (dc_statistics_update_interval c) #
     (case su_bind su addr of
        Some e \<Rightarrow> []
      | None \<Rightarrow> [Bound (fst addr) (snd addr), Served (create_app c), TokenCancelled,
                if su_periodic_exits su then PeriodicJoined else PeriodicAborted])"
  by (auto simp: listens_def run_until_cancelled_def Let_def split: if_splits option.splits)

lemma listens_loopback: "dc_auth c = None \<Longrightarrow> listens c = Some (ip, p) \<Longrightarrow> is_loopback ip"
  using loopback_bound [of "dc_host c" "show_nat (unat (dc_port c))" ip p] show_nat_digits
  by (simp add: listens_def split: if_splits)

lemma colon_no_address: "parse_socket_addr (CHR '':'' # s) = None"
  by (simp add: parse_socket_addr_def whole_def or_read_def read_socket_v4_def read_socket_v6_def then_read_def
      read_given_char_def read_ipv4_addr_def read_octets_Suc read_separator_def read_number_def)

text \<open>
  The periodic task: ticks before the cancellation send at most one message each, and after it none; by then the task
  has ended, whatever the statistics answered.
\<close>

theorem periodic_task_ends:
  "wp (start_periodic_updates M interval (replicate n Tick @ Cancelled # es))
     (\<lambda>(ms, status) w'. length ms \<le> n \<and> status \<noteq> Running \<and> (\<forall>m \<in> set ms. \<exists>s. m = StatisticsUpdate s)) w"
proof -
  have "wp (periodic_loop M (replicate n Tick @ Cancelled # es))
     (\<lambda>(ms, status) w'. length ms \<le> n \<and> status \<noteq> Running \<and> (\<forall>m \<in> set ms. \<exists>s. m = StatisticsUpdate s)) w" for w
  proof (induction n arbitrary: w)
    case (Suc n)
    have any: "wp (get_server_statistics M) (\<lambda>r w'. True) w" by (simp add: wp_run)
    show ?case
      unfolding replicate_Suc append_Cons periodic_loop.simps wp_bind
      by (rule wp_mono [OF any])
        (auto simp: wp_return wp_bind intro!: wp_mono [OF Suc.IH] split: option.split sum.split)
  qed (simp add: wp_return)
  then show ?thesis by (simp add: start_periodic_updates_def wp_return)
qed

text \<open>
  A client of the web socket leaves nothing behind: when its connection has ended, the manager holds what the other
  clients made of it, without this client.
\<close>

theorem closed_socket_removed:
  "wp (handle_socket json M others wm es) (\<lambda>(ts, wm', status) w'.
     status = SocketClosed \<longrightarrow> hm_get (wm_connections wm') (uuids w (uuid_calls w)) = None
       \<and> (\<forall>i. i \<noteq> uuids w (uuid_calls w) \<longrightarrow> hm_get (wm_connections wm') i =
            hm_get (wm_connections (others (wm\<lparr>wm_connections :=
              hm_insert (uuids w (uuid_calls w)) (uuids w (uuid_calls w)) (wm_connections wm)\<rparr>))) i)) w"
proof -
  have any: "wp (get_server_statistics M) (\<lambda>r w'. True) w" for w by (simp add: wp_run)
  show ?thesis
    unfolding handle_socket_def Let_def wp_simps
    by (rule wp_mono [OF any]) (auto simp: wp_return split: option.split prod.split)
qed

section \<open>Properties of the server\<close>

text \<open>
  C16. A dashboard without a guard never listens on an address that is not a loopback address,
  whatever its host and port: the host the start check accepts and the address the listener is bound to
  are read by different parsers, and the second reads no more than the first.
\<close>

theorem unguarded_dashboard_is_local:
  assumes "dc_auth c = None" and "Bound ip p \<in> set (snd (run_until_cancelled c su))"
  shows "is_loopback ip"
proof (cases "listens c")
  case None
  with run_silent [of c su] assms(2) show ?thesis by simp
next
  case (Some addr)
  with run_listens [of c addr su] assms(2) have "addr = (ip, p)" by (auto split: option.splits if_splits)
  with Some listens_loopback [OF assms(1)] show ?thesis by simp
qed

theorem unguarded_dashboard_is_local_witness:
  "Bound (V4 [127, 0, 0, 1]) 8080 \<in> set (snd (run_until_cancelled (dashboard_config_default :: unit dashboard_config)
     \<lparr>su_bind = (\<lambda>a. None), su_serve = None :: string option, su_periodic_exits = True\<rparr>))
   \<and> is_loopback (V4 [127, 0, 0, 1])"
  (is "?b \<and> _")
proof
  have "show_nat 8080 = ''8080''" by (simp add: show_nat.simps) code_simp
  with default_address loopback_v4 show ?b
    by (simp add: run_until_cancelled_def dashboard_config_default_def)
  from unguarded_dashboard_is_local [OF _ this] show "is_loopback (V4 [127, 0, 0, 1])"
    by (simp add: dashboard_config_default_def)
qed

text \<open>
  Two of the three hosts that the documentation names as local can never be served: with the host
  \<^verbatim>\<open>localhost\<close>, in any case, or \<^verbatim>\<open>::1\<close>, the start check passes and the start fails because host and port do not
  parse as a socket address, before anything is spawned, whatever the port and the guard.
\<close>

theorem local_names_never_start:
  assumes "eq_ignore_ascii_case (dc_host c) ''localhost'' \<or> dc_host c = ''::1''"
  shows "is_loopback_host (dc_host c) \<and> run_until_cancelled c su = (Inl AddrParseError, [])"
proof -
  have "is_loopback_host (dc_host c)" using assms loopback_v6 by (auto simp: is_loopback_host_def)
  moreover have "parse_socket_addr (dc_host c @ '':'' @ show_nat (unat (dc_port c))) = None"
    using assms localhost_no_address colon_no_address by auto
  ultimately show ?thesis by (simp add: run_until_cancelled_def)
qed

theorem local_names_never_start_witness:
  "run_until_cancelled ((dashboard_config_default :: unit dashboard_config)\<lparr>dc_host := ''LocalHost''\<rparr>)
     \<lparr>su_bind = (\<lambda>a. None), su_serve = None :: string option, su_periodic_exits = True\<rparr> = (Inl AddrParseError, [])"
proof -
  have "eq_ignore_ascii_case ''LocalHost'' ''localhost''" by code_simp
  then show ?thesis
    using local_names_never_start [of "(dashboard_config_default :: unit dashboard_config)\<lparr>dc_host := ''LocalHost''\<rparr>"
        "\<lparr>su_bind = (\<lambda>a. None), su_serve = None :: string option, su_periodic_exits = True\<rparr>"]
    by simp
qed

text \<open>
  The task of the periodic updates outlives a run of the server in exactly one case: the address could not be
  bound. In every other run that spawned it, the token is cancelled and the task joined or aborted before
  the run returns, an error of the HTTP server included.
\<close>

theorem periodic_task_outlives:
  "(\<exists>n. SpawnedPeriodic n \<in> set (snd (run_until_cancelled c su)))
     \<and> PeriodicJoined \<notin> set (snd (run_until_cancelled c su)) \<and> PeriodicAborted \<notin> set (snd (run_until_cancelled c su))
   \<longleftrightarrow> (\<exists>addr e. listens c = Some addr \<and> su_bind su addr = Some e)"
proof (cases "listens c")
  case None
  with run_silent [of c su] show ?thesis by simp
next
  case (Some addr)
  with run_listens [of c addr su] show ?thesis by (auto split: option.splits if_splits)
qed

text \<open>
  A dashboard serves once: a run that bound its address leaves the token of the server cancelled, whether
  it ended by a shutdown or by an error, so that every later run is shut down as soon as it serves; a run that failed
  before leaves the token as it was, and the server can be started again.
\<close>

theorem serves_once:
  "dsv_start ds su = (r, acts, ds') \<Longrightarrow>
     dsv_config ds' = dsv_config ds \<and> (dsv_shutdown ds' \<longleftrightarrow> dsv_shutdown ds \<or> (\<exists>ip p. Bound ip p \<in> set acts))"
  using run_silent [of "dsv_config ds" su] run_listens [of "dsv_config ds" _ su]
  by (cases "listens (dsv_config ds)")
    (auto simp: dsv_start_def dsv_cancel_def split: prod.splits option.splits if_splits)

text \<open>
  Nothing happens to the storage for a request that the guards refuse: with a guard configured, a request
  without its credentials to anything but freed metrics, and without one a change from another
  origin, leave the world as it is and no endpoint answers.
\<close>

theorem refused_request_harmless:
  assumes "axum serve b64 cors"
    and "(\<exists>a. dc_auth c = Some a \<and> \<not> authorized b64 a req) \<and> \<not> (dc_metrics_skip_auth c \<and> rq_path req = ''/metrics'')
       \<or> is_mutation (rq_method req) \<and> \<not> same_origin req"
  shows "\<exists>r. run_state (handle_request serve M X enc c req) w = (r, w) \<and> (\<forall>a. r \<noteq> Pass (Some a))"
proof -
  have "serve (create_app c) req \<noteq> Pass (Some e)" for e
  proof
    assume "serve (create_app c) req = Pass (Some e)"
    from axum.guarded [OF assms(1) this] obtain p v where t: "(p, v, e) \<in> set (endpoint_table c)"
        "path_matches p (rq_path req)" "accepts v (rq_method req)"
      and g: "e = Metrics \<and> dc_metrics_skip_auth c \<or> guard_reply b64 c req (Pass (Some e)) = Pass (Some e)"
      by blast
    show False
    proof (cases "e = Metrics \<and> dc_metrics_skip_auth c")
      case True
      with t have "p = ''/metrics'' \<and> v = Get" by (auto simp: endpoint_table_def split: if_splits)
      with t True assms(2) show False by (auto simp: metrics_pattern is_mutation_def)
    next
      case False
      with g assms(2) t show False
        by (auto simp: guard_reply_def split: option.splits if_splits)
    qed
  qed
  then show ?thesis by (auto simp: handle_request_def split: response.split option.split)
qed

theorem refused_request_harmless_witness:
  "\<exists>r. run_state (handle_request (serve_reference (\<lambda>s. None) cors_reference) memory_storage_api
       \<lparr>ex_path = (\<lambda>r. Some ''a''), ex_query = (\<lambda>r. None), ex_upgrade = (\<lambda>r. True)\<rparr> (\<lambda>u. Inl [])
       ((dashboard_config_default :: unit dashboard_config)\<lparr>dc_auth := Some (Bearer ''t'')\<rparr>)
       \<lparr>rq_method = DELETE, rq_authorization = None, rq_host = None, rq_origin = None, rq_referer = None,
        rq_path = ''/api/jobs/a''\<rparr>)
     (sample_world (sample_memory [sample_job ''a'' 0 5 (Enqueued 5 ''default'')]) :: (_, unit) world)
   = (r, sample_world (sample_memory [sample_job ''a'' 0 5 (Enqueued 5 ''default'')]))"
proof -
  let ?req = "\<lparr>rq_method = DELETE, rq_authorization = None, rq_host = None, rq_origin = None, rq_referer = None,
        rq_path = ''/api/jobs/a''\<rparr>"
  have "(\<exists>a. dc_auth ((dashboard_config_default :: unit dashboard_config)\<lparr>dc_auth := Some (Bearer ''t'')\<rparr>) = Some a
          \<and> \<not> authorized (\<lambda>s. None) a ?req)"
    by (simp add: authorized_def require_auth_def)
  then show ?thesis
    using refused_request_harmless [OF ax.axum_axioms,
        of "(dashboard_config_default :: unit dashboard_config)\<lparr>dc_auth := Some (Bearer ''t'')\<rparr>" "\<lambda>s. None" ?req
          memory_storage_api]
    by (simp add: dashboard_config_default_def) blast
qed

text \<open>
  C18. A retry over HTTP, from the request to the storage: a \<^verbatim>\<open>POST\<close> that the guards let through and whose path names the id
  answers success exactly for a job that is \<open>Failed\<close>, and that job becomes \<open>Enqueued\<close> on its
  own queue; for every other id it answers the error and the storage stays as it is.
\<close>

theorem retry_request:
  fixes w :: "('p memory_storage, 'e) world"
  assumes "axum serve b64 cors" and "rq_method req = POST" and "path_matches ''/api/jobs/{id}/retry'' (rq_path req)"
    and "\<And>a. dc_auth c = Some a \<Longrightarrow> authorized b64 a req" and "same_origin req"
    and "ex_path X req = Some i" and "mem_inv (store w)"
  shows "wp (handle_request serve memory_storage_api X enc c req) (\<lambda>r w'. mem_inv (store w') \<and>
     (if \<exists>j. mem_jobs (store w) i = Some j \<and> kind (job_state j) = KFailed
      then r = Pass (Some (Answer (Inr (FlagBody (api_success True))))) \<and> mem_jobs (store w') =
        (mem_jobs (store w))(i := map_option (\<lambda>j. j\<lparr>job_state := Enqueued (clock w (ticks w)) (job_queue j)\<rparr>)
           (mem_jobs (store w) i))
      else r = Pass (Some (Answer (Inr (FlagBody (api_error ''Job not found or not in failed state'')))))
        \<and> store w' = store w)) w"
proof -
  have "(''/api/jobs/{id}/retry'', Post, RetryJob) \<in> set (endpoint_table c)" by (simp add: endpoint_table_def)
  from axum.answer [OF assms(1) this assms(3)] assms(2, 4, 5) have "serve (create_app c) req = Pass (Some RetryJob)"
    by (auto simp: guard_reply_def split: option.split)
  then have "handle_request serve memory_storage_api X enc c req = do {
      r \<leftarrow> ds_retry_job memory_storage_api i;
      ret (Pass (Some (Answer (map_sum id FlagBody (case r of
        Inr b \<Rightarrow> Inr (if b then api_success True else api_error ''Job not found or not in failed state'')
      | Inl e \<Rightarrow> Inl INTERNAL_SERVER_ERROR))))) }"
    using assms(6) by (simp add: handle_request_def extracted_def h_retry_job_def)
  show ?thesis
    unfolding \<open>handle_request serve memory_storage_api X enc c req = _\<close> wp_bind
    by (rule wp_mono [OF dashboard_retry_exact [OF assms(7)]]) (auto simp: wp_simps split: option.splits if_splits)
qed

theorem retry_request_witness:
  "wp (handle_request (serve_reference (\<lambda>s. None) cors_reference) memory_storage_api
       \<lparr>ex_path = (\<lambda>r. Some ''a''), ex_query = (\<lambda>r. None), ex_upgrade = (\<lambda>r. True)\<rparr> (\<lambda>u. Inl [])
       (dashboard_config_default :: unit dashboard_config)
       \<lparr>rq_method = POST, rq_authorization = None, rq_host = Some (Visible ''d''),
        rq_origin = Some (Visible ''http://d''), rq_referer = None, rq_path = ''/api/jobs/a/retry''\<rparr>)
     (\<lambda>r w'. r = Pass (Some (Answer (Inr (FlagBody (api_success True))))))
     (sample_world (sample_memory [sample_job ''a'' 0 5 (Failed 6 ''boom'' None)]) :: (_, unit) world)"
proof (rule wp_mono [OF retry_request [OF ax.axum_axioms]])
  show "path_matches ''/api/jobs/{id}/retry'' (rq_path \<lparr>rq_method = POST, rq_authorization = None,
      rq_host = Some (Visible ''d''), rq_origin = Some (Visible ''http://d''), rq_referer = None,
      rq_path = ''/api/jobs/a/retry''\<rparr>)"
    by code_simp
  have "authority_of ''http://d'' = Some ''d''" "eq_ignore_ascii_case ''d'' ''d''" by code_simp+
  then show "same_origin \<lparr>rq_method = POST, rq_authorization = None, rq_host = Some (Visible ''d''),
      rq_origin = Some (Visible ''http://d''), rq_referer = None, rq_path = ''/api/jobs/a/retry''\<rparr>"
    by (simp add: same_origin_def csrf_guard_def is_mutation_def)
qed (auto simp: dashboard_config_default_def)

end
