(* ===== verification/Job_Metrics.thy ===== *)
theory Job_Metrics
  imports Worker F64
begin

text \<open>
  The metrics of job executions, \<^verbatim>\<open>src/processing/metrics.rs\<close>. The \<^verbatim>\<open>prometheus\<close> crate is outside: its
  constructors are the record \<open>metric_ctors\<close>, its operations on the families of a handle the record
  \<open>metric_ops\<close>, which act on the part of the store that holds them, and the locale \<open>metric_families\<close> states what
  its documentation says of a counter, a gauge and a histogram. The timer is part of the store too. A run of
  the rest of the stack that answers \<open>None\<close> is one that never returns to the middleware: it panicked, or the
  timeout of the processor dropped it while it was waiting.
\<close>

section \<open>Families\<close>

record ('r, 'f) metric_ctors =
  mc_registry :: 'r
  mc_counter :: "string \<Rightarrow> string \<Rightarrow> string list \<Rightarrow> string + 'f"
  mc_histogram :: "string \<Rightarrow> string \<Rightarrow> f64 list \<Rightarrow> string list \<Rightarrow> string + 'f"
  mc_gauge :: "string \<Rightarrow> string \<Rightarrow> string list \<Rightarrow> string + 'f"
  mc_register :: "'f \<Rightarrow> 'r \<Rightarrow> string + 'r"
  mc_encode :: "'r \<Rightarrow> string + string"

record ('r, 'f) prometheus_metrics =
  pm_registry :: 'r
  pm_jobs_enqueued :: 'f
  pm_jobs_processed :: 'f
  pm_job_duration :: 'f
  pm_workers_active :: 'f

definition default_job_duration_buckets :: "rat list" where
  "default_job_duration_buckets =
     [5 / 1000, 1 / 100, 25 / 1000, 5 / 100, 1 / 10, 25 / 100, 5 / 10, 1, 25 / 10, 5, 10, 30, 60]"

definition map_prom_error :: "string \<Rightarrow> qml_error" where
  "map_prom_error e = ConfigurationError (''prometheus: '' @ e)"

definition prom :: "string + 'a \<Rightarrow> qml_error + 'a" where
  "prom = map_sum map_prom_error id"

definition with_duration_buckets ::
  "('r, 'f) metric_ctors \<Rightarrow> f64 list \<Rightarrow> qml_error + ('r, 'f) prometheus_metrics" where
  "with_duration_buckets K buckets =
     tryE (prom (mc_counter K ''qml_jobs_enqueued_total''
       ''Total number of jobs enqueued, labeled by queue name.'' [''queue''])) (\<lambda>jobs_enqueued.
     tryE (prom (mc_counter K ''qml_jobs_processed_total''
       ''Total number of jobs that reached a terminal execution outcome, labeled by queue and result state (succeeded / retry / failed / error).''
       [''queue'', ''state''])) (\<lambda>jobs_processed.
     tryE (prom (mc_histogram K ''qml_job_duration_seconds''
       ''Wall-clock duration of job execution through the middleware stack, labeled by method name.''
       buckets [''method''])) (\<lambda>job_duration.
     tryE (prom (mc_gauge K ''qml_workers_active''
       ''Number of worker threads currently executing a job, labeled by server name.'' [''server''])) (\<lambda>workers_active.
     tryE (prom (mc_register K jobs_enqueued (mc_registry K))) (\<lambda>r1.
     tryE (prom (mc_register K jobs_processed r1)) (\<lambda>r2.
     tryE (prom (mc_register K job_duration r2)) (\<lambda>r3.
     tryE (prom (mc_register K workers_active r3)) (\<lambda>r4.
       Inr \<lparr>pm_registry = r4, pm_jobs_enqueued = jobs_enqueued, pm_jobs_processed = jobs_processed,
            pm_job_duration = job_duration, pm_workers_active = workers_active\<rparr>))))))))"

definition prometheus_metrics_new :: "('r, 'f) metric_ctors \<Rightarrow> qml_error + ('r, 'f) prometheus_metrics" where
  "prometheus_metrics_new K = with_duration_buckets K (map f64_round default_job_duration_buckets)"

text \<open>The encoder writes bytes, which have to be UTF-8; \<open>utf8\<close> is \<^verbatim>\<open>String::from_utf8\<close>.\<close>

definition encode_text ::
  "('r, 'f) metric_ctors \<Rightarrow> (string \<Rightarrow> string + string) \<Rightarrow> ('r, 'f) prometheus_metrics \<Rightarrow> qml_error + string" where
  "encode_text K utf8 m =
     tryE (prom (mc_encode K (pm_registry m))) (\<lambda>buf.
       (case utf8 buf of
          Inl e \<Rightarrow> Inl (SerializationError (''prometheus text encoder produced invalid UTF-8: '' @ e))
        | Inr s \<Rightarrow> Inr s))"

section \<open>Recording\<close>

record 's metric_ops =
  mo_enqueued_inc :: "string \<Rightarrow> 's \<Rightarrow> 's"
  mo_processed_inc :: "string \<Rightarrow> string \<Rightarrow> 's \<Rightarrow> 's"
  mo_duration_observe :: "string \<Rightarrow> f64 \<Rightarrow> 's \<Rightarrow> 's"
  mo_active_inc :: "string \<Rightarrow> 's \<Rightarrow> 's"
  mo_active_dec :: "string \<Rightarrow> 's \<Rightarrow> 's"
  mo_instant :: "'s \<Rightarrow> int"
  mo_secs_f64 :: "int \<Rightarrow> f64"

definition update_store :: "('s \<Rightarrow> 's) \<Rightarrow> ('s, 'e, unit) act" where
  "update_store f = do { s \<leftarrow> get_store; put_store (f s) }"

definition record_enqueued :: "'s metric_ops \<Rightarrow> string \<Rightarrow> ('s, 'e, unit) act" where
  "record_enqueued P queue = update_store (mo_enqueued_inc P queue)"

record 's prometheus_middleware =
  pw_metrics :: "'s metric_ops"
  pw_server :: string

definition prometheus_middleware_new :: "'s metric_ops \<Rightarrow> string \<Rightarrow> 's prometheus_middleware" where
  "prometheus_middleware_new P server = \<lparr>pw_metrics = P, pw_server = server\<rparr>"

fun outcome_label :: "exec_result \<Rightarrow> string" where
  "outcome_label (Inr (Success _ _ _)) = ''succeeded''"
| "outcome_label (Inr (Retry _ _ _ _)) = ''retry''"
| "outcome_label (Inr (Failure _ _ _)) = ''failed''"
| "outcome_label (Inl _) = ''error''"

definition prometheus_call ::
  "'s prometheus_middleware \<Rightarrow> 'p job \<Rightarrow> worker_context
     \<Rightarrow> ('p job \<Rightarrow> worker_context \<Rightarrow> ('s, 'e, exec_result option) act) \<Rightarrow> ('s, 'e, exec_result option) act" where
  "prometheus_call W j ctx next = do {
     let P = pw_metrics W;
     update_store (mo_active_inc P (pw_server W));
     s \<leftarrow> get_store;
     let start = mo_instant P s;
     r \<leftarrow> next j ctx;
     (case r of
        None \<Rightarrow> ret None
      | Some result \<Rightarrow> do {
          s \<leftarrow> get_store;
          let elapsed = mo_secs_f64 P (mo_instant P s - start);
          update_store (mo_duration_observe P (job_method j) elapsed);
          update_store (mo_processed_inc P (job_queue j) (outcome_label result));
          update_store (mo_active_dec P (pw_server W));
          ret (Some result) }) }"

text \<open>As a layer of the stack, whose layers return.\<close>

definition prometheus_layer :: "'s prometheus_middleware \<Rightarrow> ('p, 's, 'e) middleware" where
  "prometheus_layer W j ctx next = do {
     r \<leftarrow> prometheus_call W j ctx (\<lambda>j ctx. do { x \<leftarrow> next j ctx; ret (Some x) });
     ret (the r) }"

section \<open>The contract of the families\<close>

text \<open>What a scrape reads: counters and gauges by label, the number of samples of a histogram; and the rest of the store.\<close>

record reading =
  rd_enqueued :: "string \<Rightarrow> nat"
  rd_processed :: "string \<Rightarrow> string \<Rightarrow> nat"
  rd_samples :: "string \<Rightarrow> nat"
  rd_active :: "string \<Rightarrow> int"

locale metric_families =
  fixes P :: "'s metric_ops" and scrape :: "'s \<Rightarrow> reading" and rest :: "'s \<Rightarrow> 'v"
  assumes enqueued_inc: "scrape (mo_enqueued_inc P q s) =
      (scrape s)\<lparr>rd_enqueued := (rd_enqueued (scrape s))(q := Suc (rd_enqueued (scrape s) q))\<rparr>"
    and processed_inc: "scrape (mo_processed_inc P q l s) =
      (scrape s)\<lparr>rd_processed := (rd_processed (scrape s))(q := (rd_processed (scrape s) q)(l := Suc (rd_processed (scrape s) q l)))\<rparr>"
    and duration_observe: "scrape (mo_duration_observe P m d s) =
      (scrape s)\<lparr>rd_samples := (rd_samples (scrape s))(m := Suc (rd_samples (scrape s) m))\<rparr>"
    and active_inc: "scrape (mo_active_inc P v s) =
      (scrape s)\<lparr>rd_active := (rd_active (scrape s))(v := rd_active (scrape s) v + 1)\<rparr>"
    and active_dec: "scrape (mo_active_dec P v s) =
      (scrape s)\<lparr>rd_active := (rd_active (scrape s))(v := rd_active (scrape s) v - 1)\<rparr>"
    and rest_kept: "rest (mo_enqueued_inc P q s) = rest s" "rest (mo_processed_inc P q l s) = rest s"
      "rest (mo_duration_observe P m d s) = rest s" "rest (mo_active_inc P v s) = rest s" "rest (mo_active_dec P v s) = rest s"

lemma wp_update_store [wp_simps]: "wp (update_store f) Q = (\<lambda>w. Q () (w\<lparr>store := f (store w)\<rparr>))"
  by (simp add: update_store_def wp_simps)

text \<open>What a scrape reads after an execution that was answered with \<open>r\<close>.\<close>

definition recorded :: "string \<Rightarrow> 'p job \<Rightarrow> exec_result option \<Rightarrow> reading \<Rightarrow> reading" where
  "recorded server j r m =
     (case r of
        None \<Rightarrow> m\<lparr>rd_active := (rd_active m)(server := rd_active m server + 1)\<rparr>
      | Some x \<Rightarrow>
          m\<lparr>rd_samples := (rd_samples m)(job_method j := Suc (rd_samples m (job_method j))),
            rd_processed := (rd_processed m)(job_queue j := (rd_processed m (job_queue j))
              (outcome_label x := Suc (rd_processed m (job_queue j) (outcome_label x))))\<rparr>)"

context metric_families
begin

lemmas laws = enqueued_inc processed_inc duration_observe active_inc active_dec rest_kept

lemma call_records:
  assumes P: "pw_metrics W = P"
    and run: "wp (nx j ctx) (\<lambda>r w'. scrape (store w') = scrape (mo_active_inc P (pw_server W) (store w)) \<and> Q r (rest (store w')))
      (w\<lparr>store := mo_active_inc P (pw_server W) (store w)\<rparr>)"
  shows "wp (prometheus_call W j ctx nx) (\<lambda>r w'. scrape (store w') = recorded (pw_server W) j r (scrape (store w))
     \<and> Q r (rest (store w'))) w"
proof -
  show ?thesis
    unfolding prometheus_call_def Let_def P
    by (simp add: wp_simps, rule wp_mono [OF run])
      (auto simp: wp_simps laws recorded_def split: option.split)
qed

end

section \<open>A reference for the contract\<close>

definition reference_ops :: "(reading \<times> 'v) metric_ops" where
  "reference_ops =
     \<lparr>mo_enqueued_inc = (\<lambda>q. map_prod (\<lambda>m. m\<lparr>rd_enqueued := (rd_enqueued m)(q := Suc (rd_enqueued m q))\<rparr>) id),
      mo_processed_inc = (\<lambda>q l. map_prod (\<lambda>m. m\<lparr>rd_processed :=
        (rd_processed m)(q := (rd_processed m q)(l := Suc (rd_processed m q l)))\<rparr>) id),
      mo_duration_observe = (\<lambda>n d. map_prod (\<lambda>m. m\<lparr>rd_samples := (rd_samples m)(n := Suc (rd_samples m n))\<rparr>) id),
      mo_active_inc = (\<lambda>v. map_prod (\<lambda>m. m\<lparr>rd_active := (rd_active m)(v := rd_active m v + 1)\<rparr>) id),
      mo_active_dec = (\<lambda>v. map_prod (\<lambda>m. m\<lparr>rd_active := (rd_active m)(v := rd_active m v - 1)\<rparr>) id),
      mo_instant = (\<lambda>s. 0), mo_secs_f64 = (\<lambda>n. f64_of_int n)\<rparr>"

interpretation fam: metric_families reference_ops fst snd
  by standard (simp_all add: reference_ops_def)

lemma layer_records:
  assumes "metric_families P scrape rest" and "pw_metrics W = P"
    and "wp (nx j ctx) (\<lambda>x w'. scrape (store w') = scrape (mo_active_inc P (pw_server W) (store w)) \<and> Q x (rest (store w')))
      (w\<lparr>store := mo_active_inc P (pw_server W) (store w)\<rparr>)"
  shows "wp (prometheus_layer W j ctx nx)
     (\<lambda>x w'. scrape (store w') = recorded (pw_server W) j (Some x) (scrape (store w)) \<and> Q x (rest (store w'))) w"
proof -
  have "wp (do { x \<leftarrow> nx j ctx; ret (Some x) })
      (\<lambda>r w'. scrape (store w') = scrape (mo_active_inc P (pw_server W) (store w))
         \<and> (r \<noteq> None \<and> Q (the r) (rest (store w'))))
      (w\<lparr>store := mo_active_inc P (pw_server W) (store w)\<rparr>)"
    using assms(3) by (simp add: wp_simps)
  from metric_families.call_records [OF assms(1, 2), where nx = "\<lambda>j ctx. do { x \<leftarrow> nx j ctx; ret (Some x) }"
      and Q = "\<lambda>r v. r \<noteq> None \<and> Q (the r) v", OF this]
  show ?thesis
    unfolding prometheus_layer_def wp_bind by (rule wp_mono) (auto simp: wp_simps)
qed

section \<open>Properties\<close>

text \<open>
  C36. What an execution leaves in the metrics, for a stack that does not touch them itself. An execution that
  answers is counted once under its queue and the label of its answer, adds one sample to its method's
  durations and leaves the gauge of active workers as it was; the answer and the rest of the store are those of the
  stack. An execution that never comes back, because the timeout dropped it or a worker panicked, is not counted, and
  the gauge stays one too high for ever.
\<close>

theorem execution_recorded:
  assumes "metric_families P scrape rest" and "pw_metrics W = P"
    and "\<And>s. rest s = rest (store w) \<Longrightarrow>
      wp (nx j ctx) (\<lambda>r w'. scrape (store w') = scrape s \<and> Q r (rest (store w'))) (w\<lparr>store := s\<rparr>)"
  shows "wp (prometheus_call W j ctx nx) (\<lambda>r w'. Q r (rest (store w')) \<and> scrape (store w') =
     (case r of
        Some x \<Rightarrow> (scrape (store w))
          \<lparr>rd_samples := (rd_samples (scrape (store w)))(job_method j := Suc (rd_samples (scrape (store w)) (job_method j))),
           rd_processed := (rd_processed (scrape (store w)))(job_queue j := (rd_processed (scrape (store w)) (job_queue j))
             (outcome_label x := Suc (rd_processed (scrape (store w)) (job_queue j) (outcome_label x))))\<rparr>
      | None \<Rightarrow> (scrape (store w))
          \<lparr>rd_active := (rd_active (scrape (store w)))(pw_server W := rd_active (scrape (store w)) (pw_server W) + 1)\<rparr>)) w"
proof -
  have "rest (mo_active_inc P (pw_server W) (store w)) = rest (store w)"
    using metric_families.rest_kept(4) [OF assms(1)] .
  from metric_families.call_records [OF assms(1, 2), where nx = nx and j = j and ctx = ctx and w = w and Q = Q, OF assms(3) [OF this]] show ?thesis
    by (rule wp_mono) (auto simp: recorded_def split: option.splits)
qed

theorem execution_recorded_witness:
  "wp (prometheus_call (prometheus_middleware_new reference_ops ''s'') \<lparr>job_id = ''a'', job_method = ''m'',
        job_payload = (), job_created_at = 0, job_state = Enqueued 0 ''default'', job_queue = ''default'', job_priority = 0,
        job_max_retries = 3, job_attempt = 0, job_metadata = [], job_type = None, job_timeout_seconds = None,
        job_expires_at = None\<rparr>
        \<lparr>wx_config = \<lparr>wcf_worker_id = ''w'', wcf_server_name = ''s'', wcf_queues = [], wcf_job_timeout = 0,
           wcf_polling_interval = 0\<rparr>, wx_started_at = 0, wx_execution_metadata = [], wx_attempt = 0,
         wx_previous_exception = None\<rparr> (\<lambda>j ctx. ret None))
     (\<lambda>r w'. r = None \<and> rd_active (fst (store w')) ''s'' = 1)
     (sample_world (\<lparr>rd_enqueued = (\<lambda>q. 0), rd_processed = (\<lambda>q l. 0), rd_samples = (\<lambda>n. 0), rd_active = (\<lambda>v. 0)\<rparr>, ())
        :: (_, unit) world)"
  by (rule wp_mono, rule execution_recorded [OF fam.metric_families_axioms, where Q = "\<lambda>r v. r = None"])
    (auto simp: prometheus_middleware_new_def wp_simps)

end
