(* ===== verification/Database_Init.thy ===== *)
theory Database_Init
  imports Pg_Reference
begin

text \<open>
  The initialization of the PostgreSQL backend, \<^verbatim>\<open>src/storage/database_init.rs\<close>: the builder, the attempts with
  their delays, and the health check. \<open>connect a\<close> is what building the pool meets at the \<open>a\<close>th attempt and
  \<open>acquire\<close> what taking a connection out of the pool answers, with the text of the error. The second
  component of a run lists the times it slept.
\<close>

section \<open>The builder\<close>

record database_initializer =
  di_config :: postgres_config
  di_retry_attempts :: u32
  di_retry_delay :: std_duration
  di_health_check_enabled :: bool

definition initializer_new :: "(string \<Rightarrow> string option) \<Rightarrow> database_initializer" where
  "initializer_new env =
     \<lparr>di_config = postgres_config_default env, di_retry_attempts = 3, di_retry_delay = from_secs 2,
      di_health_check_enabled = True\<rparr>"

definition di_with_database_url :: "string \<Rightarrow> database_initializer \<Rightarrow> database_initializer" where
  "di_with_database_url url I = I\<lparr>di_config := with_database_url url (di_config I)\<rparr>"

definition di_with_auto_migrate :: "bool \<Rightarrow> database_initializer \<Rightarrow> database_initializer" where
  "di_with_auto_migrate enabled I = I\<lparr>di_config := with_auto_migrate enabled (di_config I)\<rparr>"

definition di_with_pool_config :: "u32 \<Rightarrow> u32 \<Rightarrow> database_initializer \<Rightarrow> database_initializer" where
  "di_with_pool_config max_connections min_connections I =
     I\<lparr>di_config := with_min_connections min_connections (with_max_connections max_connections (di_config I))\<rparr>"

definition di_with_retry_config :: "u32 \<Rightarrow> std_duration \<Rightarrow> database_initializer \<Rightarrow> database_initializer" where
  "di_with_retry_config attempts delay I = I\<lparr>di_retry_attempts := attempts, di_retry_delay := delay\<rparr>"

definition di_with_health_checks :: "bool \<Rightarrow> database_initializer \<Rightarrow> database_initializer" where
  "di_with_health_checks enabled I = I\<lparr>di_health_check_enabled := enabled\<rparr>"

section \<open>Initialization\<close>

datatype database_init_error =
    InitStorageError storage_error
  | InitHealthCheck string
  | InitConfiguration string
  | InitUnknown

fun database_init_error_display :: "database_init_error \<Rightarrow> string" where
  "database_init_error_display (InitStorageError e) = ''Storage initialization failed: '' @ storage_error_display e"
| "database_init_error_display (InitHealthCheck m) = ''Health check failed: '' @ m"
| "database_init_error_display (InitConfiguration m) = ''Configuration error: '' @ m"
| "database_init_error_display InitUnknown = ''Unknown initialization error''"

definition try_initialize ::
  "(postgres_config \<Rightarrow> string option) \<Rightarrow> 'p pg_driver \<Rightarrow> database_initializer
     \<Rightarrow> ('p database, 'e, database_init_error + 'p postgres_storage) act" where
  "try_initialize connect D I = do {
     r \<leftarrow> pg_new connect D (di_config I);
     ret (map_sum InitStorageError id r) }"

definition perform_health_check ::
  "string option \<Rightarrow> 'p postgres_storage \<Rightarrow> ('p database, 'e, database_init_error + unit) act" where
  "perform_health_check acquire P = do {
     r \<leftarrow> schema_exists P;
     ret (case r of
            Inr True \<Rightarrow>
              (case acquire of
                 None \<Rightarrow> Inr ()
               | Some e \<Rightarrow> Inl (InitHealthCheck (''Connectivity check failed: '' @ e)))
          | Inr False \<Rightarrow> Inl (InitHealthCheck ''Schema does not exist after initialization'')
          | Inl e \<Rightarrow> Inl (InitHealthCheck (''Schema check failed: '' @ storage_error_display e))) }"

text \<open>The attempts that are left, and the error of the last one made.\<close>

fun init_loop ::
  "(nat \<Rightarrow> postgres_config \<Rightarrow> string option) \<Rightarrow> string option \<Rightarrow> 'p pg_driver \<Rightarrow> database_initializer
     \<Rightarrow> nat list \<Rightarrow> database_init_error option
     \<Rightarrow> ('p database, 'e, (database_init_error + 'p postgres_storage) \<times> std_duration list) act" where
  "init_loop connect acquire D I [] last_error =
     ret (Inl (case last_error of None \<Rightarrow> InitUnknown | Some e \<Rightarrow> e), [])"
| "init_loop connect acquire D I (attempt # attempts) last_error = do {
     r \<leftarrow> try_initialize (connect attempt) D I;
     (case r of
        Inr P \<Rightarrow>
          if di_health_check_enabled I then do {
            h \<leftarrow> perform_health_check acquire P;
            ret (case h of Inl e \<Rightarrow> Inl e | Inr _ \<Rightarrow> Inr P, []) }
          else ret (Inr P, [])
      | Inl e \<Rightarrow> do {
          (out, sleeps) \<leftarrow> init_loop connect acquire D I attempts (Some e);
          ret (out, if attempt < unat (di_retry_attempts I) then di_retry_delay I # sleeps else sleeps) }) }"

definition initialize ::
  "(nat \<Rightarrow> postgres_config \<Rightarrow> string option) \<Rightarrow> string option \<Rightarrow> 'p pg_driver \<Rightarrow> database_initializer
     \<Rightarrow> ('p database, 'e, (database_init_error + 'p postgres_storage) \<times> std_duration list) act" where
  "initialize connect acquire D I = init_loop connect acquire D I [1..<Suc (unat (di_retry_attempts I))] None"

section \<open>Ready-made set-ups\<close>

definition quick_development :: "(string \<Rightarrow> string option) \<Rightarrow> string \<Rightarrow> database_initializer" where
  "quick_development env url =
     di_with_pool_config 10 1 (di_with_auto_migrate True (di_with_database_url url (initializer_new env)))"

definition quick_production :: "(string \<Rightarrow> string option) \<Rightarrow> string \<Rightarrow> database_initializer" where
  "quick_production env url =
     di_with_retry_config 5 (from_secs 3)
       (di_with_pool_config 50 5 (di_with_auto_migrate False (di_with_database_url url (initializer_new env))))"

definition quick_testing :: "(string \<Rightarrow> string option) \<Rightarrow> string \<Rightarrow> database_initializer" where
  "quick_testing env url =
     di_with_health_checks False
       (di_with_pool_config 2 1 (di_with_auto_migrate True (di_with_database_url url (initializer_new env))))"

section \<open>Library facts\<close>

definition refusal :: "string \<Rightarrow> database_init_error" where
  "refusal e = InitStorageError (SE_Connection (''Failed to connect to PostgreSQL: '' @ e) (Some e))"

lemma try_refused:
  "connect (di_config I) = Some e \<Longrightarrow> run_state (try_initialize connect D I) w = (Inl (refusal e), w)"
  by (simp add: try_initialize_def pg_new_def refusal_def)

text \<open>Attempts that cannot connect leave the database alone; each but the last of all is followed by a delay.\<close>

lemma init_loop_refused:
  assumes "\<forall>a \<in> set as. connect a (di_config I) = Some (err a)"
  shows "run_state (init_loop connect acquire D I (as @ bs) l) w =
     (let (r, w') = run_state (init_loop connect acquire D I bs
            (if as = [] then l else Some (refusal (err (last as))))) w
      in ((fst r, map (\<lambda>a. di_retry_delay I) (filter (\<lambda>a. a < unat (di_retry_attempts I)) as) @ snd r), w'))"
  using assms
proof (induction as arbitrary: l)
  case (Cons a as)
  then show ?case
    by (auto simp: try_refused Let_def split: prod.splits)
qed (simp add: Let_def split: prod.splits)

definition schema_present :: "postgres_config \<Rightarrow> 'p database \<Rightarrow> bool" where
  "schema_present c d \<longleftrightarrow> pc_schema_name c \<in> set (db_schemas d) \<and>
     (hm_contains (db_jobs d) (full_table_name c) \<or> hm_contains (db_recurring d) (full_table_name c)
      \<or> hm_contains (db_servers d) (full_table_name c) \<or> hm_contains (db_locks d) (full_table_name c))"

lemma wp_query_reads:
  assumes "st (db_count (store w)) (bumped (store w)) = Inr (b, bumped (store w))"
  shows "wp (query msg st) (\<lambda>r w'. \<forall>c. r = Inr c \<longrightarrow> c = b \<and> store w' = bumped (store w)) w"
proof -
  have "wp (run_statement st) (\<lambda>r w'. \<forall>c. r = Inr c \<longrightarrow> c = b \<and> store w' = bumped (store w)) w"
    by (rule wp_statement) (simp_all add: assms)
  then show ?thesis
    unfolding query_def wp_bind by (rule wp_mono) (simp add: wp_return split: sum.split)
qed

lemma bumped_tables [simp]:
  "db_schemas (bumped d) = db_schemas d" "db_jobs (bumped d) = db_jobs d" "db_recurring (bumped d) = db_recurring d"
  "db_servers (bumped d) = db_servers d" "db_locks (bumped d) = db_locks d"
  by (simp_all add: bumped_def)

lemma wp_schema_exists: "wp (schema_exists P) (\<lambda>r w'. r = Inr True \<longrightarrow> schema_present (ps_config P) (store w')) w"
proof -
  let ?c = "ps_config P"
  have one: "wp (check_schema_present P) (\<lambda>r w'. \<forall>b. r = Inr b \<longrightarrow>
      b = (pc_schema_name ?c \<in> set (db_schemas (store w))) \<and> store w' = bumped (store w)) w"
    unfolding check_schema_present_def by (rule wp_query_reads) (simp add: sql_schema_present_def)
  have two: "wp (table_exists P (pc_table_name ?c)) (\<lambda>r w'. r = Inr True \<longrightarrow> schema_present ?c (store w')) w1"
    if "pc_schema_name ?c \<in> set (db_schemas (store w1))" for w1
    unfolding table_exists_def
    by (rule wp_mono [OF wp_query_reads], simp only: sql_table_present_def Let_def)
      (use that in \<open>auto simp: full_table_name_def schema_present_def\<close>)
  show ?thesis
    unfolding schema_exists_def wp_bindE
    by (rule wp_mono [OF one]) (auto simp: wp_return two split: sum.split)
qed

lemma wp_health_check:
  "wp (perform_health_check acquire P) (\<lambda>r w'. r = Inr () \<longrightarrow> schema_present (ps_config P) (store w') \<and> acquire = None) w"
  unfolding perform_health_check_def wp_bind
  by (rule wp_mono [OF wp_schema_exists]) (auto simp: wp_return split: sum.split bool.split option.split)

lemma wp_try: "wp (try_initialize connect D I) (\<lambda>r w'. \<forall>P. r = Inr P \<longrightarrow> ps_config P = di_config I) w"
proof -
  have "wp (migrate_if_needed P) (\<lambda>r w'. True) w" for P :: "'a postgres_storage"
    by (simp add: wp_run)
  then have m: "wp (bindE (migrate_if_needed P) (\<lambda>_. ret (Inr P))) (\<lambda>r w'. \<forall>P'. r = Inr P' \<longrightarrow> ps_config P' = ps_config P) w"
    for P :: "'a postgres_storage"
    unfolding wp_bindE by (rule wp_mono) (simp add: wp_return split: sum.split)
  have "wp (pg_new connect D (di_config I)) (\<lambda>r w'. \<forall>P. r = Inr P \<longrightarrow> ps_config P = di_config I) w"
    using m [of "\<lparr>ps_config = di_config I, ps_driver = D\<rparr>"]
    by (simp add: pg_new_def Let_def wp_return split: option.split)
  then show ?thesis
    unfolding try_initialize_def wp_bind
  proof (rule wp_mono)
    fix r :: "storage_error + 'a postgres_storage" and w'
    assume "\<forall>P. r = Inr P \<longrightarrow> ps_config P = di_config I"
    then show "wp (ret (map_sum InitStorageError id r)) (\<lambda>r w'. \<forall>P. r = Inr P \<longrightarrow> ps_config P = di_config I) w'"
      by (cases r) (simp_all add: wp_return)
  qed
qed

section \<open>Properties\<close>



text \<open>
  C38. A storage that an initialization with the health check returns can be used: whatever the connection did before,
  its schema and a table of the configured name exist at the end, and a connection could be taken out of the pool.
\<close>

theorem initialize_healthy:
  assumes "di_health_check_enabled I"
  shows "wp (initialize connect acquire D I) (\<lambda>(r, sleeps) w'. \<forall>P. r = Inr P \<longrightarrow>
     ps_config P = di_config I \<and> schema_present (di_config I) (store w') \<and> acquire = None) w"
proof -
  have "wp (init_loop connect acquire D I as l) (\<lambda>(r, sleeps) w'. \<forall>P. r = Inr P \<longrightarrow>
     ps_config P = di_config I \<and> schema_present (di_config I) (store w') \<and> acquire = None) w" for as l
  proof (induction as arbitrary: l w)
    case (Cons a as)
    have good: "wp (perform_health_check acquire P) (\<lambda>h w'. h = Inr () \<longrightarrow>
        ps_config P = di_config I \<and> schema_present (di_config I) (store w') \<and> acquire = None) w1"
      if "ps_config P = di_config I" for P :: "'a postgres_storage" and w1
      using wp_health_check [of acquire P w1] that by simp
    show ?case
      unfolding init_loop.simps wp_bind
    proof (rule wp_mono [OF wp_try], goal_cases)
      case (1 r w1)
      show ?case
      proof (cases r)
        case (Inl e)
        show ?thesis
          unfolding Inl sum.case wp_bind
        proof (rule wp_mono [OF Cons.IH], goal_cases)
          case (1 x w2)
          then show ?case by (cases x) (simp only: prod.case wp_return)
        qed
      next
        case (Inr P)
        with 1 have c: "ps_config P = di_config I" by simp
        show ?thesis
          unfolding Inr sum.case if_P [OF assms] wp_bind
        proof (rule wp_mono [OF good [OF c]])
          fix h :: "database_init_error + unit" and w2
          assume "h = Inr () \<longrightarrow> ps_config P = di_config I \<and> schema_present (di_config I) (store w2) \<and> acquire = None"
          then show "wp (ret (case h of Inl e \<Rightarrow> Inl e | Inr _ \<Rightarrow> Inr P, [])) (\<lambda>(r, sleeps) w'. \<forall>P. r = Inr P \<longrightarrow>
              ps_config P = di_config I \<and> schema_present (di_config I) (store w') \<and> acquire = None) w2"
            by (cases h) (simp_all add: wp_return)
        qed
      qed
    qed
  qed (simp add: wp_simps split: option.split)
  then show ?thesis unfolding initialize_def .
qed

theorem initialize_healthy_witness:
  "(let (r, w') = run_state (initialize (\<lambda>a c. None) None ref_driver (quick_production (\<lambda>v. None) ''postgres://db''))
         (pg_world (installed_database [] []) :: (ref_json database, unit) world)
    in isl (fst r) = False \<and> schema_present (di_config (quick_production (\<lambda>v. None) ''postgres://db'')) (store w'))"
proof -
  let ?I = "quick_production (\<lambda>v. None) ''postgres://db''"
  let ?w = "pg_world (installed_database [] []) :: (ref_json database, unit) world"
  obtain r w' where run: "run_state (initialize (\<lambda>a c. None) None ref_driver ?I) ?w = (r, w')" by (rule prod.exhaust)
  have c: "pc_schema_name (di_config ?I) = ''qml''" "pc_table_name (di_config ?I) = ''qml_jobs''" "\<not> pc_auto_migrate (di_config ?I)"
      "di_retry_attempts ?I = 5" "di_health_check_enabled ?I"
    by (simp_all add: quick_production_def di_with_retry_config_def di_with_pool_config_def di_with_auto_migrate_def
        di_with_database_url_def initializer_new_def postgres_config_default_def with_database_url_def with_auto_migrate_def
        with_max_connections_def with_min_connections_def)
  have "\<exists>P. fst r = Inr P"
    using run by (auto simp: initialize_def c upt_conv_Cons try_initialize_def pg_new_def perform_health_check_def schema_exists_def
        check_schema_present_def table_exists_def query_def run_statement_def sql_schema_present_def sql_table_present_def
        Let_def bumped_def del: upt_Suc)
  with initialize_healthy [OF c(5), of "\<lambda>a c. None" None ref_driver ?w] run show ?thesis
    by (auto simp: wp_run split: prod.splits)
qed

end
