(* ===== verification/Settings.thy ===== *)
theory Settings
  imports Addresses Dashboard_Router
begin

text \<open>
  The settings of an application from its environment, \<^verbatim>\<open>src/storage/settings.rs\<close>. The environment is an argument:
  what \<^verbatim>\<open>env::var\<close> answers for a name, with the text of the error. The two flags say which
  backends the crate is compiled with.
\<close>

section \<open>Parsing\<close>

text \<open>\<^verbatim>\<open>str::parse\<close> at an unsigned integer type: one leading plus is allowed, and digit by digit the first that is no
  digit or no longer fits decides the error.\<close>

fun parse_digits :: "nat \<Rightarrow> nat \<Rightarrow> string \<Rightarrow> string + nat" where
  "parse_digits greatest acc [] = Inr acc"
| "parse_digits greatest acc (c # cs) =
     (case to_digit 10 c of
        None \<Rightarrow> Inl ''invalid digit found in string''
      | Some d \<Rightarrow>
          if greatest < 10 * acc + d then Inl ''number too large to fit in target type''
          else parse_digits greatest (10 * acc + d) cs)"

definition parse_unsigned :: "nat \<Rightarrow> string \<Rightarrow> string + nat" where
  "parse_unsigned greatest s =
     (if s = [] then Inl ''cannot parse integer from empty string''
      else if hd s = CHR ''+'' \<and> tl s \<noteq> [] then parse_digits greatest 0 (tl s)
      else parse_digits greatest 0 s)"

definition parse_bool :: "string \<Rightarrow> string + bool" where
  "parse_bool s =
     (if s = ''true'' then Inr True else if s = ''false'' then Inr False
      else Inl (''provided string was not `true` or `false`''))"

section \<open>Settings\<close>

record settings =
  se_database_url :: "string option"
  se_redis_url :: "string option"
  se_dashboard_port :: u16
  se_dashboard_host :: string
  se_max_workers :: u32
  se_max_connections :: u32
  se_log_level :: string
  se_auto_migrate :: bool
  se_require_ssl :: bool

type_synonym environment = "string \<Rightarrow> string + string"

definition unwrap_or :: "string \<Rightarrow> string + string \<Rightarrow> string" where
  "unwrap_or fallback v = (case v of Inl _ \<Rightarrow> fallback | Inr s \<Rightarrow> s)"

definition required :: "bool \<Rightarrow> environment \<Rightarrow> string \<Rightarrow> string + string option" where
  "required enabled env name =
     (if enabled then
        (case env name of Inl e \<Rightarrow> Inl (name @ '' must be set: '' @ e) | Inr v \<Rightarrow> Inr (Some v))
      else Inr None)"

definition parsed :: "(string \<Rightarrow> string + 'a) \<Rightarrow> environment \<Rightarrow> string \<Rightarrow> string \<Rightarrow> string + 'a" where
  "parsed parse env name fallback =
     (case parse (unwrap_or fallback (env name)) of
        Inl e \<Rightarrow> Inl (''Invalid '' @ name @ '': '' @ e) | Inr v \<Rightarrow> Inr v)"

definition from_env :: "bool \<Rightarrow> bool \<Rightarrow> environment \<Rightarrow> string + settings" where
  "from_env postgres redis env =
     tryE (required postgres env ''DATABASE_URL'') (\<lambda>database_url.
     tryE (required redis env ''REDIS_URL'') (\<lambda>redis_url.
     tryE (parsed (parse_unsigned 65535) env ''QML_DASHBOARD_PORT'' ''8080'') (\<lambda>dashboard_port.
     tryE (parsed (parse_unsigned 4294967295) env ''QML_MAX_WORKERS'' ''10'') (\<lambda>max_workers.
     tryE (parsed (parse_unsigned 4294967295) env ''QML_MAX_CONNECTIONS'' ''20'') (\<lambda>max_connections.
     tryE (parsed parse_bool env ''QML_AUTO_MIGRATE'' ''true'') (\<lambda>auto_migrate.
     tryE (parsed parse_bool env ''QML_REQUIRE_SSL'' ''false'') (\<lambda>require_ssl.
       Inr \<lparr>se_database_url = database_url, se_redis_url = redis_url,
            se_dashboard_port = of_nat dashboard_port,
            se_dashboard_host = unwrap_or ''127.0.0.1'' (env ''QML_DASHBOARD_HOST''),
            se_max_workers = of_nat max_workers, se_max_connections = of_nat max_connections,
            se_log_level = unwrap_or ''info'' (env ''QML_LOG_LEVEL''),
            se_auto_migrate = auto_migrate, se_require_ssl = require_ssl\<rparr>)))))))"

section \<open>Library facts\<close>

lemma digit_char: "d < 10 \<Longrightarrow> to_digit 10 (char_of (48 + d)) = Some d" for d :: nat
  using of_char_digit [of d] by (simp add: to_digit_def)

lemma parse_digits_append:
  "parse_digits g a s = Inr b \<Longrightarrow> parse_digits g a (s @ t) = parse_digits g b t"
  by (induction g a s rule: parse_digits.induct) (auto split: option.splits if_splits)

lemma parse_digits_show: "n \<le> g \<Longrightarrow> parse_digits g 0 (show_nat n) = Inr n"
proof (induction n rule: show_nat.induct)
  case (1 n)
  show ?case
  proof (cases "n < 10")
    case True
    with 1 show ?thesis by (simp add: show_nat.simps [of n] digit_char)
  next
    case False
    have "parse_digits g 0 (show_nat (n div 10)) = Inr (n div 10)"
      using 1 False div_le_dividend [of n 10] by (intro "1.IH") simp_all
    from parse_digits_append [OF this] False 1(2) show ?thesis
      by (simp add: show_nat.simps [of n] digit_char)
  qed
qed

lemma parse_digits_bound: "parse_digits g a s = Inr b \<Longrightarrow> a \<le> g \<Longrightarrow> b \<le> g"
  by (induction g a s rule: parse_digits.induct) (auto split: option.splits if_splits)

lemma digit_no_plus: "(char_of (48 + d) :: char) \<noteq> CHR ''+''" if "d < 10" for d :: nat
proof
  assume "(char_of (48 + d) :: char) = CHR ''+''"
  then have "(of_char (char_of (48 + d) :: char) :: nat) = 43" by simp
  with of_char_digit [OF that] show False by simp
qed

lemma show_nat_cons: "\<exists>c cs. show_nat n = c # cs \<and> c \<noteq> CHR ''+''"
proof (induction n rule: show_nat.induct)
  case (1 n)
  then show ?case using digit_no_plus [of n] by (cases "n < 10") (auto simp: show_nat.simps [of n])
qed

lemma parse_unsigned_show: "n \<le> g \<Longrightarrow> parse_unsigned g (show_nat n) = Inr n"
  using show_nat_cons [of n] parse_digits_show [of n g] by (auto simp: parse_unsigned_def)

lemma parse_unsigned_bound: "parse_unsigned g s = Inr n \<Longrightarrow> n \<le> g"
  by (auto simp: parse_unsigned_def parse_digits_bound split: if_splits)

definition show_bool :: "bool \<Rightarrow> string" where
  "show_bool b = (if b then ''true'' else ''false'')"

lemma parse_show_bool [simp]: "parse_bool (show_bool b) = Inr b"
  by (simp add: parse_bool_def show_bool_def)

section \<open>Properties\<close>

text \<open>The environment that holds given settings.\<close>

definition environment_of :: "settings \<Rightarrow> environment" where
  "environment_of S name =
     (let opt = (\<lambda>v. case v of None \<Rightarrow> Inl ''environment variable not found'' | Some s \<Rightarrow> Inr s) in
      if name = ''DATABASE_URL'' then opt (se_database_url S)
      else if name = ''REDIS_URL'' then opt (se_redis_url S)
      else if name = ''QML_DASHBOARD_PORT'' then Inr (show_nat (unat (se_dashboard_port S)))
      else if name = ''QML_DASHBOARD_HOST'' then Inr (se_dashboard_host S)
      else if name = ''QML_MAX_WORKERS'' then Inr (show_nat (unat (se_max_workers S)))
      else if name = ''QML_MAX_CONNECTIONS'' then Inr (show_nat (unat (se_max_connections S)))
      else if name = ''QML_LOG_LEVEL'' then Inr (se_log_level S)
      else if name = ''QML_AUTO_MIGRATE'' then Inr (show_bool (se_auto_migrate S))
      else if name = ''QML_REQUIRE_SSL'' then Inr (show_bool (se_require_ssl S))
      else Inl ''environment variable not found'')"

text \<open>
  C39. Settings written to the environment are read back, whatever they are: ports and limits through their decimal
  digits up to the greatest of their type, flags, host and log level, and the URLs of the backends the
  crate is compiled with. Reading needs those URLs, and a URL of a backend that is not compiled in is not read.
\<close>

theorem settings_roundtrip:
  "from_env postgres redis (environment_of S) =
     (if postgres \<and> se_database_url S = None then Inl ''DATABASE_URL must be set: environment variable not found''
      else if redis \<and> se_redis_url S = None then Inl ''REDIS_URL must be set: environment variable not found''
      else Inr (S\<lparr>se_database_url := (if postgres then se_database_url S else None),
                 se_redis_url := (if redis then se_redis_url S else None)\<rparr>))"
proof -
  have "unat (se_dashboard_port S) \<le> 65535" using unat_word_bound [of "se_dashboard_port S"] by simp
  moreover have "unat (se_max_workers S) \<le> 4294967295" "unat (se_max_connections S) \<le> 4294967295"
    using unat_word_bound [of "se_max_workers S"] unat_word_bound [of "se_max_connections S"] by simp_all
  ultimately show ?thesis
    by (simp add: from_env_def parsed_def required_def environment_of_def unwrap_or_def parse_unsigned_show tryE_def
        split: option.split)
qed

text \<open>
  What settings can be: with nothing in the environment but the URLs they are the defaults, and the dashboard's
  host and port those of its own default configuration; and a port or limit that is read is the number that the
  variable spells, never one reduced to the width of its type.
\<close>

theorem settings_defaults_and_bounds:
  "from_env False False (\<lambda>name. Inl e) =
     Inr \<lparr>se_database_url = None, se_redis_url = None, se_dashboard_port = dc_port dashboard_config_default,
          se_dashboard_host = dc_host dashboard_config_default, se_max_workers = 10, se_max_connections = 20,
          se_log_level = ''info'', se_auto_migrate = True, se_require_ssl = False\<rparr>
   \<and> (\<forall>S. from_env postgres redis env = Inr S \<longrightarrow>
        parse_unsigned 65535 (unwrap_or ''8080'' (env ''QML_DASHBOARD_PORT'')) = Inr (unat (se_dashboard_port S))
      \<and> parse_unsigned 4294967295 (unwrap_or ''10'' (env ''QML_MAX_WORKERS'')) = Inr (unat (se_max_workers S))
      \<and> parse_unsigned 4294967295 (unwrap_or ''20'' (env ''QML_MAX_CONNECTIONS'')) = Inr (unat (se_max_connections S)))"
proof (intro conjI allI impI)
  show "from_env False False (\<lambda>name. Inl e) =
     Inr \<lparr>se_database_url = None, se_redis_url = None, se_dashboard_port = dc_port dashboard_config_default,
          se_dashboard_host = dc_host dashboard_config_default, se_max_workers = 10, se_max_connections = 20,
          se_log_level = ''info'', se_auto_migrate = True, se_require_ssl = False\<rparr>"
    by (simp add: from_env_def parsed_def required_def unwrap_or_def parse_unsigned_def to_digit_def parse_bool_def
        dashboard_config_default_def)
next
  fix S assume "from_env postgres redis env = Inr S"
  then obtain p m n where p: "parse_unsigned 65535 (unwrap_or ''8080'' (env ''QML_DASHBOARD_PORT'')) = Inr p"
      and m: "parse_unsigned 4294967295 (unwrap_or ''10'' (env ''QML_MAX_WORKERS'')) = Inr m"
      and n: "parse_unsigned 4294967295 (unwrap_or ''20'' (env ''QML_MAX_CONNECTIONS'')) = Inr n"
      and S: "se_dashboard_port S = of_nat p" "se_max_workers S = of_nat m" "se_max_connections S = of_nat n"
    by (auto simp: from_env_def tryE_def parsed_def split: sum.splits)
  from parse_unsigned_bound [OF p] parse_unsigned_bound [OF m] parse_unsigned_bound [OF n]
  have "unat (of_nat p :: u16) = p" "unat (of_nat m :: u32) = m" "unat (of_nat n :: u32) = n"
    by (simp_all add: unat_of_nat)
  with p m n S show "parse_unsigned 65535 (unwrap_or ''8080'' (env ''QML_DASHBOARD_PORT'')) = Inr (unat (se_dashboard_port S))"
    "parse_unsigned 4294967295 (unwrap_or ''10'' (env ''QML_MAX_WORKERS'')) = Inr (unat (se_max_workers S))"
    "parse_unsigned 4294967295 (unwrap_or ''20'' (env ''QML_MAX_CONNECTIONS'')) = Inr (unat (se_max_connections S))"
    by simp_all
qed

end
