(* ===== verification/Storage_Factory.thy ===== *)
theory Storage_Factory
  imports Memory_Contract Redis_Reference Pg_Reference
begin

text \<open>
  The constructors of \<^verbatim>\<open>StorageInstance\<close> in \<^verbatim>\<open>src/storage/mod.rs\<close>: a storage of whichever backend the configuration
  selects. The three backends work on stores of different types, so the store of the selected storage has
  a part for each, and its methods are those of the backend on its part. The contract of a backend is
  carried over to the whole.
\<close>

section \<open>A backend on a part of a store\<close>

definition part_world :: "('u \<Rightarrow> 's) \<Rightarrow> ('u, 'e) world \<Rightarrow> ('s, 'e) world" where
  "part_world get w =
     \<lparr>store = get (store w), clock = clock w, ticks = ticks w, uuids = uuids w, uuid_calls = uuid_calls w,
      rng = rng w, rng_calls = rng_calls w, events = events w\<rparr>"

definition whole_world :: "('s \<Rightarrow> 'u \<Rightarrow> 'u) \<Rightarrow> ('u, 'e) world \<Rightarrow> ('s, 'e) world \<Rightarrow> ('u, 'e) world" where
  "whole_world put w v =
     \<lparr>store = put (store v) (store w), clock = clock v, ticks = ticks v, uuids = uuids v, uuid_calls = uuid_calls v,
      rng = rng v, rng_calls = rng_calls v, events = events v\<rparr>"

definition on_part :: "('u \<Rightarrow> 's) \<Rightarrow> ('s \<Rightarrow> 'u \<Rightarrow> 'u) \<Rightarrow> ('s, 'e, 'a) act \<Rightarrow> ('u, 'e, 'a) act" where
  "on_part get put m = State (\<lambda>w. map_prod id (whole_world put w) (run_state m (part_world get w)))"

definition part_storage ::
  "('u \<Rightarrow> 's) \<Rightarrow> ('s \<Rightarrow> 'u \<Rightarrow> 'u) \<Rightarrow> ('p, 's, 'e) storage \<Rightarrow> ('p, 'u, 'e) storage" where
  "part_storage get put S =
     \<lparr>st_get = (\<lambda>i. on_part get put (st_get S i)),
      st_update = (\<lambda>j. on_part get put (st_update S j)),
      st_update_if_state = (\<lambda>j k. on_part get put (st_update_if_state S j k)),
      st_delete = (\<lambda>i. on_part get put (st_delete S i)),
      st_list = (\<lambda>k n m. on_part get put (st_list S k n m)),
      st_get_job_counts = on_part get put (st_get_job_counts S),
      st_enqueue = (\<lambda>j. on_part get put (st_enqueue S j)),
      st_get_available_jobs = (\<lambda>n. on_part get put (st_get_available_jobs S n)),
      st_fetch_due_scheduled_jobs = (\<lambda>t n. on_part get put (st_fetch_due_scheduled_jobs S t n)),
      st_fetch_due_retry_jobs = (\<lambda>t n. on_part get put (st_fetch_due_retry_jobs S t n)),
      st_claim_due_scheduled_jobs = (\<lambda>t n. on_part get put (st_claim_due_scheduled_jobs S t n)),
      st_claim_due_retry_jobs = (\<lambda>t n. on_part get put (st_claim_due_retry_jobs S t n)),
      st_delete_expired_jobs = (\<lambda>t. on_part get put (st_delete_expired_jobs S t)),
      st_fetch_and_lock_job = (\<lambda>i q. on_part get put (st_fetch_and_lock_job S i q)),
      st_fetch_available_jobs_atomic = (\<lambda>i n q. on_part get put (st_fetch_available_jobs_atomic S i n q)),
      st_try_acquire_job_lock = (\<lambda>i j n. on_part get put (st_try_acquire_job_lock S i j n)),
      st_release_job_lock = (\<lambda>i j. on_part get put (st_release_job_lock S i j)),
      st_requeue_stranded_jobs = (\<lambda>t. on_part get put (st_requeue_stranded_jobs S t)),
      st_upsert_recurring_job = (\<lambda>r. on_part get put (st_upsert_recurring_job S r)),
      st_remove_recurring_job = (\<lambda>i. on_part get put (st_remove_recurring_job S i)),
      st_list_recurring_jobs = on_part get put (st_list_recurring_jobs S),
      st_fetch_due_recurring_jobs = (\<lambda>t n. on_part get put (st_fetch_due_recurring_jobs S t n)),
      st_register_server = (\<lambda>i. on_part get put (st_register_server S i)),
      st_heartbeat_server = (\<lambda>i t. on_part get put (st_heartbeat_server S i t)),
      st_deregister_server = (\<lambda>i. on_part get put (st_deregister_server S i)),
      st_list_dead_servers = (\<lambda>t. on_part get put (st_list_dead_servers S t)),
      st_reclaim_jobs_from_server = (\<lambda>i. on_part get put (st_reclaim_jobs_from_server S i)),
      st_try_acquire_lock = (\<lambda>r i d. on_part get put (st_try_acquire_lock S r i d)),
      st_release_lock = (\<lambda>r i. on_part get put (st_release_lock S r i)),
      st_cleanup_expired_named_locks = (\<lambda>t. on_part get put (st_cleanup_expired_named_locks S t))\<rparr>"

section \<open>The factory\<close>

record ('p, 'r) stores =
  un_memory :: "'p memory_storage"
  un_redis :: 'r
  un_postgres :: "'p database"

abbreviation put_memory :: "'p memory_storage \<Rightarrow> ('p, 'r) stores \<Rightarrow> ('p, 'r) stores" where
  "put_memory s u \<equiv> u\<lparr>un_memory := s\<rparr>"

abbreviation put_redis :: "'r \<Rightarrow> ('p, 'r) stores \<Rightarrow> ('p, 'r) stores" where
  "put_redis s u \<equiv> u\<lparr>un_redis := s\<rparr>"

abbreviation put_postgres :: "'p database \<Rightarrow> ('p, 'r) stores \<Rightarrow> ('p, 'r) stores" where
  "put_postgres s u \<equiv> u\<lparr>un_postgres := s\<rparr>"

type_synonym ('p, 'r, 'e) instance_act = "(('p, 'r) stores, 'e, storage_error + ('p, ('p, 'r) stores, 'e) storage) act"

definition instance_memory_with_config ::
  "memory_config \<Rightarrow> (('p, 'r) stores, 'e, ('p, ('p, 'r) stores, 'e) storage) act" where
  "instance_memory_with_config c = do {
     u \<leftarrow> get_store;
     put_store (put_memory (mem_with_config c) u);
     ret (part_storage un_memory put_memory memory_storage_api) }"

definition instance_memory :: "(('p, 'r) stores, 'e, ('p, ('p, 'r) stores, 'e) storage) act" where
  "instance_memory = do {
     u \<leftarrow> get_store;
     put_store (put_memory mem_new u);
     ret (part_storage un_memory put_memory memory_storage_api) }"

definition instance_redis ::
  "(string \<Rightarrow> string + 'c) \<Rightarrow> ('c \<Rightarrow> (string + ('v, 'r) redis) option) \<Rightarrow> ('p, 'v, 'o) codec \<Rightarrow> redis_config
     \<Rightarrow> ('p, 'r, 'e) instance_act" where
  "instance_redis open_client connect codec c =
     ret (tryE (rs_with_config open_client connect codec c) (\<lambda>R.
       Inr (part_storage un_redis put_redis (redis_storage_api R))))"

definition instance_postgres ::
  "(postgres_config \<Rightarrow> string option) \<Rightarrow> 'p pg_driver \<Rightarrow> postgres_config \<Rightarrow> ('p, 'r, 'e) instance_act" where
  "instance_postgres connect D c =
     bindE (on_part un_postgres put_postgres (pg_new connect D c)) (\<lambda>P.
       ret (Inr (part_storage un_postgres put_postgres (postgres_storage_api P))))"

definition instance_from_config ::
  "(string \<Rightarrow> string + 'c) \<Rightarrow> ('c \<Rightarrow> (string + ('v, 'r) redis) option) \<Rightarrow> ('p, 'v, 'o) codec
     \<Rightarrow> (postgres_config \<Rightarrow> string option) \<Rightarrow> 'p pg_driver \<Rightarrow> storage_config \<Rightarrow> ('p, 'r, 'e) instance_act" where
  "instance_from_config open_client connect codec pg_connect D c =
     (case c of
        Memory m \<Rightarrow> do { S \<leftarrow> instance_memory_with_config m; ret (Inr S) }
      | Redis r \<Rightarrow> instance_redis open_client connect codec r
      | Postgres p \<Rightarrow> instance_postgres pg_connect D p)"

section \<open>The contract of a part is a contract of the whole\<close>

lemma wp_on_part: "wp (on_part get put m) Q w = wp m (\<lambda>a v. Q a (whole_world put w v)) (part_world get w)"
  by (simp add: on_part_def wp_run)

lemma env_whole: "env_kept w (whole_world put w v) \<longleftrightarrow> env_kept (part_world get w) v"
  by (simp add: env_kept_def part_world_def whole_world_def)

lemma store_part [simp]: "store (part_world get w) = get (store w)"
  by (simp add: part_world_def)

lemma store_whole [simp]: "store (whole_world put w v) = put (store v) (store w)"
  by (simp add: whole_world_def)

lemma part_methods:
  "st_get (part_storage get put S) i = on_part get put (st_get S i)"
  "st_update (part_storage get put S) j = on_part get put (st_update S j)"
  "st_update_if_state (part_storage get put S) j k = on_part get put (st_update_if_state S j k)"
  "st_delete (part_storage get put S) i = on_part get put (st_delete S i)"
  "st_enqueue (part_storage get put S) j = on_part get put (st_enqueue S j)"
  "st_claim_due_scheduled_jobs (part_storage get put S) t n = on_part get put (st_claim_due_scheduled_jobs S t n)"
  "st_claim_due_retry_jobs (part_storage get put S) t n = on_part get put (st_claim_due_retry_jobs S t n)"
  "st_fetch_and_lock_job (part_storage get put S) i q = on_part get put (st_fetch_and_lock_job S i q)"
  "st_delete_expired_jobs (part_storage get put S) t = on_part get put (st_delete_expired_jobs S t)"
  "st_requeue_stranded_jobs (part_storage get put S) t = on_part get put (st_requeue_stranded_jobs S t)"
  "st_reclaim_jobs_from_server (part_storage get put S) i = on_part get put (st_reclaim_jobs_from_server S i)"
  by (simp_all add: part_storage_def)

lemmas part_simps = part_methods wp_on_part store_part store_whole

lemma part_updates:
  fixes S :: "('p, 's, 'e) storage" and ok :: "'s \<Rightarrow> bool"
  assumes part: "\<And>s u. get (put s u) = s" and S: "job_updates S jobs_of ok kept known"
  shows "job_updates (part_storage get put S) (\<lambda>u. jobs_of (get u)) (\<lambda>u. ok (get u)) kept known"
  using job_updates.stored_known [OF S]
  by (intro job_updates.intro)
    (simp_all only: part_simps part env_whole [of _ put _ get]
      job_updates.replace_law [OF S, of "part_world get _", unfolded store_part])

lemma part_access:
  fixes S :: "('p, 's, 'e) storage" and ok :: "'s \<Rightarrow> bool"
  assumes part: "\<And>s u. get (put s u) = s" and S: "job_access S jobs_of ok"
  shows "job_access (part_storage get put S) (\<lambda>u. jobs_of (get u)) (\<lambda>u. ok (get u))"
  by (intro job_access.intro)
    (simp_all only: part_simps part env_whole [of _ put _ get] job_access.keyed_jobs [OF S]
      job_access.get_law [OF S, of "part_world get _", unfolded store_part]
      job_access.update_law [OF S, of "part_world get _", unfolded store_part]
      job_access.update_if_state_law [OF S, of "part_world get _", unfolded store_part]
      job_access.delete_law [OF S, of "part_world get _", unfolded store_part])

lemma part_job_storage:
  fixes S :: "('p, 's, 'e) storage" and ok :: "'s \<Rightarrow> bool"
  assumes part: "\<And>s u. get (put s u) = s" and S: "job_storage S jobs_of ok"
  shows "job_storage (part_storage get put S) (\<lambda>u. jobs_of (get u)) (\<lambda>u. ok (get u))"
proof -
  have "job_access S jobs_of ok" using S by (simp add: job_storage_def)
  from part_access [where get = get and put = put, OF part this] show ?thesis
    by (intro job_storage.intro job_storage_axioms.intro)
      (simp_all only: part_simps part env_whole [of _ put _ get]
        job_storage.enqueue_law [OF S, of "part_world get _", unfolded store_part]
        job_storage.claim_scheduled_law [OF S, of "part_world get _", unfolded store_part]
        job_storage.claim_retry_law [OF S, of "part_world get _", unfolded store_part]
        job_storage.fetch_law [OF S, of "part_world get _", unfolded store_part]
        job_storage.delete_expired_law [OF S, of "part_world get _", unfolded store_part]
        job_storage.requeue_stranded_law [OF S, of "part_world get _", unfolded store_part]
        job_storage.reclaim_law [OF S, of "part_world get _", unfolded store_part])
qed

context redis_live
begin

lemmas is_job_access = access.job_access_axioms

end

context pg_laws
begin

lemmas is_job_updates = updates.job_updates_axioms

end

section \<open>What the factory returns\<close>

definition serves_memory :: "('p, ('p, 'r) stores, 'e) storage \<Rightarrow> bool" where
  "serves_memory S \<longleftrightarrow> job_storage S (\<lambda>u. mem_jobs (un_memory u)) (\<lambda>u. mem_inv (un_memory u))"

definition serves_redis :: "('p, ('p, 'r) stores, 'e) storage \<Rightarrow> ('p, 'v, 'o, 'r) redis_storage \<Rightarrow> bool" where
  "serves_redis S R \<longleftrightarrow>
     (\<forall>ks doc clean. redis_live R ks doc clean \<longrightarrow>
        job_access S (\<lambda>u. redis_jobs R (ks (un_redis u))) (\<lambda>u. consistent doc R (ks (un_redis u))))"

definition serves_postgres :: "('p, ('p, 'r) stores, 'e) storage \<Rightarrow> 'p postgres_storage \<Rightarrow> bool" where
  "serves_postgres S P \<longleftrightarrow>
     (\<forall>read_time. pg_laws P read_time \<longrightarrow>
        job_updates S (\<lambda>u. pg_jobs P (un_postgres u)) (\<lambda>u. pg_inv P (un_postgres u) \<and> reliable (un_postgres u))
          (pg_kept P) (canonical P))"

lemma memory_serves: "serves_memory (part_storage un_memory put_memory memory_storage_api)"
  unfolding serves_memory_def
  by (rule part_job_storage [OF _ mem.job_storage_axioms]) simp

lemma redis_serves: "serves_redis (part_storage un_redis put_redis (redis_storage_api R)) R"
  unfolding serves_redis_def
  by (auto intro: part_access [where jobs_of = "\<lambda>r. redis_jobs R (_ r)", OF _ redis_live.is_job_access])

lemma postgres_serves: "serves_postgres (part_storage un_postgres put_postgres (postgres_storage_api P)) P"
  unfolding serves_postgres_def
  by (intro allI impI part_updates [where ok = "\<lambda>d. pg_inv P d \<and> reliable d", OF _ pg_laws.is_job_updates]) simp

lemma run_on_part:
  "run_state (on_part get put m) w = map_prod id (whole_world put w) (run_state m (part_world get w))"
  by (simp add: on_part_def)

lemma run_pg_new: "run_state (pg_new connect D c) w = (Inr P, w') \<Longrightarrow> P = \<lparr>ps_config = c, ps_driver = D\<rparr>"
  by (auto simp: pg_new_def Let_def bindE_def run_state_bind split: option.splits if_splits sum.splits prod.splits)

text \<open>
  C40. A storage that \<^verbatim>\<open>StorageInstance::from_config\<close> returns is the backend that the configuration names, with its
  contract: for \<^verbatim>\<open>Memory\<close> an empty storage whose job operations satisfy all the laws of a storage, for \<^verbatim>\<open>Redis\<close> the
  storage of the given URL, which satisfies the laws of access on a live server, for \<^verbatim>\<open>Postgres\<close> one over the given
  configuration, which satisfies the law of updates. The stores of the other backends are untouched.
\<close>

theorem configured_backend:
  assumes "run_state (instance_from_config open_client connect codec pg_connect D c) w = (Inr S, w')"
  shows "case c of
      Memory m \<Rightarrow>
        store w' = put_memory (mem_with_config m) (store w) \<and> mem_inv (un_memory (store w'))
        \<and> mem_jobs (un_memory (store w')) = (\<lambda>_. None) \<and> serves_memory S
    | Redis r \<Rightarrow>
        w' = w \<and> (\<exists>R. rs_with_config open_client connect codec r = Inr R \<and> serves_redis S R)
    | Postgres p \<Rightarrow>
        un_memory (store w') = un_memory (store w) \<and> un_redis (store w') = un_redis (store w)
        \<and> serves_postgres S \<lparr>ps_config = p, ps_driver = D\<rparr>"
proof (cases c)
  case (Memory m)
  with assms show ?thesis
    by (auto simp: instance_from_config_def instance_memory_with_config_def memory_serves mem_inv_new)
      (simp add: mem_jobs_def mem_with_config_def fun_eq_iff)
next
  case (Redis r)
  with assms show ?thesis
    by (auto simp: instance_from_config_def instance_redis_def tryE_def redis_serves split: sum.splits)
next
  case (Postgres p)
  obtain r v where new: "run_state (pg_new pg_connect D p) (part_world un_postgres w) = (r, v)" by fastforce
  with Postgres assms show ?thesis
    by (auto simp: instance_from_config_def instance_postgres_def run_on_part postgres_serves
        split: sum.splits dest!: run_pg_new)
qed

definition sample_stores :: "(ref_json, ref_json blob ref_server) stores" where
  "sample_stores = \<lparr>un_memory = mem_new, un_redis = sample_server [], un_postgres = fresh_database []\<rparr>"

definition sample_instance :: "storage_config \<Rightarrow> (ref_json, ref_json blob ref_server, unit) instance_act" where
  "sample_instance = instance_from_config Inr (\<lambda>url. Some (Inr steady_redis)) ref_codec (\<lambda>_. None) ref_driver"

lemma sample_instance_runs:
  "run_state (sample_instance (Memory m)) w =
     (Inr (part_storage un_memory put_memory memory_storage_api), w\<lparr>store := put_memory (mem_with_config m) (store w)\<rparr>)"
  "run_state (sample_instance (Redis r)) w =
     (Inr (part_storage un_redis put_redis (redis_storage_api (steady_storage r))), w)"
  "fst (run_state (sample_instance (Postgres (with_auto_migrate False p))) w) =
     Inr (part_storage un_postgres put_postgres (postgres_storage_api (ref_pg (with_auto_migrate False p))))"
  by (simp_all add: sample_instance_def instance_from_config_def instance_memory_with_config_def instance_redis_def
      instance_postgres_def rs_with_config_def steady_storage_def run_on_part pg_new_def with_auto_migrate_def ref_pg_def)

lemma configured_backend_witness:
  "(\<exists>S w'. run_state (sample_instance (Memory memory_config_default)) (redis_world sample_stores) = (Inr S, w')
        \<and> mem_jobs (un_memory (store w')) = (\<lambda>_. None) \<and> serves_memory S)
   \<and> (\<exists>S. run_state (sample_instance (Redis sample_redis_config)) (redis_world sample_stores) = (Inr S, redis_world sample_stores)
        \<and> job_access S (\<lambda>u. redis_jobs (steady_storage sample_redis_config) (ref_ks (un_redis u)))
             (\<lambda>u. consistent ref_doc (steady_storage sample_redis_config) (ref_ks (un_redis u))))
   \<and> (\<exists>S w'. run_state (sample_instance (Postgres (with_auto_migrate False postgres_config_with_defaults)))
             (redis_world sample_stores) = (Inr S, w')
        \<and> un_redis (store w') = sample_server []
        \<and> serves_postgres S (ref_pg (with_auto_migrate False postgres_config_with_defaults)))"
proof -
  let ?w = "redis_world sample_stores" and ?p = "with_auto_migrate False postgres_config_with_defaults"
  note run = configured_backend [where open_client = Inr and connect = "\<lambda>url. Some (Inr steady_redis)"
      and codec = ref_codec and pg_connect = "\<lambda>_. None" and D = ref_driver and w = ?w, folded sample_instance_def]
  have memory: "\<exists>S w'. run_state (sample_instance (Memory memory_config_default)) ?w = (Inr S, w')
      \<and> mem_jobs (un_memory (store w')) = (\<lambda>_. None) \<and> serves_memory S"
    using run [OF sample_instance_runs(1) [of memory_config_default]] sample_instance_runs(1) [of memory_config_default ?w]
    by auto
  have redis: "serves_redis (part_storage un_redis put_redis (redis_storage_api (steady_storage sample_redis_config)) ::
      (ref_json, (ref_json, ref_json blob ref_server) stores, unit) storage) (steady_storage sample_redis_config)"
    using run [OF sample_instance_runs(2) [of sample_redis_config]]
    by (auto simp: rs_with_config_def steady_storage_def)
  obtain S w' where pg: "run_state (sample_instance (Postgres ?p)) ?w = (Inr S, w')"
    using sample_instance_runs(3) [of postgres_config_with_defaults ?w] by (cases "run_state (sample_instance (Postgres ?p)) ?w") auto
  from run [OF pg] have "un_redis (store w') = sample_server []" "serves_postgres S (ref_pg ?p)"
    by (simp_all add: sample_stores_def ref_pg_def)
  with memory redis pg sample_instance_runs(2) [of sample_redis_config ?w] show ?thesis
    using steady_backend.redis_live_axioms unfolding serves_redis_def by blast
qed

end
