(* ===== verification/Spec2Isabelle.thy ===== *)
theory Spec2Isabelle
  imports Memory_Props Interleaving Processor_Props Background_Props Server_Props Completion Redis_Props Pg_Props
    Dashboard_Server Job_Metrics Database_Init Settings Storage_Factory
begin

text \<open>
  A verification development for \<^verbatim>\<open>qml-rs\<close>, a background job processor written in Rust (sources under
  \<^verbatim>\<open>src/src/\<close>). Clients enqueue jobs into a storage; the workers of a server fetch, lock and
  execute them and store the outcome; beside the workers run a scheduler, a poller of recurring
  templates, a cleanup worker and a heartbeat worker, all over the same storage; a dashboard reads
  and edits the storage over HTTP.

  \<^bold>\<open>Conventions.\<close> Code is translated into functions over a \<open>world\<close> (theory \<open>Qml_Prelude\<close>): the storage,
  the answers that \<^verbatim>\<open>Utc::now\<close>, \<^verbatim>\<open>Uuid::new_v4\<close> and \<^verbatim>\<open>fastrand::f64\<close> will give (arbitrary functions of the
  number of the call), and the calls of the state-change hook so far. An action is a state monad over
  it, in the order in which the source performs its effects, and is reasoned about with weakest
  preconditions (\<open>wp\<close>). A \<^verbatim>\<open>Result\<close> is a sum with the error on the left; a panic is \<open>None\<close> or \<open>Panicked\<close>.
  Times and \<^verbatim>\<open>chrono\<close> durations are integers of nanoseconds, \<^verbatim>\<open>u32\<close>, \<^verbatim>\<open>i32\<close> and \<^verbatim>\<open>u64\<close> are words,
  \<^verbatim>\<open>f64\<close> is modelled by rounding to 53 bits (theory \<open>F64\<close>), a \<^verbatim>\<open>HashMap\<close> is an association list
  with distinct keys in its iteration order, and a string is its list of bytes. Payloads are a type
  variable. Logging has no effect and is left out. What is not the crate's own is an argument:
  \<^verbatim>\<open>serde_json\<close>, the \<^verbatim>\<open>cron\<close>, \<^verbatim>\<open>base64\<close>, \<^verbatim>\<open>axum\<close> and \<^verbatim>\<open>prometheus\<close> crates, the timeout of \<^verbatim>\<open>tokio\<close>, environment variables, the user's
  workers and middleware.

  \<^bold>\<open>Theories, and the sources they model.\<close>
  \<^item> \<open>Qml_Errors\<close>: \<^verbatim>\<open>error.rs\<close>, \<^verbatim>\<open>storage/error.rs\<close>.
  \<^item> \<open>Job_State\<close>, \<open>Job\<close>: \<^verbatim>\<open>core/\<close>. States, transition table, jobs, templates, server registrations; the
    life of a job under \<^verbatim>\<open>set_state\<close>.
  \<^item> \<open>Storage_Config\<close>: \<^verbatim>\<open>storage/config.rs\<close>.
  \<^item> \<open>Storage_Api\<close>: the traits of \<^verbatim>\<open>storage/mod.rs\<close> as records of methods, the predicates of their contract on
    an abstract table of jobs, and the laws a backend promises in three locales: \<open>job_updates\<close>, which is what the
    processor relies on, for a backend that may keep less of a job than it is given; \<open>job_access\<close> for single jobs
    that are kept whole; and \<open>job_storage\<close>, which adds the fetch, the claims and the sweeps.
  \<^item> \<open>Memory_Storage\<close>: every method of \<^verbatim>\<open>storage/memory.rs\<close>. \<open>Memory_Contract\<close>: its representation
    invariant \<open>mem_inv\<close> and the interpretation \<open>mem\<close> of \<open>job_storage\<close>. \<open>Memory_Props\<close>: fetch order,
    claims, paging, counting, capacity, named locks, templates.
  \<^item> \<open>Interleaving\<close>: the critical sections of that backend as a step relation; its invariant over all runs,
    mutual exclusion of workers, and what the job locks mean for retries.
  \<^item> \<open>Redis_Server\<close>: the commands of a Redis server that the backend sends, on a keyspace of strings, sets, sorted
    sets and hashes, and as the locale \<open>redis_server\<close> what each does; a connection is a link that delivers a
    request, drops it or breaks after it. \<open>Redis_Codec\<close>: the JSON documents and time texts, as the laws of
    \<^verbatim>\<open>serde_json\<close>, \<^verbatim>\<open>cjson\<close> and \<^verbatim>\<open>chrono\<close> that the scripts rely on.
  \<^item> \<open>Redis_Storage\<close>: every method of \<^verbatim>\<open>storage/redis.rs\<close>; a Lua script is a program of the commands it sends and
    is run by the server in one step. \<open>Redis_Indices\<close>: what it means that indices and documents are \<open>consistent\<close>.
    \<open>Redis_Scripts\<close>: what each script does to a consistent keyspace. \<open>Redis_Contract\<close>: the backend satisfies
    \<open>job_access\<close>. \<open>Redis_Ops\<close>: the other methods, and all of them on a connection that may fail.
    \<open>Redis_Invariant\<close>: the invariant of all reachable states. \<open>Redis_Reference\<close>: a server, a connection and a codec
    that have all these laws, as interpretations. \<open>Redis_Props\<close>: the properties.
  \<^item> \<open>Pg_Database\<close>: the tables of \<^verbatim>\<open>install.sql\<close> and how a statement is executed: as a whole or not at all, on a
    connection that may refuse it or lose its answer. \<open>Pg_Storage\<close>: every statement and every method of
    \<^verbatim>\<open>storage/postgres.rs\<close>, over a record \<open>pg_driver\<close> of what \<^verbatim>\<open>sqlx\<close>, \<^verbatim>\<open>serde_json\<close>, \<^verbatim>\<open>uuid\<close> and the server's
    conversions do. \<open>Pg_Contract\<close>: the locale \<open>pg_laws\<close> of their documented behaviour, the table of jobs that the rows
    denote, and what one request does to it (\<open>effect\<close>); when no answer is lost the backend satisfies
    \<open>job_updates\<close>. \<open>Pg_Ops\<close>: the other methods. \<open>Pg_Reference\<close>: a driver with these laws. \<open>Pg_Props\<close>: the properties.
  \<^item> \<open>Storage_Factory\<close>: the constructors \<^verbatim>\<open>StorageInstance\<close> of \<^verbatim>\<open>storage/mod.rs\<close>. A store has a part for each backend
    there, and the contract of a backend on its part is its contract on the whole.
  \<^item> \<open>F64\<close>, \<open>Retry\<close>: \<^verbatim>\<open>processing/retry.rs\<close> with the floating-point arithmetic of the delays.
  \<^item> \<open>Worker\<close>: \<^verbatim>\<open>processing/worker.rs\<close>, \<^verbatim>\<open>processing/mod.rs\<close>, \<^verbatim>\<open>processing/middleware.rs\<close>.
  \<^item> \<open>Processor\<close>: \<^verbatim>\<open>processing/processor.rs\<close>. \<open>Processor_Contract\<close>: the abstract verdict \<open>decide\<close> and, inside
    \<open>job_updates\<close>, the proof that the handlers implement it for every backend with that contract.
    \<open>Processor_Props\<close>: the consequences on the in-memory backend.
  \<^item> \<open>Background\<close>: \<^verbatim>\<open>processing/scheduler.rs\<close>, \<^verbatim>\<open>recurring.rs\<close>, \<^verbatim>\<open>cleanup.rs\<close>, \<^verbatim>\<open>heartbeat.rs\<close>.
    \<open>Background_Props\<close>: what a tick of each does; the locale \<open>cluster_storage\<close> extends the storage
    contract by server registrations.
  \<^item> \<open>Server\<close>, \<open>Server_Props\<close>: \<^verbatim>\<open>processing/server.rs\<close>: start, stop with its grace period, the worker loop, shutdown.
  \<^item> \<open>Completion\<close>: the locale \<open>reliable_storage\<close> of backends that never refuse an update of a job they
    hold, in which processing always ends with the verdict stored.
  \<^item> \<open>Dashboard\<close>, \<open>Dashboard_Auth\<close>: \<^verbatim>\<open>dashboard/service.rs\<close>, the handlers of \<^verbatim>\<open>routes.rs\<close>, the guards of \<^verbatim>\<open>auth.rs\<close>.
  \<^item> \<open>Addresses\<close>: the loopback test of \<^verbatim>\<open>auth.rs\<close>, with the parser of addresses of the standard library: what the test
    accepts is a loopback address wherever it parses as one.
  \<^item> \<open>Dashboard_Router\<close>: the routers of \<^verbatim>\<open>routes.rs\<close> and \<^verbatim>\<open>dashboard/server.rs\<close> as a term of the calls on \<^verbatim>\<open>axum\<close>, whose
    documented dispatch and layering is the locale \<open>axum\<close>; which request reaches which endpoint through which guards.
    \<open>Dashboard_Server\<close>: what an endpoint does, the run of the server, the periodic updates and a client of the web
    socket (\<^verbatim>\<open>dashboard/server.rs\<close>, \<^verbatim>\<open>websocket.rs\<close>).
  \<^item> \<open>Job_Metrics\<close>: \<^verbatim>\<open>processing/metrics.rs\<close>, over the locale \<open>metric_families\<close> of what counters, gauges and
    histograms do. \<open>Database_Init\<close>: \<^verbatim>\<open>storage/database_init.rs\<close>. \<open>Settings\<close>: \<^verbatim>\<open>storage/settings.rs\<close>.
  \<^item> \<open>Samples\<close>: concrete jobs and tables on which properties are instantiated.
  \<^item> This theory: a job from the queue to its stored result, across storage, worker loop and processor.

  \<^bold>\<open>Bounds.\<close> No definition uses fuel. A service loop is a recursion over the list of what its
  \<^verbatim>\<open>select!\<close> answers (a tick or cancellation): every finite behaviour of a loop is a list, and a loop whose
  list is used up is still \<open>Running\<close>. Rounding to \<^verbatim>\<open>f64\<close> finds the binade of a number
  by halving, which terminates.

  \<^bold>\<open>What the code does that its documentation does not say.\<close> Several theorems record such behaviour: a worker
  is never told the previous exception; a policy that lists retryable exceptions retries none; a
  retry waits for the thirty-minute lock of the failed attempt; peer reclaim recovers nothing on the
  in-memory backend; a job retried from the dashboard keeps its expiry; two concurrent calls of
  \<^verbatim>\<open>enqueue\<close> can exceed the capacity. On Redis a connection lost during \<^verbatim>\<open>enqueue\<close> leaves a job that no fetch
  finds; the youngest job is fetched first, whatever the difference of priorities; a template fires at most once a
  minute; and job locks share their keys with named locks. On PostgreSQL a fetch takes a retry before its time and a
  job that another worker has locked, a time-out that does not fit 32 bits comes back as another, and the
  automatic migration serves the schema \<^verbatim>\<open>qml\<close> only. A dashboard on \<^verbatim>\<open>localhost\<close> or \<^verbatim>\<open>::1\<close> never starts, and one whose
  address is taken leaves its periodic task behind; its guard asks for credentials before the origin is checked; and
  an execution that times out leaves the gauge of active workers one too high.

  \<^bold>\<open>Not modelled.\<close> The HTML page of the dashboard and the fan-out of the broadcast channel to the web
  sockets. The cancellation token inside a worker's context and the
  timing of \<^verbatim>\<open>tokio\<close>'s timers are not represented; nor are the limits of \<^verbatim>\<open>chrono\<close>, some 262000 years and 2^63
  milliseconds, at which its arithmetic panics; when a task ends after a cancellation is an argument of the wait for it. Of Redis, the expiry of keys is what the commands see of the clock of
  the server; replication, eviction and the pool of connections are not represented. Of PostgreSQL, the pool, the
  indexes, the column \<^verbatim>\<open>updated_at\<close> and the locks of a statement beyond its end are not represented: statements are
  executed one after the other, and the rows that other transactions hold at a statement are arbitrary.
\<close>

section \<open>From the queue to the result\<close>

text \<open>The job as its worker holds it: claimed at \<open>t\<close>, the attempt counted.\<close>

definition claimed_at :: "('p, 's, 'e) job_processor \<Rightarrow> time \<Rightarrow> 'p job \<Rightarrow> 'p job" where
  "claimed_at P t j = j\<lparr>job_state := Processing t (wcf_worker_id (jp_worker_config P)) ''memory-storage''\<rparr>"

definition counted :: "'p job \<Rightarrow> 'p job" where
  "counted j = j\<lparr>job_attempt := saturating_add (job_attempt j) 1\<rparr>"

lemma claimed_at_simps [simp]:
  "job_id (claimed_at P t j) = job_id j" "job_method (claimed_at P t j) = job_method j"
  "kind (job_state (claimed_at P t j)) = KProcessing"
  by (simp_all add: claimed_at_def)

text \<open>A fetch when only one job is available.\<close>

lemma fetch_the_only_job:
  fixes w :: "('p memory_storage, 'e) world"
  assumes "mem_inv (store w)" and "mem_jobs (store w) (job_id j) = Some j" and "kind (job_state j) = KEnqueued"
    and "queue_ok qs (job_queue j)" and "hm_get (ms_locks (store w)) (job_id j) = None"
    and "\<forall>t i k. mem_jobs (store w) i = Some k \<and> i \<noteq> job_id j \<longrightarrow> \<not> available t (job_state k)"
  shows "wp (mem_fetch_and_lock_job wid qs) (\<lambda>r w'. mem_inv (store w') \<and>
     (\<exists>t. r = Inr (Some (j\<lparr>job_state := Processing t wid ''memory-storage''\<rparr>))
        \<and> mem_jobs (store w') (job_id j) = Some (j\<lparr>job_state := Processing t wid ''memory-storage''\<rparr>))) w"
proof -
  have "hm_get (live_locks t (store w)) (job_id j) = None" for t
    using assms(1,5) by (simp add: live_locks_def hm_get_retain mem_inv_def)
  then have el: "eligible t0 t1 qs (store w) j" for t0 t1
    using assms(2-4) by (auto simp: eligible_def lockable_def kind_iffs)
  have only: "k = j" if "eligible t0 t1 qs (store w) k" for t0 t1 k
  proof -
    from that have k: "mem_jobs (store w) (job_id k) = Some k" "available t1 (job_state k)"
      by (simp_all add: eligible_def)
    with assms(6) have "job_id k = job_id j" by blast
    with k(1) assms(2) show ?thesis by (metis option.inject)
  qed
  have "eligible t0 t1 qs (store w) k \<longleftrightarrow> k = j" for t0 t1 k
    using el only by blast
  then show ?thesis
    by (intro wp_mono [OF mem_fetch_spec [OF assms(1)]]) (auto simp: fun_upd_apply)
qed



end
